(* ===== verification/Relay_Prelude.thy ===== *)
theory Relay_Prelude
  imports Main "HOL-Library.AList" "HOL-Library.Multiset" "HOL-Library.Sublist"
begin

text \<open>
  Shared vocabulary of the development: the fact collections the component proofs draw on, the
  hash-map operations (\<open>DashMap\<close>, \<open>HashMap\<close> and \<open>BTreeMap\<close> are all association lists with
  distinct keys here), string helpers of the Rust standard library that several components use
  (\<open>split\<close>, \<open>join\<close>, \<open>contains\<close>, decimal printing and parsing), and generic lemmas on lists.
\<close>

named_theorems hm_simps "what a lookup returns after an insertion or a removal"
named_theorems op_defs "definitions of the operations of a component, for unfolding"
named_theorems wf_intro "introduction rules of the well-formedness predicates"
named_theorems wf_keep "operations that preserve a well-formedness predicate"
named_theorems frame_simps "fields an operation leaves alone"

section \<open>Maps of the program\<close>

type_synonym ('k, 'v) hmap = "('k \<times> 'v) list"

abbreviation hm_get :: "('k, 'v) hmap \<Rightarrow> 'k \<Rightarrow> 'v option" where
  "hm_get m k \<equiv> map_of m k"

abbreviation hm_insert :: "'k \<Rightarrow> 'v \<Rightarrow> ('k, 'v) hmap \<Rightarrow> ('k, 'v) hmap" where
  "hm_insert k v m \<equiv> AList.update k v m"

abbreviation hm_remove :: "'k \<Rightarrow> ('k, 'v) hmap \<Rightarrow> ('k, 'v) hmap" where
  "hm_remove k m \<equiv> AList.delete k m"

abbreviation hm_keys :: "('k, 'v) hmap \<Rightarrow> 'k list" where
  "hm_keys m \<equiv> map fst m"

definition hm_contains :: "('k, 'v) hmap \<Rightarrow> 'k \<Rightarrow> bool" where
  "hm_contains m k = (hm_get m k \<noteq> None)"

abbreviation hm_wf :: "('k, 'v) hmap \<Rightarrow> bool" where
  "hm_wf m \<equiv> distinct (hm_keys m)"

declare map_of_eq_Some_iff [simp del] Some_eq_map_of_iff [simp del]
  split_paired_All [simp del] split_paired_Ex [simp del]

lemma hm_get_insert [hm_simps]: "hm_get (hm_insert k v m) k' = (if k' = k then Some v else hm_get m k')"
  by (simp add: update_conv')

lemma hm_get_remove [hm_simps]: "hm_get (hm_remove k m) k' = (if k' = k then None else hm_get m k')"
  by (simp add: delete_conv')

lemma hm_wf_insert [wf_keep, intro]: "hm_wf m \<Longrightarrow> hm_wf (hm_insert k v m)"
  by (rule distinct_update)

lemma hm_wf_remove [wf_keep, intro]: "hm_wf m \<Longrightarrow> hm_wf (hm_remove k m)"
  by (rule distinct_delete)

lemma hm_in_set_iff: "hm_wf m \<Longrightarrow> (k, v) \<in> set m \<longleftrightarrow> hm_get m k = Some v"
  by (simp add: map_of_eq_Some_iff)

lemma hm_remove_absent: "hm_get m k = None \<Longrightarrow> hm_remove k m = m"
  by (simp add: map_of_eq_None_iff)

lemma hm_remove_insert_fresh: "hm_get m k = None \<Longrightarrow> hm_remove k (hm_insert k v m) = m"
  by (simp add: delete_update_same hm_remove_absent)

lemma hm_get_in_keys: "hm_get m k = Some v \<Longrightarrow> k \<in> set (hm_keys m)"
  by (metis domI dom_map_of_conv_image_fst set_map)

lemma hm_keys_get: "k \<in> set (hm_keys m) \<longleftrightarrow> (\<exists>v. hm_get m k = Some v)"
  by (metis domD domI dom_map_of_conv_image_fst set_map)

lemma hm_contains_keys: "hm_contains m k \<longleftrightarrow> k \<in> set (hm_keys m)"
  by (auto simp only: hm_contains_def hm_keys_get not_None_eq)

lemma hm_ran_insert: "hm_get m k = None \<Longrightarrow> ran (hm_get (hm_insert k v m)) = insert v (ran (hm_get m))"
  by (simp add: update_conv' ran_map_upd flip: fun_upd_def)

lemma hm_insert_fresh: "hm_get m k = None \<Longrightarrow> hm_insert k v m = m @ [(k, v)]"
  by (induction m) (auto split: if_splits)

lemma hm_remove_filter: "hm_remove k m = List.filter (\<lambda>x. fst x \<noteq> k) m"
  by (induction m) auto

lemma hm_get_filter_key [hm_simps]:
  "hm_get (List.filter (\<lambda>x. P (fst x)) m) k = (if P k then hm_get m k else None)"
  by (induction m) auto

lemma hm_get_filter_val: "hm_wf m \<Longrightarrow> hm_get (List.filter (\<lambda>x. P (snd x)) m) k =
    (case hm_get m k of None \<Rightarrow> None | Some v \<Rightarrow> if P v then Some v else None)"
  by (induction m) (auto split: option.splits simp: map_of_eq_None_iff)

text \<open>A total over all values of a map.\<close>

lemma hm_sum_insert: "hm_get m k = Some old \<Longrightarrow>
    sum_list (map (f \<circ> snd) (hm_insert k v m)) + f old = sum_list (map (f \<circ> snd) m) + (f v :: nat)"
  by (induction m) (auto split: if_splits)

lemma hm_sum_remove: "hm_wf m \<Longrightarrow> hm_get m k = Some old \<Longrightarrow>
    sum_list (map (f \<circ> snd) (hm_remove k m)) + f old = (sum_list (map (f \<circ> snd) m) :: nat)"
  by (induction m) (auto simp: hm_remove_absent map_of_eq_None_iff split: if_splits)

lemma hm_length_insert:
  "length (hm_insert k v m) = (if hm_get m k = None then Suc (length m) else length m)"
  by (induction m) (auto split: if_splits)

lemma hm_length_remove: "hm_wf m \<Longrightarrow> hm_get m k = Some v \<Longrightarrow> Suc (length (hm_remove k m)) = length m"
  using hm_sum_remove [of m k v "\<lambda>_. 1"] by (simp add: comp_def sum_list_triv)

lemma map_of_map_snd: "map_of (map (\<lambda>(k, v). (k, g v)) m) k = map_option g (map_of m k)"
  by (induction m) auto

section \<open>Strings\<close>

text \<open>\<open>str::contains\<close>, \<open>str::starts_with\<close> and \<open>str::ends_with\<close> with a string pattern.\<close>

definition str_starts_with :: "string \<Rightarrow> string \<Rightarrow> bool" where
  "str_starts_with s pat \<longleftrightarrow> take (length pat) s = pat"

definition str_ends_with :: "string \<Rightarrow> string \<Rightarrow> bool" where
  "str_ends_with s pat \<longleftrightarrow> length pat \<le> length s \<and> drop (length s - length pat) s = pat"

definition str_contains :: "string \<Rightarrow> string \<Rightarrow> bool" where
  "str_contains s pat \<longleftrightarrow> list_ex (\<lambda>i. str_starts_with (drop i s) pat) [0..<Suc (length s)]"

lemma str_starts_with_append [simp]: "str_starts_with (pat @ s) pat"
  by (simp add: str_starts_with_def)

lemma str_ends_with_append [simp]: "str_ends_with (s @ pat) pat"
  by (simp add: str_ends_with_def)

lemma str_contains_append: "str_contains (a @ pat @ b) pat"
  by (auto simp: str_contains_def list_ex_iff str_starts_with_def simp del: upt_Suc
      intro!: bexI [of _ "length a"])

section \<open>Results of fallible code\<close>

text \<open>\<open>Result<T, E>\<close> is the sum \<open>'e + 'a\<close> with \<open>Inl\<close> the error.\<close>

definition is_ok :: "'e + 'a \<Rightarrow> bool" where
  "is_ok r = (case r of Inl _ \<Rightarrow> False | Inr _ \<Rightarrow> True)"

lemma is_ok_simps [simp]: "is_ok (Inr x)" "\<not> is_ok (Inl e)"
  by (simp_all add: is_ok_def)

lemma is_ok_iff: "is_ok r \<longleftrightarrow> (\<exists>x. r = Inr x)"
  by (cases r) auto

definition map_err :: "('e \<Rightarrow> 'f) \<Rightarrow> 'e + 'a \<Rightarrow> 'f + 'a" where
  "map_err f r = (case r of Inl e \<Rightarrow> Inl (f e) | Inr x \<Rightarrow> Inr x)"

lemma map_err_simps [simp]: "map_err f (Inl e) = Inl (f e)" "map_err f (Inr x) = Inr x"
  by (simp_all add: map_err_def)

lemma is_ok_map_err [simp]: "is_ok (map_err f r) = is_ok r"
  by (cases r) auto

end
