(* ===== verification/Nostr_Types.thy ===== *)
theory Nostr_Types
  imports Relay_Prelude
begin

text \<open>
  The data the relay exchanges: events, filters, tags, client and relay messages, scopes. These
  types belong to the crates \<open>nostr_sdk\<close> and \<open>nostr_lmdb\<close>, so only what the relay reads of them
  is here. The functions of those crates that the relay calls are the fields of the record
  \<open>nostr_lib\<close>, a parameter of every definition that uses one of them: a theorem holds for
  whatever those functions compute, under the hypotheses it names.

  Identifiers and keys (32-byte arrays, used by equality only), kinds (\<open>u16\<close>), timestamps (\<open>u64\<close>
  seconds) and counts (\<open>usize\<close>) are natural numbers; where arithmetic could wrap, the wrap is
  written out at the place.
\<close>

type_synonym event_id = nat
type_synonym pubkey = nat
type_synonym kind = nat
type_synonym timestamp = nat
type_synonym subscription_id = string
type_synonym connection_id = string
type_synonym single_letter_tag = char
type_synonym channel = nat

datatype tag_kind = TagExpiration | TagProtected | TagOther string

datatype tag_standard =
    StdChallenge string
  | StdRelay string
  | StdProtected
  | StdOther string

text \<open>A \<open>Tag\<close> is what its accessors return: \<open>kind()\<close>, \<open>content()\<close>, \<open>as_slice()\<close> and
  \<open>as_standardized()\<close>.\<close>

record tag =
  tag_kind :: tag_kind
  tag_content :: "string option"
  tag_slice :: "string list"
  tag_standardized :: "tag_standard option"

record event =
  ev_id :: event_id
  ev_pubkey :: pubkey
  ev_created_at :: timestamp
  ev_kind :: kind
  ev_tags :: "tag list"
  ev_content :: string

record unsigned_event =
  ue_pubkey :: pubkey
  ue_created_at :: timestamp
  ue_kind :: kind
  ue_tags :: "tag list"
  ue_content :: string

text \<open>\<open>Filter\<close>: the sets are ordered sets, given by their elements in iteration order;
  \<open>generic_tags\<close> is an ordered map from single-letter tags to sets of values.\<close>

record filter =
  f_ids :: "event_id list option"
  f_authors :: "pubkey list option"
  f_kinds :: "kind list option"
  f_generic_tags :: "(single_letter_tag, string list) hmap"
  f_since :: "timestamp option"
  f_until :: "timestamp option"
  f_limit :: "nat option"

definition filter_new :: filter where
  "filter_new = \<lparr>f_ids = None, f_authors = None, f_kinds = None, f_generic_tags = [],
     f_since = None, f_until = None, f_limit = None\<rparr>"

datatype scope = ScopeDefault | ScopeNamed string

datatype client_message =
    CM_Event event
  | CM_Req subscription_id "filter list"
  | CM_Count subscription_id filter
  | CM_Close subscription_id
  | CM_Auth event
  | CM_NegOpen subscription_id filter "nat option" string
  | CM_NegMsg subscription_id string
  | CM_NegClose subscription_id

datatype relay_message =
    RM_Event subscription_id event
  | RM_Ok event_id bool string
  | RM_Eose subscription_id
  | RM_Notice string
  | RM_Closed subscription_id string
  | RM_Auth string
  | RM_NegMsg subscription_id string
  | RM_NegErr subscription_id string

text \<open>What a bounded outbound channel carries: the message, the position of the middleware that
  sent it, and optionally the message already serialized. The outbox is the log of all
  successful sends of the whole relay, in order, each with its channel.\<close>

type_synonym outbound = "relay_message \<times> nat \<times> string option"
type_synonym outbox = "(channel \<times> outbound) list"

datatype send_outcome = Sent | ChannelFull | ChannelDisconnected

record nostr_lib =
  match_event :: "filter \<Rightarrow> event \<Rightarrow> bool"
  event_verify :: "event \<Rightarrow> string + unit"
  event_as_json :: "event \<Rightarrow> string"
  from_json :: "string \<Rightarrow> string + client_message"
  slt_as_str :: "single_letter_tag \<Rightarrow> string"
  slt_from_str :: "string \<Rightarrow> single_letter_tag option"
  tag_kind_as_str :: "tag_kind \<Rightarrow> string"
  find_standardized :: "tag list \<Rightarrow> tag_kind \<Rightarrow> tag_standard option"
  is_replaceable_kind :: "kind \<Rightarrow> bool"
  is_addressable_kind :: "kind \<Rightarrow> bool"
  relay_url_str :: "string \<Rightarrow> string"
  url_host_str :: "string \<Rightarrow> string option"
  scope_named :: "string \<Rightarrow> scope option"
  try_send :: "outbox \<Rightarrow> channel \<Rightarrow> send_outcome"
  sign_event :: "unsigned_event \<Rightarrow> string + event"
  timestamp_sub :: "timestamp \<Rightarrow> nat \<Rightarrow> timestamp"
  debug_str :: "string \<Rightarrow> string"

text \<open>\<open>debug_str\<close> is the \<open>Debug\<close> rendering (\<open>{e:?}\<close>) of an error with the given display text; it
  includes a backtrace and is left open.\<close>

text \<open>The messages delivered to one channel, in the order they were sent.\<close>

definition channel_log :: "outbox \<Rightarrow> channel \<Rightarrow> outbound list" where
  "channel_log out ch = map snd (List.filter (\<lambda>(c, _). c = ch) out)"

lemma channel_log_append [simp]: "channel_log (a @ b) ch = channel_log a ch @ channel_log b ch"
  by (simp add: channel_log_def)

lemma channel_log_Nil [simp]: "channel_log [] ch = []"
  by (simp add: channel_log_def)

lemma channel_log_single [simp]: "channel_log [(c, m)] ch = (if c = ch then [m] else [])"
  by (simp add: channel_log_def)

section \<open>Documented behaviour of the filter matcher\<close>

text \<open>
  What the inverted index relies on (NIP-01, as \<open>Filter::match_event\<close> documents it): a filter that
  lists event ids, authors, kinds or values of a tag matches only events that carry one of
  them. It says nothing of the other direction, nor of \<open>since\<close>, \<open>until\<close> and the rest.
\<close>

definition tag_has_value :: "nostr_lib \<Rightarrow> event \<Rightarrow> single_letter_tag \<Rightarrow> string list \<Rightarrow> bool" where
  "tag_has_value L e t vs = (\<exists>tg \<in> set (ev_tags e).
     slt_from_str L (tag_kind_as_str L (tag_kind tg)) = Some t \<and>
     (\<exists>v \<in> set vs. v \<in> set (drop 1 (tag_slice tg))))"

definition match_event_sound :: "nostr_lib \<Rightarrow> bool" where
  "match_event_sound L = (\<forall>f e. match_event L f e \<longrightarrow>
     (\<forall>ids. f_ids f = Some ids \<longrightarrow> ids \<noteq> [] \<longrightarrow> ev_id e \<in> set ids) \<and>
     (\<forall>as. f_authors f = Some as \<longrightarrow> as \<noteq> [] \<longrightarrow> ev_pubkey e \<in> set as) \<and>
     (\<forall>ks. f_kinds f = Some ks \<longrightarrow> ks \<noteq> [] \<longrightarrow> ev_kind e \<in> set ks) \<and>
     (\<forall>(t, vs) \<in> set (f_generic_tags f). vs \<noteq> [] \<longrightarrow> tag_has_value L e t vs))"

lemma match_event_soundD:
  assumes "match_event_sound L" "match_event L f e"
  shows "f_ids f = Some ids \<Longrightarrow> ids \<noteq> [] \<Longrightarrow> ev_id e \<in> set ids"
    and "f_authors f = Some as \<Longrightarrow> as \<noteq> [] \<Longrightarrow> ev_pubkey e \<in> set as"
    and "f_kinds f = Some ks \<Longrightarrow> ks \<noteq> [] \<Longrightarrow> ev_kind e \<in> set ks"
    and "(t, vs) \<in> set (f_generic_tags f) \<Longrightarrow> vs \<noteq> [] \<Longrightarrow> tag_has_value L e t vs"
  using assms unfolding match_event_sound_def by blast+

end
