(* ===== verification/Subscription_Index.thy ===== *)
theory Subscription_Index
  imports Nostr_Types
begin

text \<open>
  The inverted index of \<open>src/src/subscription_index.rs\<close>: every filter of every subscription is
  filed under one field (event id, author, kind, tag, or the match-all list), and an event is
  checked only against the filters filed under one of its own keys.

  A \<open>TrackedFilter\<close> is shared (\<open>Arc\<close>) between the id map and the buckets, and its
  \<open>last_seen_event_id\<close> cell is mutated through any of them. Here the immutable part is a record
  and the cells are one store, \<open>si_filter_last_seen\<close>, addressed by the filter id; \<open>FilterId\<close>s
  are unique until the \<open>u64\<close> counter wraps, which \<open>fetch_add_u64\<close> writes out.
\<close>

type_synonym filter_id = nat

datatype indexed_field =
    EventIdField
  | AuthorField
  | KindField
  | TagField single_letter_tag

record tracked_filter =
  tf_filter :: filter
  tf_parent :: "connection_id \<times> subscription_id"
  tf_indexed_field :: "indexed_field option"
  tf_id :: filter_id

record filter_group =
  fg_connection_id :: connection_id
  fg_subscription_id :: subscription_id
  fg_last_seen :: "event_id option"
  fg_filter_ids :: "filter_id list"

type_synonym 'k bucket_map = "('k, tracked_filter list) hmap"
type_synonym tag_index = "(string, string bucket_map) hmap"

record subscription_index =
  si_authors :: "pubkey bucket_map"
  si_kinds :: "kind bucket_map"
  si_event_ids :: "event_id bucket_map"
  si_tags :: tag_index
  si_match_all :: "tracked_filter list"
  si_all_filters :: "(filter_id, tracked_filter) hmap"
  si_filter_groups :: "(connection_id \<times> subscription_id, filter_group) hmap"
  si_next_filter_id :: filter_id
  si_filter_last_seen :: "filter_id \<Rightarrow> event_id option"

definition si_new :: subscription_index where
  "si_new = \<lparr>si_authors = [], si_kinds = [], si_event_ids = [], si_tags = [], si_match_all = [],
     si_all_filters = [], si_filter_groups = [], si_next_filter_id = 1,
     si_filter_last_seen = (\<lambda>_. None)\<rparr>"

definition filter_group_new :: "connection_id \<Rightarrow> subscription_id \<Rightarrow> filter_group" where
  "filter_group_new c s = \<lparr>fg_connection_id = c, fg_subscription_id = s, fg_last_seen = None,
     fg_filter_ids = []\<rparr>"

text \<open>\<open>AtomicU64::fetch_add(1)\<close> leaves the counter at the successor, wrapping at \<open>2 ^ 64\<close>.\<close>

definition fetch_add_u64 :: "nat \<Rightarrow> nat" where
  "fetch_add_u64 n = (n + 1) mod 2 ^ 64"

section \<open>Buckets\<close>

definition bucket_get :: "'k bucket_map \<Rightarrow> 'k \<Rightarrow> tracked_filter list" where
  "bucket_get m k = (case hm_get m k of None \<Rightarrow> [] | Some fs \<Rightarrow> fs)"

text \<open>\<open>index.entry(k).or_default().push(filter)\<close>.\<close>

definition bucket_push :: "tracked_filter \<Rightarrow> 'k \<Rightarrow> 'k bucket_map \<Rightarrow> 'k bucket_map" where
  "bucket_push tf k m = hm_insert k (bucket_get m k @ [tf]) m"

text \<open>\<open>filters.retain(|f| f.id != filter.id); if filters.is_empty() { index.remove(k) }\<close>.\<close>

definition bucket_drop :: "filter_id \<Rightarrow> 'k \<Rightarrow> 'k bucket_map \<Rightarrow> 'k bucket_map" where
  "bucket_drop fid k m = (case hm_get m k of
     None \<Rightarrow> m
   | Some fs \<Rightarrow>
       let fs' = List.filter (\<lambda>f. tf_id f \<noteq> fid) fs
       in if fs' = [] then hm_remove k m else hm_insert k fs' m)"

definition bucket_push_all :: "'k list \<Rightarrow> tracked_filter \<Rightarrow> 'k bucket_map \<Rightarrow> 'k bucket_map" where
  "bucket_push_all ks tf m = fold (bucket_push tf) ks m"

definition bucket_drop_all :: "'k list \<Rightarrow> filter_id \<Rightarrow> 'k bucket_map \<Rightarrow> 'k bucket_map" where
  "bucket_drop_all ks fid m = fold (bucket_drop fid) ks m"

text \<open>The tag index nests a bucket map per tag name; the inner map is dropped when it empties.\<close>

definition tag_get :: "tag_index \<Rightarrow> string \<times> string \<Rightarrow> tracked_filter list" where
  "tag_get ti k = (case hm_get ti (fst k) of None \<Rightarrow> [] | Some m \<Rightarrow> bucket_get m (snd k))"

definition tag_push_all :: "string \<times> string list \<Rightarrow> tracked_filter \<Rightarrow> tag_index \<Rightarrow> tag_index" where
  "tag_push_all nv tf ti = hm_insert (fst nv)
     (bucket_push_all (snd nv) tf (case hm_get ti (fst nv) of None \<Rightarrow> [] | Some m \<Rightarrow> m)) ti"

definition tag_drop_all :: "string \<times> string list \<Rightarrow> filter_id \<Rightarrow> tag_index \<Rightarrow> tag_index" where
  "tag_drop_all nv fid ti = (case hm_get ti (fst nv) of
     None \<Rightarrow> ti
   | Some m \<Rightarrow>
       let m' = bucket_drop_all (snd nv) fid m
       in if m' = [] then hm_remove (fst nv) ti else hm_insert (fst nv) m' ti)"

section \<open>Operations\<close>

text \<open>\<open>choose_index_field\<close>: the first field that is present and not empty, in the order event
  ids, authors, kinds, tags.\<close>

definition nonempty_list :: "'a list option \<Rightarrow> bool" where
  "nonempty_list o' = (case o' of None \<Rightarrow> False | Some xs \<Rightarrow> xs \<noteq> [])"

fun first_nonempty_tag :: "(single_letter_tag, string list) hmap \<Rightarrow> indexed_field option" where
  "first_nonempty_tag [] = None"
| "first_nonempty_tag ((t, vs) # rest) =
     (if vs \<noteq> [] then Some (TagField t) else first_nonempty_tag rest)"

definition choose_index_field :: "filter \<Rightarrow> indexed_field option" where
  "choose_index_field f =
     (if nonempty_list (f_ids f) then Some EventIdField
      else if nonempty_list (f_authors f) then Some AuthorField
      else if nonempty_list (f_kinds f) then Some KindField
      else first_nonempty_tag (f_generic_tags f))"

definition add_filter_to_indexes ::
  "nostr_lib \<Rightarrow> tracked_filter \<Rightarrow> subscription_index \<Rightarrow> subscription_index" where
  "add_filter_to_indexes L tf ix = (case tf_indexed_field tf of
     None \<Rightarrow> ix\<lparr>si_match_all := si_match_all ix @ [tf]\<rparr>
   | Some EventIdField \<Rightarrow> (case f_ids (tf_filter tf) of
         None \<Rightarrow> ix
       | Some ids \<Rightarrow> ix\<lparr>si_event_ids := bucket_push_all ids tf (si_event_ids ix)\<rparr>)
   | Some AuthorField \<Rightarrow> (case f_authors (tf_filter tf) of
         None \<Rightarrow> ix
       | Some as \<Rightarrow> ix\<lparr>si_authors := bucket_push_all as tf (si_authors ix)\<rparr>)
   | Some KindField \<Rightarrow> (case f_kinds (tf_filter tf) of
         None \<Rightarrow> ix
       | Some ks \<Rightarrow> ix\<lparr>si_kinds := bucket_push_all ks tf (si_kinds ix)\<rparr>)
   | Some (TagField t) \<Rightarrow> (case hm_get (f_generic_tags (tf_filter tf)) t of
         None \<Rightarrow> ix
       | Some vs \<Rightarrow> ix\<lparr>si_tags := tag_push_all (slt_as_str L t, vs) tf (si_tags ix)\<rparr>))"

definition remove_filter_from_indexes ::
  "nostr_lib \<Rightarrow> tracked_filter \<Rightarrow> subscription_index \<Rightarrow> subscription_index" where
  "remove_filter_from_indexes L tf ix = (case tf_indexed_field tf of
     None \<Rightarrow> ix\<lparr>si_match_all := List.filter (\<lambda>f. tf_id f \<noteq> tf_id tf) (si_match_all ix)\<rparr>
   | Some EventIdField \<Rightarrow> (case f_ids (tf_filter tf) of
         None \<Rightarrow> ix
       | Some ids \<Rightarrow> ix\<lparr>si_event_ids := bucket_drop_all ids (tf_id tf) (si_event_ids ix)\<rparr>)
   | Some AuthorField \<Rightarrow> (case f_authors (tf_filter tf) of
         None \<Rightarrow> ix
       | Some as \<Rightarrow> ix\<lparr>si_authors := bucket_drop_all as (tf_id tf) (si_authors ix)\<rparr>)
   | Some KindField \<Rightarrow> (case f_kinds (tf_filter tf) of
         None \<Rightarrow> ix
       | Some ks \<Rightarrow> ix\<lparr>si_kinds := bucket_drop_all ks (tf_id tf) (si_kinds ix)\<rparr>)
   | Some (TagField t) \<Rightarrow> (case hm_get (f_generic_tags (tf_filter tf)) t of
         None \<Rightarrow> ix
       | Some vs \<Rightarrow> ix\<lparr>si_tags := tag_drop_all (slt_as_str L t, vs) (tf_id tf) (si_tags ix)\<rparr>))"

text \<open>One turn of the loop of \<open>add_subscription\<close>: allocate an id, build the tracked filter with an
  empty \<open>last_seen\<close> cell, record it in \<open>all_filters\<close> and in the group, file it in the indexes.\<close>

definition tracked_filter_new ::
  "filter \<Rightarrow> connection_id \<times> subscription_id \<Rightarrow> indexed_field option \<Rightarrow> filter_id \<Rightarrow> tracked_filter"
  where
  "tracked_filter_new f key fld fid = \<lparr>tf_filter = f, tf_parent = key, tf_indexed_field = fld,
     tf_id = fid\<rparr>"

definition group_insert_id :: "filter_id \<Rightarrow> filter_group \<Rightarrow> filter_group" where
  "group_insert_id fid g = g\<lparr>fg_filter_ids := List.insert fid (fg_filter_ids g)\<rparr>"

definition add_one_filter ::
  "nostr_lib \<Rightarrow> connection_id \<times> subscription_id \<Rightarrow> filter \<Rightarrow> subscription_index
     \<Rightarrow> subscription_index" where
  "add_one_filter L key f ix =
     (let fid = si_next_filter_id ix;
          tf = tracked_filter_new f key (choose_index_field f) fid;
          ix1 = ix\<lparr>si_next_filter_id := fetch_add_u64 fid,
                   si_filter_last_seen := (si_filter_last_seen ix)(fid := None),
                   si_all_filters := hm_insert fid tf (si_all_filters ix),
                   si_filter_groups := (case hm_get (si_filter_groups ix) key of
                       None \<Rightarrow> si_filter_groups ix
                     | Some g \<Rightarrow> hm_insert key (group_insert_id fid g) (si_filter_groups ix))\<rparr>
      in add_filter_to_indexes L tf ix1)"

definition ensure_group ::
  "connection_id \<times> subscription_id \<Rightarrow> subscription_index \<Rightarrow> subscription_index" where
  "ensure_group key ix = (case hm_get (si_filter_groups ix) key of
     Some _ \<Rightarrow> ix
   | None \<Rightarrow> ix\<lparr>si_filter_groups :=
       hm_insert key (filter_group_new (fst key) (snd key)) (si_filter_groups ix)\<rparr>)"

definition si_add_subscription ::
  "nostr_lib \<Rightarrow> connection_id \<Rightarrow> subscription_id \<Rightarrow> filter list \<Rightarrow> subscription_index
     \<Rightarrow> subscription_index" where
  "si_add_subscription L c s fs ix =
     fold (add_one_filter L (c, s)) fs (ensure_group (c, s) ix)"

definition remove_one_filter ::
  "nostr_lib \<Rightarrow> filter_id \<Rightarrow> subscription_index \<Rightarrow> subscription_index" where
  "remove_one_filter L fid ix = (case hm_get (si_all_filters ix) fid of
     None \<Rightarrow> ix
   | Some tf \<Rightarrow> remove_filter_from_indexes L tf
       (ix\<lparr>si_all_filters := hm_remove fid (si_all_filters ix)\<rparr>))"

definition si_remove_subscription ::
  "nostr_lib \<Rightarrow> connection_id \<Rightarrow> subscription_id \<Rightarrow> subscription_index \<Rightarrow> subscription_index"
  where
  "si_remove_subscription L c s ix = (case hm_get (si_filter_groups ix) (c, s) of
     None \<Rightarrow> ix
   | Some g \<Rightarrow> fold (remove_one_filter L) (fg_filter_ids g)
       (ix\<lparr>si_filter_groups := hm_remove (c, s) (si_filter_groups ix)\<rparr>))"

section \<open>Distribution\<close>

text \<open>\<open>get_candidate_filters\<close>: filters are collected from the match-all list and from the bucket
  of each key of the event, each filter id once.\<close>

fun collect_filters :: "tracked_filter list \<Rightarrow> filter_id list \<times> tracked_filter list
  \<Rightarrow> filter_id list \<times> tracked_filter list" where
  "collect_filters [] acc = acc"
| "collect_filters (f # fs) (seen, cs) =
     (if tf_id f \<in> set seen then collect_filters fs (seen, cs)
      else collect_filters fs (tf_id f # seen, cs @ [f]))"

definition tag_candidates :: "nostr_lib \<Rightarrow> tag_index \<Rightarrow> tag \<Rightarrow> tracked_filter list" where
  "tag_candidates L ti tg = (case slt_from_str L (tag_kind_as_str L (tag_kind tg)) of
     None \<Rightarrow> []
   | Some t \<Rightarrow> (case hm_get ti (slt_as_str L t) of
       None \<Rightarrow> []
     | Some m \<Rightarrow> concat (map (bucket_get m) (drop 1 (tag_slice tg)))))"

definition candidate_sources :: "nostr_lib \<Rightarrow> subscription_index \<Rightarrow> event \<Rightarrow> tracked_filter list" where
  "candidate_sources L ix e = si_match_all ix
     @ bucket_get (si_event_ids ix) (ev_id e)
     @ bucket_get (si_authors ix) (ev_pubkey e)
     @ bucket_get (si_kinds ix) (ev_kind e)
     @ concat (map (tag_candidates L (si_tags ix)) (ev_tags e))"

definition get_candidate_filters :: "nostr_lib \<Rightarrow> subscription_index \<Rightarrow> event \<Rightarrow> tracked_filter list"
  where
  "get_candidate_filters L ix e = snd (collect_filters (candidate_sources L ix e) ([], []))"

definition filter_has_seen :: "subscription_index \<Rightarrow> tracked_filter \<Rightarrow> event_id \<Rightarrow> bool" where
  "filter_has_seen ix tf eid = (si_filter_last_seen ix (tf_id tf) = Some eid)"

definition filter_mark_seen :: "tracked_filter \<Rightarrow> event_id \<Rightarrow> subscription_index \<Rightarrow> subscription_index"
  where
  "filter_mark_seen tf eid ix =
     ix\<lparr>si_filter_last_seen := (si_filter_last_seen ix)(tf_id tf := Some eid)\<rparr>"

definition group_has_seen :: "filter_group \<Rightarrow> event_id \<Rightarrow> bool" where
  "group_has_seen g eid = (fg_last_seen g = Some eid)"

definition group_mark_seen :: "event_id \<Rightarrow> filter_group \<Rightarrow> filter_group" where
  "group_mark_seen eid g = g\<lparr>fg_last_seen := Some eid\<rparr>"

text \<open>The loop of \<open>distribute_event\<close>, with its two sets of things already checked.\<close>

fun distribute_loop :: "nostr_lib \<Rightarrow> event \<Rightarrow> tracked_filter list \<Rightarrow> filter_id list
  \<Rightarrow> (connection_id \<times> subscription_id) list \<Rightarrow> (connection_id \<times> subscription_id) list
  \<Rightarrow> subscription_index \<Rightarrow> (connection_id \<times> subscription_id) list \<times> subscription_index" where
  "distribute_loop L e [] cf cg acc ix = (acc, ix)"
| "distribute_loop L e (f # fs) cf cg acc ix =
     (if tf_id f \<in> set cf then distribute_loop L e fs cf cg acc ix
      else let cf' = tf_id f # cf in
      if filter_has_seen ix f (ev_id e) then distribute_loop L e fs cf' cg acc ix
      else if \<not> match_event L (tf_filter f) e then distribute_loop L e fs cf' cg acc ix
      else let ix1 = filter_mark_seen f (ev_id e) ix; key = tf_parent f in
      if key \<in> set cg then distribute_loop L e fs cf' cg acc ix1
      else let cg' = key # cg in
      (case hm_get (si_filter_groups ix1) key of
         None \<Rightarrow> distribute_loop L e fs cf' cg' acc ix1
       | Some g \<Rightarrow>
           if group_has_seen g (ev_id e) then distribute_loop L e fs cf' cg' acc ix1
           else distribute_loop L e fs cf' cg' (acc @ [key])
             (ix1\<lparr>si_filter_groups :=
                hm_insert key (group_mark_seen (ev_id e) g) (si_filter_groups ix1)\<rparr>)))"

definition si_distribute_event ::
  "nostr_lib \<Rightarrow> event \<Rightarrow> subscription_index
     \<Rightarrow> (connection_id \<times> subscription_id) list \<times> subscription_index" where
  "si_distribute_event L e ix = distribute_loop L e (get_candidate_filters L ix e) [] [] [] ix"

section \<open>Statistics\<close>

record index_stats =
  st_total_filters :: nat
  st_total_subscriptions :: nat
  st_authors_indexed :: nat
  st_kinds_indexed :: nat
  st_event_ids_indexed :: nat
  st_tags_indexed :: nat
  st_tracked_events :: nat

definition si_stats :: "subscription_index \<Rightarrow> index_stats" where
  "si_stats ix = \<lparr>st_total_filters = length (si_all_filters ix),
     st_total_subscriptions = length (si_filter_groups ix),
     st_authors_indexed = length (si_authors ix),
     st_kinds_indexed = length (si_kinds ix),
     st_event_ids_indexed = length (si_event_ids ix),
     st_tags_indexed = sum_list (map (\<lambda>(_, m). length m) (si_tags ix)),
     st_tracked_events =
       length (List.filter (\<lambda>(fid, tf). si_filter_last_seen ix (tf_id tf) \<noteq> None) (si_all_filters ix))\<rparr>"

end
