(* ===== verification/Subscription_Index_Laws.thy ===== *)
theory Subscription_Index_Laws
  imports Subscription_Index
begin

text \<open>
  The contract of an inverted index (what a bucket holds after a filter is filed or dropped) as a
  locale, with its two implementations: the flat bucket maps of authors, kinds and event ids, and
  the nested map of tags. The lemma that matters to the clients is exactness: the bucket of a key
  holds exactly the live filters filed under that key.
\<close>

section \<open>The contract\<close>

locale inverted_index =
  fixes lookup :: "'ix \<Rightarrow> 'k \<Rightarrow> tracked_filter list"
    and add :: "'a \<Rightarrow> tracked_filter \<Rightarrow> 'ix \<Rightarrow> 'ix"
    and drop_filter :: "'a \<Rightarrow> filter_id \<Rightarrow> 'ix \<Rightarrow> 'ix"
    and keys :: "'a \<Rightarrow> 'k set"
    and invar :: "'ix \<Rightarrow> bool"
  assumes lookup_add: "invar ix \<Longrightarrow>
      set (lookup (add a tf ix) k) = set (lookup ix k) \<union> (if k \<in> keys a then {tf} else {})"
    and lookup_drop: "invar ix \<Longrightarrow>
      lookup (drop_filter a fid ix) k =
        (if k \<in> keys a then List.filter (\<lambda>f. tf_id f \<noteq> fid) (lookup ix k) else lookup ix k)"
    and invar_add: "invar ix \<Longrightarrow> keys a \<noteq> {} \<Longrightarrow> invar (add a tf ix)"
    and invar_drop: "invar ix \<Longrightarrow> invar (drop_filter a fid ix)"
begin

text \<open>\<open>exact F K ix\<close>: bucket \<open>k\<close> holds the filters of \<open>F\<close> whose key set \<open>K\<close> has \<open>k\<close>.\<close>

definition exact :: "tracked_filter set \<Rightarrow> (tracked_filter \<Rightarrow> 'k set) \<Rightarrow> 'ix \<Rightarrow> bool" where
  "exact F K ix \<longleftrightarrow> (\<forall>k. set (lookup ix k) = {tf \<in> F. k \<in> K tf})"

lemma exact_add:
  assumes "invar ix" "exact F K ix" "K tf = keys a"
  shows "exact (insert tf F) K (add a tf ix)"
  using assms by (auto simp: exact_def lookup_add)

lemma exact_add_other:
  assumes "exact F K ix" "K tf = {}"
  shows "exact (insert tf F) K ix"
  using assms by (auto simp: exact_def)

lemma exact_drop:
  assumes "invar ix" "exact F K ix" "K tf = keys a" "tf \<in> F"
    and uniq: "\<And>g. g \<in> F \<Longrightarrow> tf_id g = tf_id tf \<Longrightarrow> g = tf"
  shows "exact (F - {tf}) K (drop_filter a (tf_id tf) ix)"
  unfolding exact_def
proof
  fix k
  show "set (lookup (drop_filter a (tf_id tf) ix) k) = {g \<in> F - {tf}. k \<in> K g}"
  proof (cases "k \<in> keys a")
    case True
    have "set (lookup (drop_filter a (tf_id tf) ix) k) = {g \<in> F. k \<in> K g \<and> tf_id g \<noteq> tf_id tf}"
      using assms(2) True by (auto simp: lookup_drop [OF assms(1)] exact_def)
    also have "\<dots> = {g \<in> F - {tf}. k \<in> K g}" using uniq by auto
    finally show ?thesis .
  next
    case False
    with assms show ?thesis by (auto simp: lookup_drop exact_def)
  qed
qed

lemma exact_drop_other:
  assumes "exact F K ix" "K tf = {}"
  shows "exact (F - {tf}) K ix"
  using assms by (auto simp: exact_def)

text \<open>Filing a filter under a key and dropping it again leaves no trace in the buckets, when its
  id was not in use.\<close>

lemma lookup_drop_add:
  assumes "invar ix" "keys a \<noteq> {}"
    and "\<And>k g. g \<in> set (lookup ix k) \<Longrightarrow> tf_id g \<noteq> tf_id tf"
  shows "set (lookup (drop_filter a (tf_id tf) (add a tf ix)) k) = set (lookup ix k)"
  using assms by (auto simp: lookup_drop [OF invar_add [OF assms(1,2)]] lookup_add)

end

section \<open>Flat bucket maps\<close>

definition bucket_invar :: "'k bucket_map \<Rightarrow> bool" where
  "bucket_invar m \<longleftrightarrow> hm_wf m \<and> (\<forall>k. hm_get m k \<noteq> Some [])"

lemma bucket_get_push:
  "bucket_get (bucket_push tf k m) k' = (if k' = k then bucket_get m k @ [tf] else bucket_get m k')"
  by (simp add: bucket_push_def bucket_get_def hm_simps)

lemma bucket_invar_push: "bucket_invar m \<Longrightarrow> bucket_invar (bucket_push tf k m)"
  by (auto simp: bucket_invar_def bucket_push_def hm_simps)

lemma bucket_get_drop:
  "bucket_get (bucket_drop fid k m) k' =
     (if k' = k then List.filter (\<lambda>f. tf_id f \<noteq> fid) (bucket_get m k) else bucket_get m k')"
  by (auto simp: bucket_drop_def bucket_get_def hm_simps Let_def split: option.splits)

lemma bucket_invar_drop: "bucket_invar m \<Longrightarrow> bucket_invar (bucket_drop fid k m)"
  by (auto simp: bucket_invar_def bucket_drop_def hm_simps Let_def split: option.splits)

lemma bucket_push_all_get:
  "set (bucket_get (bucket_push_all ks tf m) k) =
     set (bucket_get m k) \<union> (if k \<in> set ks then {tf} else {})"
  unfolding bucket_push_all_def
  by (induction ks arbitrary: m) (auto simp: bucket_get_push)

lemma bucket_push_all_invar: "bucket_invar m \<Longrightarrow> bucket_invar (bucket_push_all ks tf m)"
  unfolding bucket_push_all_def
  by (induction ks arbitrary: m) (auto simp: bucket_invar_push)

lemma bucket_drop_all_get:
  "bucket_get (bucket_drop_all ks fid m) k =
     (if k \<in> set ks then List.filter (\<lambda>f. tf_id f \<noteq> fid) (bucket_get m k) else bucket_get m k)"
  unfolding bucket_drop_all_def
  by (induction ks arbitrary: m) (auto simp: bucket_get_drop)

lemma bucket_drop_all_invar: "bucket_invar m \<Longrightarrow> bucket_invar (bucket_drop_all ks fid m)"
  unfolding bucket_drop_all_def
  by (induction ks arbitrary: m) (auto simp: bucket_invar_drop)

interpretation flat: inverted_index bucket_get bucket_push_all bucket_drop_all set bucket_invar
  by unfold_locales
    (simp_all add: bucket_push_all_get bucket_drop_all_get bucket_push_all_invar
      bucket_drop_all_invar)

section \<open>The nested tag index\<close>

definition tag_invar :: "tag_index \<Rightarrow> bool" where
  "tag_invar ti \<longleftrightarrow> hm_wf ti \<and> (\<forall>n m. hm_get ti n = Some m \<longrightarrow> m \<noteq> [] \<and> bucket_invar m)"

definition tag_keys_of :: "string \<times> string list \<Rightarrow> (string \<times> string) set" where
  "tag_keys_of nv = {fst nv} \<times> set (snd nv)"

lemma bucket_push_all_nonempty: "ks \<noteq> [] \<Longrightarrow> bucket_push_all ks tf m \<noteq> []"
proof -
  assume "ks \<noteq> []"
  then obtain k where "k \<in> set ks" by (cases ks) auto
  then have "bucket_get (bucket_push_all ks tf m) k \<noteq> []"
    using bucket_push_all_get [of ks tf m k] by auto
  then show ?thesis by (auto simp: bucket_get_def)
qed

lemma bucket_get_Nil [simp]: "bucket_get [] k = []"
  by (simp add: bucket_get_def)

lemma bucket_invar_Nil [simp]: "bucket_invar []"
  by (simp add: bucket_invar_def)

lemma tag_push_all_get:
  "set (tag_get (tag_push_all nv tf ti) k) =
     set (tag_get ti k) \<union> (if k \<in> tag_keys_of nv then {tf} else {})"
  by (cases nv; cases k)
     (auto simp: tag_get_def tag_push_all_def tag_keys_of_def hm_simps bucket_push_all_get
       split: option.splits)

lemma tag_push_all_invar:
  "tag_invar ti \<Longrightarrow> tag_keys_of nv \<noteq> {} \<Longrightarrow> tag_invar (tag_push_all nv tf ti)"
  by (auto simp: tag_invar_def tag_push_all_def tag_keys_of_def hm_simps
      bucket_push_all_nonempty bucket_push_all_invar split: option.splits)

lemma tag_drop_all_get:
  "tag_get (tag_drop_all nv fid ti) k =
     (if k \<in> tag_keys_of nv then List.filter (\<lambda>f. tf_id f \<noteq> fid) (tag_get ti k) else tag_get ti k)"
proof (cases "hm_get ti (fst nv)")
  case None
  then show ?thesis by (auto simp: tag_drop_all_def tag_get_def tag_keys_of_def mem_Times_iff)
next
  case (Some m)
  then have "tag_get (tag_drop_all nv fid ti) k =
      (if fst k = fst nv then bucket_get (bucket_drop_all (snd nv) fid m) (snd k) else tag_get ti k)"
    by (auto simp: tag_drop_all_def tag_get_def hm_simps Let_def)
  with Some show ?thesis
    by (cases k) (auto simp: bucket_drop_all_get tag_get_def tag_keys_of_def)
qed

lemma tag_drop_all_invar: "tag_invar ti \<Longrightarrow> tag_invar (tag_drop_all nv fid ti)"
  by (auto simp: tag_invar_def tag_drop_all_def hm_simps Let_def bucket_drop_all_invar
      split: option.splits)

interpretation nested: inverted_index tag_get tag_push_all tag_drop_all tag_keys_of tag_invar
  by unfold_locales
    (simp_all add: tag_push_all_get tag_drop_all_get tag_push_all_invar tag_drop_all_invar)

end
