(* ===== verification/Subscription_Index_Correct.thy ===== *)
theory Subscription_Index_Correct
  imports Subscription_Index_Laws
begin

text \<open>
  The well-formedness invariant of the subscription index and its preservation, the abstract view
  of the index as a table from subscriptions to filter lists, and the correctness of
  distribution: the indexed search finds the same subscriptions as a scan of all filters.
\<close>

section \<open>The invariant\<close>

text \<open>The keys a filter is filed under, per index: none unless that field was chosen.\<close>

definition opt_list :: "'a list option \<Rightarrow> 'a list" where
  "opt_list o' = (case o' of None \<Rightarrow> [] | Some xs \<Rightarrow> xs)"

definition id_keys :: "tracked_filter \<Rightarrow> event_id list" where
  "id_keys tf = (if tf_indexed_field tf = Some EventIdField then opt_list (f_ids (tf_filter tf)) else [])"

definition author_keys :: "tracked_filter \<Rightarrow> pubkey list" where
  "author_keys tf =
     (if tf_indexed_field tf = Some AuthorField then opt_list (f_authors (tf_filter tf)) else [])"

definition kind_keys :: "tracked_filter \<Rightarrow> kind list" where
  "kind_keys tf =
     (if tf_indexed_field tf = Some KindField then opt_list (f_kinds (tf_filter tf)) else [])"

definition tag_arg :: "nostr_lib \<Rightarrow> tracked_filter \<Rightarrow> (string \<times> string list) option" where
  "tag_arg L tf = (case tf_indexed_field tf of
     Some (TagField t) \<Rightarrow>
       map_option (Pair (slt_as_str L t)) (hm_get (f_generic_tags (tf_filter tf)) t)
   | _ \<Rightarrow> None)"

definition tag_keys :: "nostr_lib \<Rightarrow> tracked_filter \<Rightarrow> (string \<times> string) set" where
  "tag_keys L tf = (case tag_arg L tf of None \<Rightarrow> {} | Some nv \<Rightarrow> tag_keys_of nv)"

lemmas field_keys_defs = id_keys_def author_keys_def kind_keys_def tag_arg_def opt_list_def

definition buckets_invar :: "subscription_index \<Rightarrow> bool" where
  "buckets_invar ix \<longleftrightarrow> bucket_invar (si_event_ids ix) \<and> bucket_invar (si_authors ix) \<and>
     bucket_invar (si_kinds ix) \<and> tag_invar (si_tags ix)"

definition buckets_exact :: "nostr_lib \<Rightarrow> tracked_filter set \<Rightarrow> subscription_index \<Rightarrow> bool" where
  "buckets_exact L F ix \<longleftrightarrow>
     set (si_match_all ix) = {tf \<in> F. tf_indexed_field tf = None} \<and>
     flat.exact F (set \<circ> id_keys) (si_event_ids ix) \<and>
     flat.exact F (set \<circ> author_keys) (si_authors ix) \<and>
     flat.exact F (set \<circ> kind_keys) (si_kinds ix) \<and>
     nested.exact F (tag_keys L) (si_tags ix)"

definition live :: "subscription_index \<Rightarrow> tracked_filter set" where
  "live ix = ran (hm_get (si_all_filters ix))"

text \<open>\<open>generic_tags\<close> is a map: a filter lists each tag once.\<close>

definition filter_wf :: "filter \<Rightarrow> bool" where
  "filter_wf f \<longleftrightarrow> hm_wf (f_generic_tags f)"

definition tracked_wf :: "filter_id \<Rightarrow> tracked_filter \<Rightarrow> bool" where
  "tracked_wf fid tf \<longleftrightarrow> tf_id tf = fid \<and> tf_indexed_field tf = choose_index_field (tf_filter tf) \<and>
     filter_wf (tf_filter tf)"

definition index_core :: "nostr_lib \<Rightarrow> subscription_index \<Rightarrow> bool" where
  "index_core L ix \<longleftrightarrow> hm_wf (si_all_filters ix) \<and>
     (\<forall>fid tf. hm_get (si_all_filters ix) fid = Some tf \<longrightarrow> tracked_wf fid tf) \<and>
     buckets_invar ix \<and> buckets_exact L (live ix) ix"

definition groups_wf :: "subscription_index \<Rightarrow> bool" where
  "groups_wf ix \<longleftrightarrow> hm_wf (si_filter_groups ix) \<and>
     (\<forall>fid tf. hm_get (si_all_filters ix) fid = Some tf \<longrightarrow>
        fid < si_next_filter_id ix \<and> hm_contains (si_filter_groups ix) (tf_parent tf)) \<and>
     (\<forall>key g. hm_get (si_filter_groups ix) key = Some g \<longrightarrow>
        set (fg_filter_ids g) =
          {fid. \<exists>tf. hm_get (si_all_filters ix) fid = Some tf \<and> tf_parent tf = key})"

definition index_wf :: "nostr_lib \<Rightarrow> subscription_index \<Rightarrow> bool" where
  "index_wf L ix \<longleftrightarrow> index_core L ix \<and> groups_wf ix"

section \<open>Filing and dropping one filter\<close>

lemma choose_index_field_cases:
  assumes "filter_wf f"
  shows "choose_index_field f = Some EventIdField \<Longrightarrow> \<exists>ids. f_ids f = Some ids \<and> ids \<noteq> []"
    and "choose_index_field f = Some AuthorField \<Longrightarrow> \<exists>as. f_authors f = Some as \<and> as \<noteq> []"
    and "choose_index_field f = Some KindField \<Longrightarrow> \<exists>ks. f_kinds f = Some ks \<and> ks \<noteq> []"
    and "choose_index_field f = Some (TagField t) \<Longrightarrow>
      \<exists>vs. hm_get (f_generic_tags f) t = Some vs \<and> vs \<noteq> [] \<and> (t, vs) \<in> set (f_generic_tags f)"
proof -
  have tag: "first_nonempty_tag m = Some fld \<Longrightarrow> \<exists>t vs. fld = TagField t \<and> (t, vs) \<in> set m \<and> vs \<noteq> []"
    for m fld
    by (induction m rule: first_nonempty_tag.induct) (auto split: if_splits)
  show "choose_index_field f = Some EventIdField \<Longrightarrow> \<exists>ids. f_ids f = Some ids \<and> ids \<noteq> []"
    and "choose_index_field f = Some AuthorField \<Longrightarrow> \<exists>as. f_authors f = Some as \<and> as \<noteq> []"
    and "choose_index_field f = Some KindField \<Longrightarrow> \<exists>ks. f_kinds f = Some ks \<and> ks \<noteq> []"
    by (auto simp: choose_index_field_def nonempty_list_def split: if_splits option.splits dest: tag)
  assume "choose_index_field f = Some (TagField t)"
  then obtain vs where "(t, vs) \<in> set (f_generic_tags f)" "vs \<noteq> []"
    by (auto simp: choose_index_field_def split: if_splits dest!: tag)
  with assms show "\<exists>vs. hm_get (f_generic_tags f) t = Some vs \<and> vs \<noteq> [] \<and>
      (t, vs) \<in> set (f_generic_tags f)"
    by (auto simp: filter_wf_def)
qed

text \<open>What filing and dropping do to each index, uniformly in the chosen field.\<close>

lemma bucket_all_Nil [simp]: "bucket_push_all [] tf m = m" "bucket_drop_all [] fid m = m"
  by (simp_all add: bucket_push_all_def bucket_drop_all_def)

lemma add_filter_to_indexes_fields [simp]:
  "si_event_ids (add_filter_to_indexes L tf ix) = bucket_push_all (id_keys tf) tf (si_event_ids ix)"
  "si_authors (add_filter_to_indexes L tf ix) = bucket_push_all (author_keys tf) tf (si_authors ix)"
  "si_kinds (add_filter_to_indexes L tf ix) = bucket_push_all (kind_keys tf) tf (si_kinds ix)"
  "si_tags (add_filter_to_indexes L tf ix) =
     (case tag_arg L tf of None \<Rightarrow> si_tags ix | Some nv \<Rightarrow> tag_push_all nv tf (si_tags ix))"
  "si_match_all (add_filter_to_indexes L tf ix) =
     si_match_all ix @ (if tf_indexed_field tf = None then [tf] else [])"
  "si_all_filters (add_filter_to_indexes L tf ix) = si_all_filters ix"
  "si_filter_groups (add_filter_to_indexes L tf ix) = si_filter_groups ix"
  "si_next_filter_id (add_filter_to_indexes L tf ix) = si_next_filter_id ix"
  "si_filter_last_seen (add_filter_to_indexes L tf ix) = si_filter_last_seen ix"
  by (simp_all add: add_filter_to_indexes_def field_keys_defs split: option.splits indexed_field.splits)

lemma remove_filter_from_indexes_fields [simp]:
  "si_event_ids (remove_filter_from_indexes L tf ix) =
     bucket_drop_all (id_keys tf) (tf_id tf) (si_event_ids ix)"
  "si_authors (remove_filter_from_indexes L tf ix) =
     bucket_drop_all (author_keys tf) (tf_id tf) (si_authors ix)"
  "si_kinds (remove_filter_from_indexes L tf ix) =
     bucket_drop_all (kind_keys tf) (tf_id tf) (si_kinds ix)"
  "si_tags (remove_filter_from_indexes L tf ix) =
     (case tag_arg L tf of None \<Rightarrow> si_tags ix | Some nv \<Rightarrow> tag_drop_all nv (tf_id tf) (si_tags ix))"
  "si_match_all (remove_filter_from_indexes L tf ix) =
     (if tf_indexed_field tf = None
      then List.filter (\<lambda>f. tf_id f \<noteq> tf_id tf) (si_match_all ix) else si_match_all ix)"
  "si_all_filters (remove_filter_from_indexes L tf ix) = si_all_filters ix"
  "si_filter_groups (remove_filter_from_indexes L tf ix) = si_filter_groups ix"
  "si_next_filter_id (remove_filter_from_indexes L tf ix) = si_next_filter_id ix"
  "si_filter_last_seen (remove_filter_from_indexes L tf ix) = si_filter_last_seen ix"
  by (simp_all add: remove_filter_from_indexes_def field_keys_defs
      split: option.splits indexed_field.splits)

lemma tag_arg_nonempty: "tracked_wf fid tf \<Longrightarrow> tag_arg L tf = Some nv \<Longrightarrow> tag_keys_of nv \<noteq> {}"
  using choose_index_field_cases(4) [of "tf_filter tf"]
  by (fastforce simp: tag_arg_def tracked_wf_def tag_keys_of_def
      split: option.splits indexed_field.splits)

lemma add_filter_buckets_invar:
  assumes "buckets_invar ix" "tracked_wf fid tf"
  shows "buckets_invar (add_filter_to_indexes L tf ix)"
  using assms tag_arg_nonempty [OF assms(2)]
  by (simp add: buckets_invar_def bucket_push_all_invar tag_push_all_invar split: option.splits)

lemma add_filter_buckets_exact:
  assumes "buckets_invar ix" "buckets_exact L F ix"
  shows "buckets_exact L (insert tf F) (add_filter_to_indexes L tf ix)"
proof -
  have "nested.exact (insert tf F) (tag_keys L) (si_tags (add_filter_to_indexes L tf ix))"
    using assms
    by (cases "tag_arg L tf") (auto simp: buckets_exact_def buckets_invar_def tag_keys_def
        intro: nested.exact_add_other nested.exact_add)
  with assms show ?thesis
    by (auto simp: buckets_exact_def buckets_invar_def simp del: add_filter_to_indexes_fields(4)
        intro!: flat.exact_add)
qed

lemma remove_filter_buckets_invar:
  "buckets_invar ix \<Longrightarrow> buckets_invar (remove_filter_from_indexes L tf ix)"
  by (simp add: buckets_invar_def bucket_drop_all_invar tag_drop_all_invar split: option.splits)

lemma remove_filter_buckets_exact:
  assumes inv: "buckets_invar ix" and ex: "buckets_exact L F ix" and tf: "tf \<in> F"
    and uniq: "\<And>g. g \<in> F \<Longrightarrow> tf_id g = tf_id tf \<Longrightarrow> g = tf"
  shows "buckets_exact L (F - {tf}) (remove_filter_from_indexes L tf ix)"
proof -
  have "nested.exact (F - {tf}) (tag_keys L) (si_tags (remove_filter_from_indexes L tf ix))"
    using assms
    by (cases "tag_arg L tf") (auto simp: buckets_exact_def buckets_invar_def tag_keys_def
        intro: nested.exact_drop_other nested.exact_drop)
  moreover have "set (si_match_all (remove_filter_from_indexes L tf ix)) =
      {g \<in> F - {tf}. tf_indexed_field g = None}"
    using ex uniq by (auto simp: buckets_exact_def)
  ultimately show ?thesis
    using assms
    by (auto simp: buckets_exact_def buckets_invar_def
        simp del: remove_filter_from_indexes_fields(4,5) intro!: flat.exact_drop)
qed


section \<open>Adding a subscription\<close>

lemma add_one_filter_fields [simp]:
  "si_next_filter_id (add_one_filter L key f ix) = fetch_add_u64 (si_next_filter_id ix)"
  "si_all_filters (add_one_filter L key f ix) = hm_insert (si_next_filter_id ix)
     (tracked_filter_new f key (choose_index_field f) (si_next_filter_id ix)) (si_all_filters ix)"
  "si_filter_groups (add_one_filter L key f ix) = (case hm_get (si_filter_groups ix) key of
       None \<Rightarrow> si_filter_groups ix
     | Some g \<Rightarrow> hm_insert key (group_insert_id (si_next_filter_id ix) g) (si_filter_groups ix))"
  "si_filter_last_seen (add_one_filter L key f ix) =
     (si_filter_last_seen ix)(si_next_filter_id ix := None)"
  by (simp_all add: add_one_filter_def Let_def)

lemma next_id_fresh: "groups_wf ix \<Longrightarrow> hm_get (si_all_filters ix) (si_next_filter_id ix) = None"
  by (auto simp: groups_wf_def) (metis less_irrefl not_Some_eq)

lemma add_one_filter_core:
  assumes core: "index_core L ix" and g: "groups_wf ix" and f: "filter_wf f"
  shows "index_core L (add_one_filter L key f ix)"
proof -
  define fid where "fid = si_next_filter_id ix"
  define tf where "tf = tracked_filter_new f key (choose_index_field f) fid"
  define ix1 where "ix1 = ix\<lparr>si_next_filter_id := fetch_add_u64 fid,
      si_filter_last_seen := (si_filter_last_seen ix)(fid := None),
      si_all_filters := hm_insert fid tf (si_all_filters ix),
      si_filter_groups := (case hm_get (si_filter_groups ix) key of
          None \<Rightarrow> si_filter_groups ix
        | Some g \<Rightarrow> hm_insert key (group_insert_id fid g) (si_filter_groups ix))\<rparr>"
  have step: "add_one_filter L key f ix = add_filter_to_indexes L tf ix1"
    unfolding add_one_filter_def Let_def fid_def tf_def ix1_def ..
  have tf_wf: "tracked_wf fid tf"
    using f by (simp add: tracked_wf_def tf_def tracked_filter_new_def)
  have "buckets_invar ix1" "buckets_exact L (live ix) ix1"
    using core by (simp_all add: index_core_def buckets_invar_def buckets_exact_def ix1_def)
  moreover have "live (add_one_filter L key f ix) = insert tf (live ix)"
    using next_id_fresh [OF g] by (simp add: live_def hm_ran_insert tf_def fid_def)
  ultimately have "buckets_invar (add_one_filter L key f ix)"
    "buckets_exact L (live (add_one_filter L key f ix)) (add_one_filter L key f ix)"
    using add_filter_buckets_invar [OF _ tf_wf] add_filter_buckets_exact by (auto simp: step)
  then show ?thesis
    using core tf_wf unfolding index_core_def
    by (auto simp: hm_simps tf_def fid_def hm_wf_insert split: if_splits)
qed

lemma add_one_filter_groups:
  assumes g: "groups_wf ix" and key: "hm_contains (si_filter_groups ix) key"
    and room: "si_next_filter_id ix + 1 < 2 ^ 64"
  shows "groups_wf (add_one_filter L key f ix)"
    and "hm_contains (si_filter_groups (add_one_filter L key f ix)) key"
proof -
  obtain gr where gr: "hm_get (si_filter_groups ix) key = Some gr"
    using key by (auto simp: hm_contains_def)
  have fresh: "hm_get (si_all_filters ix) (si_next_filter_id ix) = None"
    using g by (rule next_id_fresh)
  show "hm_contains (si_filter_groups (add_one_filter L key f ix)) key"
    by (simp add: gr hm_contains_def hm_simps)
  show "groups_wf (add_one_filter L key f ix)"
    using g room gr fresh unfolding groups_wf_def
    by (auto simp: hm_simps hm_contains_def tracked_filter_new_def group_insert_id_def
        fetch_add_u64_def hm_wf_insert less_Suc_eq split: if_splits)
qed

lemma ensure_group_wf:
  assumes "index_wf L ix"
  shows "index_wf L (ensure_group key ix)" "hm_contains (si_filter_groups (ensure_group key ix)) key"
proof -
  have "index_core L (ensure_group key ix)"
    using assms by (simp add: ensure_group_def index_wf_def index_core_def buckets_invar_def
        buckets_exact_def live_def split: option.splits)
  moreover have "groups_wf (ensure_group key ix)"
    using assms unfolding index_wf_def groups_wf_def
    by (fastforce simp: ensure_group_def hm_simps hm_contains_def filter_group_new_def hm_wf_insert
        split: option.splits if_splits)
  ultimately show "index_wf L (ensure_group key ix)"
    by (simp add: index_wf_def)
  show "hm_contains (si_filter_groups (ensure_group key ix)) key"
    by (simp add: ensure_group_def hm_contains_def hm_simps split: option.splits)
qed

lemma fold_add_one_filter_wf:
  assumes "index_wf L ix" "hm_contains (si_filter_groups ix) key" "\<forall>f \<in> set fs. filter_wf f"
    "si_next_filter_id ix + length fs < 2 ^ 64"
  shows "index_wf L (fold (add_one_filter L key) fs ix) \<and>
    si_next_filter_id (fold (add_one_filter L key) fs ix) = si_next_filter_id ix + length fs"
  using assms
proof (induction fs arbitrary: ix)
  case (Cons f fs)
  have "index_wf L (add_one_filter L key f ix)"
    using Cons.prems by (simp add: index_wf_def add_one_filter_core add_one_filter_groups)
  moreover have "si_next_filter_id (add_one_filter L key f ix) = si_next_filter_id ix + 1"
    using Cons.prems by (simp add: fetch_add_u64_def)
  ultimately show ?case
    using Cons.IH [of "add_one_filter L key f ix"] Cons.prems
      add_one_filter_groups(2) [of ix key L f]
    by (simp add: index_wf_def del: add_one_filter_fields)
qed simp

lemma ensure_group_fields [simp]:
  "si_next_filter_id (ensure_group key ix) = si_next_filter_id ix"
  "si_all_filters (ensure_group key ix) = si_all_filters ix"
  "si_filter_last_seen (ensure_group key ix) = si_filter_last_seen ix"
  by (simp_all add: ensure_group_def split: option.splits)

lemma si_add_subscription_wf:
  assumes "index_wf L ix" "\<forall>f \<in> set fs. filter_wf f" "si_next_filter_id ix + length fs < 2 ^ 64"
  shows "index_wf L (si_add_subscription L c s fs ix)"
    and "si_next_filter_id (si_add_subscription L c s fs ix) = si_next_filter_id ix + length fs"
  using fold_add_one_filter_wf [OF ensure_group_wf [OF assms(1)] assms(2)] assms(3)
  by (simp_all add: si_add_subscription_def)

lemma si_new_wf: "index_wf L si_new"
  by (auto simp: si_new_def index_wf_def index_core_def groups_wf_def buckets_invar_def
      buckets_exact_def live_def flat.exact_def nested.exact_def bucket_get_def tag_get_def
      bucket_invar_def tag_invar_def)

section \<open>Removing a subscription\<close>

lemma remove_one_filter_fields [simp]:
  "hm_get (si_all_filters (remove_one_filter L fid ix)) k =
     (if k = fid then None else hm_get (si_all_filters ix) k)"
  "si_all_filters (remove_one_filter L fid ix) = hm_remove fid (si_all_filters ix)"
  "si_filter_groups (remove_one_filter L fid ix) = si_filter_groups ix"
  "si_next_filter_id (remove_one_filter L fid ix) = si_next_filter_id ix"
  "si_filter_last_seen (remove_one_filter L fid ix) = si_filter_last_seen ix"
  by (simp_all add: remove_one_filter_def hm_simps hm_remove_absent split: option.splits)

lemma live_unique:
  "index_core L ix \<Longrightarrow> f \<in> live ix \<Longrightarrow> g \<in> live ix \<Longrightarrow> tf_id f = tf_id g \<Longrightarrow> f = g"
  by (auto simp: index_core_def live_def ran_def tracked_wf_def)

lemma live_iff: "index_core L ix \<Longrightarrow> tf \<in> live ix \<longleftrightarrow> hm_get (si_all_filters ix) (tf_id tf) = Some tf"
  by (auto simp: index_core_def live_def ran_def tracked_wf_def)

lemma core_all_wf: "index_core L ix \<Longrightarrow> hm_wf (si_all_filters ix)"
  by (simp add: index_core_def)

lemma core_id: "index_core L ix \<Longrightarrow> hm_get (si_all_filters ix) fid = Some tf \<Longrightarrow> tf_id tf = fid"
  by (simp add: index_core_def tracked_wf_def)

lemma index_wf_all_get:
  "index_wf L ix \<Longrightarrow> (fid, tf) \<in> set (si_all_filters ix) \<Longrightarrow> hm_get (si_all_filters ix) fid = Some tf"
  unfolding index_wf_def by (blast intro: map_of_is_SomeI core_all_wf)

lemma index_wf_group:
  assumes "index_wf L ix"
  shows "hm_get (si_filter_groups ix) key = Some g \<Longrightarrow> hm_get (si_all_filters ix) fid = Some tf \<Longrightarrow>
      fid \<in> set (fg_filter_ids g) \<longleftrightarrow> tf_parent tf = key"
    and "hm_get (si_filter_groups ix) key = None \<Longrightarrow> hm_get (si_all_filters ix) fid = Some tf \<Longrightarrow>
      tf_parent tf \<noteq> key"
  using assms unfolding index_wf_def groups_wf_def hm_contains_def by (auto, metis option.discI)

lemma remove_one_filter_core:
  assumes core: "index_core L ix"
  shows "index_core L (remove_one_filter L fid ix)"
proof (cases "hm_get (si_all_filters ix) fid")
  case (Some tf)
  define ix1 where "ix1 = ix\<lparr>si_all_filters := hm_remove fid (si_all_filters ix)\<rparr>"
  have step: "remove_one_filter L fid ix = remove_filter_from_indexes L tf ix1"
    by (simp add: remove_one_filter_def Some ix1_def)
  have tf: "tf \<in> live ix" "tf_id tf = fid"
    using core Some by (auto simp: index_core_def live_def ran_def tracked_wf_def)
  have "live ix1 = live ix - {tf}"
  proof (rule set_eqI)
    fix h
    have "h \<in> live ix1 \<longleftrightarrow> hm_get (si_all_filters ix) (tf_id h) = Some h \<and> tf_id h \<noteq> fid"
      using core_id [OF core] by (auto simp: live_def ran_def ix1_def hm_simps)
    then show "h \<in> live ix1 \<longleftrightarrow> h \<in> live ix - {tf}"
      using live_unique [OF core, of h tf] tf by (auto simp: live_iff [OF core])
  qed
  moreover have "buckets_invar ix1" "buckets_exact L (live ix) ix1"
    using core by (simp_all add: index_core_def buckets_invar_def buckets_exact_def ix1_def)
  moreover have "live (remove_filter_from_indexes L tf ix1) = live ix1"
    by (simp add: live_def)
  ultimately have "buckets_invar (remove_one_filter L fid ix)"
    "buckets_exact L (live (remove_one_filter L fid ix)) (remove_one_filter L fid ix)"
    using remove_filter_buckets_invar remove_filter_buckets_exact [OF _ _ tf(1)]
      live_unique [OF core _ tf(1)] by (auto simp: step)
  then show ?thesis
    using core unfolding index_core_def by (auto simp: hm_wf_remove hm_simps split: if_splits)
qed (use core in \<open>simp add: remove_one_filter_def\<close>)

lemma fold_remove_one_filter:
  "index_core L ix \<Longrightarrow> index_core L (fold (remove_one_filter L) fids ix)"
  "si_all_filters (fold (remove_one_filter L) fids ix) =
     List.filter (\<lambda>x. fst x \<notin> set fids) (si_all_filters ix)"
  "si_filter_groups (fold (remove_one_filter L) fids ix) = si_filter_groups ix"
  "si_next_filter_id (fold (remove_one_filter L) fids ix) = si_next_filter_id ix"
  "si_filter_last_seen (fold (remove_one_filter L) fids ix) = si_filter_last_seen ix"
  by (induction fids arbitrary: ix)
    (auto simp: remove_one_filter_core hm_remove_filter intro!: filter_cong)

lemma si_remove_subscription_fields [simp]:
  "si_filter_groups (si_remove_subscription L c s ix) = hm_remove (c, s) (si_filter_groups ix)"
  "si_next_filter_id (si_remove_subscription L c s ix) = si_next_filter_id ix"
  "si_filter_last_seen (si_remove_subscription L c s ix) = si_filter_last_seen ix"
  by (simp_all add: si_remove_subscription_def fold_remove_one_filter hm_remove_absent
      split: option.splits)

lemma si_remove_subscription_all_filters:
  assumes "index_wf L ix"
  shows "si_all_filters (si_remove_subscription L c s ix) =
    List.filter (\<lambda>x. tf_parent (snd x) \<noteq> (c, s)) (si_all_filters ix)"
proof -
  note * = index_wf_all_get [OF assms]
  show ?thesis
  proof (cases "hm_get (si_filter_groups ix) (c, s)")
    case None
    then have "\<forall>x \<in> set (si_all_filters ix). tf_parent (snd x) \<noteq> (c, s)"
      using index_wf_group(2) [OF assms, of "(c, s)"] * by force
    then show ?thesis
      by (simp add: si_remove_subscription_def None)
  next
    case (Some g)
    have "fst x \<in> set (fg_filter_ids g) \<longleftrightarrow> tf_parent (snd x) = (c, s)"
      if "x \<in> set (si_all_filters ix)" for x
      using index_wf_group(1) [OF assms Some] * [of "fst x" "snd x"] that by simp
    then show ?thesis
      by (simp add: si_remove_subscription_def Some fold_remove_one_filter cong: filter_cong)
  qed
qed

lemma si_remove_subscription_get:
  assumes "index_wf L ix"
  shows "hm_get (si_all_filters (si_remove_subscription L c s ix)) fid =
    (case hm_get (si_all_filters ix) fid of
       None \<Rightarrow> None | Some tf \<Rightarrow> if tf_parent tf = (c, s) then None else Some tf)"
  using assms hm_get_filter_val [of "si_all_filters ix" "\<lambda>tf. tf_parent tf \<noteq> (c, s)" fid]
  by (auto simp: si_remove_subscription_all_filters [OF assms] index_wf_def index_core_def
      split: option.splits)

lemma si_remove_subscription_wf:
  assumes "index_wf L ix"
  shows "index_wf L (si_remove_subscription L c s ix)"
proof -
  have "index_core L (ix\<lparr>si_filter_groups := gs\<rparr>)" for gs
    using assms by (simp add: index_wf_def index_core_def live_def buckets_invar_def buckets_exact_def)
  then have "index_core L (si_remove_subscription L c s ix)"
    using assms by (simp add: si_remove_subscription_def fold_remove_one_filter index_wf_def
        split: option.splits)
  moreover have "groups_wf (si_remove_subscription L c s ix)"
    using assms unfolding index_wf_def groups_wf_def
    by (auto simp: si_remove_subscription_get [OF assms] hm_simps hm_contains_def hm_wf_remove
        split: option.splits if_splits)
  ultimately show ?thesis
    by (simp add: index_wf_def)
qed

end
