(* ===== verification/Subscription_Index_Distribution.thy ===== *)
theory Subscription_Index_Distribution
  imports Subscription_Index_Correct
begin

text \<open>
  What the subscription index promises to its clients: an abstract table of subscriptions that
  adding and removing refine, and the correctness of distribution, where the indexed search with
  its two levels of deduplication is compared with a scan of all filters.
\<close>

section \<open>The abstract table\<close>

type_synonym sub_key = "connection_id \<times> subscription_id"
type_synonym sub_table = "sub_key \<rightharpoonup> filter multiset"

definition filters_of :: "subscription_index \<Rightarrow> sub_key \<Rightarrow> filter list" where
  "filters_of ix key =
     map (tf_filter \<circ> snd) (List.filter (\<lambda>x. tf_parent (snd x) = key) (si_all_filters ix))"

definition index_abs :: "subscription_index \<Rightarrow> sub_table" where
  "index_abs ix key =
     (if hm_contains (si_filter_groups ix) key then Some (mset (filters_of ix key)) else None)"

definition table_add :: "sub_key \<Rightarrow> filter list \<Rightarrow> sub_table \<Rightarrow> sub_table" where
  "table_add key fs t =
     t(key \<mapsto> (case t key of None \<Rightarrow> {#} | Some old \<Rightarrow> old) + mset fs)"

lemma index_abs_ensure_group:
  assumes "index_wf L ix"
  shows "index_abs (ensure_group key ix) = table_add key [] (index_abs ix)"
proof -
  have "filters_of ix key = []" if "hm_get (si_filter_groups ix) key = None"
    using index_wf_group(2) [OF assms that] index_wf_all_get [OF assms]
    by (fastforce simp: filters_of_def filter_empty_conv)
  moreover have "filters_of (ensure_group key ix) = filters_of ix"
    by (simp add: filters_of_def fun_eq_iff)
  ultimately show ?thesis
    by (auto simp: fun_eq_iff index_abs_def table_add_def ensure_group_def hm_contains_def hm_simps
        split: option.splits)
qed

lemma index_abs_add_one:
  assumes "groups_wf ix" "hm_contains (si_filter_groups ix) key"
  shows "index_abs (add_one_filter L key f ix) = table_add key [f] (index_abs ix)"
  using assms(2) next_id_fresh [OF assms(1)]
  by (auto simp: fun_eq_iff index_abs_def table_add_def hm_contains_def hm_simps hm_insert_fresh
      tracked_filter_new_def filters_of_def split: option.splits)

lemma table_add_append: "table_add key gs (table_add key fs t) = table_add key (fs @ gs) t"
  by (simp add: table_add_def fun_eq_iff)

lemma index_abs_fold_add:
  assumes "index_wf L ix" "hm_contains (si_filter_groups ix) key" "\<forall>f \<in> set fs. filter_wf f"
    "si_next_filter_id ix + length fs < 2 ^ 64"
  shows "index_abs (fold (add_one_filter L key) fs ix) = table_add key fs (index_abs ix)"
  using assms
proof (induction fs arbitrary: ix)
  case Nil
  then show ?case
    by (auto simp: index_abs_def table_add_def fun_eq_iff)
next
  case (Cons f fs)
  have "index_wf L (add_one_filter L key f ix)"
    "hm_contains (si_filter_groups (add_one_filter L key f ix)) key"
    using Cons.prems fold_add_one_filter_wf [of L ix key "[f]"] add_one_filter_groups(2) [of ix key L f]
    by (simp_all add: index_wf_def del: add_one_filter_fields(2-4))
  moreover have "si_next_filter_id (add_one_filter L key f ix) = si_next_filter_id ix + 1"
    using Cons.prems by (simp add: fetch_add_u64_def)
  ultimately show ?case
    using Cons by (simp add: index_abs_add_one index_wf_def table_add_append del: add_one_filter_fields)
qed

lemma index_abs_add:
  assumes "index_wf L ix" "\<forall>f \<in> set fs. filter_wf f" "si_next_filter_id ix + length fs < 2 ^ 64"
  shows "index_abs (si_add_subscription L c s fs ix) = table_add (c, s) fs (index_abs ix)"
  using index_abs_fold_add [OF ensure_group_wf [OF assms(1)] assms(2)] assms(3)
  by (simp add: si_add_subscription_def index_abs_ensure_group [OF assms(1)] table_add_append)

lemma index_abs_remove:
  assumes "index_wf L ix"
  shows "index_abs (si_remove_subscription L c s ix) = (index_abs ix)((c, s) := None)"
proof -
  have "filters_of (si_remove_subscription L c s ix) key = filters_of ix key" if "key \<noteq> (c, s)" for key
    using that
    by (auto simp: filters_of_def si_remove_subscription_all_filters [OF assms] intro!: map_cong filter_cong)
  then show ?thesis
    by (auto simp: fun_eq_iff index_abs_def hm_contains_def hm_simps)
qed

section \<open>Candidates\<close>

lemma collect_filters_distinct:
  "distinct (map tf_id cs) \<Longrightarrow> set seen = tf_id ` set cs \<Longrightarrow>
     distinct (map tf_id (snd (collect_filters fs (seen, cs))))"
  by (induction fs "(seen, cs)" arbitrary: seen cs rule: collect_filters.induct) auto

lemma collect_filters_set:
  "set seen = tf_id ` set cs \<Longrightarrow> set (snd (collect_filters fs (seen, cs))) \<subseteq> set cs \<union> set fs"
  "set seen = tf_id ` set cs \<Longrightarrow>
     tf_id ` set (snd (collect_filters fs (seen, cs))) = tf_id ` (set cs \<union> set fs)"
  by (induction fs "(seen, cs)" arbitrary: seen cs rule: collect_filters.induct) auto

lemma set_tag_candidates:
  "set (tag_candidates L ti tg) = (\<Union>t \<in> set_option (slt_from_str L (tag_kind_as_str L (tag_kind tg))).
     \<Union>v \<in> set (drop 1 (tag_slice tg)). set (tag_get ti (slt_as_str L t, v)))"
proof (cases "slt_from_str L (tag_kind_as_str L (tag_kind tg))")
  case (Some t)
  then show ?thesis
    by (cases "hm_get ti (slt_as_str L t)") (simp_all add: tag_candidates_def tag_get_def)
qed (simp add: tag_candidates_def)

lemma candidate_sources_live: "index_core L ix \<Longrightarrow> set (candidate_sources L ix e) \<subseteq> live ix"
  by (auto simp: candidate_sources_def index_core_def buckets_exact_def flat.exact_def
      nested.exact_def set_tag_candidates)

text \<open>The key lemma of the index: no filter that matches the event is missed.\<close>

lemma candidate_sources_complete:
  assumes core: "index_core L ix" and sound: "match_event_sound L"
    and tf: "tf \<in> live ix" and m: "match_event L (tf_filter tf) e"
  shows "tf \<in> set (candidate_sources L ix e)"
proof -
  have wf: "filter_wf (tf_filter tf)" "tf_indexed_field tf = choose_index_field (tf_filter tf)"
    using core tf by (auto simp: index_core_def live_def ran_def tracked_wf_def)
  note fld = choose_index_field_cases [OF wf(1), folded wf(2)]
  note hit = match_event_soundD [OF sound m]
  have ex: "buckets_exact L (live ix) ix"
    using core by (simp add: index_core_def)
  show ?thesis
  proof (cases "tf_indexed_field tf")
    case None
    then show ?thesis
      using ex tf by (simp add: candidate_sources_def buckets_exact_def)
  next
    case (Some fl)
    show ?thesis
    proof (cases fl)
      case EventIdField
      then show ?thesis
        using Some fld(1) hit(1) ex tf
        by (auto simp: candidate_sources_def buckets_exact_def flat.exact_def field_keys_defs)
    next
      case AuthorField
      then show ?thesis
        using Some fld(2) hit(2) ex tf
        by (auto simp: candidate_sources_def buckets_exact_def flat.exact_def field_keys_defs)
    next
      case KindField
      then show ?thesis
        using Some fld(3) hit(3) ex tf
        by (auto simp: candidate_sources_def buckets_exact_def flat.exact_def field_keys_defs)
    next
      case (TagField t)
      obtain vs where vs: "hm_get (f_generic_tags (tf_filter tf)) t = Some vs"
        "(t, vs) \<in> set (f_generic_tags (tf_filter tf))" "vs \<noteq> []"
        using fld(4) [of t] Some TagField by blast
      obtain tg v where tg: "tg \<in> set (ev_tags e)" "v \<in> set vs" "v \<in> set (drop 1 (tag_slice tg))"
        "slt_from_str L (tag_kind_as_str L (tag_kind tg)) = Some t"
        using hit(4) [OF vs(2,3)] by (auto simp: tag_has_value_def)
      have "(slt_as_str L t, v) \<in> tag_keys L tf"
        using tg Some TagField vs by (simp add: tag_keys_def tag_arg_def tag_keys_of_def)
      then have "tf \<in> set (tag_get (si_tags ix) (slt_as_str L t, v))"
        using ex tf by (simp add: buckets_exact_def nested.exact_def)
      then have "tf \<in> set (tag_candidates L (si_tags ix) tg)"
        using tg by (auto simp: set_tag_candidates)
      then show ?thesis
        using tg(1) by (auto simp: candidate_sources_def)
    qed
  qed
qed

lemma candidates:
  assumes core: "index_core L ix"
  shows "distinct (map tf_id (get_candidate_filters L ix e))"
    and "set (get_candidate_filters L ix e) = set (candidate_sources L ix e)"
proof -
  show "distinct (map tf_id (get_candidate_filters L ix e))"
    by (simp add: get_candidate_filters_def collect_filters_distinct)
  let ?S = "set (candidate_sources L ix e)" and ?C = "set (get_candidate_filters L ix e)"
  have "?C \<subseteq> ?S" "tf_id ` ?C = tf_id ` ?S"
    using collect_filters_set [of "[]" "[]" "candidate_sources L ix e"]
    by (simp_all add: get_candidate_filters_def)
  moreover have "inj_on tf_id ?S"
    using candidate_sources_live [OF core] live_unique [OF core] by (blast intro: inj_onI)
  ultimately show "?C = ?S"
    by (metis inj_on_image_eq_iff subset_refl)
qed

section \<open>The distribution loop\<close>

text \<open>A subscription is hit when one of its filters matches an event that filter has not seen
  last.\<close>

definition hit :: "nostr_lib \<Rightarrow> event \<Rightarrow> subscription_index \<Rightarrow> tracked_filter list \<Rightarrow> sub_key \<Rightarrow> bool" where
  "hit L e ix fs key \<longleftrightarrow> (\<exists>f \<in> set fs. tf_parent f = key \<and> match_event L (tf_filter f) e \<and>
     \<not> filter_has_seen ix f (ev_id e))"

definition group_unseen :: "event \<Rightarrow> subscription_index \<Rightarrow> sub_key \<Rightarrow> bool" where
  "group_unseen e ix key \<longleftrightarrow>
     (\<exists>g. hm_get (si_filter_groups ix) key = Some g \<and> \<not> group_has_seen g (ev_id e))"

definition same_index :: "subscription_index \<Rightarrow> subscription_index \<Rightarrow> bool" where
  "same_index ix ix' \<longleftrightarrow> si_authors ix' = si_authors ix \<and> si_kinds ix' = si_kinds ix \<and>
     si_event_ids ix' = si_event_ids ix \<and> si_tags ix' = si_tags ix \<and>
     si_match_all ix' = si_match_all ix \<and> si_all_filters ix' = si_all_filters ix \<and>
     si_next_filter_id ix' = si_next_filter_id ix \<and>
     hm_keys (si_filter_groups ix') = hm_keys (si_filter_groups ix)"

lemma filter_mark_seen_fields [simp]:
  "si_filter_groups (filter_mark_seen f eid ix) = si_filter_groups ix"
  "si_filter_last_seen (filter_mark_seen f eid ix) = (si_filter_last_seen ix)(tf_id f := Some eid)"
  "same_index (filter_mark_seen f eid ix) ix' = same_index ix ix'"
  by (simp_all add: filter_mark_seen_def same_index_def)

text \<open>How the two conditions change in a turn of the loop.\<close>

lemma hit_simps:
  "\<not> hit L e ix [] key"
  "hit L e ix (f # fs) key \<longleftrightarrow>
     tf_parent f = key \<and> match_event L (tf_filter f) e \<and> \<not> filter_has_seen ix f (ev_id e) \<or>
     hit L e ix fs key"
  "tf_id f \<notin> tf_id ` set fs \<Longrightarrow> hit L e (filter_mark_seen f eid ix) fs key = hit L e ix fs key"
  "hit L e (ix\<lparr>si_filter_groups := gs\<rparr>) fs key = hit L e ix fs key"
  unfolding hit_def filter_has_seen_def filter_mark_seen_fields
  by (simp, simp, rule bex_cong, simp, metis fun_upd_other imageI, simp)

lemma group_unseen_mark [simp]:
  "group_unseen e (filter_mark_seen f eid ix) key = group_unseen e ix key"
  by (simp add: group_unseen_def)

definition mark_group :: "event \<Rightarrow> sub_key \<Rightarrow> subscription_index \<Rightarrow> subscription_index" where
  "mark_group e key ix = (case hm_get (si_filter_groups ix) key of
     None \<Rightarrow> ix
   | Some g \<Rightarrow> ix\<lparr>si_filter_groups :=
       hm_insert key (group_mark_seen (ev_id e) g) (si_filter_groups ix)\<rparr>)"

lemma distribute_loop_Cons:
  assumes "tf_id f \<notin> set cf"
  shows "distribute_loop L e (f # fs) cf cg acc ix =
    (let rest = distribute_loop L e fs (tf_id f # cf); ix1 = filter_mark_seen f (ev_id e) ix;
         key = tf_parent f
     in if filter_has_seen ix f (ev_id e) \<or> \<not> match_event L (tf_filter f) e then rest cg acc ix
        else if key \<in> set cg then rest cg acc ix1
        else if group_unseen e ix key then rest (key # cg) (acc @ [key]) (mark_group e key ix1)
        else rest (key # cg) acc ix1)"
  using assms
  by (auto simp: Let_def group_unseen_def mark_group_def split: option.splits)

lemma mark_group_simps:
  "hit L e (mark_group e' key ix) fs k = hit L e ix fs k"
  "group_unseen e (mark_group e key ix) k \<longleftrightarrow> k \<noteq> key \<and> group_unseen e ix k"
  "si_filter_last_seen (mark_group e key ix) = si_filter_last_seen ix"
  "same_index (mark_group e key ix) ix' = same_index ix ix'"
proof -
  show "group_unseen e (mark_group e key ix) k \<longleftrightarrow> k \<noteq> key \<and> group_unseen e ix k"
    by (auto simp: mark_group_def group_unseen_def hm_simps group_has_seen_def group_mark_seen_def
        split: option.splits)
qed (auto simp: mark_group_def hit_simps same_index_def update_keys hm_keys_get dest: hm_get_in_keys
    split: option.splits)

lemma distribute_loop_result:
  assumes "distinct (map tf_id fs)" "set cf \<inter> tf_id ` set fs = {}"
  shows "k \<in> set (fst (distribute_loop L e fs cf cg acc ix)) \<longleftrightarrow>
    k \<in> set acc \<or> k \<notin> set cg \<and> group_unseen e ix k \<and> hit L e ix fs k"
  using assms
proof (induction fs arbitrary: cf cg acc ix)
  case (Cons f fs)
  have pre: "distinct (map tf_id fs)" "set (tf_id f # cf) \<inter> tf_id ` set fs = {}"
    "tf_id f \<notin> tf_id ` set fs" "tf_id f \<notin> set cf"
    using Cons.prems by auto
  note IH = Cons.IH [OF pre(1,2)] and step = distribute_loop_Cons [OF pre(4)]
  show ?case
    unfolding step Let_def hit_simps(2)
    by (simp add: IH hit_simps(3) [OF pre(3)] mark_group_simps) blast
qed (simp add: hit_simps)

lemma distribute_loop_distinct:
  "distinct acc \<Longrightarrow> set acc \<subseteq> set cg \<Longrightarrow> distinct (fst (distribute_loop L e fs cf cg acc ix))"
proof (induction fs arbitrary: cf cg acc ix)
  case (Cons f fs)
  show ?case
  proof (cases "tf_id f \<in> set cf")
    case False
    have "distinct (acc @ [tf_parent f])" "set (acc @ [tf_parent f]) \<subseteq> set (tf_parent f # cg)"
      if "tf_parent f \<notin> set cg"
      using Cons.prems that by auto
    moreover have "set acc \<subseteq> set (tf_parent f # cg)"
      using Cons.prems by auto
    ultimately show ?thesis
      unfolding distribute_loop_Cons [OF False] Let_def using Cons by (simp del: set_append set_simps)
  qed (use Cons in simp)
qed simp

lemma distribute_loop_same_index:
  assumes "distinct (map tf_id fs)" "set cf \<inter> tf_id ` set fs = {}"
  shows "same_index ix (snd (distribute_loop L e fs cf cg acc ix))"
  using assms
proof (induction fs arbitrary: cf cg acc ix)
  case (Cons f fs)
  have pre: "distinct (map tf_id fs)" "set (tf_id f # cf) \<inter> tf_id ` set fs = {}" "tf_id f \<notin> set cf"
    using Cons.prems by auto
  note IH = Cons.IH [OF pre(1,2)]
  have "same_index ix (snd (distribute_loop L e fs (tf_id f # cf) cg acc (filter_mark_seen f (ev_id e) ix)))"
    "same_index ix (snd (distribute_loop L e fs (tf_id f # cf) cg acc
       (mark_group e (tf_parent f) (filter_mark_seen f (ev_id e) ix))))" for cg acc
    using IH [of "filter_mark_seen f (ev_id e) ix"]
      IH [of "mark_group e (tf_parent f) (filter_mark_seen f (ev_id e) ix)"]
    by (simp_all add: mark_group_simps)
  with IH show ?case
    unfolding distribute_loop_Cons [OF pre(3)] Let_def by simp
qed (simp add: same_index_def)

lemma distribute_loop_last_seen:
  assumes "distinct (map tf_id fs)" "set cf \<inter> tf_id ` set fs = {}"
  shows "si_filter_last_seen (snd (distribute_loop L e fs cf cg acc ix)) i =
    (if \<exists>f \<in> set fs. tf_id f = i \<and> match_event L (tf_filter f) e then Some (ev_id e)
     else si_filter_last_seen ix i)"
  using assms
proof (induction fs arbitrary: cf cg acc ix)
  case (Cons f fs)
  have pre: "distinct (map tf_id fs)" "set (tf_id f # cf) \<inter> tf_id ` set fs = {}" "tf_id f \<notin> set cf"
    using Cons.prems by auto
  define fresh where "fresh \<longleftrightarrow> match_event L (tf_filter f) e \<and> \<not> filter_has_seen ix f (ev_id e)"
  define send where "send \<longleftrightarrow> tf_parent f \<notin> set cg \<and> group_unseen e ix (tf_parent f)"
  define ix' where "ix' = (if \<not> fresh then ix
    else if send then mark_group e (tf_parent f) (filter_mark_seen f (ev_id e) ix)
    else filter_mark_seen f (ev_id e) ix)"
  have "distribute_loop L e (f # fs) cf cg acc ix = distribute_loop L e fs (tf_id f # cf)
      (if fresh \<and> tf_parent f \<notin> set cg then tf_parent f # cg else cg)
      (if fresh \<and> send then acc @ [tf_parent f] else acc) ix'"
    unfolding distribute_loop_Cons [OF pre(3)] by (simp add: Let_def fresh_def send_def ix'_def)
  moreover have "si_filter_last_seen ix' = (if match_event L (tf_filter f) e
       then (si_filter_last_seen ix)(tf_id f := Some (ev_id e)) else si_filter_last_seen ix)"
    by (auto simp: fresh_def ix'_def mark_group_simps filter_has_seen_def fun_upd_idem)
  ultimately show ?case
    by (auto simp: Cons.IH [OF pre(1,2)] simp del: distribute_loop.simps)
qed simp

lemma distribute_loop_group:
  assumes "hm_get (si_filter_groups ix) k = Some g"
  shows "\<exists>ls. hm_get (si_filter_groups (snd (distribute_loop L e fs cf cg acc ix))) k =
    Some (g\<lparr>fg_last_seen := ls\<rparr>)"
  using assms
proof (induction fs arbitrary: cf cg acc ix g)
  case (Cons f fs)
  let ?ix1 = "filter_mark_seen f (ev_id e) ix"
  have 1: "\<exists>ls. hm_get (si_filter_groups (snd (distribute_loop L e fs cf cg acc ?ix1))) k =
      Some (g\<lparr>fg_last_seen := ls\<rparr>)" for cf cg acc
    using Cons by simp
  have "\<exists>ls. hm_get (si_filter_groups (mark_group e (tf_parent f) ?ix1)) k =
      Some (g\<lparr>fg_last_seen := ls\<rparr>)"
    using Cons.prems unfolding mark_group_def
    by (cases "k = tf_parent f") (auto simp: hm_simps group_mark_seen_def split: option.splits
        intro: exI [of _ "fg_last_seen g"])
  then have 2: "\<exists>ls. hm_get (si_filter_groups (snd (distribute_loop L e fs cf cg acc
      (mark_group e (tf_parent f) ?ix1)))) k = Some (g\<lparr>fg_last_seen := ls\<rparr>)" for cf cg acc
    using Cons.IH by fastforce
  show ?case
  proof (cases "tf_id f \<in> set cf")
    case False
    show ?thesis
      unfolding distribute_loop_Cons [OF False] Let_def using 1 2 Cons by (simp split: if_split)
  qed (use Cons in simp)
qed (metis distribute_loop.simps(1) filter_group.surjective filter_group.update_convs(3) snd_conv)

section \<open>Distribution\<close>

lemma same_index_wf:
  assumes wf: "index_wf L ix" and same: "same_index ix ix'"
    and g: "\<And>k g. hm_get (si_filter_groups ix) k = Some g \<Longrightarrow>
      \<exists>ls. hm_get (si_filter_groups ix') k = Some (g\<lparr>fg_last_seen := ls\<rparr>)"
  shows "index_wf L ix'"
proof -
  have "index_core L ix'"
    using wf same by (simp add: index_wf_def index_core_def same_index_def live_def buckets_invar_def
        buckets_exact_def)
  moreover have orig: "\<exists>g0 ls. hm_get (si_filter_groups ix) k = Some g0 \<and> g = g0\<lparr>fg_last_seen := ls\<rparr>"
    if "hm_get (si_filter_groups ix') k = Some g" for k g
  proof -
    have "k \<in> set (hm_keys (si_filter_groups ix))"
      using hm_get_in_keys [OF that] same by (simp add: same_index_def del: set_map)
    then obtain g0 where "hm_get (si_filter_groups ix) k = Some g0"
      by (auto simp only: hm_keys_get)
    with g [OF this] that show ?thesis
      by auto
  qed
  moreover have "hm_contains (si_filter_groups ix') k" if "hm_contains (si_filter_groups ix) k" for k
    using that g by (fastforce simp: hm_contains_def)
  ultimately show ?thesis
    using wf same unfolding index_wf_def groups_wf_def same_index_def by (fastforce dest!: orig)
qed

lemmas distribute_start =
  distribute_loop_result [where cf = "[]" and cg = "[]" and acc = "[]", simplified]
  distribute_loop_distinct [where cf = "[]" and cg = "[]" and acc = "[]", simplified]

lemma si_distribute_event_wf:
  assumes "index_wf L ix"
  shows "index_wf L (snd (si_distribute_event L e ix))"
    and "same_index ix (snd (si_distribute_event L e ix))"
proof -
  show same: "same_index ix (snd (si_distribute_event L e ix))"
    using assms candidates(1) by (simp add: si_distribute_event_def index_wf_def distribute_loop_same_index)
  show "index_wf L (snd (si_distribute_event L e ix))"
    by (rule same_index_wf [OF assms same]) (simp add: si_distribute_event_def distribute_loop_group)
qed

lemma si_distribute_event_result:
  assumes wf: "index_wf L ix" and sound: "match_event_sound L"
  shows "distinct (fst (si_distribute_event L e ix))"
    and "set (fst (si_distribute_event L e ix)) = {key. group_unseen e ix key \<and>
      (\<exists>f \<in> live ix. tf_parent f = key \<and> match_event L (tf_filter f) e \<and>
         \<not> filter_has_seen ix f (ev_id e))}"
proof -
  have core: "index_core L ix"
    using wf by (simp add: index_wf_def)
  show "distinct (fst (si_distribute_event L e ix))"
    by (simp add: si_distribute_event_def distribute_start)
  have "hit L e ix (get_candidate_filters L ix e) key \<longleftrightarrow> (\<exists>f \<in> live ix. tf_parent f = key \<and>
      match_event L (tf_filter f) e \<and> \<not> filter_has_seen ix f (ev_id e))" for key
    using candidate_sources_complete [OF core sound, of _ e] candidate_sources_live [OF core, of e]
    unfolding hit_def candidates(2) [OF core] by blast
  then show "set (fst (si_distribute_event L e ix)) = {key. group_unseen e ix key \<and>
      (\<exists>f \<in> live ix. tf_parent f = key \<and> match_event L (tf_filter f) e \<and>
         \<not> filter_has_seen ix f (ev_id e))}"
    using candidates(1) [OF core] by (auto simp: si_distribute_event_def distribute_start)
qed

text \<open>An event is new to the index when no filter and no subscription has it as its last one.\<close>

definition event_new_to :: "event \<Rightarrow> subscription_index \<Rightarrow> bool" where
  "event_new_to e ix \<longleftrightarrow> (\<forall>fid. si_filter_last_seen ix fid \<noteq> Some (ev_id e)) \<and>
     (\<forall>key g. hm_get (si_filter_groups ix) key = Some g \<longrightarrow> fg_last_seen g \<noteq> Some (ev_id e))"

text \<open>The reference: a scan of every filter of every subscription.\<close>

definition scan_distribute :: "nostr_lib \<Rightarrow> event \<Rightarrow> subscription_index \<Rightarrow> sub_key list" where
  "scan_distribute L e ix = List.filter
     (\<lambda>key. list_ex (\<lambda>f. match_event L f e) (filters_of ix key)) (hm_keys (si_filter_groups ix))"

lemma set_filters_of: "index_wf L ix \<Longrightarrow>
    set (filters_of ix key) = {tf_filter f |f. f \<in> live ix \<and> tf_parent f = key}"
  by (force simp: filters_of_def live_def ran_def dest: index_wf_all_get map_of_SomeD)

lemma distribute_eq_scan:
  assumes wf: "index_wf L ix" and sound: "match_event_sound L" and new: "event_new_to e ix"
  shows "mset (fst (si_distribute_event L e ix)) = mset (scan_distribute L e ix)"
proof -
  note res = si_distribute_event_result [OF wf sound]
  have "hm_wf (si_filter_groups ix)"
    using wf by (simp add: index_wf_def groups_wf_def)
  then have "distinct (scan_distribute L e ix)"
    by (simp add: scan_distribute_def)
  moreover have "group_unseen e ix key \<longleftrightarrow> key \<in> set (hm_keys (si_filter_groups ix))" for key
    using new by (auto simp: group_unseen_def group_has_seen_def event_new_to_def hm_keys_get
        simp del: set_map)
  then have "set (fst (si_distribute_event L e ix)) = set (scan_distribute L e ix)"
    using new unfolding res(2) scan_distribute_def
    by (auto simp: set_filters_of [OF wf] list_ex_iff filter_has_seen_def event_new_to_def)
  ultimately show ?thesis
    using res(1) set_eq_iff_mset_eq_distinct by blast
qed

lemma distribute_twice:
  assumes wf: "index_wf L ix" and sound: "match_event_sound L"
  shows "fst (si_distribute_event L e (snd (si_distribute_event L e ix))) = []"
proof -
  let ?ix1 = "snd (si_distribute_event L e ix)"
  have core: "index_core L ix"
    using wf by (simp add: index_wf_def)
  have "filter_has_seen ?ix1 f (ev_id e)" if "f \<in> live ix" "match_event L (tf_filter f) e" for f
    using that candidate_sources_complete [OF core sound that] candidates [OF core, of e]
    by (auto simp: filter_has_seen_def si_distribute_event_def distribute_loop_last_seen)
  moreover have "live ?ix1 = live ix"
    using si_distribute_event_wf(2) [OF wf, of e] by (simp add: same_index_def live_def)
  ultimately have "set (fst (si_distribute_event L e ?ix1)) = {}"
    using si_distribute_event_result(2) [OF si_distribute_event_wf(1) [OF wf] sound] by auto
  then show ?thesis
    by simp
qed

section \<open>Histories\<close>

text \<open>Any sequence of the three operations of the index, against the abstract table.\<close>

datatype index_op =
    IxAdd connection_id subscription_id "filter list"
  | IxRemove connection_id subscription_id
  | IxDistribute event

primrec index_step :: "nostr_lib \<Rightarrow> index_op \<Rightarrow> subscription_index \<Rightarrow> subscription_index" where
  "index_step L (IxAdd c s fs) ix = si_add_subscription L c s fs ix"
| "index_step L (IxRemove c s) ix = si_remove_subscription L c s ix"
| "index_step L (IxDistribute e) ix = snd (si_distribute_event L e ix)"

primrec table_step :: "index_op \<Rightarrow> sub_table \<Rightarrow> sub_table" where
  "table_step (IxAdd c s fs) t = table_add (c, s) fs t"
| "table_step (IxRemove c s) t = t((c, s) := None)"
| "table_step (IxDistribute e) t = t"

primrec op_ok :: "index_op \<Rightarrow> bool" where
  "op_ok (IxAdd c s fs) \<longleftrightarrow> list_all filter_wf fs"
| "op_ok (IxRemove c s) \<longleftrightarrow> True"
| "op_ok (IxDistribute e) \<longleftrightarrow> True"

primrec op_cost :: "index_op \<Rightarrow> nat" where
  "op_cost (IxAdd c s fs) = length fs"
| "op_cost (IxRemove c s) = 0"
| "op_cost (IxDistribute e) = 0"

lemma same_index_abs: "same_index ix ix' \<Longrightarrow> index_abs ix' = index_abs ix"
proof -
  assume same: "same_index ix ix'"
  then have "hm_contains (si_filter_groups ix') key = hm_contains (si_filter_groups ix) key" for key
    by (simp add: hm_contains_keys same_index_def del: set_map)
  then show ?thesis
    using same by (simp add: index_abs_def fun_eq_iff filters_of_def same_index_def)
qed

lemma index_step_wf:
  assumes "index_wf L ix" "op_ok op" "si_next_filter_id ix + op_cost op < 2 ^ 64"
  shows "index_wf L (index_step L op ix)"
    and "si_next_filter_id (index_step L op ix) = si_next_filter_id ix + op_cost op"
    and "index_abs (index_step L op ix) = table_step op (index_abs ix)"
proof -
  have "same_index ix (snd (si_distribute_event L e ix))" for e
    by (rule si_distribute_event_wf(2) [OF assms(1)])
  then have dist: "index_abs (snd (si_distribute_event L e ix)) = index_abs ix"
    "si_next_filter_id (snd (si_distribute_event L e ix)) = si_next_filter_id ix" for e
    using same_index_abs by (blast, simp add: same_index_def)
  show "index_wf L (index_step L op ix)"
    "si_next_filter_id (index_step L op ix) = si_next_filter_id ix + op_cost op"
    "index_abs (index_step L op ix) = table_step op (index_abs ix)"
    using assms
    by (cases op; simp add: si_add_subscription_wf si_remove_subscription_wf index_abs_add
      index_abs_remove list_all_iff dist si_distribute_event_wf(1) del: add_one_filter_fields)+
qed

lemma index_run_wf:
  assumes "index_wf L ix" "list_all op_ok ops" "si_next_filter_id ix + sum_list (map op_cost ops) < 2 ^ 64"
  shows "index_wf L (fold (index_step L) ops ix) \<and>
    index_abs (fold (index_step L) ops ix) = fold table_step ops (index_abs ix)"
  using assms by (induction ops arbitrary: ix) (simp_all add: index_step_wf)

lemma index_abs_new: "index_abs si_new = Map.empty"
  by (simp add: index_abs_def si_new_def hm_contains_def fun_eq_iff)

lemma index_empty:
  assumes wf: "index_wf L ix" and empty: "si_filter_groups ix = []"
  shows "si_all_filters ix = []" "si_authors ix = []" "si_kinds ix = []" "si_event_ids ix = []"
    "si_tags ix = []" "si_match_all ix = []"
proof -
  show all: "si_all_filters ix = []"
  proof (cases "si_all_filters ix")
    case (Cons p rest)
    then have "hm_get (si_all_filters ix) (fst p) = Some (snd p)"
      by (cases p) simp
    then show ?thesis
      using index_wf_group(2) [OF wf, of "tf_parent (snd p)" "fst p" "snd p"] empty by simp
  qed
  have ex: "buckets_exact L {} ix" and inv: "buckets_invar ix"
    using wf all by (auto simp: index_wf_def index_core_def live_def)
  have flat: "m = []" if "bucket_invar m" "\<And>k. bucket_get m k = []" for m :: "'k bucket_map"
  proof (cases m)
    case (Cons p rest)
    then have "hm_get m (fst p) = Some (snd p)"
      by (cases p) simp
    then show ?thesis
      using that(1) that(2) [of "fst p"] by (simp add: bucket_invar_def bucket_get_def)
  qed
  show "si_match_all ix = []" "si_authors ix = []" "si_kinds ix = []" "si_event_ids ix = []"
    using ex inv by (auto simp: buckets_exact_def buckets_invar_def flat.exact_def intro!: flat)
  show "si_tags ix = []"
  proof (cases "si_tags ix")
    case (Cons p rest)
    then have "hm_get (si_tags ix) (fst p) = Some (snd p)"
      by (cases p) simp
    moreover have "tag_get (si_tags ix) (fst p, v) = []" for v
      using ex by (simp add: buckets_exact_def nested.exact_def)
    ultimately have "bucket_invar (snd p)" "snd p \<noteq> []" "\<And>v. bucket_get (snd p) v = []"
      using inv by (auto simp: buckets_invar_def tag_invar_def tag_get_def)
    then show ?thesis
      using flat by blast
  qed
qed

end
