(* ===== verification/Message_Sender.thy ===== *)
theory Message_Sender
  imports Nostr_Types
begin

text \<open>
  The error type of \<open>src/src/error.rs\<close> (without backtraces), the \<open>anyhow\<close> errors of the
  middleware layer, and the position-tagged sender of \<open>src/src/nostr_middleware.rs\<close>.
\<close>

section \<open>Errors\<close>

datatype error =
    Internal string
  | WebSocket string
  | Database string
  | Protocol string
  | AuthRequired string
  | Restricted string
  | Notice string
  | Duplicate string
  | EventError string event_id
  | SubscriptionError string string

primrec error_display :: "error \<Rightarrow> string" where
  "error_display (Internal m) = ''Internal error: '' @ m"
| "error_display (WebSocket m) = ''WebSocket error: '' @ m"
| "error_display (Database m) = ''Database error: '' @ m"
| "error_display (Protocol m) = ''Protocol error: '' @ m"
| "error_display (AuthRequired m) = ''Auth required: '' @ m"
| "error_display (Restricted m) = ''Restricted: '' @ m"
| "error_display (Notice m) = ''Notice: '' @ m"
| "error_display (Duplicate m) = ''Duplicate: '' @ m"
| "error_display (EventError m _) = ''Event error: '' @ m"
| "error_display (SubscriptionError m _) = ''Subscription error: '' @ m"

text \<open>An \<open>anyhow::Error\<close> carries either an \<open>Error\<close>, which \<open>downcast_ref\<close> finds again, or a
  message.\<close>

datatype anyhow_error = FromError error | AnyhowMsg string

definition anyhow_display :: "anyhow_error \<Rightarrow> string" where
  "anyhow_display e = (case e of FromError e' \<Rightarrow> error_display e' | AnyhowMsg m \<Rightarrow> m)"

definition downcast_error :: "anyhow_error \<Rightarrow> error option" where
  "downcast_error e = (case e of FromError e' \<Rightarrow> Some e' | AnyhowMsg _ \<Rightarrow> None)"

section \<open>Sending\<close>

record message_sender =
  ms_channel :: channel
  ms_position :: nat

definition try_send_entry ::
  "nostr_lib \<Rightarrow> channel \<Rightarrow> outbound \<Rightarrow> outbox \<Rightarrow> (anyhow_error + unit) \<times> outbox" where
  "try_send_entry L ch m out = (case try_send L out ch of
     Sent \<Rightarrow> (Inr (), out @ [(ch, m)])
   | ChannelFull \<Rightarrow> (Inl (AnyhowMsg ''Channel full - client too slow''), out)
   | ChannelDisconnected \<Rightarrow> (Inl (AnyhowMsg ''Channel disconnected''), out))"

definition send :: "nostr_lib \<Rightarrow> message_sender \<Rightarrow> relay_message \<Rightarrow> outbox
  \<Rightarrow> (anyhow_error + unit) \<times> outbox" where
  "send L ms msg out = try_send_entry L (ms_channel ms) (msg, ms_position ms, None) out"

definition send_bypass :: "nostr_lib \<Rightarrow> message_sender \<Rightarrow> relay_message \<Rightarrow> outbox
  \<Rightarrow> (anyhow_error + unit) \<times> outbox" where
  "send_bypass L ms msg out =
     (let bypass_position = if ms_position ms > 0 then ms_position ms - 1 else 0
      in try_send_entry L (ms_channel ms) (msg, bypass_position, None) out)"

definition send_with_json :: "nostr_lib \<Rightarrow> message_sender \<Rightarrow> relay_message \<Rightarrow> string \<Rightarrow> outbox
  \<Rightarrow> (anyhow_error + unit) \<times> outbox" where
  "send_with_json L ms msg json out =
     try_send_entry L (ms_channel ms) (msg, ms_position ms, Some json) out"

text \<open>Whatever the channel does, a send appends at most its own message, and it reports success
  exactly when it did.\<close>

lemma try_send_entry_cases:
  obtains (sent) "try_send_entry L ch m out = (Inr (), out @ [(ch, m)])"
  | (failed) e where "try_send_entry L ch m out = (Inl e, out)"
  by (cases "try_send L out ch") (auto simp: try_send_entry_def)

lemma try_send_entry_ok [simp]:
  "try_send L = (\<lambda>_ _. Sent) \<Longrightarrow> try_send_entry L ch m out = (Inr (), out @ [(ch, m)])"
  by (simp add: try_send_entry_def)

lemmas send_defs = send_def send_bypass_def send_with_json_def

end
