(* ===== verification/Subscription_Registry.thy ===== *)
theory Subscription_Registry
  imports Subscription_Index_Distribution Message_Sender
begin

text \<open>
  The registry of \<open>src/src/subscription_registry.rs\<close>: the connections with their subscriptions,
  one subscription index per scope, and the distribution of a stored event to the channels of
  the matching connections. Each \<open>async\<close> operation is one state transformer; the calls to the
  metrics handler are logged in \<open>rg_metrics_log\<close>.
\<close>

datatype subscription_metric = IncrementActive | DecrementActive nat

record connection_subscriptions =
  cs_subscriptions :: "(subscription_id, filter list) hmap"
  cs_sender :: message_sender
  cs_auth_pubkey :: "pubkey option"
  cs_subdomain :: scope

record registry =
  rg_connections :: "(connection_id, connection_subscriptions) hmap"
  rg_indexes :: "(scope, subscription_index) hmap"
  rg_metrics_handler :: bool
  rg_metrics_log :: "subscription_metric list"

definition registry_new :: "bool \<Rightarrow> registry" where
  "registry_new metrics_handler = \<lparr>rg_connections = [], rg_indexes = [],
     rg_metrics_handler = metrics_handler, rg_metrics_log = []\<rparr>"

definition log_metric :: "subscription_metric \<Rightarrow> registry \<Rightarrow> registry" where
  "log_metric m r = (if rg_metrics_handler r then r\<lparr>rg_metrics_log := rg_metrics_log r @ [m]\<rparr> else r)"

definition register_connection ::
  "connection_id \<Rightarrow> message_sender \<Rightarrow> pubkey option \<Rightarrow> scope \<Rightarrow> registry \<Rightarrow> registry" where
  "register_connection cid ms auth_pubkey subdomain r = r\<lparr>rg_connections := hm_insert cid
     \<lparr>cs_subscriptions = [], cs_sender = ms, cs_auth_pubkey = auth_pubkey, cs_subdomain = subdomain\<rparr>
     (rg_connections r)\<rparr>"

definition reg_add_subscription ::
  "nostr_lib \<Rightarrow> connection_id \<Rightarrow> subscription_id \<Rightarrow> filter list \<Rightarrow> registry \<Rightarrow> (error + unit) \<times> registry"
  where
  "reg_add_subscription L cid sid fs r = (case hm_get (rg_connections r) cid of
     None \<Rightarrow> (Inl (Internal ''Connection not found''), r)
   | Some conn \<Rightarrow>
       let is_new = (hm_get (cs_subscriptions conn) sid = None);
           conn' = conn\<lparr>cs_subscriptions := hm_insert sid fs (cs_subscriptions conn)\<rparr>;
           sc = cs_subdomain conn;
           index = (case hm_get (rg_indexes r) sc of None \<Rightarrow> si_new | Some ix \<Rightarrow> ix);
           r1 = r\<lparr>rg_connections := hm_insert cid conn' (rg_connections r),
                  rg_indexes := hm_insert sc (si_add_subscription L cid sid fs index) (rg_indexes r)\<rparr>
       in (Inr (), if is_new then log_metric IncrementActive r1 else r1))"

definition index_remove ::
  "nostr_lib \<Rightarrow> scope \<Rightarrow> connection_id \<Rightarrow> subscription_id list \<Rightarrow> registry \<Rightarrow> registry" where
  "index_remove L sc cid sids r = (case hm_get (rg_indexes r) sc of
     None \<Rightarrow> r
   | Some ix \<Rightarrow> r\<lparr>rg_indexes :=
       hm_insert sc (fold (si_remove_subscription L cid) sids ix) (rg_indexes r)\<rparr>)"

definition reg_remove_subscription ::
  "nostr_lib \<Rightarrow> connection_id \<Rightarrow> subscription_id \<Rightarrow> registry \<Rightarrow> (error + unit) \<times> registry" where
  "reg_remove_subscription L cid sid r = (case hm_get (rg_connections r) cid of
     None \<Rightarrow> (Inl (Internal ''Connection not found''), r)
   | Some conn \<Rightarrow>
       if hm_get (cs_subscriptions conn) sid \<noteq> None then
         let conn' = conn\<lparr>cs_subscriptions := hm_remove sid (cs_subscriptions conn)\<rparr>;
             r1 = index_remove L (cs_subdomain conn) cid [sid]
                    (r\<lparr>rg_connections := hm_insert cid conn' (rg_connections r)\<rparr>)
         in (Inr (), log_metric (DecrementActive 1) r1)
       else (Inr (), r))"

definition get_connection_info ::
  "registry \<Rightarrow> connection_id \<Rightarrow> (pubkey option \<times> scope) option" where
  "get_connection_info r cid =
     map_option (\<lambda>conn. (cs_auth_pubkey conn, cs_subdomain conn)) (hm_get (rg_connections r) cid)"

definition has_connection :: "registry \<Rightarrow> connection_id \<Rightarrow> bool" where
  "has_connection r cid = hm_contains (rg_connections r) cid"

definition cleanup_connection :: "nostr_lib \<Rightarrow> connection_id \<Rightarrow> registry \<Rightarrow> registry" where
  "cleanup_connection L cid r = (case hm_get (rg_connections r) cid of
     None \<Rightarrow> r\<lparr>rg_connections := hm_remove cid (rg_connections r)\<rparr>
   | Some conn \<Rightarrow>
       let ids = hm_keys (cs_subscriptions conn);
           count = length ids;
           r1 = index_remove L (cs_subdomain conn) cid ids
                  (r\<lparr>rg_connections := hm_remove cid (rg_connections r)\<rparr>)
       in if count > 0 then log_metric (DecrementActive count) r1 else r1)"

text \<open>\<open>ConnectionHandle::drop\<close>: the fallback cleanup, run by the task it spawns.\<close>

definition connection_handle_drop :: "nostr_lib \<Rightarrow> connection_id \<Rightarrow> registry \<Rightarrow> registry" where
  "connection_handle_drop L cid r =
     (if has_connection r cid then cleanup_connection L cid r else r)"

section \<open>Distribution\<close>

definition event_message_json :: "subscription_id \<Rightarrow> string \<Rightarrow> string" where
  "event_message_json sid json = ''[\"EVENT\",\"'' @ sid @ ''\",'' @ json @ '']''"

fun send_matches :: "nostr_lib \<Rightarrow> event \<Rightarrow> registry \<Rightarrow> (connection_id \<times> subscription_id) list
  \<Rightarrow> connection_id list \<Rightarrow> outbox \<Rightarrow> connection_id list \<times> outbox" where
  "send_matches L e r [] dead out = (dead, out)"
| "send_matches L e r ((cid, sid) # rest) dead out = (case hm_get (rg_connections r) cid of
     None \<Rightarrow> send_matches L e r rest dead out
   | Some conn \<Rightarrow>
       (case send_with_json L (cs_sender conn) (RM_Event sid e)
               (event_message_json sid (event_as_json L e)) out of
          (Inl _, out') \<Rightarrow> send_matches L e r rest (dead @ [cid]) out'
        | (Inr _, out') \<Rightarrow> send_matches L e r rest dead out'))"

definition distribute_event ::
  "nostr_lib \<Rightarrow> event \<Rightarrow> scope \<Rightarrow> registry \<Rightarrow> outbox \<Rightarrow> registry \<times> outbox" where
  "distribute_event L e sc r out = (case hm_get (rg_indexes r) sc of
     None \<Rightarrow> (r, out)
   | Some ix \<Rightarrow>
       let (matching, ix') = si_distribute_event L e ix;
           r1 = r\<lparr>rg_indexes := hm_insert sc ix' (rg_indexes r)\<rparr>;
           (dead, out') = send_matches L e r1 matching [] out
       in (fold (cleanup_connection L) dead r1, out'))"

section \<open>Diagnostics\<close>

record scope_diagnostics =
  sd_scope :: scope
  sd_connection_count :: nat
  sd_subscription_count :: nat
  sd_filter_count :: nat
  sd_tracked_events :: nat
  sd_authors_indexed :: nat
  sd_kinds_indexed :: nat
  sd_event_ids_indexed :: nat
  sd_tags_indexed :: nat

record registry_diagnostics =
  rd_total_connections :: nat
  rd_scope_diagnostics :: "scope_diagnostics list"
  rd_empty_scopes :: "scope list"

definition scope_connections :: "registry \<Rightarrow> scope \<Rightarrow> connection_subscriptions list" where
  "scope_connections r sc =
     List.filter (\<lambda>conn. cs_subdomain conn = sc) (map snd (rg_connections r))"

definition scope_diag :: "registry \<Rightarrow> scope \<times> subscription_index \<Rightarrow> scope_diagnostics" where
  "scope_diag r p = (let st = si_stats (snd p); conns = scope_connections r (fst p) in
     \<lparr>sd_scope = fst p, sd_connection_count = length conns,
      sd_subscription_count = sum_list (map (length \<circ> cs_subscriptions) conns),
      sd_filter_count = st_total_filters st, sd_tracked_events = st_tracked_events st,
      sd_authors_indexed = st_authors_indexed st, sd_kinds_indexed = st_kinds_indexed st,
      sd_event_ids_indexed = st_event_ids_indexed st, sd_tags_indexed = st_tags_indexed st\<rparr>)"

definition get_diagnostics :: "registry \<Rightarrow> registry_diagnostics" where
  "get_diagnostics r = \<lparr>rd_total_connections = length (rg_connections r),
     rd_scope_diagnostics = map (scope_diag r) (rg_indexes r),
     rd_empty_scopes = map fst
       (List.filter (\<lambda>(sc, _). \<not> list_ex (\<lambda>conn. cs_subdomain conn = sc) (map snd (rg_connections r)))
          (rg_indexes r))\<rparr>"

end
