(* ===== verification/Store_Command.thy ===== *)
theory Store_Command
  imports Message_Sender
begin

text \<open>
  Store commands of \<open>src/src/subscription_coordinator.rs\<close> and the signing and verification
  service of \<open>src/src/crypto_helper.rs\<close>. A \<open>oneshot\<close> channel is a number; what was sent on each
  is part of the log of the component that sends. The signature scheme is the parameter
  \<open>sign_event\<close> of \<open>nostr_lib\<close>.
\<close>

datatype response_handler = Oneshot nat | MessageSender message_sender

datatype store_command =
    SaveUnsignedEvent unsigned_event scope "nat option"
  | SaveSignedEvent event scope "response_handler option"
  | DeleteEvents filter scope "nat option"

primrec subdomain_scope :: "store_command \<Rightarrow> scope" where
  "subdomain_scope (SaveUnsignedEvent _ sc _) = sc"
| "subdomain_scope (SaveSignedEvent _ sc _) = sc"
| "subdomain_scope (DeleteEvents _ sc _) = sc"

definition buffered_kind :: "nostr_lib \<Rightarrow> kind \<Rightarrow> bool" where
  "buffered_kind L k \<longleftrightarrow> is_replaceable_kind L k \<or> is_addressable_kind L k"

primrec is_replaceable :: "nostr_lib \<Rightarrow> store_command \<Rightarrow> bool" where
  "is_replaceable L (SaveUnsignedEvent e _ _) = buffered_kind L (ue_kind e)"
| "is_replaceable L (SaveSignedEvent e _ _) = buffered_kind L (ev_kind e)"
| "is_replaceable L (DeleteEvents _ _ _) = False"

primrec set_message_sender :: "message_sender \<Rightarrow> store_command \<Rightarrow> (error + unit) \<times> store_command" where
  "set_message_sender ms (SaveSignedEvent e sc h) = (Inr (), SaveSignedEvent e sc (Some (MessageSender ms)))"
| "set_message_sender ms (SaveUnsignedEvent e sc h) =
     (Inl (Internal ''set_message_sender called with non-SaveSignedEvent command''), SaveUnsignedEvent e sc h)"
| "set_message_sender ms (DeleteEvents f sc h) =
     (Inl (Internal ''set_message_sender called with non-SaveSignedEvent command''), DeleteEvents f sc h)"

definition command_from :: "event \<times> scope \<Rightarrow> store_command" where
  "command_from p = SaveSignedEvent (fst p) (snd p) None"

datatype oneshot_reply =
    ReplyUnit "error + unit"
  | ReplyCommand "error + store_command option"

section \<open>Batch statistics\<close>

record batch_stats =
  bs_batch_count :: nat
  bs_batch_size_sum :: nat
  bs_batch_size_max :: nat

definition batch_stats_new :: batch_stats where
  "batch_stats_new = \<lparr>bs_batch_count = 0, bs_batch_size_sum = 0, bs_batch_size_max = 0\<rparr>"

definition usize_add :: "nat \<Rightarrow> nat \<Rightarrow> nat" where
  "usize_add a b = (a + b) mod 2 ^ 64"

text \<open>\<open>record_batch\<close> up to its log lines; with one thread at a time the compare-exchange loop stores
  the larger of the two maxima in one turn.\<close>

definition record_batch :: "nat \<Rightarrow> batch_stats \<Rightarrow> batch_stats" where
  "record_batch n st = st\<lparr>bs_batch_count := usize_add (bs_batch_count st) 1,
     bs_batch_size_sum := usize_add (bs_batch_size_sum st) n,
     bs_batch_size_max := (if bs_batch_size_max st < n then n else bs_batch_size_max st)\<rparr>"

section \<open>The crypto service\<close>

text \<open>A processor task runs, or its request channel is closed, or it dies with the request and
  drops the reply.\<close>

datatype processor = Running | Closed | DropsReply

record crypto_helper =
  cr_verify_processor :: processor
  cr_sign_processor :: processor
  cr_verified_count :: nat
  cr_signed_count :: nat
  cr_verify_stats :: batch_stats
  cr_sign_stats :: batch_stats

definition crypto_new :: crypto_helper where
  "crypto_new = \<lparr>cr_verify_processor = Running, cr_sign_processor = Running, cr_verified_count = 0,
     cr_signed_count = 0, cr_verify_stats = batch_stats_new, cr_sign_stats = batch_stats_new\<rparr>"

definition verify_one :: "nostr_lib \<Rightarrow> event \<Rightarrow> error + unit" where
  "verify_one L e = map_err (\<lambda>err. Protocol (''Invalid event signature: '' @ err)) (event_verify L e)"

text \<open>One turn of \<open>run_verify_processor\<close> on the drained batch: the replies, and the counters.\<close>

definition verify_batch ::
  "nostr_lib \<Rightarrow> (event \<times> nat) list \<Rightarrow> crypto_helper \<Rightarrow> (nat \<times> (error + unit)) list \<times> crypto_helper" where
  "verify_batch L batch c =
     (map (\<lambda>(e, tx). (tx, verify_one L e)) batch,
      c\<lparr>cr_verified_count := usize_add (cr_verified_count c) (length batch),
        cr_verify_stats := record_batch (length batch) (cr_verify_stats c)\<rparr>)"

definition sign_event_checked :: "nostr_lib \<Rightarrow> unsigned_event \<Rightarrow> error + event" where
  "sign_event_checked L u = map_err (\<lambda>e. Internal (''Failed to sign event: '' @ e)) (sign_event L u)"

primrec sign_one :: "nostr_lib \<Rightarrow> store_command \<Rightarrow> (nat option \<times> (error + store_command option)) option" where
  "sign_one L (SaveUnsignedEvent u sc h) = Some (h, (case sign_event_checked L u of
     Inr e \<Rightarrow> Inr (Some (SaveSignedEvent e sc None))
   | Inl err \<Rightarrow> Inl err))"
| "sign_one L (SaveSignedEvent e sc h) = None"
| "sign_one L (DeleteEvents f sc h) = None"

text \<open>One turn of \<open>run_sign_processor\<close>: commands of another kind are dropped, replies go to the
  commands that carry a channel.\<close>

definition sign_batch ::
  "nostr_lib \<Rightarrow> store_command list \<Rightarrow> crypto_helper \<Rightarrow> (nat \<times> oneshot_reply) list \<times> crypto_helper" where
  "sign_batch L batch c =
     (List.map_filter (\<lambda>(h, r). map_option (\<lambda>tx. (tx, ReplyCommand r)) h) (List.map_filter (sign_one L) batch),
      c\<lparr>cr_signed_count := usize_add (cr_signed_count c) (length batch),
        cr_sign_stats := record_batch (length batch) (cr_sign_stats c)\<rparr>)"

text \<open>\<open>verify_event\<close>: the request, alone in its batch, and the wait for its reply.\<close>

definition verify_event :: "nostr_lib \<Rightarrow> event \<Rightarrow> crypto_helper \<Rightarrow> (error + unit) \<times> crypto_helper" where
  "verify_event L e c = (case cr_verify_processor c of
     Closed \<Rightarrow> (Inl (Internal ''Verification processor unavailable''), c)
   | DropsReply \<Rightarrow> (Inl (Internal ''Verification processor dropped response''), c)
   | Running \<Rightarrow> (case verify_batch L [(e, 0)] c of
       (replies, c') \<Rightarrow> (snd (hd replies), c')))"

text \<open>\<open>sign_store_command\<close> followed by the wait on the command's own channel: the error of the call,
  or what the channel yields (\<open>None\<close> when the processor dropped it).\<close>

definition sign_store_command ::
  "nostr_lib \<Rightarrow> store_command \<Rightarrow> crypto_helper
     \<Rightarrow> (error + (error + store_command option) option) \<times> crypto_helper" where
  "sign_store_command L cmd c = (case cmd of
     SaveUnsignedEvent u sc h \<Rightarrow>
       (case cr_sign_processor c of
          Closed \<Rightarrow> (Inl (Internal ''Signing processor unavailable''), c)
        | DropsReply \<Rightarrow> (Inr None, c)
        | Running \<Rightarrow> (case sign_batch L [cmd] c of
            (replies, c') \<Rightarrow> (Inr (case replies of
                (_, ReplyCommand r) # _ \<Rightarrow> Some r | _ \<Rightarrow> None), c')))
   | _ \<Rightarrow> (Inl (Internal ''Expected SaveUnsignedEvent command''), c))"

section \<open>Results\<close>

text \<open>Signing a command with a channel yields exactly the signed event in the same scope.\<close>

lemma sign_store_command_running:
  assumes "cr_sign_processor c = Running"
  shows "fst (sign_store_command L (SaveUnsignedEvent u sc (Some tx)) c) = Inr (Some
    (case sign_event_checked L u of Inr e \<Rightarrow> Inr (Some (SaveSignedEvent e sc None)) | Inl err \<Rightarrow> Inl err))"
  using assms by (simp add: sign_store_command_def sign_batch_def map_filter_simps)

lemma sign_store_command_processor [simp]:
  "cr_sign_processor (snd (sign_store_command L cmd c)) = cr_sign_processor c"
  "cr_verify_processor (snd (sign_store_command L cmd c)) = cr_verify_processor c"
  by (simp_all add: sign_store_command_def sign_batch_def split: store_command.splits processor.splits)

lemma sign_batch_replies:
  "fst (sign_batch L batch c) = List.map_filter (\<lambda>cmd. case cmd of
     SaveUnsignedEvent u sc (Some tx) \<Rightarrow> Some (tx, ReplyCommand (map_sum id
        (\<lambda>e. Some (SaveSignedEvent e sc None)) (sign_event_checked L u)))
   | _ \<Rightarrow> None) batch"
  by (induction batch)
    (auto simp: sign_batch_def map_filter_simps split: store_command.splits option.splits sum.splits)

end
