(* ===== verification/Relay_Database.thy ===== *)
theory Relay_Database
  imports Message_Sender
begin

text \<open>
  The database wrapper of \<open>src/src/database.rs\<close>. The store itself is the crate \<open>nostr_lmdb\<close>: its
  state is the type variable \<open>'db\<close> and its operations are the fields of the record \<open>lmdb\<close>, a
  parameter of every definition here. The wrapper maps errors, and skips the filters whose query
  fails because an index entry has no event.
\<close>

datatype db_error = DbBackend string | DbNotSupported

record 'db lmdb =
  lm_scoped :: "'db \<Rightarrow> scope \<Rightarrow> string + unit"
  lm_save_event :: "'db \<Rightarrow> scope \<Rightarrow> event \<Rightarrow> db_error + 'db"
  lm_delete :: "'db \<Rightarrow> scope \<Rightarrow> filter \<Rightarrow> db_error + 'db"
  lm_query :: "'db \<Rightarrow> scope \<Rightarrow> filter \<Rightarrow> db_error + event list"
  lm_count :: "'db \<Rightarrow> scope \<Rightarrow> filter \<Rightarrow> db_error + nat"
  lm_negentropy_items :: "'db \<Rightarrow> scope \<Rightarrow> filter \<Rightarrow> db_error + (event_id \<times> timestamp) list"
  lm_list_scopes :: "'db \<Rightarrow> string + scope list"
  lm_error_str :: "db_error \<Rightarrow> string"
  lm_events_extend :: "event list \<Rightarrow> event list \<Rightarrow> event list"

definition scoped_view :: "'db lmdb \<Rightarrow> 'db \<Rightarrow> scope \<Rightarrow> error + unit" where
  "scoped_view D db sc =
     map_err (\<lambda>e. Database (''Failed to get scoped view: '' @ e)) (lm_scoped D db sc)"

text \<open>\<open>save_event\<close> and \<open>delete\<close> return a boxed error, of which only the printed form is used.\<close>

definition db_save_event :: "'db lmdb \<Rightarrow> event \<Rightarrow> scope \<Rightarrow> 'db \<Rightarrow> (string + unit) \<times> 'db" where
  "db_save_event D e sc db = (case scoped_view D db sc of
     Inl err \<Rightarrow> (Inl (error_display err), db)
   | Inr _ \<Rightarrow> (case lm_save_event D db sc e of
       Inl err \<Rightarrow> (Inl (lm_error_str D err), db)
     | Inr db' \<Rightarrow> (Inr (), db')))"

definition db_save_event_owned :: "'db lmdb \<Rightarrow> event \<Rightarrow> scope \<Rightarrow> 'db \<Rightarrow> (string + unit) \<times> 'db" where
  "db_save_event_owned D e sc db = (case scoped_view D db sc of
     Inl err \<Rightarrow> (Inl (error_display err), db)
   | Inr _ \<Rightarrow> (case lm_save_event D db sc e of
       Inl err \<Rightarrow> (Inl (lm_error_str D err), db)
     | Inr db' \<Rightarrow> (Inr (), db')))"

definition db_delete :: "'db lmdb \<Rightarrow> filter \<Rightarrow> scope \<Rightarrow> 'db \<Rightarrow> (string + unit) \<times> 'db" where
  "db_delete D f sc db = (case scoped_view D db sc of
     Inl err \<Rightarrow> (Inl (error_display err), db)
   | Inr _ \<Rightarrow> (case lm_delete D db sc f of
       Inl err \<Rightarrow> (Inl (lm_error_str D err), db)
     | Inr db' \<Rightarrow> (Inr (), db')))"

fun query_loop :: "'db lmdb \<Rightarrow> 'db \<Rightarrow> scope \<Rightarrow> filter list \<Rightarrow> event list \<Rightarrow> error + event list" where
  "query_loop D db sc [] acc = Inr acc"
| "query_loop D db sc (f # fs) acc = (case lm_query D db sc f of
     Inr es \<Rightarrow> query_loop D db sc fs (lm_events_extend D acc es)
   | Inl (DbBackend s) \<Rightarrow>
       if str_contains s ''Not found'' then query_loop D db sc fs acc
       else Inl (Database (''Database backend error: '' @ lm_error_str D (DbBackend s)))
   | Inl DbNotSupported \<Rightarrow> Inl (Database ''Database operation not supported''))"

definition db_query :: "'db lmdb \<Rightarrow> 'db \<Rightarrow> filter list \<Rightarrow> scope \<Rightarrow> error + event list" where
  "db_query D db fs sc = (case scoped_view D db sc of
     Inl err \<Rightarrow> Inl err
   | Inr _ \<Rightarrow> query_loop D db sc fs [])"

definition not_found_str :: "string \<Rightarrow> bool" where
  "not_found_str s \<longleftrightarrow> str_contains s ''Backend(NotFound)'' \<or> str_contains s ''NotFound'' \<or>
     str_contains s ''Not found''"

fun count_loop :: "'db lmdb \<Rightarrow> 'db \<Rightarrow> scope \<Rightarrow> filter list \<Rightarrow> nat \<Rightarrow> error + nat" where
  "count_loop D db sc [] n0 = Inr n0"
| "count_loop D db sc (f # fs) n0 = (case lm_count D db sc f of
     Inr n \<Rightarrow> count_loop D db sc fs (n0 + n)
   | Inl e \<Rightarrow>
       if not_found_str (lm_error_str D e) then count_loop D db sc fs n0
       else Inl (Database (''Failed to count events: '' @ lm_error_str D e)))"

definition db_count :: "'db lmdb \<Rightarrow> 'db \<Rightarrow> filter list \<Rightarrow> scope \<Rightarrow> error + nat" where
  "db_count D db fs sc = (case scoped_view D db sc of
     Inl err \<Rightarrow> Inl err
   | Inr _ \<Rightarrow> count_loop D db sc fs 0)"

definition db_negentropy_items ::
  "'db lmdb \<Rightarrow> 'db \<Rightarrow> filter \<Rightarrow> scope \<Rightarrow> error + (event_id \<times> timestamp) list" where
  "db_negentropy_items D db f sc = (case scoped_view D db sc of
     Inl err \<Rightarrow> Inl err
   | Inr _ \<Rightarrow> (case lm_negentropy_items D db sc f of
       Inr items \<Rightarrow> Inr items
     | Inl e \<Rightarrow>
         if not_found_str (lm_error_str D e) then Inr []
         else Inl (Database (''Failed to get negentropy items: '' @ lm_error_str D e))))"

definition db_list_scopes :: "'db lmdb \<Rightarrow> 'db \<Rightarrow> error + scope list" where
  "db_list_scopes D db = map_err (\<lambda>e. Database (''Failed to list scopes: '' @ e)) (lm_list_scopes D db)"

section \<open>Results\<close>

text \<open>A failed write leaves the store as it was.\<close>

lemma db_save_event_err: "db_save_event D e sc db = (Inl m, db') \<Longrightarrow> db' = db"
  by (auto simp: db_save_event_def split: sum.splits)

lemma db_delete_err: "db_delete D f sc db = (Inl m, db') \<Longrightarrow> db' = db"
  by (auto simp: db_delete_def split: sum.splits)

lemma db_save_event_owned_eq: "db_save_event_owned D e sc db = db_save_event D e sc db"
  by (simp add: db_save_event_owned_def db_save_event_def)

text \<open>A filter whose query hits a dangling index entry counts as empty, everything else adds up.\<close>

definition recovered_count :: "'db lmdb \<Rightarrow> 'db \<Rightarrow> scope \<Rightarrow> filter \<Rightarrow> nat" where
  "recovered_count D db sc f = (case lm_count D db sc f of Inr n \<Rightarrow> n | Inl _ \<Rightarrow> 0)"

definition count_fails :: "'db lmdb \<Rightarrow> 'db \<Rightarrow> scope \<Rightarrow> filter \<Rightarrow> bool" where
  "count_fails D db sc f = (case lm_count D db sc f of
     Inr n \<Rightarrow> False | Inl e \<Rightarrow> \<not> not_found_str (lm_error_str D e))"

lemma count_loop_eq:
  "\<not> list_ex (count_fails D db sc) fs \<Longrightarrow>
     count_loop D db sc fs n0 = Inr (n0 + sum_list (map (recovered_count D db sc) fs))"
  by (induction fs arbitrary: n0) (auto simp: count_fails_def recovered_count_def split: sum.splits)

lemma count_loop_fails: "list_ex (count_fails D db sc) fs \<Longrightarrow> \<not> is_ok (count_loop D db sc fs n0)"
  by (induction fs arbitrary: n0) (auto simp: count_fails_def split: sum.splits)

lemma db_query_singleton:
  assumes "lm_query D db sc f = Inr es" "lm_scoped D db sc = Inr ()"
  shows "db_query D db [f] sc = Inr (lm_events_extend D [] es)"
  using assms by (simp add: db_query_def scoped_view_def)

end
