(* ===== verification/Subscription_Coordinator.thy ===== *)
theory Subscription_Coordinator
  imports Subscription_Registry Store_Command Relay_Database
begin

text \<open>
  The coordinator of \<open>src/src/subscription_coordinator.rs\<close>: storing and broadcasting events, the
  buffer of relay-generated replaceable events, and the answer to a REQ: stored events page by
  page, EOSE, then the live subscription.

  Everything the coordinators of all connections share is the record \<open>world\<close>: the registry, the
  log of sent messages, the database, the crypto service, the queue into the replaceable-event
  buffer, and the log of \<open>oneshot\<close> replies.
\<close>

record 'db world =
  w_registry :: registry
  w_outbox :: outbox
  w_db :: 'db
  w_crypto :: crypto_helper
  w_queue :: "(unsigned_event \<times> scope) list"
  w_queue_open :: bool
  w_oneshots :: "(nat \<times> oneshot_reply) list"

record coordinator =
  sc_connection_id :: connection_id
  sc_outgoing_sender :: message_sender
  sc_max_limit :: nat

section \<open>Subscriptions\<close>

definition coordinator_new ::
  "connection_id \<Rightarrow> message_sender \<Rightarrow> pubkey option \<Rightarrow> scope \<Rightarrow> nat \<Rightarrow> 'db world \<Rightarrow> coordinator \<times> 'db world"
  where
  "coordinator_new cid ms auth_pubkey subdomain max_limit w =
     (\<lparr>sc_connection_id = cid, sc_outgoing_sender = ms, sc_max_limit = max_limit\<rparr>,
      w\<lparr>w_registry := register_connection cid ms auth_pubkey subdomain (w_registry w)\<rparr>)"

definition co_remove_subscription ::
  "nostr_lib \<Rightarrow> coordinator \<Rightarrow> subscription_id \<Rightarrow> 'db world \<Rightarrow> (error + unit) \<times> 'db world" where
  "co_remove_subscription L co sid w =
     (Inr (), w\<lparr>w_registry := snd (reg_remove_subscription L (sc_connection_id co) sid (w_registry w))\<rparr>)"

definition co_add_subscription ::
  "nostr_lib \<Rightarrow> coordinator \<Rightarrow> subscription_id \<Rightarrow> filter list \<Rightarrow> 'db world \<Rightarrow> (error + unit) \<times> 'db world"
  where
  "co_add_subscription L co sid fs w =
     (let w1 = snd (co_remove_subscription L co sid w);
          (res, r') = reg_add_subscription L (sc_connection_id co) sid fs (w_registry w1)
      in (res, w1\<lparr>w_registry := r'\<rparr>))"

section \<open>Saving and broadcasting\<close>

definition reply :: "nat option \<Rightarrow> oneshot_reply \<Rightarrow> 'db world \<Rightarrow> 'db world" where
  "reply h m w = (case h of None \<Rightarrow> w | Some tx \<Rightarrow> w\<lparr>w_oneshots := w_oneshots w @ [(tx, m)]\<rparr>)"

definition broadcast :: "nostr_lib \<Rightarrow> event \<Rightarrow> scope \<Rightarrow> 'db world \<Rightarrow> 'db world" where
  "broadcast L e sc w = (case distribute_event L e sc (w_registry w) (w_outbox w) of
     (r', out') \<Rightarrow> w\<lparr>w_registry := r', w_outbox := out'\<rparr>)"

definition save_unsigned ::
  "nostr_lib \<Rightarrow> 'db lmdb \<Rightarrow> unsigned_event \<Rightarrow> scope \<Rightarrow> nat option \<Rightarrow> 'db world \<Rightarrow> (error + unit) \<times> 'db world"
  where
  "save_unsigned L D u sc h w =
     (if buffered_kind L (ue_kind u) then
        if \<not> w_queue_open w then
          (Inl (Internal ''Failed to queue replaceable event: sending on a closed channel''), w)
        else (Inr (), reply h (ReplyCommand (Inr None)) (w\<lparr>w_queue := w_queue w @ [(u, sc)]\<rparr>))
      else
        case sign_store_command L (SaveUnsignedEvent u sc (Some 0)) (w_crypto w) of
          (res, c') \<Rightarrow> let w1 = w\<lparr>w_crypto := c'\<rparr> in
          (case res of
             Inl e \<Rightarrow> (Inl (Internal (''Failed to sign event: '' @ error_display e)), w1)
           | Inr None \<Rightarrow> (Inl (Internal ''Signing processor dropped response channel''), w1)
           | Inr (Some (Inl e)) \<Rightarrow> (Inl (Internal (''Failed to sign event: '' @ error_display e)), w1)
           | Inr (Some (Inr None)) \<Rightarrow> (Inl (Internal ''Event signed but not returned''), w1)
           | Inr (Some (Inr (Some (SaveSignedEvent e sc' _)))) \<Rightarrow>
               (case db_save_event D e sc' (w_db w1) of
                  (Inl m, db') \<Rightarrow> (Inl (Internal (''Failed to save event: '' @ m)), w1\<lparr>w_db := db'\<rparr>)
                | (Inr _, db') \<Rightarrow> (Inr (), reply h (ReplyCommand (Inr None)) (w1\<lparr>w_db := db'\<rparr>)))
           | Inr (Some (Inr (Some _))) \<Rightarrow> (Inr (), reply h (ReplyCommand (Inr None)) w1)))"

definition respond_saved ::
  "nostr_lib \<Rightarrow> event \<Rightarrow> (error + unit) \<Rightarrow> response_handler option \<Rightarrow> 'db world \<Rightarrow> 'db world" where
  "respond_saved L e res h w = (case h of
     None \<Rightarrow> w
   | Some (MessageSender ms) \<Rightarrow>
       let msg = (case res of Inr _ \<Rightarrow> RM_Ok (ev_id e) True '''' | Inl err \<Rightarrow> RM_Ok (ev_id e) False (error_display err))
       in w\<lparr>w_outbox := snd (send_bypass L ms msg (w_outbox w))\<rparr>
   | Some (Oneshot tx) \<Rightarrow>
       reply (Some tx) (ReplyUnit (map_err (\<lambda>_. Internal ''Failed to save event'') res)) w)"

definition save_signed ::
  "nostr_lib \<Rightarrow> 'db lmdb \<Rightarrow> event \<Rightarrow> scope \<Rightarrow> response_handler option \<Rightarrow> 'db world \<Rightarrow> (error + unit) \<times> 'db world"
  where
  "save_signed L D e sc h w =
     (case db_save_event D e sc (w_db w) of
        (res, db') \<Rightarrow>
          let save_result = map_err Internal res;
              w1 = respond_saved L e save_result h (w\<lparr>w_db := db'\<rparr>)
          in (save_result, if is_ok save_result then broadcast L e sc w1 else w1))"

definition delete_events ::
  "'db lmdb \<Rightarrow> filter \<Rightarrow> scope \<Rightarrow> nat option \<Rightarrow> 'db world \<Rightarrow> (error + unit) \<times> 'db world" where
  "delete_events D f sc h w =
     (case db_delete D f sc (w_db w) of
        (res, db') \<Rightarrow>
          let delete_result = map_err Internal res
          in (delete_result, reply h (ReplyUnit (map_err (\<lambda>_. Internal ''Failed to delete events'') delete_result))
                (w\<lparr>w_db := db'\<rparr>)))"

definition save_and_broadcast ::
  "nostr_lib \<Rightarrow> 'db lmdb \<Rightarrow> store_command \<Rightarrow> 'db world \<Rightarrow> (error + unit) \<times> 'db world" where
  "save_and_broadcast L D cmd w = (case cmd of
     SaveUnsignedEvent u sc h \<Rightarrow> save_unsigned L D u sc h w
   | SaveSignedEvent e sc h \<Rightarrow> save_signed L D e sc h w
   | DeleteEvents f sc h \<Rightarrow> delete_events D f sc h w)"

section \<open>The buffer of replaceable events\<close>

type_synonym replaceable_buffer = "(pubkey \<times> kind \<times> scope, unsigned_event) hmap"

definition buffer_insert ::
  "nostr_lib \<Rightarrow> unsigned_event \<times> scope \<Rightarrow> replaceable_buffer \<Rightarrow> replaceable_buffer" where
  "buffer_insert L p b =
     (if \<not> is_replaceable_kind L (ue_kind (fst p)) \<and> \<not> is_addressable_kind L (ue_kind (fst p)) then b
      else hm_insert (ue_pubkey (fst p), ue_kind (fst p), snd p) (fst p) b)"

definition flush_one :: "nostr_lib \<Rightarrow> 'db lmdb \<Rightarrow> unsigned_event \<times> scope \<Rightarrow> 'db world \<Rightarrow> 'db world" where
  "flush_one L D p w =
     (case sign_store_command L (SaveUnsignedEvent (fst p) (snd p) (Some 0)) (w_crypto w) of
        (res, c') \<Rightarrow> let w1 = w\<lparr>w_crypto := c'\<rparr> in
        (case res of
           Inr (Some (Inr (Some (SaveSignedEvent e sc _)))) \<Rightarrow>
             (case db_save_event D e sc (w_db w1) of
                (Inl _, db') \<Rightarrow> w1\<lparr>w_db := db'\<rparr>
              | (Inr _, db') \<Rightarrow> broadcast L e sc (w1\<lparr>w_db := db'\<rparr>))
         | _ \<Rightarrow> w1))"

definition buffer_flush ::
  "nostr_lib \<Rightarrow> 'db lmdb \<Rightarrow> replaceable_buffer \<Rightarrow> 'db world \<Rightarrow> replaceable_buffer \<times> 'db world" where
  "buffer_flush L D b w =
     (if b = [] then (b, w)
      else ([], fold (flush_one L D) (map (\<lambda>((_, _, sc), u). (u, sc)) b) w))"

text \<open>The task of \<open>start_with_sender\<close>: one \<open>select!\<close> turn receives an event, flushes on the timer, or
  flushes and stops on cancellation (after which the queue has no receiver).\<close>

inductive buffer_step :: "nostr_lib \<Rightarrow> 'db lmdb \<Rightarrow> replaceable_buffer option \<times> 'db world
  \<Rightarrow> replaceable_buffer option \<times> 'db world \<Rightarrow> bool" for L D where
  recv: "w_queue w = p # q \<Longrightarrow>
    buffer_step L D (Some b, w) (Some (buffer_insert L p b), w\<lparr>w_queue := q\<rparr>)"
| tick: "buffer_flush L D b w = (b', w') \<Longrightarrow> buffer_step L D (Some b, w) (Some b', w')"
| cancel: "buffer_flush L D b w = (b', w') \<Longrightarrow>
    buffer_step L D (Some b, w) (None, w'\<lparr>w_queue_open := False\<rparr>)"

section \<open>Stored events\<close>

definition smallest_limit :: "nat \<Rightarrow> filter list \<Rightarrow> nat" where
  "smallest_limit max_limit fs = (case List.map_filter f_limit fs of
     [] \<Rightarrow> min max_limit max_limit
   | l # ls \<Rightarrow> min (fold min ls l) max_limit)"

text \<open>One page: skip what was sent, track the oldest timestamp, keep what \<open>filter_fn\<close> allows.\<close>

fun scan_window :: "(event \<Rightarrow> bool) \<Rightarrow> event_id list \<Rightarrow> event list \<Rightarrow> timestamp option \<Rightarrow> event list
  \<Rightarrow> timestamp option \<times> event list" where
  "scan_window ffn sent [] lts acc = (lts, acc)"
| "scan_window ffn sent (e # es) lts acc =
     (if ev_id e \<in> set sent then scan_window ffn sent es lts acc
      else scan_window ffn sent es
        (case lts of
           None \<Rightarrow> Some (ev_created_at e)
         | Some t \<Rightarrow> if ev_created_at e < t then Some (ev_created_at e) else Some t)
        (if ffn e then acc @ [e] else acc))"

fun send_page :: "nostr_lib \<Rightarrow> message_sender \<Rightarrow> subscription_id \<Rightarrow> nat \<Rightarrow> event list \<Rightarrow> nat
  \<Rightarrow> event_id list \<Rightarrow> outbox \<Rightarrow> nat \<times> event_id list \<times> outbox" where
  "send_page L ms sid limit [] filter_sent sent out = (filter_sent, sent, out)"
| "send_page L ms sid limit (e # es) filter_sent sent out =
     (if filter_sent \<ge> limit then (filter_sent, sent, out)
      else send_page L ms sid limit es (filter_sent + 1) (ev_id e # sent)
        (snd (send_bypass L ms (RM_Event sid e) out)))"

text \<open>The pagination loop of one filter; the first argument counts the attempts left of the 50.\<close>

fun page_loop :: "nat \<Rightarrow> nostr_lib \<Rightarrow> 'db lmdb \<Rightarrow> 'db \<Rightarrow> scope \<Rightarrow> (event \<Rightarrow> bool) \<Rightarrow> message_sender
  \<Rightarrow> subscription_id \<Rightarrow> nat \<Rightarrow> filter \<Rightarrow> nat \<Rightarrow> timestamp option \<Rightarrow> event_id list \<Rightarrow> outbox
  \<Rightarrow> (error + event_id list) \<times> outbox" where
  "page_loop 0 L D db sc ffn ms sid limit win filter_sent lts sent out = (Inr sent, out)"
| "page_loop (Suc n) L D db sc ffn ms sid limit win filter_sent lts sent out =
     (case db_query D db [win] sc of
        Inl err \<Rightarrow> (Inl (Notice (''Failed to fetch events: '' @ debug_str L (error_display err))), out)
      | Inr [] \<Rightarrow> (Inr sent, out)
      | Inr events \<Rightarrow>
          let (lts', kept) = scan_window ffn sent events lts [];
              kept' = sort_key (\<lambda>e. - int (ev_created_at e)) kept;
              (filter_sent', sent', out') = send_page L ms sid limit kept' filter_sent sent out
          in if filter_sent' \<ge> limit then (Inr sent', out')
             else (case lts' of
                None \<Rightarrow> (Inr sent', out')
              | Some ts \<Rightarrow> page_loop n L D db sc ffn ms sid limit
                  (win\<lparr>f_until := Some (timestamp_sub L ts 1)\<rparr>) filter_sent' lts' sent' out'))"

fun filters_loop :: "nostr_lib \<Rightarrow> 'db lmdb \<Rightarrow> 'db \<Rightarrow> scope \<Rightarrow> (event \<Rightarrow> bool) \<Rightarrow> message_sender
  \<Rightarrow> subscription_id \<Rightarrow> nat \<Rightarrow> filter list \<Rightarrow> event_id list \<Rightarrow> outbox \<Rightarrow> (error + event_id list) \<times> outbox" where
  "filters_loop L D db sc ffn ms sid limit [] sent out = (Inr sent, out)"
| "filters_loop L D db sc ffn ms sid limit (f # fs) sent out =
     (case page_loop 50 L D db sc ffn ms sid limit f 0 None sent out of
        (Inl err, out') \<Rightarrow> (Inl err, out')
      | (Inr sent', out') \<Rightarrow> filters_loop L D db sc ffn ms sid limit fs sent' out')"

definition process_historical_events ::
  "nostr_lib \<Rightarrow> 'db lmdb \<Rightarrow> nat \<Rightarrow> subscription_id \<Rightarrow> filter list \<Rightarrow> pubkey option \<Rightarrow> scope \<Rightarrow> message_sender
     \<Rightarrow> (event \<Rightarrow> scope \<Rightarrow> pubkey option \<Rightarrow> bool) \<Rightarrow> 'db \<Rightarrow> outbox \<Rightarrow> (error + unit) \<times> outbox" where
  "process_historical_events L D max_limit sid fs authed sc ms filter_fn db out =
     (let limit = smallest_limit max_limit fs;
          fs' = map (\<lambda>f. f\<lparr>f_limit := Some limit\<rparr>) fs
      in case filters_loop L D db sc (\<lambda>e. filter_fn e sc authed) ms sid limit fs' [] out of
           (Inl err, out') \<Rightarrow> (Inl err, out')
         | (Inr _, out') \<Rightarrow> (case send L ms (RM_Eose sid) out' of
             (Inl e, out'') \<Rightarrow> (Inl (Internal (''Failed to send EOSE: '' @ debug_str L (anyhow_display e))), out'')
           | (Inr _, out'') \<Rightarrow> (Inr (), out'')))"

definition handle_req ::
  "nostr_lib \<Rightarrow> 'db lmdb \<Rightarrow> coordinator \<Rightarrow> subscription_id \<Rightarrow> filter list \<Rightarrow> pubkey option \<Rightarrow> scope
     \<Rightarrow> (event \<Rightarrow> scope \<Rightarrow> pubkey option \<Rightarrow> bool) \<Rightarrow> 'db world \<Rightarrow> (error + unit) \<times> 'db world" where
  "handle_req L D co sid fs authed sc filter_fn w =
     (case process_historical_events L D (sc_max_limit co) sid fs authed sc (sc_outgoing_sender co)
             filter_fn (w_db w) (w_outbox w) of
        (Inl e, out') \<Rightarrow> (Inl e, w\<lparr>w_outbox := out'\<rparr>)
      | (Inr _, out') \<Rightarrow> co_add_subscription L co sid fs (w\<lparr>w_outbox := out'\<rparr>))"

end
