(* ===== verification/Connection_State.thy ===== *)
theory Connection_State
  imports Subscription_Coordinator
begin

text \<open>
  The per-connection state of \<open>src/src/state.rs\<close>: authentication, the subscription quota, and the
  negentropy sessions (of the type \<open>'n\<close>); \<open>'t\<close> is the custom state of the relay's user. The event
  context, which the code keeps in an \<open>ArcSwap\<close> inside the otherwise immutable metadata, is a field
  of its own in the environment \<open>env\<close> that the middlewares transform.
\<close>

record event_context =
  cx_authed_pubkey :: "pubkey option"
  cx_subdomain :: scope
  cx_relay_pubkey :: pubkey

record connection_metadata =
  md_relay_url :: string
  md_subdomain :: scope

record ('t, 'n) conn_state =
  ct_challenge :: "string option"
  ct_authed_pubkey :: "pubkey option"
  ct_coordinator :: "coordinator option"
  ct_max_subscriptions :: "nat option"
  ct_quota_usage :: "subscription_id list"
  ct_negentropy :: "(subscription_id, 'n) hmap"
  ct_registry :: bool
  ct_custom :: 't

definition metadata_new_with_context ::
  "string \<Rightarrow> scope \<Rightarrow> pubkey \<Rightarrow> connection_metadata \<times> event_context" where
  "metadata_new_with_context url sc relay_pubkey =
     (\<lparr>md_relay_url = url, md_subdomain = sc\<rparr>,
      \<lparr>cx_authed_pubkey = None, cx_subdomain = sc, cx_relay_pubkey = relay_pubkey\<rparr>)"

definition state_with_custom :: "'t \<Rightarrow> ('t, 'n) conn_state" where
  "state_with_custom t = \<lparr>ct_challenge = None, ct_authed_pubkey = None, ct_coordinator = None,
     ct_max_subscriptions = None, ct_quota_usage = [], ct_negentropy = [], ct_registry = False, ct_custom = t\<rparr>"

definition set_authenticated ::
  "pubkey \<Rightarrow> ('t, 'n) conn_state \<times> event_context \<Rightarrow> ('t, 'n) conn_state \<times> event_context" where
  "set_authenticated pk p = (case p of (st, cx) \<Rightarrow>
     (st\<lparr>ct_authed_pubkey := Some pk, ct_challenge := None\<rparr>,
      \<lparr>cx_authed_pubkey = Some pk, cx_subdomain = cx_subdomain cx, cx_relay_pubkey = cx_relay_pubkey cx\<rparr>))"

definition is_authenticated :: "('t, 'n) conn_state \<Rightarrow> bool" where
  "is_authenticated st \<longleftrightarrow> ct_authed_pubkey st \<noteq> None"

definition setup_connection ::
  "connection_id \<Rightarrow> message_sender \<Rightarrow> scope \<Rightarrow> nat option \<Rightarrow> ('t, 'n) conn_state \<Rightarrow> 'db world
     \<Rightarrow> (error + unit) \<times> ('t, 'n) conn_state \<times> 'db world" where
  "setup_connection cid ms sc max_limit st w =
     (let (co, w') = coordinator_new cid ms (ct_authed_pubkey st) sc
            (case max_limit of None \<Rightarrow> 1000 | Some l \<Rightarrow> l) w
      in (Inr (), st\<lparr>ct_coordinator := Some co\<rparr>, w'))"

fun save_events :: "nostr_lib \<Rightarrow> 'db lmdb \<Rightarrow> ('t, 'n) conn_state \<Rightarrow> store_command list \<Rightarrow> 'db world
  \<Rightarrow> (error + unit) \<times> 'db world" where
  "save_events L D st [] w =
     (if ct_coordinator st = None then (Inl (Internal ''No subscription coordinator available''), w) else (Inr (), w))"
| "save_events L D st (c # cs) w =
     (if ct_coordinator st = None then (Inl (Internal ''No subscription coordinator available''), w)
      else case save_and_broadcast L D c w of
        (Inl e, w') \<Rightarrow> (Inl e, w')
      | (Inr _, w') \<Rightarrow> save_events L D st cs w')"

text \<open>The single-command wrappers of the coordinator's operations, and the copy of a state, which
  cannot copy the negentropy sessions.\<close>

definition state_save_and_broadcast ::
  "nostr_lib \<Rightarrow> 'db lmdb \<Rightarrow> ('t, 'n) conn_state \<Rightarrow> store_command \<Rightarrow> 'db world \<Rightarrow> (error + unit) \<times> 'db world" where
  "state_save_and_broadcast L D st c w =
     (if ct_coordinator st = None then (Inl (Internal ''No subscription coordinator available''), w)
      else save_and_broadcast L D c w)"

definition state_remove_subscription ::
  "nostr_lib \<Rightarrow> ('t, 'n) conn_state \<Rightarrow> subscription_id \<Rightarrow> 'db world \<Rightarrow> (error + unit) \<times> 'db world" where
  "state_remove_subscription L st sid w = (case ct_coordinator st of
     None \<Rightarrow> (Inl (Internal ''No subscription coordinator available''), w)
   | Some co \<Rightarrow> co_remove_subscription L co sid w)"

definition state_clone :: "('t, 'n) conn_state \<Rightarrow> ('t, 'n) conn_state" where
  "state_clone st = st\<lparr>ct_negentropy := []\<rparr>"

definition get_challenge_event ::
  "string \<Rightarrow> ('t, 'n) conn_state \<Rightarrow> relay_message \<times> ('t, 'n) conn_state" where
  "get_challenge_event fresh st = (case ct_challenge st of
     Some c \<Rightarrow> (RM_Auth c, st)
   | None \<Rightarrow> (RM_Auth fresh, st\<lparr>ct_challenge := Some fresh\<rparr>))"

section \<open>The subscription quota\<close>

definition can_accept_subscription :: "('t, 'n) conn_state \<Rightarrow> bool" where
  "can_accept_subscription st = (case ct_max_subscriptions st of
     Some m \<Rightarrow> length (ct_quota_usage st) < m | None \<Rightarrow> True)"

definition subscription_count :: "('t, 'n) conn_state \<Rightarrow> nat" where
  "subscription_count st = length (ct_quota_usage st)"

definition remaining_subscription_capacity :: "('t, 'n) conn_state \<Rightarrow> nat option" where
  "remaining_subscription_capacity st =
     map_option (\<lambda>m. m - length (ct_quota_usage st)) (ct_max_subscriptions st)"

text \<open>Decimal printing of a \<open>usize\<close>.\<close>

fun nat_str :: "nat \<Rightarrow> string" where
  "nat_str n = (if n < 10 then [char_of (48 + n)] else nat_str (n div 10) @ [char_of (48 + n mod 10)])"

definition reserve_quota_slot ::
  "subscription_id \<Rightarrow> ('t, 'n) conn_state \<Rightarrow> (error + unit) \<times> ('t, 'n) conn_state" where
  "reserve_quota_slot sid st =
     (if sid \<in> set (ct_quota_usage st) then (Inr (), st)
      else case ct_max_subscriptions st of
        Some m \<Rightarrow>
          if length (ct_quota_usage st) \<ge> m
          then (Inl (Restricted (''Subscription quota exceeded: '' @ nat_str (length (ct_quota_usage st)) @ ''/'' @
                  nat_str m)), st)
          else (Inr (), st\<lparr>ct_quota_usage := ct_quota_usage st @ [sid]\<rparr>)
      | None \<Rightarrow> (Inr (), st\<lparr>ct_quota_usage := ct_quota_usage st @ [sid]\<rparr>))"

definition release_quota_slot ::
  "subscription_id \<Rightarrow> ('t, 'n) conn_state \<Rightarrow> bool \<times> ('t, 'n) conn_state" where
  "release_quota_slot sid st =
     (sid \<in> set (ct_quota_usage st), st\<lparr>ct_quota_usage := removeAll sid (ct_quota_usage st)\<rparr>)"

text \<open>The deprecated \<open>add_subscription\<close> takes a slot without looking at the limit.\<close>

definition track_subscription :: "subscription_id \<Rightarrow> ('t, 'n) conn_state \<Rightarrow> ('t, 'n) conn_state" where
  "track_subscription sid st = st\<lparr>ct_quota_usage := List.insert sid (ct_quota_usage st)\<rparr>"

definition set_max_subscriptions :: "nat option \<Rightarrow> ('t, 'n) conn_state \<Rightarrow> ('t, 'n) conn_state" where
  "set_max_subscriptions m st = st\<lparr>ct_max_subscriptions := m\<rparr>"

section \<open>Negentropy sessions\<close>

definition negentropy_subscription_count :: "('t, 'n) conn_state \<Rightarrow> nat" where
  "negentropy_subscription_count st = length (ct_negentropy st)"

definition add_negentropy_subscription ::
  "subscription_id \<Rightarrow> 'n \<Rightarrow> ('t, 'n) conn_state \<Rightarrow> ('t, 'n) conn_state" where
  "add_negentropy_subscription sid n st = st\<lparr>ct_negentropy := hm_insert sid n (ct_negentropy st)\<rparr>"

definition remove_negentropy_subscription ::
  "subscription_id \<Rightarrow> ('t, 'n) conn_state \<Rightarrow> bool \<times> ('t, 'n) conn_state" where
  "remove_negentropy_subscription sid st =
     (hm_get (ct_negentropy st) sid \<noteq> None, st\<lparr>ct_negentropy := hm_remove sid (ct_negentropy st)\<rparr>)"

section \<open>The quota as an interface\<close>

text \<open>What the message handlers rely on: a bounded set of slots, where reserving an id twice costs
  nothing and releasing gives the slot back.\<close>

locale bounded_slots =
  fixes reserve :: "'i \<Rightarrow> 's \<Rightarrow> ('e + unit) \<times> 's"
    and release :: "'i \<Rightarrow> 's \<Rightarrow> bool \<times> 's"
    and used :: "'s \<Rightarrow> 'i set"
    and cap :: "'s \<Rightarrow> nat option"
    and invar :: "'s \<Rightarrow> bool"
  assumes reserve_invar: "invar s \<Longrightarrow> invar (snd (reserve i s))"
    and release_invar: "invar s \<Longrightarrow> invar (snd (release i s))"
    and reserve_used: "invar s \<Longrightarrow> used (snd (reserve i s)) = (if is_ok (fst (reserve i s)) then insert i (used s) else used s)"
    and release_used: "invar s \<Longrightarrow> used (snd (release i s)) = used s - {i}"
    and reserve_ok: "invar s \<Longrightarrow>
      is_ok (fst (reserve i s)) \<longleftrightarrow> i \<in> used s \<or> (\<forall>m. cap s = Some m \<longrightarrow> card (used s) < m)"
    and cap_reserve: "cap (snd (reserve i s)) = cap s"
    and cap_release: "cap (snd (release i s)) = cap s"
    and finite_used: "invar s \<Longrightarrow> finite (used s)"
begin

definition within_cap :: "'s \<Rightarrow> bool" where
  "within_cap s \<longleftrightarrow> invar s \<and> (\<forall>m. cap s = Some m \<longrightarrow> card (used s) \<le> m)"

lemma within_cap_reserve: "within_cap s \<Longrightarrow> within_cap (snd (reserve i s))"
  unfolding within_cap_def
  by (auto simp: reserve_invar reserve_used cap_reserve reserve_ok card_insert_if finite_used)

lemma within_cap_release: "within_cap s \<Longrightarrow> within_cap (snd (release i s))"
  unfolding within_cap_def
  by (auto simp: release_invar release_used cap_release intro: order_trans [OF card_Diff1_le] finite_used)

text \<open>Any interleaving of reservations (\<open>Inl\<close>) and releases (\<open>Inr\<close>).\<close>

primrec slot_step :: "'i + 'i \<Rightarrow> 's \<Rightarrow> 's" where
  "slot_step (Inl i) s = snd (reserve i s)"
| "slot_step (Inr i) s = snd (release i s)"

lemma within_cap_run: "within_cap s \<Longrightarrow> within_cap (fold slot_step ops s) \<and> cap (fold slot_step ops s) = cap s"
proof (induction ops arbitrary: s)
  case (Cons op ops)
  then show ?case
    by (cases op) (auto simp: within_cap_reserve within_cap_release cap_reserve cap_release)
qed simp

text \<open>A released slot can be taken again by another id.\<close>

lemma release_then_reserve:
  assumes "within_cap s" "i \<in> used s"
  shows "is_ok (fst (reserve j (snd (release i s))))"
proof -
  have inv: "invar s" and inv': "invar (snd (release i s))"
    using assms(1) by (simp_all add: within_cap_def release_invar)
  have "card (used s - {i}) < card (used s)"
    by (rule card_Diff1_less [OF finite_used [OF inv] assms(2)])
  then show ?thesis
    using assms(1) by (auto simp: reserve_ok [OF inv'] release_used [OF inv] cap_release within_cap_def)
qed

end

definition quota_invar :: "('t, 'n) conn_state \<Rightarrow> bool" where
  "quota_invar st \<longleftrightarrow> distinct (ct_quota_usage st)"

interpretation quota: bounded_slots
  "reserve_quota_slot :: subscription_id \<Rightarrow> ('t, 'n) conn_state \<Rightarrow> _" release_quota_slot
  "\<lambda>st. set (ct_quota_usage st)" ct_max_subscriptions quota_invar
  by unfold_locales
    (auto simp: reserve_quota_slot_def release_quota_slot_def quota_invar_def distinct_card distinct_removeAll
      split: option.splits if_splits)

end
