(* ===== verification/Middleware_Chain.thy ===== *)
theory Middleware_Chain
  imports Message_Sender
begin

text \<open>
  The middleware interface of \<open>src/src/nostr_middleware.rs\<close> and the chains of
  \<open>src/src/middleware_chain.rs\<close> and \<open>src/src/util/either.rs\<close>. A middleware is a record of its four
  hooks over an environment \<open>'e\<close> (connection state, relay world, ...); the hooks that a middleware
  of the source does not define are those of \<open>default_middleware\<close>. Inbound processing gets the
  rest of the chain as the function \<open>next\<close>, as the source gets \<open>ctx.next()\<close>.
\<close>

type_synonym 'e inbound = "client_message option \<Rightarrow> 'e \<Rightarrow> (anyhow_error + unit) \<times> client_message option \<times> 'e"
type_synonym 'e outbound_hook = "relay_message option \<Rightarrow> 'e \<Rightarrow> (anyhow_error + unit) \<times> relay_message option \<times> 'e"
type_synonym 'e hook = "'e \<Rightarrow> (anyhow_error + unit) \<times> 'e"

record 'e middleware =
  mw_on_connect :: "message_sender \<Rightarrow> 'e hook"
  mw_process_inbound :: "message_sender \<Rightarrow> 'e inbound \<Rightarrow> 'e inbound"
  mw_process_outbound :: "message_sender \<Rightarrow> 'e outbound_hook"
  mw_on_disconnect :: "'e hook"

definition default_middleware :: "'e middleware" where
  "default_middleware = \<lparr>mw_on_connect = (\<lambda>_ e. (Inr (), e)), mw_process_inbound = (\<lambda>_ next m e. next m e),
     mw_process_outbound = (\<lambda>_ m e. (Inr (), m, e)), mw_on_disconnect = (\<lambda>e. (Inr (), e))\<rparr>"

section \<open>Chains\<close>

datatype 'm blueprint = End | Link 'm "'m blueprint" nat

datatype 'm connected = CEnd | CLink 'm "'m connected" nat message_sender

primrec build_connected :: "channel \<Rightarrow> 'm blueprint \<Rightarrow> 'm connected" where
  "build_connected ch End = CEnd"
| "build_connected ch (Link mw nxt pos) =
     CLink mw (build_connected ch nxt) pos \<lparr>ms_channel = ch, ms_position = pos\<rparr>"

primrec process_inbound_chain :: "'e middleware connected \<Rightarrow> 'e inbound" where
  "process_inbound_chain CEnd m e = (Inr (), m, e)"
| "process_inbound_chain (CLink mw nxt pos ms) m e =
     mw_process_inbound mw ms (process_inbound_chain nxt) m e"

primrec on_connect_chain :: "'e middleware connected \<Rightarrow> 'e hook" where
  "on_connect_chain CEnd e = (Inr (), e)"
| "on_connect_chain (CLink mw nxt pos ms) e = (case mw_on_connect mw ms e of
     (Inl err, e') \<Rightarrow> (Inl err, e')
   | (Inr _, e') \<Rightarrow> on_connect_chain nxt e')"

primrec process_outbound_chain :: "'e middleware connected \<Rightarrow> nat \<Rightarrow> 'e outbound_hook" where
  "process_outbound_chain CEnd from m e = (Inr (), m, e)"
| "process_outbound_chain (CLink mw nxt pos ms) from m e =
     (if from \<le> pos then
        (case process_outbound_chain nxt from m e of
           (Inl err, m', e') \<Rightarrow> (Inl err, m', e')
         | (Inr _, m', e') \<Rightarrow> mw_process_outbound mw ms m' e')
      else process_outbound_chain nxt from m e)"

primrec on_disconnect_chain :: "'e middleware connected \<Rightarrow> 'e hook" where
  "on_disconnect_chain CEnd e = (Inr (), e)"
| "on_disconnect_chain (CLink mw nxt pos ms) e = (case on_disconnect_chain nxt e of
     (Inl err, e') \<Rightarrow> (Inl err, e')
   | (Inr _, e') \<Rightarrow> mw_on_disconnect mw e')"

section \<open>The builder\<close>

record 'm chain_builder =
  cb_chain :: "'m blueprint"
  cb_next_position :: nat

definition builder_new :: "'m chain_builder" where
  "builder_new = \<lparr>cb_chain = End, cb_next_position = 0\<rparr>"

definition builder_with :: "'m \<Rightarrow> 'm chain_builder \<Rightarrow> 'm chain_builder" where
  "builder_with mw b = \<lparr>cb_chain = Link mw (cb_chain b) (cb_next_position b),
     cb_next_position = cb_next_position b + 1\<rparr>"

section \<open>Conditional middleware\<close>

datatype ('l, 'r) either = LeftM 'l | RightM 'r

definition identity_middleware :: "'e middleware" where
  "identity_middleware = default_middleware\<lparr>mw_process_inbound := (\<lambda>_ next m e. next m e),
     mw_process_outbound := (\<lambda>_ m e. (Inr (), m, e)), mw_on_disconnect := (\<lambda>e. (Inr (), e))\<rparr>"

definition either_middleware :: "('e middleware, 'e middleware) either \<Rightarrow> 'e middleware" where
  "either_middleware x =
     \<lparr>mw_on_connect = (\<lambda>ms e. case x of LeftM l \<Rightarrow> mw_on_connect l ms e | RightM r \<Rightarrow> mw_on_connect r ms e),
      mw_process_inbound = (\<lambda>ms next m e. case x of
         LeftM l \<Rightarrow> mw_process_inbound l ms next m e | RightM r \<Rightarrow> mw_process_inbound r ms next m e),
      mw_process_outbound = (\<lambda>ms m e. case x of
         LeftM l \<Rightarrow> mw_process_outbound l ms m e | RightM r \<Rightarrow> mw_process_outbound r ms m e),
      mw_on_disconnect = (\<lambda>e. case x of LeftM l \<Rightarrow> mw_on_disconnect l e | RightM r \<Rightarrow> mw_on_disconnect r e)\<rparr>"

section \<open>Positions\<close>

primrec links :: "'m connected \<Rightarrow> ('m \<times> nat \<times> message_sender) list" where
  "links CEnd = []"
| "links (CLink mw nxt pos ms) = (mw, pos, ms) # links nxt"

lemma builder_positions:
  "links (build_connected ch (cb_chain (fold builder_with mws builder_new))) =
     rev (map (\<lambda>(i, mw). (mw, i, \<lparr>ms_channel = ch, ms_position = i\<rparr>)) (enumerate 0 mws)) \<and>
   cb_next_position (fold builder_with mws builder_new) = length mws"
  by (induction mws rule: rev_induct) (simp_all add: builder_new_def builder_with_def enumerate_append_eq)

text \<open>Outbound processing, as one pass over the middlewares it visits, stopping at an error.\<close>

primrec run_outbound :: "('e middleware \<times> nat \<times> message_sender) list \<Rightarrow> 'e outbound_hook" where
  "run_outbound [] m e = (Inr (), m, e)"
| "run_outbound (l # ls) m e = (case mw_process_outbound (fst l) (snd (snd l)) m e of
     (Inl err, m', e') \<Rightarrow> (Inl err, m', e')
   | (Inr _, m', e') \<Rightarrow> run_outbound ls m' e')"

lemma run_outbound_snoc:
  "run_outbound (ls @ [l]) m e = (case run_outbound ls m e of
     (Inl err, m', e') \<Rightarrow> (Inl err, m', e')
   | (Inr _, m', e') \<Rightarrow> mw_process_outbound (fst l) (snd (snd l)) m' e')"
  by (induction ls arbitrary: m e) (auto split: prod.splits sum.splits)

lemma outbound_visits:
  "process_outbound_chain c from m e =
     run_outbound (rev (List.filter (\<lambda>l. from \<le> fst (snd l)) (links c))) m e"
  by (induction c arbitrary: m e) (auto simp: run_outbound_snoc split: prod.splits sum.splits)

lemma outbound_route:
  "process_outbound_chain (build_connected ch (cb_chain (fold builder_with mws builder_new))) p m e =
     run_outbound (map (\<lambda>i. (mws ! i, i, \<lparr>ms_channel = ch, ms_position = i\<rparr>)) [p..<length mws]) m e"
proof -
  let ?l = "\<lambda>i. (mws ! i, i, \<lparr>ms_channel = ch, ms_position = i\<rparr>)"
  have "map (\<lambda>(i, mw). (mw, i, \<lparr>ms_channel = ch, ms_position = i\<rparr>)) (enumerate 0 mws) = map ?l [0..<length mws]"
    by (rule nth_equalityI) (simp_all add: nth_enumerate_eq)
  moreover have "[i\<leftarrow>[0..<n]. p \<le> i] = [p..<n]" for n
    by (induction n) auto
  ultimately show ?thesis
    using builder_positions [of ch mws]
    by (simp add: outbound_visits rev_filter filter_map comp_def rev_map)
qed

primrec run_hooks :: "'e hook list \<Rightarrow> 'e hook" where
  "run_hooks [] e = (Inr (), e)"
| "run_hooks (h # hs) e = (case h e of (Inl err, e') \<Rightarrow> (Inl err, e') | (Inr _, e') \<Rightarrow> run_hooks hs e')"

lemma run_hooks_snoc:
  "run_hooks (hs @ [h]) e = (case run_hooks hs e of (Inl err, e') \<Rightarrow> (Inl err, e') | (Inr _, e') \<Rightarrow> h e')"
  by (induction hs arbitrary: e) (auto split: prod.splits sum.splits)

lemma on_connect_order:
  "on_connect_chain c = run_hooks (map (\<lambda>l. mw_on_connect (fst l) (snd (snd l))) (links c))"
  by (induction c) (auto simp: fun_eq_iff split: prod.splits sum.splits)

lemma on_disconnect_order: "on_disconnect_chain c e = run_hooks (map (\<lambda>l. mw_on_disconnect (fst l)) (rev (links c))) e"
  by (induction c arbitrary: e) (auto simp: run_hooks_snoc split: prod.splits sum.splits)

section \<open>Middlewares that leave a direction alone\<close>

text \<open>An outbound-transparent middleware can be dropped from a chain without changing what clients
  receive.\<close>

locale outbound_transparent =
  fixes mw :: "'e middleware"
  assumes outbound_id: "mw_process_outbound mw ms m e = (Inr (), m, e)"
begin

lemma skip: "run_outbound (ls @ (mw, p, ms) # ls') m e = run_outbound (ls @ ls') m e"
  by (induction ls arbitrary: m e) (auto simp: outbound_id split: prod.splits sum.splits)

lemma chain_skip: "process_outbound_chain (CLink mw nxt pos ms) from m e = process_outbound_chain nxt from m e"
  by (auto simp: outbound_id split: prod.splits sum.splits)

end

locale transparent = outbound_transparent +
  assumes inbound_id: "mw_process_inbound mw ms next m e = next m e"
    and connect_id: "mw_on_connect mw ms e = (Inr (), e)"
    and disconnect_id: "mw_on_disconnect mw e = (Inr (), e)"
begin

lemma chain_same:
  "process_inbound_chain (CLink mw nxt pos ms) m e = process_inbound_chain nxt m e"
  "on_connect_chain (CLink mw nxt pos ms) e = on_connect_chain nxt e"
  "on_disconnect_chain (CLink mw nxt pos ms) e = on_disconnect_chain nxt e"
  by (auto simp: inbound_id connect_id disconnect_id split: prod.splits sum.splits)

end

interpretation identity: transparent identity_middleware
  by unfold_locales (simp_all add: identity_middleware_def default_middleware_def)

interpretation either_identity: transparent "either_middleware (RightM identity_middleware)"
  by unfold_locales (simp_all add: either_middleware_def identity_middleware_def default_middleware_def)

end
