(* ===== verification/Relay_Env.thy ===== *)
theory Relay_Env
  imports Connection_State Middleware_Chain
begin

text \<open>
  What a middleware hook can read and change: the connection (its id, state, metadata and event
  context, the fields of the contexts of \<open>src/src/nostr_middleware.rs\<close>), the world shared with all
  connections, the state of the rate limiter (\<open>'l\<close>) and of the metrics, the clocks, and the next
  random challenge. Also the event processor of \<open>src/src/event_processor.rs\<close>: the interface to the
  relay's own business logic, here a record of its three methods, and its default instance.
\<close>

datatype metric_call =
    RecordEventLatency kind nat
  | IncrementActiveConnections
  | DecrementActiveConnections
  | IncrementInboundEventsProcessed

record ('t, 'n, 'db, 'l) env =
  en_connection_id :: connection_id
  en_state :: "('t, 'n) conn_state"
  en_meta :: connection_metadata
  en_context :: event_context
  en_world :: "'db world"
  en_now :: timestamp
  en_instant :: nat
  en_challenge :: string
  en_limiter :: 'l
  en_metrics :: "metric_call list"
  en_timing :: "(event_id, nat \<times> kind) hmap"

definition env_send :: "nostr_lib \<Rightarrow> message_sender \<Rightarrow> relay_message \<Rightarrow> ('t, 'n, 'db, 'l) env hook" where
  "env_send L ms msg e = (case send L ms msg (w_outbox (en_world e)) of
     (r, out') \<Rightarrow> (r, e\<lparr>en_world := (en_world e)\<lparr>w_outbox := out'\<rparr>\<rparr>))"

abbreviation env_outbox :: "('t, 'n, 'db, 'l) env \<Rightarrow> outbox" where
  "env_outbox e \<equiv> w_outbox (en_world e)"

lemma env_send_cases:
  obtains (sent) "env_send L ms msg e = (Inr (), e\<lparr>en_world := (en_world e)\<lparr>w_outbox :=
      env_outbox e @ [(ms_channel ms, msg, ms_position ms, None)]\<rparr>\<rparr>)"
  | (failed) err where "env_send L ms msg e = (Inl err, e)"
proof (cases rule: try_send_entry_cases [of L "ms_channel ms" "(msg, ms_position ms, None)" "env_outbox e"])
  case sent
  then show ?thesis by (intro that(1)) (simp add: env_send_def send_def)
next
  case (failed err)
  then show ?thesis by (intro that(2) [of err]) (simp add: env_send_def send_def)
qed

lemma env_send_fields [simp]:
  "en_state (snd (env_send L ms msg e)) = en_state e" "en_context (snd (env_send L ms msg e)) = en_context e"
  "en_meta (snd (env_send L ms msg e)) = en_meta e" "w_registry (en_world (snd (env_send L ms msg e))) = w_registry (en_world e)"
  "w_db (en_world (snd (env_send L ms msg e))) = w_db (en_world e)"
  by (auto simp: env_send_def split: prod.splits)

lemma env_send_ok: "try_send L = (\<lambda>_ _. Sent) \<Longrightarrow>
   env_send L ms msg e = (Inr (), e\<lparr>en_world := (en_world e)\<lparr>w_outbox :=
      env_outbox e @ [(ms_channel ms, msg, ms_position ms, None)]\<rparr>\<rparr>)"
  by (simp add: env_send_def send_def)

section \<open>Event processors\<close>

text \<open>\<open>'t\<close> is the custom state. \<open>can_see_event\<close> and \<open>verify_filters\<close> read it; \<open>handle_event\<close> may
  change it.\<close>

record 't event_processor =
  ep_can_see_event :: "event \<Rightarrow> 't \<Rightarrow> event_context \<Rightarrow> error + bool"
  ep_verify_filters :: "filter list \<Rightarrow> 't \<Rightarrow> event_context \<Rightarrow> error + unit"
  ep_handle_event :: "event \<Rightarrow> 't \<Rightarrow> event_context \<Rightarrow> (error + store_command list) \<times> 't"

definition default_processor :: "'t event_processor" where
  "default_processor = \<lparr>ep_can_see_event = (\<lambda>_ _ _. Inr True), ep_verify_filters = (\<lambda>_ _ _. Inr ()),
     ep_handle_event = (\<lambda>ev t cx. (Inr [command_from (ev, cx_subdomain cx)], t))\<rparr>"

end
