(* ===== verification/Scope_Config.thy ===== *)
theory Scope_Config
  imports Message_Sender
begin

text \<open>
  Scopes and configuration: \<open>src/src/subdomain.rs\<close>, \<open>src/src/config.rs\<close> and the address helper of
  \<open>src/src/handlers.rs\<close>. Host names are split and joined as \<open>str::split\<close> and \<open>[&str]::join\<close> do;
  parsing an IP address is the \<open>Ipv4Addr\<close> parser of the standard library, because an IPv6 address
  is never written without a colon and both callers parse text without one (\<open>extract_subdomain\<close>
  has cut it off, and \<open>Url::host_str\<close> returns IPv6 addresses in brackets, which no address parser
  accepts).
\<close>

section \<open>Splitting strings\<close>

fun str_split :: "char \<Rightarrow> string \<Rightarrow> string list" where
  "str_split c [] = [[]]"
| "str_split c (x # xs) =
     (if x = c then [] # str_split c xs
      else case str_split c xs of p # ps \<Rightarrow> (x # p) # ps | [] \<Rightarrow> [[x]])"

fun str_join :: "string \<Rightarrow> string list \<Rightarrow> string" where
  "str_join sep [] = []"
| "str_join sep [p] = p"
| "str_join sep (p # ps) = p @ sep @ str_join sep ps"

lemma str_split_not_Nil [simp]: "str_split c s \<noteq> []"
  by (induction s) (auto split: list.splits)

lemma str_join_Cons: "ps \<noteq> [] \<Longrightarrow> str_join sep (p # ps) = p @ sep @ str_join sep ps"
  by (cases ps) simp_all

lemma str_join_split: "str_join [c] (str_split c s) = s"
proof (induction s)
  case (Cons x s)
  then show ?case
    by (cases "str_split c s"; cases "tl (str_split c s)") (auto simp: str_join_Cons)
qed simp

lemma str_split_parts: "p \<in> set (str_split c s) \<Longrightarrow> c \<notin> set p"
  by (induction s arbitrary: p) (force split: list.splits if_splits)+

lemma str_split_append: "c \<notin> set p \<Longrightarrow> str_split c (p @ c # s) = p # str_split c s"
  by (induction p) auto

lemma str_split_simple: "c \<notin> set p \<Longrightarrow> str_split c p = [p]"
  by (induction p) auto

lemma str_split_join:
  "ps \<noteq> [] \<Longrightarrow> list_all (\<lambda>p. c \<notin> set p) ps \<Longrightarrow> str_split c (str_join [c] ps) = ps"
  by (induction ps rule: induct_list012) (auto simp: str_split_simple str_split_append)

lemma str_join_append:
  "ps \<noteq> [] \<Longrightarrow> qs \<noteq> [] \<Longrightarrow> str_join sep (ps @ qs) = str_join sep ps @ sep @ str_join sep qs"
  by (induction ps rule: induct_list012) (auto simp: str_join_Cons)

lemma str_split_concat: "str_split c (s @ c # t) = str_split c s @ str_split c t"
proof (induction s)
  case (Cons x s)
  then show ?case
    by (cases "str_split c s") auto
qed simp

section \<open>IPv4 addresses\<close>

definition is_digit_char :: "char \<Rightarrow> bool" where
  "is_digit_char c \<longleftrightarrow> 48 \<le> (of_char c :: nat) \<and> (of_char c :: nat) \<le> 57"

definition digits_val :: "string \<Rightarrow> nat" where
  "digits_val s = foldl (\<lambda>n c. 10 * n + (of_char c - 48)) 0 s"

text \<open>One octet: one to three digits, no leading zero, at most 255.\<close>

definition octet_ok :: "string \<Rightarrow> bool" where
  "octet_ok s \<longleftrightarrow> s \<noteq> [] \<and> length s \<le> 3 \<and> list_all is_digit_char s \<and>
     (length s > 1 \<longrightarrow> hd s \<noteq> CHR ''0'') \<and> digits_val s \<le> 255"

definition parse_ip_addr_ok :: "string \<Rightarrow> bool" where
  "parse_ip_addr_ok s \<longleftrightarrow> length (str_split CHR ''.'' s) = 4 \<and> list_all octet_ok (str_split CHR ''.'' s)"

section \<open>Subdomains\<close>

definition extract_subdomain :: "string \<Rightarrow> nat \<Rightarrow> string option" where
  "extract_subdomain host base_domain_parts =
     (let host_without_port = (case str_split CHR '':'' host of h # _ \<Rightarrow> h | [] \<Rightarrow> host)
      in if host_without_port = ''localhost'' \<or> parse_ip_addr_ok host_without_port then None
      else let parts = str_split CHR ''.'' host_without_port
        in if length parts \<le> base_domain_parts then None
           else Some (str_join ''.'' (take (length parts - base_domain_parts) parts)))"

section \<open>Configuration\<close>

datatype scope_config = Disabled | Subdomain nat | Fixed scope

definition resolve_scope :: "nostr_lib \<Rightarrow> scope_config \<Rightarrow> string option \<Rightarrow> scope" where
  "resolve_scope L sc host = (case sc of
     Disabled \<Rightarrow> ScopeDefault
   | Subdomain n \<Rightarrow>
       (case Option.bind (Option.bind host (\<lambda>h. extract_subdomain h n))
               (\<lambda>s. if s = [] then None else scope_named L s) of
          Some scp \<Rightarrow> scp | None \<Rightarrow> ScopeDefault)
   | Fixed scp \<Rightarrow> scp)"

record websocket_config =
  wc_max_connections :: "nat option"
  wc_max_connection_duration :: "nat option"
  wc_idle_timeout :: "nat option"

datatype 'd database_config = DbPath string | DbInstance 'd

record 'd relay_config =
  rc_relay_url :: string
  rc_database :: "'d database_config option"
  rc_keys :: pubkey
  rc_scope_config :: scope_config
  rc_enable_auth :: bool
  rc_websocket_config :: websocket_config
  rc_max_subscriptions :: nat
  rc_max_limit :: nat
  rc_max_readers :: "nat option"
  rc_enable_diagnostics :: bool
  rc_ingester_cpu_affinity :: "nat option"

definition relay_config_new :: "string \<Rightarrow> 'd database_config \<Rightarrow> pubkey \<Rightarrow> 'd relay_config" where
  "relay_config_new url db keys = \<lparr>rc_relay_url = url, rc_database = Some db, rc_keys = keys,
     rc_scope_config = Disabled, rc_enable_auth = False,
     rc_websocket_config = \<lparr>wc_max_connections = None, wc_max_connection_duration = None, wc_idle_timeout = None\<rparr>,
     rc_max_subscriptions = 50, rc_max_limit = 5000, rc_max_readers = None, rc_enable_diagnostics = False,
     rc_ingester_cpu_affinity = None\<rparr>"

text \<open>Opening a database is a parameter: the path, the number of readers, and the CPU its ingester
  thread is pinned to.\<close>

type_synonym 'd db_opener = "string \<Rightarrow> nat option \<Rightarrow> nat option \<Rightarrow> error + 'd"

definition create_database_from_config ::
  "'d db_opener \<Rightarrow> 'd database_config \<Rightarrow> nat option \<Rightarrow> nat option \<Rightarrow> error + 'd" where
  "create_database_from_config with_config cfg max_readers cpu = (case cfg of
     DbPath path \<Rightarrow> with_config path max_readers cpu
   | DbInstance db \<Rightarrow> Inr db)"

definition create_database_with_tracker :: "'d db_opener \<Rightarrow> 'd relay_config \<Rightarrow> error + 'd" where
  "create_database_with_tracker with_config c = (case rc_database c of
     Some cfg \<Rightarrow> create_database_from_config with_config cfg (rc_max_readers c) (rc_ingester_cpu_affinity c)
   | None \<Rightarrow> Inl (Internal ''Database configuration is required''))"

definition with_scope_config :: "scope_config \<Rightarrow> 'd relay_config \<Rightarrow> 'd relay_config" where
  "with_scope_config sc c = c\<lparr>rc_scope_config := sc\<rparr>"

definition with_subdomains :: "nat \<Rightarrow> 'd relay_config \<Rightarrow> 'd relay_config" where
  "with_subdomains n c = c\<lparr>rc_scope_config := Subdomain n\<rparr>"

definition with_subdomains_from_url :: "nostr_lib \<Rightarrow> string \<Rightarrow> 'd relay_config \<Rightarrow> 'd relay_config" where
  "with_subdomains_from_url L url c =
     (let host = (case url_host_str L url of Some h \<Rightarrow> h | None \<Rightarrow> []);
          base_domain_parts = (if host = [] \<or> host = ''localhost'' \<or> parse_ip_addr_ok host then 2
            else length (str_split CHR ''.'' host))
      in c\<lparr>rc_scope_config := Subdomain base_domain_parts\<rparr>)"

definition with_websocket_config :: "websocket_config \<Rightarrow> 'd relay_config \<Rightarrow> 'd relay_config" where
  "with_websocket_config wc c = c\<lparr>rc_websocket_config := wc\<rparr>"

definition with_max_connections :: "nat \<Rightarrow> 'd relay_config \<Rightarrow> 'd relay_config" where
  "with_max_connections n c = c\<lparr>rc_websocket_config := (rc_websocket_config c)\<lparr>wc_max_connections := Some n\<rparr>\<rparr>"

definition with_max_connection_duration :: "nat \<Rightarrow> 'd relay_config \<Rightarrow> 'd relay_config" where
  "with_max_connection_duration s c =
     c\<lparr>rc_websocket_config := (rc_websocket_config c)\<lparr>wc_max_connection_duration := Some s\<rparr>\<rparr>"

definition with_idle_timeout :: "nat \<Rightarrow> 'd relay_config \<Rightarrow> 'd relay_config" where
  "with_idle_timeout s c = c\<lparr>rc_websocket_config := (rc_websocket_config c)\<lparr>wc_idle_timeout := Some s\<rparr>\<rparr>"

definition with_ingester_cpu_affinity :: "nat \<Rightarrow> 'd relay_config \<Rightarrow> 'd relay_config" where
  "with_ingester_cpu_affinity cpu c = c\<lparr>rc_ingester_cpu_affinity := Some cpu\<rparr>"

definition with_max_subscriptions :: "nat \<Rightarrow> 'd relay_config \<Rightarrow> 'd relay_config" where
  "with_max_subscriptions n c = c\<lparr>rc_max_subscriptions := n\<rparr>"

definition with_max_limit :: "nat \<Rightarrow> 'd relay_config \<Rightarrow> 'd relay_config" where
  "with_max_limit n c = c\<lparr>rc_max_limit := n\<rparr>"

definition with_subscription_limits :: "nat \<Rightarrow> nat \<Rightarrow> 'd relay_config \<Rightarrow> 'd relay_config" where
  "with_subscription_limits subs limit c = c\<lparr>rc_max_subscriptions := subs, rc_max_limit := limit\<rparr>"

definition with_max_readers :: "nat \<Rightarrow> 'd relay_config \<Rightarrow> 'd relay_config" where
  "with_max_readers n c = c\<lparr>rc_max_readers := Some n\<rparr>"

definition with_diagnostics :: "'d relay_config \<Rightarrow> 'd relay_config" where
  "with_diagnostics c = c\<lparr>rc_enable_diagnostics := True\<rparr>"

text \<open>\<open>usize\<close> arithmetic of a release build, which wraps at 64 bits.\<close>

definition calculate_channel_size :: "'d relay_config \<Rightarrow> nat" where
  "calculate_channel_size c =
     (let overhead = 5; limit_based_size = (rc_max_limit c + overhead) mod 2 ^ 64
      in (rc_max_subscriptions c * limit_based_size) mod 2 ^ 64)"

section \<open>Client addresses\<close>

definition is_space :: "char \<Rightarrow> bool" where
  "is_space c \<longleftrightarrow> c = CHR '' '' \<or> (9 \<le> (of_char c :: nat) \<and> (of_char c :: nat) \<le> 13)"

definition str_trim :: "string \<Rightarrow> string" where
  "str_trim s = rev (dropWhile is_space (rev (dropWhile is_space s)))"

text \<open>The header is \<open>None\<close> when it is missing, \<open>Some None\<close> when it is not readable text.\<close>

definition get_real_ip :: "string option option \<Rightarrow> string \<times> string \<Rightarrow> string" where
  "get_real_ip forwarded_for socket_addr =
     (let ip = (case forwarded_for of
          Some (Some s) \<Rightarrow> (case str_split CHR '','' s of real_ip # _ \<Rightarrow> str_trim real_ip | [] \<Rightarrow> fst socket_addr)
        | _ \<Rightarrow> fst socket_addr)
      in ip @ '':'' @ snd socket_addr)"

section \<open>Splitting a host name\<close>

lemma hd_split_port: "(case str_split CHR '':'' host of h # _ \<Rightarrow> h | [] \<Rightarrow> host) = hd (str_split CHR '':'' host)"
  by (cases "str_split CHR '':'' host") auto

text \<open>A host is its subdomain, a dot, and a base domain of the configured number of labels.\<close>

lemma extract_subdomain_join:
  assumes "extract_subdomain host n = Some s"
  shows "\<exists>parts. hd (str_split CHR '':'' host) = str_join ''.'' parts \<and> n < length parts \<and>
    s = str_join ''.'' (take (length parts - n) parts)"
  using assms str_join_split [of "CHR ''.''" "hd (str_split CHR '':'' host)"]
  unfolding extract_subdomain_def hd_split_port Let_def
  by (auto split: if_splits intro!: exI [of _ "str_split CHR ''.'' (hd (str_split CHR '':'' host))"])

lemma extract_subdomain_base:
  assumes "extract_subdomain host n = Some s" "0 < n"
  shows "\<exists>base. hd (str_split CHR '':'' host) = s @ ''.'' @ base \<and> length (str_split CHR ''.'' base) = n"
proof -
  let ?h = "hd (str_split CHR '':'' host)"
  let ?ps = "str_split CHR ''.'' ?h"
  let ?k = "length ?ps - n"
  have k: "n < length ?ps" "s = str_join ''.'' (take ?k ?ps)"
    using assms(1) unfolding extract_subdomain_def hd_split_port Let_def by (auto split: if_splits)
  have ne: "take ?k ?ps \<noteq> []" "drop ?k ?ps \<noteq> []" "length (drop ?k ?ps) = n"
    using k(1) assms(2) by auto
  have "?h = str_join ''.'' (take ?k ?ps @ drop ?k ?ps)"
    by (simp add: str_join_split)
  also have "\<dots> = s @ ''.'' @ str_join ''.'' (drop ?k ?ps)"
    unfolding k(2) by (rule str_join_append [OF ne(1,2)])
  finally have "?h = s @ ''.'' @ str_join ''.'' (drop ?k ?ps)" .
  moreover have "str_split CHR ''.'' (str_join ''.'' (drop ?k ?ps)) = drop ?k ?ps"
    using ne(2) by (intro str_split_join) (auto simp: list_all_iff dest: in_set_dropD str_split_parts)
  ultimately show ?thesis
    using ne(3) by metis
qed

text \<open>Conversely, a host built from a subdomain and a base domain gives the subdomain back.\<close>

lemma extract_subdomain_of_join:
  assumes colon: "CHR '':'' \<notin> set (s @ ''.'' @ base)"
    and host: "s @ ''.'' @ base \<noteq> ''localhost''" "\<not> parse_ip_addr_ok (s @ ''.'' @ base)"
    and base: "length (str_split CHR ''.'' base) = n"
  shows "extract_subdomain (s @ ''.'' @ base) n = Some s"
proof -
  let ?ps = "str_split CHR ''.'' s" and ?bs = "str_split CHR ''.'' base"
  have split: "str_split CHR ''.'' (s @ CHR ''.'' # base) = ?ps @ ?bs"
    by (rule str_split_concat)
  have "0 < n"
    using base by (metis length_greater_0_conv str_split_not_Nil)
  then show ?thesis
    using host base str_split_simple [OF colon] by (simp add: extract_subdomain_def Let_def split str_join_split)
qed

end
