(* ===== verification/Middlewares.thy ===== *)
theory Middlewares
  imports Relay_Env Scope_Config
begin

text \<open>
  The middlewares of \<open>src/src/middlewares/\<close>: error handling, NIP-40 expiration, NIP-42
  authentication, NIP-70 protected events, rate limiting, metrics and logging. Each is a
  \<open>middleware\<close> whose undefined hooks are the defaults of the trait; log lines are left out.
\<close>

section \<open>Error handling\<close>

datatype client_message_id = IdEvent event_id | IdSubscription subscription_id

definition message_id_of :: "client_message option \<Rightarrow> client_message_id option" where
  "message_id_of m = (case m of
     Some (CM_Event ev) \<Rightarrow> Some (IdEvent (ev_id ev))
   | Some (CM_Req sid _) \<Rightarrow> Some (IdSubscription sid)
   | Some (CM_Close sid) \<Rightarrow> Some (IdSubscription sid)
   | Some (CM_NegOpen sid _ _ _) \<Rightarrow> Some (IdSubscription sid)
   | Some (CM_NegMsg sid _) \<Rightarrow> Some (IdSubscription sid)
   | Some (CM_NegClose sid) \<Rightarrow> Some (IdSubscription sid)
   | Some (CM_Auth ev) \<Rightarrow> Some (IdEvent (ev_id ev))
   | _ \<Rightarrow> None)"

definition reject :: "client_message_id \<Rightarrow> string \<Rightarrow> relay_message" where
  "reject i msg = (case i of IdEvent eid \<Rightarrow> RM_Ok eid False msg | IdSubscription sid \<Rightarrow> RM_Closed sid msg)"

definition inbound_error_message :: "error \<Rightarrow> client_message_id \<Rightarrow> relay_message" where
  "inbound_error_message err i = (case err of
     Notice m \<Rightarrow> RM_Notice m
   | EventError m eid \<Rightarrow> RM_Ok eid False (''error: '' @ m)
   | SubscriptionError m sid \<Rightarrow> RM_Closed sid (''error: '' @ m)
   | AuthRequired m \<Rightarrow> reject i (''auth-required: '' @ m)
   | Restricted m \<Rightarrow> reject i (''restricted: '' @ m)
   | Duplicate m \<Rightarrow> reject i (''duplicate: '' @ m)
   | _ \<Rightarrow> reject i (''error: '' @ error_display err))"

definition handle_inbound_error ::
  "nostr_lib \<Rightarrow> error \<Rightarrow> message_sender \<Rightarrow> client_message_id \<Rightarrow> ('t, 'n, 'db, 'l) env hook" where
  "handle_inbound_error L err ms i e = (case env_send L ms (inbound_error_message err i) e of
     (Inl x, e') \<Rightarrow> (Inl (AnyhowMsg (''Failed to send message: '' @ anyhow_display x)), e')
   | (Inr _, e') \<Rightarrow> (Inr (), e'))"

definition error_handling_inbound ::
  "nostr_lib \<Rightarrow> message_sender \<Rightarrow> ('t, 'n, 'db, 'l) env inbound \<Rightarrow> ('t, 'n, 'db, 'l) env inbound" where
  "error_handling_inbound L ms next m e =
     (let client_message_id = message_id_of m
      in case next m e of
           (Inr _, m', e') \<Rightarrow> (Inr (), m', e')
         | (Inl err, m', e') \<Rightarrow>
             (case downcast_error err of
                Some er \<Rightarrow> (case client_message_id of
                    Some i \<Rightarrow> (Inr (), m', snd (handle_inbound_error L er ms i e'))
                  | None \<Rightarrow> (Inr (), m', e'))
              | None \<Rightarrow> (Inr (), m', e')))"

definition error_handling_middleware :: "nostr_lib \<Rightarrow> ('t, 'n, 'db, 'l) env middleware" where
  "error_handling_middleware L = default_middleware\<lparr>mw_process_inbound := error_handling_inbound L\<rparr>"

section \<open>NIP-40\<close>

text \<open>\<open>str::parse::<u64>\<close>: an optional plus sign, then digits, within 64 bits.\<close>

definition parse_u64 :: "string \<Rightarrow> nat option" where
  "parse_u64 s = (let ds = (case s of c # cs \<Rightarrow> if c = CHR ''+'' then cs else s | [] \<Rightarrow> [])
     in if ds \<noteq> [] \<and> list_all is_digit_char ds \<and> digits_val ds < 2 ^ 64 then Some (digits_val ds) else None)"

fun find_expiration :: "tag list \<Rightarrow> timestamp option" where
  "find_expiration [] = None"
| "find_expiration (t # ts) =
     (case (if tag_kind t = TagExpiration then Option.bind (tag_content t) parse_u64 else None) of
        Some x \<Rightarrow> Some x | None \<Rightarrow> find_expiration ts)"

definition get_event_expiration :: "event \<Rightarrow> timestamp option" where
  "get_event_expiration ev = find_expiration (ev_tags ev)"

definition expired :: "timestamp \<Rightarrow> event \<Rightarrow> bool" where
  "expired now ev = (case get_event_expiration ev of Some x \<Rightarrow> x < now | None \<Rightarrow> False)"

definition delete_expired :: "nostr_lib \<Rightarrow> 'db lmdb \<Rightarrow> event \<Rightarrow> ('t, 'n, 'db, 'l) env \<Rightarrow> ('t, 'n, 'db, 'l) env" where
  "delete_expired L D ev e = (case ct_coordinator (en_state e) of
     None \<Rightarrow> e
   | Some _ \<Rightarrow> e\<lparr>en_world := snd (save_and_broadcast L D
         (DeleteEvents (filter_new\<lparr>f_ids := Some [ev_id ev]\<rparr>) (md_subdomain (en_meta e)) None) (en_world e))\<rparr>)"

definition nip40_inbound ::
  "nostr_lib \<Rightarrow> 'db lmdb \<Rightarrow> message_sender \<Rightarrow> ('t, 'n, 'db, 'l) env inbound \<Rightarrow> ('t, 'n, 'db, 'l) env inbound" where
  "nip40_inbound L D ms next m e =
     next m (case m of
        Some (CM_Event ev) \<Rightarrow> if expired (en_now e) ev then delete_expired L D ev e else e
      | _ \<Rightarrow> e)"

definition nip40_outbound :: "message_sender \<Rightarrow> ('t, 'n, 'db, 'l) env outbound_hook" where
  "nip40_outbound ms m e =
     (Inr (), case m of
        Some (RM_Event sid ev) \<Rightarrow> if expired (en_now e) ev then None else m
      | _ \<Rightarrow> m, e)"

definition nip40_middleware :: "nostr_lib \<Rightarrow> 'db lmdb \<Rightarrow> ('t, 'n, 'db, 'l) env middleware" where
  "nip40_middleware L D = default_middleware\<lparr>mw_process_inbound := nip40_inbound L D,
     mw_process_outbound := nip40_outbound\<rparr>"

section \<open>NIP-42\<close>

record auth_config =
  ac_relay_url :: string
  ac_validate_subdomains :: bool

definition auth_with_url :: "string \<Rightarrow> auth_config" where
  "auth_with_url url = \<lparr>ac_relay_url = url, ac_validate_subdomains = True\<rparr>"

definition trim_end_matches :: "char \<Rightarrow> string \<Rightarrow> string" where
  "trim_end_matches c s = rev (dropWhile (\<lambda>x. x = c) (rev s))"

definition validate_relay_url :: "nostr_lib \<Rightarrow> auth_config \<Rightarrow> string \<Rightarrow> scope \<Rightarrow> bool" where
  "validate_relay_url L ac client_relay_url connection_scope =
     (if str_contains client_relay_url ''localhost'' \<or> str_contains client_relay_url ''127.0.0.1'' \<or>
         str_contains (ac_relay_url ac) ''localhost'' \<or> str_contains (ac_relay_url ac) ''127.0.0.1''
      then trim_end_matches CHR ''/'' client_relay_url = trim_end_matches CHR ''/'' (ac_relay_url ac)
      else case url_host_str L client_relay_url of
        None \<Rightarrow> False
      | Some client_host \<Rightarrow> (case url_host_str L (ac_relay_url ac) of
          None \<Rightarrow> False
        | Some relay_host \<Rightarrow>
            let client_parts = str_split CHR ''.'' client_host;
                relay_parts = str_split CHR ''.'' relay_host;
                base_domain_parts = length relay_parts;
                client_base_start = (if length client_parts \<ge> base_domain_parts
                  then length client_parts - base_domain_parts else 0);
                client_base = str_join ''.'' (drop client_base_start client_parts);
                relay_base = str_join ''.'' relay_parts
            in if client_base \<noteq> relay_base then False
               else if \<not> ac_validate_subdomains ac then True
               else case connection_scope of
                 ScopeNamed conn_subdomain \<Rightarrow> (case extract_subdomain client_host base_domain_parts of
                     Some client_sub \<Rightarrow> client_sub = conn_subdomain
                   | None \<Rightarrow> False)
               | ScopeDefault \<Rightarrow> extract_subdomain client_host base_domain_parts = None))"

definition nip42_on_connect :: "nostr_lib \<Rightarrow> message_sender \<Rightarrow> ('t, 'n, 'db, 'l) env hook" where
  "nip42_on_connect L ms e = (case get_challenge_event (en_challenge e) (en_state e) of
     (msg, st) \<Rightarrow> (case env_send L ms msg (e\<lparr>en_state := st\<rparr>) of
        (Inl x, e') \<Rightarrow> (Inl (AnyhowMsg (''Failed to send challenge: '' @ anyhow_display x)), e')
      | (Inr _, e') \<Rightarrow> (Inr (), e')))"

definition tag_challenge :: "tag \<Rightarrow> string option" where
  "tag_challenge t = (case tag_standardized t of Some (StdChallenge s) \<Rightarrow> Some s | _ \<Rightarrow> None)"

definition tag_relay :: "tag \<Rightarrow> string option" where
  "tag_relay t = (case tag_standardized t of Some (StdRelay r) \<Rightarrow> Some r | _ \<Rightarrow> None)"

fun find_map :: "('a \<Rightarrow> 'b option) \<Rightarrow> 'a list \<Rightarrow> 'b option" where
  "find_map f [] = None"
| "find_map f (x # xs) = (case f x of Some y \<Rightarrow> Some y | None \<Rightarrow> find_map f xs)"

text \<open>The checks of an AUTH event in order: what fails first, as the text of the OK message and of the
  error, or nothing.\<close>

definition auth_failure ::
  "nostr_lib \<Rightarrow> auth_config \<Rightarrow> ('t, 'n, 'db, 'l) env \<Rightarrow> event \<Rightarrow> (string \<times> string) option" where
  "auth_failure L ac e ev = (case ct_challenge (en_state e) of
     None \<Rightarrow> Some (''auth-required: no challenge pending'', ''No challenge found in state'')
   | Some expected \<Rightarrow>
     if ev_kind ev \<noteq> 22242 then Some (''auth-required: invalid event kind'', ''Invalid event kind'')
     else if \<not> is_ok (event_verify L ev) then Some (''auth-required: invalid signature'', ''Invalid signature'')
     else case find_map tag_challenge (ev_tags ev) of
       None \<Rightarrow> Some (''auth-required: missing challenge tag'', ''No challenge tag found'')
     | Some found \<Rightarrow>
       if found \<noteq> expected then Some (''auth-required: challenge mismatch'', ''Challenge mismatch'')
       else case find_map tag_relay (ev_tags ev) of
         None \<Rightarrow> Some (''auth-required: missing relay tag'', ''No relay tag found'')
       | Some url \<Rightarrow>
         if \<not> validate_relay_url L ac (relay_url_str L url) (md_subdomain (en_meta e))
         then Some (''auth-required: relay mismatch'', ''Relay mismatch'')
         else if ev_created_at ev < en_now e - 600
         then Some (''auth-required: expired auth event'', ''Expired auth event'')
         else None)"

definition nip42_auth ::
  "nostr_lib \<Rightarrow> auth_config \<Rightarrow> message_sender \<Rightarrow> event \<Rightarrow> ('t, 'n, 'db, 'l) env hook" where
  "nip42_auth L ac ms ev e = (case auth_failure L ac e ev of
     Some (ok_msg, err_msg) \<Rightarrow> (case env_send L ms (RM_Ok (ev_id ev) False ok_msg) e of
         (Inl x, e') \<Rightarrow> (Inl x, e')
       | (Inr _, e') \<Rightarrow> (Inl (FromError (AuthRequired err_msg)), e'))
   | None \<Rightarrow> (case set_authenticated (ev_pubkey ev) (en_state e, en_context e) of
       (st, cx) \<Rightarrow> env_send L ms (RM_Ok (ev_id ev) True ''authenticated'') (e\<lparr>en_state := st, en_context := cx\<rparr>)))"

definition nip42_inbound ::
  "nostr_lib \<Rightarrow> auth_config \<Rightarrow> message_sender \<Rightarrow> ('t, 'n, 'db, 'l) env inbound \<Rightarrow> ('t, 'n, 'db, 'l) env inbound"
  where
  "nip42_inbound L ac ms next m e = (case m of
     Some (CM_Auth ev) \<Rightarrow> (case nip42_auth L ac ms ev e of (r, e') \<Rightarrow> (r, m, e'))
   | _ \<Rightarrow> next m e)"

definition nip42_middleware :: "nostr_lib \<Rightarrow> auth_config \<Rightarrow> ('t, 'n, 'db, 'l) env middleware" where
  "nip42_middleware L ac = default_middleware\<lparr>mw_on_connect := nip42_on_connect L,
     mw_process_inbound := nip42_inbound L ac, mw_process_outbound := (\<lambda>_ m e. (Inr (), m, e))\<rparr>"

section \<open>NIP-70\<close>

definition nip70_inbound ::
  "nostr_lib \<Rightarrow> message_sender \<Rightarrow> ('t, 'n, 'db, 'l) env inbound \<Rightarrow> ('t, 'n, 'db, 'l) env inbound" where
  "nip70_inbound L ms next m e = (case m of
     Some (CM_Event ev) \<Rightarrow>
       if find_standardized L (ev_tags ev) TagProtected = None then next m e
       else (case ct_authed_pubkey (en_state e) of
         None \<Rightarrow> (Inl (FromError (AuthRequired ''this event may only be published by its author'')), m, e)
       | Some auth_pubkey \<Rightarrow>
           if auth_pubkey \<noteq> ev_pubkey ev then
             (case env_send L ms (RM_Ok (ev_id ev) False ''rejected: this event may only be published by its author'') e of
                (r, e') \<Rightarrow> (r, m, e'))
           else next m e)
   | _ \<Rightarrow> next m e)"

definition nip70_middleware :: "nostr_lib \<Rightarrow> ('t, 'n, 'db, 'l) env middleware" where
  "nip70_middleware L = default_middleware\<lparr>mw_process_inbound := nip70_inbound L,
     mw_process_outbound := (\<lambda>_ m e. (Inr (), m, e))\<rparr>"

section \<open>Rate limiting\<close>

text \<open>The limiters of the crate \<open>governor\<close>: \<open>True\<close> means the request is within the quota.\<close>

record 'l rate_limiter =
  rl_global :: "(nat \<Rightarrow> 'l \<Rightarrow> bool \<times> 'l) option"
  rl_check_key :: "nat \<Rightarrow> connection_id \<Rightarrow> 'l \<Rightarrow> bool \<times> 'l"

definition rate_limit_inbound ::
  "'l rate_limiter \<Rightarrow> message_sender \<Rightarrow> ('t, 'n, 'db, 'l) env inbound \<Rightarrow> ('t, 'n, 'db, 'l) env inbound" where
  "rate_limit_inbound G ms next m e =
     (case (case rl_global G of None \<Rightarrow> (True, en_limiter e) | Some check \<Rightarrow> check (en_instant e) (en_limiter e)) of
        (False, l) \<Rightarrow> (Inl (FromError (Restricted ''global rate limit exceeded'')), m, e\<lparr>en_limiter := l\<rparr>)
      | (True, l) \<Rightarrow> (case rl_check_key G (en_instant e) (en_connection_id e) l of
          (False, l') \<Rightarrow> (Inl (FromError (Restricted ''connection rate limit exceeded'')), m, e\<lparr>en_limiter := l'\<rparr>)
        | (True, l') \<Rightarrow> next m (e\<lparr>en_limiter := l'\<rparr>)))"

definition rate_limit_middleware :: "'l rate_limiter \<Rightarrow> ('t, 'n, 'db, 'l) env middleware" where
  "rate_limit_middleware G = default_middleware\<lparr>mw_process_inbound := rate_limit_inbound G\<rparr>"

section \<open>Metrics\<close>

text \<open>The handler decides from its own history whether it wants the next event timed.\<close>

type_synonym metrics_handler = "metric_call list \<Rightarrow> bool"

definition call_metric :: "metric_call \<Rightarrow> ('t, 'n, 'db, 'l) env \<Rightarrow> ('t, 'n, 'db, 'l) env" where
  "call_metric c e = e\<lparr>en_metrics := en_metrics e @ [c]\<rparr>"

definition metrics_inbound ::
  "metrics_handler option \<Rightarrow> message_sender \<Rightarrow> ('t, 'n, 'db, 'l) env inbound \<Rightarrow> ('t, 'n, 'db, 'l) env inbound" where
  "metrics_inbound h ms next m e =
     next m (case (m, h) of
        (Some (CM_Event ev), Some should_track) \<Rightarrow>
          call_metric IncrementInboundEventsProcessed
            (if should_track (en_metrics e)
             then e\<lparr>en_timing := hm_insert (ev_id ev) (en_instant e, ev_kind ev) (en_timing e)\<rparr> else e)
      | _ \<Rightarrow> e)"

definition metrics_outbound :: "metrics_handler option \<Rightarrow> message_sender \<Rightarrow> ('t, 'n, 'db, 'l) env outbound_hook" where
  "metrics_outbound h ms m e =
     (Inr (), m, case (m, h) of
        (Some (RM_Ok eid _ _), Some _) \<Rightarrow> (case hm_get (en_timing e) eid of
            Some (start, k) \<Rightarrow>
              call_metric (RecordEventLatency k (en_instant e - start)) (e\<lparr>en_timing := hm_remove eid (en_timing e)\<rparr>)
          | None \<Rightarrow> e)
      | _ \<Rightarrow> e)"

definition metrics_middleware :: "metrics_handler option \<Rightarrow> ('t, 'n, 'db, 'l) env middleware" where
  "metrics_middleware h =
     \<lparr>mw_on_connect = (\<lambda>_ e. (Inr (), if h = None then e else call_metric IncrementActiveConnections e)),
      mw_process_inbound = metrics_inbound h, mw_process_outbound = metrics_outbound h,
      mw_on_disconnect = (\<lambda>e. (Inr (), if h = None then e else call_metric DecrementActiveConnections e))\<rparr>"

section \<open>Logging\<close>

text \<open>Every hook writes log lines and otherwise passes everything on.\<close>

definition logger_middleware :: "('t, 'n, 'db, 'l) env middleware" where
  "logger_middleware = default_middleware\<lparr>mw_process_inbound := (\<lambda>_ next m e. next m e),
     mw_process_outbound := (\<lambda>_ m e. (Inr (), m, e)), mw_on_disconnect := (\<lambda>e. (Inr (), e))\<rparr>"

definition with_essentials ::
  "nostr_lib \<Rightarrow> ('t, 'n, 'db, 'l) env middleware chain_builder \<Rightarrow> ('t, 'n, 'db, 'l) env middleware chain_builder" where
  "with_essentials L b = builder_with logger_middleware (builder_with (error_handling_middleware L) b)"

lemmas middleware_defs = error_handling_middleware_def nip40_middleware_def nip42_middleware_def
  nip70_middleware_def rate_limit_middleware_def logger_middleware_def default_middleware_def

interpretation logger: transparent "logger_middleware :: ('t, 'n, 'db, 'l) env middleware"
  by unfold_locales (simp_all add: middleware_defs)

interpretation nip42: outbound_transparent "nip42_middleware L ac :: ('t, 'n, 'db, 'l) env middleware" for L ac
  by unfold_locales (simp add: middleware_defs)

interpretation nip70: outbound_transparent "nip70_middleware L :: ('t, 'n, 'db, 'l) env middleware" for L
  by unfold_locales (simp add: middleware_defs)

interpretation error_handling: outbound_transparent
  "error_handling_middleware L :: ('t, 'n, 'db, 'l) env middleware" for L
  by unfold_locales (simp add: middleware_defs)

interpretation rate_limit: outbound_transparent "rate_limit_middleware G :: ('t, 'n, 'db, 'l) env middleware" for G
  by unfold_locales (simp add: middleware_defs)

end
