(* ===== verification/Nostr_Handler.thy ===== *)
theory Nostr_Handler
  imports Middlewares
begin

text \<open>
  The connection handler: \<open>src/src/event_ingester.rs\<close> (parsing and signature check of incoming
  text) and \<open>src/src/nostr_handler.rs\<close> (creating a connection, its inbound path, the outbound task and
  its end). A panic of the source (\<open>expect\<close>) is the result \<open>None\<close>.
\<close>

section \<open>The ingester\<close>

datatype ingester_error =
    InvalidUtf8
  | JsonParseError string
  | SignatureVerificationFailed event_id
  | MessageTooLarge

definition process_single_message :: "nostr_lib \<Rightarrow> string \<Rightarrow> ingester_error + client_message" where
  "process_single_message L text =
     (if text = [] then Inl (JsonParseError ''Empty message'')
      else case from_json L text of
        Inl err \<Rightarrow> Inl (JsonParseError err)
      | Inr msg \<Rightarrow> (case msg of
          CM_Event ev \<Rightarrow> if is_ok (event_verify L ev) then Inr (CM_Event ev)
            else Inl (SignatureVerificationFailed (ev_id ev))
        | CM_Req sid fs \<Rightarrow> Inr (CM_Req sid fs)
        | CM_Close sid \<Rightarrow> Inr (CM_Close sid)
        | CM_Auth ev \<Rightarrow> Inr (CM_Auth ev)
        | CM_Count sid f \<Rightarrow> Inr (CM_Count sid f)
        | CM_NegOpen sid f _ _ \<Rightarrow> Inr (CM_NegOpen sid f None [])
        | CM_NegMsg sid message \<Rightarrow> Inr (CM_NegMsg sid message)
        | CM_NegClose sid \<Rightarrow> Inr (CM_NegClose sid)))"

section \<open>Connections\<close>

record 'm handler_factory =
  hf_chain :: "'m blueprint"
  hf_scope_config :: scope_config
  hf_channel_size :: nat
  hf_relay_pubkey :: pubkey

record 'm nostr_connection =
  nc_chain_blueprint :: "'m blueprint option"
  nc_connected_chain :: "'m connected option"
  nc_subdomain :: scope
  nc_relay_pubkey :: pubkey
  nc_addr :: "string option"
  nc_channel :: channel
  nc_cancelled :: bool

text \<open>The scope of a connection, from its Host header.\<close>

definition connection_scope :: "nostr_lib \<Rightarrow> scope_config \<Rightarrow> string option \<Rightarrow> scope" where
  "connection_scope L sc host =
     (let subdomain = (case host of
          Some h \<Rightarrow> (case sc of
              Subdomain n \<Rightarrow> Option.bind (extract_subdomain h n) (scope_named L)
            | _ \<Rightarrow> None)
        | None \<Rightarrow> None)
      in case subdomain of Some s \<Rightarrow> s | None \<Rightarrow> ScopeDefault)"

definition create :: "nostr_lib \<Rightarrow> 'm handler_factory \<Rightarrow> channel \<Rightarrow> string option \<Rightarrow> 'm nostr_connection" where
  "create L F ch host = \<lparr>nc_chain_blueprint = Some (hf_chain F), nc_connected_chain = None,
     nc_subdomain = connection_scope L (hf_scope_config F) host, nc_relay_pubkey = hf_relay_pubkey F,
     nc_addr = None, nc_channel = ch, nc_cancelled = False\<rparr>"

text \<open>\<open>on_connect\<close> creates the connection's state and metadata in the environment, connects the
  chain, and runs the \<open>on_connect\<close> hooks. The URL of the metadata is what \<open>RelayUrl::parse\<close> (the
  parameter \<open>url\<close>) makes of the address.\<close>

definition nostr_on_connect ::
  "(string \<Rightarrow> string option) \<Rightarrow> 't \<Rightarrow> string \<Rightarrow> ('t, 'n, 'db, 'l) env middleware nostr_connection
     \<Rightarrow> ('t, 'n, 'db, 'l) env
     \<Rightarrow> ((anyhow_error + unit) \<times> ('t, 'n, 'db, 'l) env middleware nostr_connection \<times> ('t, 'n, 'db, 'l) env) option"
  where
  "nostr_on_connect url custom addr c e = (case nc_chain_blueprint c of
     None \<Rightarrow> None
   | Some blueprint \<Rightarrow>
       let relay_url = (case url (''ws://'' @ addr) of Some u \<Rightarrow> u | None \<Rightarrow> ''ws://localhost'');
           (meta, cx) = metadata_new_with_context relay_url (nc_subdomain c) (nc_relay_pubkey c);
           chain = build_connected (nc_channel c) blueprint;
           c' = c\<lparr>nc_addr := Some addr, nc_chain_blueprint := None, nc_connected_chain := Some chain\<rparr>;
           (r, e') = on_connect_chain chain (e\<lparr>en_connection_id := addr, en_state := state_with_custom custom,
             en_meta := meta, en_context := cx\<rparr>)
       in Some (r, c', e'))"

definition ingester_reply :: "ingester_error \<Rightarrow> relay_message" where
  "ingester_reply err = (case err of
     JsonParseError parse_err \<Rightarrow> RM_Notice (''Invalid message format: '' @ parse_err)
   | SignatureVerificationFailed eid \<Rightarrow> RM_Ok eid False ''invalid: event signature verification failed''
   | InvalidUtf8 \<Rightarrow> RM_Notice ''Invalid UTF-8 in message''
   | MessageTooLarge \<Rightarrow> RM_Notice ''Message size exceeds limit'')"

text \<open>The ingester's replies are sent by \<open>flume\<close>'s blocking \<open>send\<close>, not by \<open>try_send\<close>: it waits for room in the channel, and its only
  error, a channel without receivers, cannot occur, because the connection itself holds one (\<open>outbound_rx\<close>). So a call that
  returns has put its reply into the channel. It does not return when the channel is full and the outbound task has
  ended; the definition describes the calls that return.\<close>

definition on_message ::
  "nostr_lib \<Rightarrow> string \<Rightarrow> ('t, 'n, 'db, 'l) env middleware nostr_connection \<Rightarrow> ('t, 'n, 'db, 'l) env
     \<Rightarrow> ((anyhow_error + unit) \<times> ('t, 'n, 'db, 'l) env) option" where
  "on_message L text c e =
     (if nc_addr c = None then Some (Inl (AnyhowMsg ''No connection state''), e)
      else case process_single_message L text of
        Inl err \<Rightarrow> Some (Inr (), e\<lparr>en_world := (en_world e)\<lparr>w_outbox :=
            env_outbox e @ [(nc_channel c, ingester_reply err, 0, None)]\<rparr>\<rparr>)
      | Inr message \<Rightarrow> (case nc_connected_chain c of
          None \<Rightarrow> None
        | Some chain \<Rightarrow> Some (Inr (), snd (snd (process_inbound_chain chain (Some message) e)))))"

definition nostr_on_disconnect ::
  "('t, 'n, 'db, 'l) env middleware nostr_connection \<Rightarrow> ('t, 'n, 'db, 'l) env
     \<Rightarrow> ('t, 'n, 'db, 'l) env middleware nostr_connection \<times> ('t, 'n, 'db, 'l) env" where
  "nostr_on_disconnect c e =
     (c\<lparr>nc_cancelled := True\<rparr>,
      if nc_addr c = None then e
      else case nc_connected_chain c of None \<Rightarrow> e | Some chain \<Rightarrow> snd (on_disconnect_chain chain e))"

section \<open>The outbound task\<close>

text \<open>Pre-serialized JSON is used unless a middleware replaced the event by another one.\<close>

definition json_to_use :: "relay_message \<Rightarrow> relay_message \<Rightarrow> string option \<Rightarrow> string option" where
  "json_to_use original msg pre_json = (case (original, msg) of
     (RM_Event _ ev, RM_Event _ ev') \<Rightarrow> if ev_id ev = ev_id ev' then pre_json else None
   | _ \<Rightarrow> pre_json)"

definition process_entry ::
  "'e middleware connected \<Rightarrow> outbound \<Rightarrow> 'e \<Rightarrow> (relay_message \<times> string option) list \<times> 'e" where
  "process_entry chain entry e = (case entry of (message, from_index, pre_json) \<Rightarrow>
     (case process_outbound_chain chain from_index (Some message) e of
        (Inl _, _, e') \<Rightarrow> ([], e')
      | (Inr _, None, e') \<Rightarrow> ([], e')
      | (Inr _, Some msg, e') \<Rightarrow> ([(msg, json_to_use message msg pre_json)], e')))"

fun process_batch ::
  "'e middleware connected \<Rightarrow> outbound list \<Rightarrow> 'e \<Rightarrow> (relay_message \<times> string option) list \<times> 'e" where
  "process_batch chain [] e = ([], e)"
| "process_batch chain (x # xs) e = (let (out, e') = process_entry chain x e; (rest, e'') = process_batch chain xs e'
     in (out @ rest, e''))"

text \<open>Writing a batch; the flag says whether the task goes on. \<open>sink_ok\<close> is the socket: whether the
  next write succeeds after what was written.\<close>

fun write_batch :: "(relay_message \<Rightarrow> string) \<Rightarrow> (string list \<Rightarrow> string \<Rightarrow> bool)
  \<Rightarrow> (relay_message \<times> string option) list \<Rightarrow> string list \<Rightarrow> bool \<times> string list" where
  "write_batch as_json sink_ok [] written = (True, written)"
| "write_batch as_json sink_ok ((message, pre) # rest) written =
     (let json = (case pre of Some j \<Rightarrow> j | None \<Rightarrow> as_json message)
      in if sink_ok written json then write_batch as_json sink_ok rest (written @ [json]) else (False, written))"

record 'e outbound_task =
  ot_consumed :: nat
  ot_written :: "string list"
  ot_running :: bool
  ot_env :: 'e

text \<open>One turn of the \<open>select!\<close>: a batch of up to ten waiting messages, or the cancellation. The rest
  of the program may run between two turns (\<open>other\<close>), sending more messages.\<close>

inductive outbound_step ::
  "('t, 'n, 'db, 'l) env middleware connected \<Rightarrow> channel \<Rightarrow> (relay_message \<Rightarrow> string)
     \<Rightarrow> (string list \<Rightarrow> string \<Rightarrow> bool) \<Rightarrow> ('t, 'n, 'db, 'l) env outbound_task
     \<Rightarrow> ('t, 'n, 'db, 'l) env outbound_task \<Rightarrow> bool" for chain ch as_json sink_ok where
  batch: "ot_running s \<Longrightarrow>
    channel_log (env_outbox (ot_env s)) ch = old @ messages @ later \<Longrightarrow> length old = ot_consumed s \<Longrightarrow>
    messages \<noteq> [] \<Longrightarrow> length messages \<le> 10 \<Longrightarrow>
    process_batch chain messages (ot_env s) = (processed, e') \<Longrightarrow>
    write_batch as_json sink_ok processed (ot_written s) = (ok, written) \<Longrightarrow>
    outbound_step chain ch as_json sink_ok s
      \<lparr>ot_consumed = ot_consumed s + length messages, ot_written = written, ot_running = ok, ot_env = e'\<rparr>"
| cancel: "ot_running s \<Longrightarrow> outbound_step chain ch as_json sink_ok s (s\<lparr>ot_running := False\<rparr>)"
| other: "env_outbox e' = env_outbox (ot_env s) @ sent \<Longrightarrow>
    outbound_step chain ch as_json sink_ok s (s\<lparr>ot_env := e'\<rparr>)"

text \<open>The end of \<open>on_disconnect\<close>, in seconds: after the cancellation the outbound task is waited for, but no longer than
  five seconds (\<open>None\<close>: the task does not end). So \<open>on_disconnect\<close> takes at most five seconds more than the
  middlewares' \<open>on_disconnect\<close>.\<close>

definition outbound_task_wait :: "nat option \<Rightarrow> nat" where
  "outbound_task_wait ends_after = (case ends_after of Some t \<Rightarrow> min t 5 | None \<Rightarrow> 5)"

definition on_disconnect_time :: "nat \<Rightarrow> nat option option \<Rightarrow> nat" where
  "on_disconnect_time chain_time outbound_task = chain_time +
     (case outbound_task of Some task \<Rightarrow> outbound_task_wait task | None \<Rightarrow> 0)"

lemma on_disconnect_time_bound: "on_disconnect_time chain_time outbound_task \<le> chain_time + 5"
  by (simp add: on_disconnect_time_def outbound_task_wait_def split: option.split)

end
