(* ===== verification/Relay_Middleware.thy ===== *)
theory Relay_Middleware
  imports Relay_Env
begin

text \<open>
  The innermost middleware, \<open>src/src/relay_middleware.rs\<close>: EVENT, REQ, CLOSE and the NIP-77
  negentropy messages, the visibility check of outgoing events, and the set-up and clean-up of a
  connection. The reconciliation sessions of the crate \<open>negentropy\<close> (sessions \<open>'n\<close>, item storage \<open>'s\<close>)
  and the hexadecimal codec of the crate \<open>hex\<close> are the parameter record \<open>negentropy_lib\<close>.
\<close>

record ('n, 's) negentropy_lib =
  ng_storage_new :: 's
  ng_insert :: "'s \<Rightarrow> timestamp \<Rightarrow> event_id \<Rightarrow> string + 's"
  ng_seal :: "'s \<Rightarrow> string + 's"
  ng_owned :: "'s \<Rightarrow> nat \<Rightarrow> string + 'n"
  ng_reconcile :: "'n \<Rightarrow> nat list \<Rightarrow> (string + nat list) \<times> 'n"
  hex_decode :: "string \<Rightarrow> string + nat list"
  hex_encode :: "nat list \<Rightarrow> string"

record 't relay_middleware =
  rm_processor :: "'t event_processor"
  rm_max_limit :: nat
  rm_max_subscriptions :: "nat option"

section \<open>EVENT\<close>

fun position :: "('a \<Rightarrow> bool) \<Rightarrow> 'a list \<Rightarrow> nat option" where
  "position P [] = None"
| "position P (x # xs) = (if P x then Some 0 else map_option Suc (position P xs))"

definition swap_remove :: "nat \<Rightarrow> 'a list \<Rightarrow> 'a \<times> 'a list" where
  "swap_remove i xs = (xs ! i, if i = length xs - 1 then butlast xs else (butlast xs)[i := List.last xs])"

definition is_save_signed :: "store_command \<Rightarrow> bool" where
  "is_save_signed c = (case c of SaveSignedEvent _ _ _ \<Rightarrow> True | _ \<Rightarrow> False)"

fun run_commands :: "nostr_lib \<Rightarrow> 'db lmdb \<Rightarrow> store_command list \<Rightarrow> 'db world \<Rightarrow> (error + unit) \<times> 'db world" where
  "run_commands L D [] w = (Inr (), w)"
| "run_commands L D (c # cs) w = (case save_and_broadcast L D c w of
     (Inl err, w') \<Rightarrow> (Inl (Database (error_display err)), w')
   | (Inr _, w') \<Rightarrow> run_commands L D cs w')"

definition dispatch_commands ::
  "nostr_lib \<Rightarrow> 'db lmdb \<Rightarrow> message_sender option \<Rightarrow> store_command list \<Rightarrow> 'db world \<Rightarrow> (error + unit) \<times> 'db world"
  where
  "dispatch_commands L D sender commands w = (case position is_save_signed commands of
     None \<Rightarrow> run_commands L D commands w
   | Some idx \<Rightarrow> (case swap_remove idx commands of (event_command, rest) \<Rightarrow>
       (case sender of
          None \<Rightarrow> (Inl (Internal ''message_sender missing for EVENT''), w)
        | Some ms \<Rightarrow> (case set_message_sender ms event_command of
            (Inl err, _) \<Rightarrow> (Inl err, w)
          | (Inr _, event_command') \<Rightarrow> (case save_and_broadcast L D event_command' w of
              (Inl err, w') \<Rightarrow> (Inl (Database (error_display err)), w')
            | (Inr _, w') \<Rightarrow> run_commands L D rest w')))))"

definition handle_event ::
  "nostr_lib \<Rightarrow> 'db lmdb \<Rightarrow> 't relay_middleware \<Rightarrow> event \<Rightarrow> message_sender option
     \<Rightarrow> ('t, 'n, 'db, 'l) env \<Rightarrow> (error + unit) \<times> ('t, 'n, 'db, 'l) env" where
  "handle_event L D R ev sender e =
     (case ep_handle_event (rm_processor R) ev (ct_custom (en_state e)) (en_context e) of (res, t') \<Rightarrow>
        let e1 = e\<lparr>en_state := (en_state e)\<lparr>ct_custom := t'\<rparr>\<rparr>
        in (case res of
           Inl err \<Rightarrow> (Inl err, e1)
         | Inr commands \<Rightarrow> (case ct_coordinator (en_state e1) of
             None \<Rightarrow> (Inl (Internal ''No subscription coordinator available''), e1)
           | Some _ \<Rightarrow> (case dispatch_commands L D sender commands (en_world e1) of
               (r, w') \<Rightarrow> (r, e1\<lparr>en_world := w'\<rparr>)))))"

section \<open>REQ\<close>

definition visible :: "'t event_processor \<Rightarrow> 't \<Rightarrow> event_context \<Rightarrow> event \<Rightarrow> bool" where
  "visible P t cx ev = (case ep_can_see_event P ev t cx of Inr b \<Rightarrow> b | Inl _ \<Rightarrow> False)"

definition handle_subscription ::
  "nostr_lib \<Rightarrow> 'db lmdb \<Rightarrow> 't relay_middleware \<Rightarrow> subscription_id \<Rightarrow> filter list
     \<Rightarrow> ('t, 'n, 'db, 'l) env \<Rightarrow> (error + unit) \<times> ('t, 'n, 'db, 'l) env" where
  "handle_subscription L D R sid fs e =
     (let custom_state = ct_custom (en_state e); context = en_context e
      in case ep_verify_filters (rm_processor R) fs custom_state context of
           Inl err \<Rightarrow> (Inl err, e)
         | Inr _ \<Rightarrow> (case reserve_quota_slot sid (en_state e) of
             (Inl err, st) \<Rightarrow> (Inl err, e\<lparr>en_state := st\<rparr>)
           | (Inr _, st) \<Rightarrow>
               let e1 = e\<lparr>en_state := st\<rparr>;
                   filter_fn = (\<lambda>ev _ _. visible (rm_processor R) custom_state (en_context e1) ev)
               in (case ct_coordinator (en_state e1) of
                  None \<Rightarrow> (Inl (Internal ''No subscription coordinator available''), e1)
                | Some co \<Rightarrow> (case handle_req L D co sid fs (cx_authed_pubkey context) (md_subdomain (en_meta e1))
                       filter_fn (en_world e1) of
                    (r, w') \<Rightarrow> (r, e1\<lparr>en_world := w'\<rparr>)))))"

section \<open>Negentropy\<close>

fun storage_insert_all ::
  "('n, 's) negentropy_lib \<Rightarrow> (event_id \<times> timestamp) list \<Rightarrow> 's \<Rightarrow> error + 's" where
  "storage_insert_all N [] s = Inr s"
| "storage_insert_all N ((i, t) # items) s = (case ng_insert N s t i of
     Inl err \<Rightarrow> Inl (Internal (''Failed to add item to storage: '' @ err))
   | Inr s' \<Rightarrow> storage_insert_all N items s')"

text \<open>The session and its first answer, before anything is sent or stored.\<close>

definition negentropy_open ::
  "('n, 's) negentropy_lib \<Rightarrow> 'db lmdb \<Rightarrow> 'db \<Rightarrow> filter \<Rightarrow> scope \<Rightarrow> string \<Rightarrow> error + nat list \<times> 'n" where
  "negentropy_open N D db f sc initial_message = (case db_negentropy_items D db f sc of
     Inl err \<Rightarrow> Inl err
   | Inr items \<Rightarrow> (case storage_insert_all N items (ng_storage_new N) of
       Inl err \<Rightarrow> Inl err
     | Inr s \<Rightarrow> (case ng_seal N s of
         Inl err \<Rightarrow> Inl (Internal (''Failed to seal storage: '' @ err))
       | Inr s' \<Rightarrow> (case ng_owned N s' 60000 of
           Inl err \<Rightarrow> Inl (Internal (''Failed to create negentropy instance: '' @ err))
         | Inr n \<Rightarrow> (case hex_decode N initial_message of
             Inl err \<Rightarrow> Inl (Internal (''Failed to decode initial message: '' @ err))
           | Inr bytes \<Rightarrow> (case ng_reconcile N n bytes of
               (Inl err, n') \<Rightarrow> Inl (Internal (''Failed to reconcile negentropy: '' @ err))
             | (Inr response, n') \<Rightarrow> Inr (response, n')))))))"

definition send_neg_msg ::
  "nostr_lib \<Rightarrow> ('n, 's) negentropy_lib \<Rightarrow> message_sender option \<Rightarrow> subscription_id \<Rightarrow> nat list
     \<Rightarrow> ('t, 'n, 'db, 'l) env \<Rightarrow> (error + unit) \<times> ('t, 'n, 'db, 'l) env" where
  "send_neg_msg L N sender sid response e = (case sender of
     None \<Rightarrow> (Inr (), e)
   | Some ms \<Rightarrow> (case env_send L ms (RM_NegMsg sid (hex_encode N response)) e of
       (Inl x, e') \<Rightarrow> (Inl (Internal (''Failed to send negentropy response: '' @ anyhow_display x)), e')
     | (Inr _, e') \<Rightarrow> (Inr (), e')))"

definition handle_neg_open ::
  "nostr_lib \<Rightarrow> 'db lmdb \<Rightarrow> ('n, 's) negentropy_lib \<Rightarrow> subscription_id \<Rightarrow> filter \<Rightarrow> string \<Rightarrow> message_sender option
     \<Rightarrow> ('t, 'n, 'db, 'l) env \<Rightarrow> (error + unit) \<times> ('t, 'n, 'db, 'l) env" where
  "handle_neg_open L D N sid f initial_message sender e =
     (case negentropy_open N D (w_db (en_world e)) f (md_subdomain (en_meta e)) initial_message of
        Inl err \<Rightarrow> (Inl err, e)
      | Inr (response, n) \<Rightarrow> (case send_neg_msg L N sender sid response e of
          (Inl err, e') \<Rightarrow> (Inl err, e')
        | (Inr _, e') \<Rightarrow> (Inr (), e'\<lparr>en_state := add_negentropy_subscription sid n (en_state e')\<rparr>)))"

definition handle_neg_msg ::
  "nostr_lib \<Rightarrow> ('n, 's) negentropy_lib \<Rightarrow> subscription_id \<Rightarrow> string \<Rightarrow> message_sender option
     \<Rightarrow> ('t, 'n, 'db, 'l) env \<Rightarrow> (error + unit) \<times> ('t, 'n, 'db, 'l) env" where
  "handle_neg_msg L N sid message sender e = (case hm_get (ct_negentropy (en_state e)) sid of
     None \<Rightarrow> (Inl (Notice (''Negentropy subscription '' @ sid @ '' not found'')), e)
   | Some n \<Rightarrow> (case hex_decode N message of
       Inl err \<Rightarrow> (Inl (Internal (''Failed to decode message: '' @ err)), e)
     | Inr bytes \<Rightarrow> (case ng_reconcile N n bytes of (res, n') \<Rightarrow>
         let e1 = e\<lparr>en_state := (en_state e)\<lparr>ct_negentropy := hm_insert sid n' (ct_negentropy (en_state e))\<rparr>\<rparr>
         in (case res of
            Inl err \<Rightarrow> (Inl (Internal (''Failed to reconcile negentropy: '' @ err)), e1)
          | Inr response \<Rightarrow> send_neg_msg L N sender sid response e1))))"

definition handle_neg_close ::
  "subscription_id \<Rightarrow> ('t, 'n, 'db, 'l) env \<Rightarrow> (error + unit) \<times> ('t, 'n, 'db, 'l) env" where
  "handle_neg_close sid e = (Inr (), e\<lparr>en_state := snd (remove_negentropy_subscription sid (en_state e))\<rparr>)"

section \<open>The hooks\<close>

definition relay_on_connect :: "'t relay_middleware \<Rightarrow> message_sender \<Rightarrow> ('t, 'n, 'db, 'l) env hook" where
  "relay_on_connect R ms e =
     (let st = (en_state e)\<lparr>ct_registry := True, ct_max_subscriptions := rm_max_subscriptions R\<rparr>
      in case setup_connection (en_connection_id e) ms (md_subdomain (en_meta e)) (Some (rm_max_limit R)) st
               (en_world e) of
           (Inl err, st', w') \<Rightarrow>
             (Inl (AnyhowMsg (''Failed to setup connection: '' @ error_display err)), e\<lparr>en_state := st', en_world := w'\<rparr>)
         | (Inr _, st', w') \<Rightarrow> (Inr (), e\<lparr>en_state := st', en_world := w'\<rparr>))"

definition handle_close :: "nostr_lib \<Rightarrow> subscription_id \<Rightarrow> ('t, 'n, 'db, 'l) env \<Rightarrow> ('t, 'n, 'db, 'l) env" where
  "handle_close L sid e =
     (let e1 = e\<lparr>en_state := snd (release_quota_slot sid (en_state e))\<rparr>
      in case ct_coordinator (en_state e1) of
           None \<Rightarrow> e1
         | Some co \<Rightarrow> e1\<lparr>en_world := snd (co_remove_subscription L co sid (en_world e1))\<rparr>)"

text \<open>After a handler: propagate its error, or go on with the rest of the chain; after a failed
  negentropy handler, answer NEG-ERR and go on.\<close>

definition propagate ::
  "('t, 'n, 'db, 'l) env inbound \<Rightarrow> (error + unit) \<times> ('t, 'n, 'db, 'l) env
     \<Rightarrow> (anyhow_error + unit) \<times> client_message option \<times> ('t, 'n, 'db, 'l) env" where
  "propagate next r = (case r of
     (Inl err, e') \<Rightarrow> (Inl (FromError err), None, e')
   | (Inr _, e') \<Rightarrow> next None e')"

definition neg_err ::
  "nostr_lib \<Rightarrow> message_sender \<Rightarrow> subscription_id \<Rightarrow> ('t, 'n, 'db, 'l) env inbound
     \<Rightarrow> (error + unit) \<times> ('t, 'n, 'db, 'l) env
     \<Rightarrow> (anyhow_error + unit) \<times> client_message option \<times> ('t, 'n, 'db, 'l) env" where
  "neg_err L ms sid next r = (case r of
     (Inl err, e') \<Rightarrow> next None (snd (env_send L ms (RM_NegErr sid (''Error: '' @ error_display err)) e'))
   | (Inr _, e') \<Rightarrow> next None e')"

definition relay_inbound ::
  "nostr_lib \<Rightarrow> 'db lmdb \<Rightarrow> ('n, 's) negentropy_lib \<Rightarrow> 't relay_middleware \<Rightarrow> message_sender
     \<Rightarrow> ('t, 'n, 'db, 'l) env inbound \<Rightarrow> ('t, 'n, 'db, 'l) env inbound" where
  "relay_inbound L D N R ms next m e = (case m of
     None \<Rightarrow> next None e
   | Some (CM_Event ev) \<Rightarrow> propagate next (handle_event L D R ev (Some ms) e)
   | Some (CM_Req sid fs) \<Rightarrow> propagate next (handle_subscription L D R sid fs e)
   | Some (CM_Close sid) \<Rightarrow> next None (handle_close L sid e)
   | Some (CM_NegOpen sid f _ initial_message) \<Rightarrow>
       neg_err L ms sid next (handle_neg_open L D N sid f initial_message (Some ms) e)
   | Some (CM_NegMsg sid message) \<Rightarrow> neg_err L ms sid next (handle_neg_msg L N sid message (Some ms) e)
   | Some (CM_NegClose sid) \<Rightarrow> propagate next (handle_neg_close sid e)
   | Some (CM_Auth _) \<Rightarrow> next None e
   | Some (CM_Count _ _) \<Rightarrow> (Inl (FromError (Notice ''Message type not supported: COUNT'')), None, e))"

definition relay_outbound :: "'t relay_middleware \<Rightarrow> message_sender \<Rightarrow> ('t, 'n, 'db, 'l) env outbound_hook" where
  "relay_outbound R ms m e = (case m of
     Some (RM_Event sid ev) \<Rightarrow>
       (case ep_can_see_event (rm_processor R) ev (ct_custom (en_state e)) (en_context e) of
          Inl err \<Rightarrow> (Inl (FromError err), None, e)
        | Inr True \<Rightarrow> (Inr (), m, e)
        | Inr False \<Rightarrow> (Inr (), None, e))
   | _ \<Rightarrow> (Inr (), m, e))"

definition relay_on_disconnect :: "nostr_lib \<Rightarrow> ('t, 'n, 'db, 'l) env hook" where
  "relay_on_disconnect L e = (Inr (), e\<lparr>en_world := (en_world e)\<lparr>w_registry :=
     cleanup_connection L (en_connection_id e) (w_registry (en_world e))\<rparr>\<rparr>)"

definition relay_mw ::
  "nostr_lib \<Rightarrow> 'db lmdb \<Rightarrow> ('n, 's) negentropy_lib \<Rightarrow> 't relay_middleware \<Rightarrow> ('t, 'n, 'db, 'l) env middleware" where
  "relay_mw L D N R = \<lparr>mw_on_connect = relay_on_connect R, mw_process_inbound = relay_inbound L D N R,
     mw_process_outbound = relay_outbound R, mw_on_disconnect = relay_on_disconnect L\<rparr>"

section \<open>Commands of one event\<close>

lemma swap_remove_split:
  assumes "position P xs = Some i"
  shows "\<exists>ys zs. xs = ys @ fst (swap_remove i xs) # zs \<and> list_all (\<lambda>x. \<not> P x) ys \<and> P (fst (swap_remove i xs)) \<and>
    mset (snd (swap_remove i xs)) = mset (ys @ zs)"
proof -
  have pos: "i < length xs \<and> P (xs ! i) \<and> (\<forall>j < i. \<not> P (xs ! j))"
    using assms
  proof (induction xs arbitrary: i)
    case (Cons x xs)
    then show ?case
      by (auto split: if_splits simp: nth_Cons' less_Suc_eq_0_disj)
  qed simp
  let ?ys = "take i xs" and ?zs = "drop (Suc i) xs"
  have split: "xs = ?ys @ xs ! i # ?zs"
    using pos by (simp add: id_take_nth_drop)
  have no: "list_all (\<lambda>x. \<not> P x) ?ys"
    using pos by (auto simp: list_all_length)
  have rest: "mset (snd (swap_remove i xs)) = mset (?ys @ ?zs)"
  proof (cases "?zs = []")
    case True
    then have "i = length xs - 1"
      using pos by (simp add: le_Suc_eq)
    then show ?thesis
      using True by (simp add: swap_remove_def butlast_conv_take)
  next
    case False
    then have "xs = (?ys @ xs ! i # butlast ?zs) @ [List.last ?zs]" "length ?ys = i"
      using split pos by (metis append_assoc append_Cons append_butlast_last_id, simp)
    then have "butlast xs = ?ys @ xs ! i # butlast ?zs" "List.last xs = List.last ?zs"
      by (metis butlast_snoc, metis last_snoc)
    then have "(butlast xs)[i := List.last xs] = ?ys @ List.last ?zs # butlast ?zs"
      using pos by (simp add: list_update_append)
    moreover have "mset (List.last ?zs # butlast ?zs) = mset ?zs"
      using arg_cong [OF append_butlast_last_id [OF False], of mset] by simp
    ultimately show ?thesis
      using False pos by (simp add: swap_remove_def)
  qed
  show ?thesis
    using split no rest pos by (intro exI [of _ ?ys] exI [of _ ?zs]) (simp add: swap_remove_def)
qed

end
