(* ===== verification/Relay_Builder.thy ===== *)
theory Relay_Builder
  imports Nostr_Handler Relay_Middleware
begin

text \<open>
  Putting a relay together, \<open>src/src/relay_builder.rs\<close>: the builder's options and \<open>build_with\<close>, which
  creates the shared world and the middleware chain. A panic (\<open>expect\<close>, or setting the global metrics
  handler twice) is \<open>None\<close>. The background tasks it starts are the step relation of the
  replaceable-event buffer and the diagnostics of the theory \<open>Relay_Diagnostics\<close>.
\<close>

datatype 'i html_option = HtmlNone | HtmlDefault | HtmlCustom "'i \<Rightarrow> string"

record ('t, 'd, 'i) relay_builder =
  rb_config :: "'d relay_config"
  rb_cancellation_token :: "nat option"
  rb_connection_counter :: "nat option"
  rb_metrics_handler :: "metrics_handler option"
  rb_subscription_metrics_handler :: bool
  rb_html_option :: "'i html_option"
  rb_task_tracker :: "nat option"
  rb_without_defaults :: bool
  rb_event_processor :: "'t event_processor"
  rb_relay_info :: "'i option"
  rb_enable_logger :: bool
  rb_enable_error_handling :: bool
  rb_enable_metrics :: bool

definition relay_builder_new :: "'d relay_config \<Rightarrow> ('t, 'd, 'i) relay_builder" where
  "relay_builder_new config = \<lparr>rb_config = config, rb_cancellation_token = None, rb_connection_counter = None,
     rb_metrics_handler = None, rb_subscription_metrics_handler = False, rb_html_option = HtmlDefault,
     rb_task_tracker = None, rb_without_defaults = False,
     rb_event_processor = default_processor, rb_relay_info = None, rb_enable_logger = True,
     rb_enable_error_handling = True, rb_enable_metrics = False\<rparr>"

text \<open>A token, a counter and a tracker are handles shared with the caller: numbers that name them.\<close>

definition cancellation_token :: "nat \<Rightarrow> ('t, 'd, 'i) relay_builder \<Rightarrow> ('t, 'd, 'i) relay_builder" where
  "cancellation_token tok b = b\<lparr>rb_cancellation_token := Some tok\<rparr>"

definition connection_counter :: "nat \<Rightarrow> ('t, 'd, 'i) relay_builder \<Rightarrow> ('t, 'd, 'i) relay_builder" where
  "connection_counter counter b = b\<lparr>rb_connection_counter := Some counter\<rparr>"

definition task_tracker :: "nat \<Rightarrow> ('t, 'd, 'i) relay_builder \<Rightarrow> ('t, 'd, 'i) relay_builder" where
  "task_tracker tracker b = b\<lparr>rb_task_tracker := Some tracker\<rparr>"

definition rb_metrics :: "metrics_handler \<Rightarrow> ('t, 'd, 'i) relay_builder \<Rightarrow> ('t, 'd, 'i) relay_builder" where
  "rb_metrics h b = b\<lparr>rb_metrics_handler := Some h, rb_enable_metrics := True\<rparr>"

definition subscription_metrics :: "('t, 'd, 'i) relay_builder \<Rightarrow> ('t, 'd, 'i) relay_builder" where
  "subscription_metrics b = b\<lparr>rb_subscription_metrics_handler := True\<rparr>"

definition without_defaults :: "('t, 'd, 'i) relay_builder \<Rightarrow> ('t, 'd, 'i) relay_builder" where
  "without_defaults b = b\<lparr>rb_without_defaults := True, rb_enable_logger := False, rb_enable_error_handling := False\<rparr>"

definition set_event_processor ::
  "'t event_processor \<Rightarrow> ('t, 'd, 'i) relay_builder \<Rightarrow> ('t, 'd, 'i) relay_builder" where
  "set_event_processor p b = b\<lparr>rb_event_processor := p\<rparr>"

definition set_relay_info :: "'i \<Rightarrow> ('t, 'd, 'i) relay_builder \<Rightarrow> ('t, 'd, 'i) relay_builder" where
  "set_relay_info i b = b\<lparr>rb_relay_info := Some i\<rparr>"

definition custom_state :: "('t, 'd, 'i) relay_builder \<Rightarrow> ('u, 'd, 'i) relay_builder" where
  "custom_state b = \<lparr>rb_config = rb_config b, rb_cancellation_token = rb_cancellation_token b,
     rb_connection_counter = rb_connection_counter b, rb_metrics_handler = None,
     rb_subscription_metrics_handler = False, rb_html_option = rb_html_option b, rb_task_tracker = rb_task_tracker b,
     rb_without_defaults = rb_without_defaults b, rb_event_processor = default_processor,
     rb_relay_info = rb_relay_info b, rb_enable_logger = rb_enable_logger b,
     rb_enable_error_handling = rb_enable_error_handling b, rb_enable_metrics = rb_enable_metrics b\<rparr>"

definition set_html :: "'i html_option \<Rightarrow> ('t, 'd, 'i) relay_builder \<Rightarrow> ('t, 'd, 'i) relay_builder" where
  "set_html h b = b\<lparr>rb_html_option := h\<rparr>"

definition without_html :: "('t, 'd, 'i) relay_builder \<Rightarrow> ('t, 'd, 'i) relay_builder" where
  "without_html b = b\<lparr>rb_html_option := HtmlNone\<rparr>"

definition custom_html :: "('i \<Rightarrow> string) \<Rightarrow> ('t, 'd, 'i) relay_builder \<Rightarrow> ('t, 'd, 'i) relay_builder" where
  "custom_html provider b = b\<lparr>rb_html_option := HtmlCustom provider\<rparr>"

definition without_logger :: "('t, 'd, 'i) relay_builder \<Rightarrow> ('t, 'd, 'i) relay_builder" where
  "without_logger b = b\<lparr>rb_enable_logger := False\<rparr>"

definition without_error_handling :: "('t, 'd, 'i) relay_builder \<Rightarrow> ('t, 'd, 'i) relay_builder" where
  "without_error_handling b = b\<lparr>rb_enable_error_handling := False\<rparr>"

section \<open>Building\<close>

definition relay_max_subscriptions :: "'d relay_config \<Rightarrow> nat option" where
  "relay_max_subscriptions c = (if rc_max_subscriptions c > 0 then Some (rc_max_subscriptions c) else None)"

definition relay_middleware_of :: "('t, 'd, 'i) relay_builder \<Rightarrow> 't relay_middleware" where
  "relay_middleware_of b = \<lparr>rm_processor = rb_event_processor b, rm_max_limit = rc_max_limit (rb_config b),
     rm_max_subscriptions = relay_max_subscriptions (rb_config b)\<rparr>"

definition metrics_layer :: "('t, 'd, 'i) relay_builder \<Rightarrow> ('t, 'n, 'db, 'l) env middleware" where
  "metrics_layer b =
     (if rb_enable_metrics b then
        (case rb_metrics_handler b of
           Some h \<Rightarrow> either_middleware (LeftM (metrics_middleware (Some h)))
         | None \<Rightarrow> either_middleware (RightM identity_middleware))
      else either_middleware (RightM identity_middleware))"

definition final_chain ::
  "nostr_lib \<Rightarrow> ('t, 'd, 'i) relay_builder \<Rightarrow> ('t, 'n, 'db, 'l) env middleware chain_builder
     \<Rightarrow> ('t, 'n, 'db, 'l) env middleware chain_builder" where
  "final_chain L b chain_with_relay =
     (let chain_with_metrics = builder_with (metrics_layer b) chain_with_relay
      in if rb_without_defaults b then
           builder_with (either_middleware (RightM identity_middleware))
             (builder_with (either_middleware (RightM identity_middleware))
               (builder_with (either_middleware (RightM identity_middleware)) chain_with_metrics))
         else
           let chain_with_auth =
             (if rc_enable_auth (rb_config b)
              then builder_with (either_middleware (LeftM (nip42_middleware L (auth_with_url (rc_relay_url (rb_config b))))))
                     chain_with_metrics
              else builder_with (either_middleware (RightM identity_middleware)) chain_with_metrics)
           in builder_with (either_middleware (LeftM logger_middleware))
                (builder_with (either_middleware (LeftM (error_handling_middleware L))) chain_with_auth))"

text \<open>The database of the configuration: an instance is used as it is, a path is opened. Without a
  configuration the relay cannot be built.\<close>

definition build_database :: "'d db_opener \<Rightarrow> 'd relay_config \<Rightarrow> error + 'd" where
  "build_database with_config c = (case rc_database c of
     Some (DbInstance db) \<Rightarrow> Inr db
   | Some (DbPath path) \<Rightarrow>
       create_database_from_config with_config (DbPath path) (rc_max_readers c) (rc_ingester_cpu_affinity c)
   | None \<Rightarrow> Inl (Internal ''Database configuration is required''))"

text \<open>\<open>global_set\<close> says whether the process already has a global metrics handler; \<open>url_ok\<close> is
  \<open>RelayUrl::parse(..).is_ok()\<close>. The result is the handler factory, the shared world, and whether the
  diagnostics task was started.\<close>

definition build_with ::
  "nostr_lib \<Rightarrow> 'db lmdb \<Rightarrow> ('n, 's) negentropy_lib \<Rightarrow> 'db db_opener \<Rightarrow> (string \<Rightarrow> bool) \<Rightarrow> bool
     \<Rightarrow> (('t, 'n, 'db, 'l) env middleware chain_builder \<Rightarrow> ('t, 'n, 'db, 'l) env middleware chain_builder)
     \<Rightarrow> ('t, 'db, 'i) relay_builder
     \<Rightarrow> (error + ('t, 'n, 'db, 'l) env middleware handler_factory \<times> 'db world \<times> bool) option" where
  "build_with L D N with_config url_ok global_set chain_fn b =
     (if rb_subscription_metrics_handler b \<and> global_set then None
      else case build_database with_config (rb_config b) of
        Inl err \<Rightarrow> Some (Inl err)
      | Inr db \<Rightarrow>
          if \<not> url_ok (rc_relay_url (rb_config b)) then None
          else
            let w = \<lparr>w_registry = registry_new (rb_subscription_metrics_handler b), w_outbox = [], w_db = db,
                  w_crypto = crypto_new, w_queue = [], w_queue_open = True, w_oneshots = []\<rparr>;
                base_chain = builder_with (relay_mw L D N (relay_middleware_of b)) builder_new;
                chain = final_chain L b (chain_fn base_chain)
            in Some (Inr (\<lparr>hf_chain = cb_chain chain, hf_scope_config = rc_scope_config (rb_config b),
                 hf_channel_size = calculate_channel_size (rb_config b), hf_relay_pubkey = rc_keys (rb_config b)\<rparr>,
                 w, rc_enable_diagnostics (rb_config b))))"

text \<open>The tasks \<open>build_with\<close> spawns: the buffer of replaceable events under the relay's token (\<open>None\<close>: a token of its
  own, which nobody cancels), and the diagnostics with their interval in minutes.\<close>

datatype background_task = BufferTask "nat option" | DiagnosticsTask nat

definition background_tasks :: "('t, 'd, 'i) relay_builder \<Rightarrow> background_task list" where
  "background_tasks b = BufferTask (rb_cancellation_token b) #
     (if rc_enable_diagnostics (rb_config b) then [DiagnosticsTask 1] else [])"

lemma diagnostics_started:
  "build_with L D N opener url_ok gs chain_fn b = Some (Inr (f, w, d)) \<Longrightarrow> d \<longleftrightarrow> DiagnosticsTask 1 \<in> set (background_tasks b)"
  by (auto simp: build_with_def background_tasks_def Let_def split: if_splits sum.splits)

text \<open>Options that are stored and never read: the relay that is built is the same without them.\<close>

lemma build_with_cong:
  assumes "rb_config b' = rb_config b" "rb_metrics_handler b' = rb_metrics_handler b"
    "rb_subscription_metrics_handler b' = rb_subscription_metrics_handler b" "rb_without_defaults b' = rb_without_defaults b"
    "rb_event_processor b' = rb_event_processor b" "rb_enable_metrics b' = rb_enable_metrics b"
  shows "build_with L D N opener url_ok gs chain_fn b' = build_with L D N opener url_ok gs chain_fn b"
  by (simp only: build_with_def final_chain_def metrics_layer_def relay_middleware_of_def assms)

lemma options_without_effect:
  "build_with L D N opener url_ok gs chain_fn (connection_counter counter b) = build_with L D N opener url_ok gs chain_fn b"
  "build_with L D N opener url_ok gs chain_fn (task_tracker tracker b) = build_with L D N opener url_ok gs chain_fn b"
  "build_with L D N opener url_ok gs chain_fn (set_html h b) = build_with L D N opener url_ok gs chain_fn b"
  "build_with L D N opener url_ok gs chain_fn (custom_html provider b) = build_with L D N opener url_ok gs chain_fn b"
  "build_with L D N opener url_ok gs chain_fn (without_html b) = build_with L D N opener url_ok gs chain_fn b"
  "build_with L D N opener url_ok gs chain_fn (set_relay_info i b) = build_with L D N opener url_ok gs chain_fn b"
  "build_with L D N opener url_ok gs chain_fn (without_logger b) = build_with L D N opener url_ok gs chain_fn b"
  "build_with L D N opener url_ok gs chain_fn (without_error_handling b) = build_with L D N opener url_ok gs chain_fn b"
  by (rule build_with_cong; simp add: connection_counter_def task_tracker_def set_html_def custom_html_def without_html_def
      set_relay_info_def without_logger_def without_error_handling_def)+

end
