(* ===== verification/Subscription_Registry_Correct.thy ===== *)
theory Subscription_Registry_Correct
  imports Subscription_Registry
begin

text \<open>
  The registry against its contract. The interface it uses of an index is the locale
  \<open>subscription_store\<close>; the invariant \<open>reg_wf\<close> says that the index of each scope represents
  exactly the subscriptions of the connections of that scope, and every operation keeps it.
\<close>

section \<open>The interface of an index\<close>

locale subscription_store =
  fixes add :: "sub_key \<Rightarrow> filter list \<Rightarrow> 'ix \<Rightarrow> 'ix"
    and remove :: "sub_key \<Rightarrow> 'ix \<Rightarrow> 'ix"
    and distribute :: "event \<Rightarrow> 'ix \<Rightarrow> sub_key list \<times> 'ix"
    and abs :: "'ix \<Rightarrow> sub_table"
    and invar :: "'ix \<Rightarrow> bool"
    and room :: "nat \<Rightarrow> 'ix \<Rightarrow> bool"
  assumes add_invar: "invar ix \<Longrightarrow> list_all filter_wf fs \<Longrightarrow> room (length fs) ix \<Longrightarrow> invar (add key fs ix)"
    and add_abs: "invar ix \<Longrightarrow> list_all filter_wf fs \<Longrightarrow> room (length fs) ix \<Longrightarrow>
      abs (add key fs ix) = table_add key fs (abs ix)"
    and remove_invar: "invar ix \<Longrightarrow> invar (remove key ix)"
    and remove_abs: "invar ix \<Longrightarrow> abs (remove key ix) = (abs ix)(key := None)"
    and remove_room: "invar ix \<Longrightarrow> room n (remove key ix) = room n ix"
    and distribute_invar: "invar ix \<Longrightarrow> invar (snd (distribute e ix))"
    and distribute_abs: "invar ix \<Longrightarrow> abs (snd (distribute e ix)) = abs ix"
begin

lemma fold_remove:
  "invar ix \<Longrightarrow> invar (fold remove keys ix) \<and>
     abs (fold remove keys ix) = (\<lambda>k. if k \<in> set keys then None else abs ix k)"
  by (induction keys arbitrary: ix) (auto simp: remove_invar remove_abs fun_eq_iff)

lemma add_fresh:
  assumes "invar ix" "list_all filter_wf fs" "room (length fs) ix" "abs ix key = None"
  shows "abs (add key fs ix) = (abs ix)(key \<mapsto> mset fs)"
  using assms by (simp add: add_abs table_add_def)

text \<open>Replacing a subscription is removing it and adding the new filters.\<close>

lemma replace:
  assumes "invar ix" "list_all filter_wf fs" "room (length fs) ix"
  shows "invar (add key fs (remove key ix)) \<and>
    abs (add key fs (remove key ix)) = (abs ix)(key \<mapsto> mset fs)"
  using assms by (simp add: remove_invar remove_room remove_abs add_invar add_fresh)

end

definition index_room :: "nat \<Rightarrow> subscription_index \<Rightarrow> bool" where
  "index_room n ix \<longleftrightarrow> si_next_filter_id ix + n < 2 ^ 64"

interpretation store: subscription_store
  "\<lambda>key. si_add_subscription L (fst key) (snd key)" "\<lambda>key. si_remove_subscription L (fst key) (snd key)"
  "si_distribute_event L" index_abs "index_wf L" index_room for L
  by unfold_locales
    (simp_all add: index_room_def list_all_iff si_add_subscription_wf index_abs_add
      si_remove_subscription_wf index_abs_remove si_distribute_event_wf(1)
      same_index_abs [OF si_distribute_event_wf(2)])

section \<open>The invariant\<close>

definition conn_table :: "registry \<Rightarrow> scope \<Rightarrow> sub_table" where
  "conn_table r sc key = (case hm_get (rg_connections r) (fst key) of
     None \<Rightarrow> None
   | Some conn \<Rightarrow>
       if cs_subdomain conn = sc then map_option mset (hm_get (cs_subscriptions conn) (snd key)) else None)"

definition index_table :: "registry \<Rightarrow> scope \<Rightarrow> sub_table" where
  "index_table r sc = (case hm_get (rg_indexes r) sc of None \<Rightarrow> Map.empty | Some ix \<Rightarrow> index_abs ix)"

definition conns_wf :: "registry \<Rightarrow> bool" where
  "conns_wf r \<longleftrightarrow> hm_wf (rg_connections r) \<and>
     (\<forall>cid conn. hm_get (rg_connections r) cid = Some conn \<longrightarrow> hm_wf (cs_subscriptions conn))"

definition indexes_wf :: "nostr_lib \<Rightarrow> registry \<Rightarrow> bool" where
  "indexes_wf L r \<longleftrightarrow> hm_wf (rg_indexes r) \<and>
     (\<forall>sc ix. hm_get (rg_indexes r) sc = Some ix \<longrightarrow> index_wf L ix)"

definition total_subscriptions :: "registry \<Rightarrow> nat" where
  "total_subscriptions r = sum_list (map ((length \<circ> cs_subscriptions) \<circ> snd) (rg_connections r))"

primrec metric_value :: "subscription_metric \<Rightarrow> int" where
  "metric_value IncrementActive = 1"
| "metric_value (DecrementActive n) = - int n"

definition active_subscriptions :: "registry \<Rightarrow> int" where
  "active_subscriptions r = sum_list (map metric_value (rg_metrics_log r))"

definition metrics_wf :: "registry \<Rightarrow> bool" where
  "metrics_wf r \<longleftrightarrow> (rg_metrics_handler r \<longrightarrow> active_subscriptions r = int (total_subscriptions r))"

definition reg_wf :: "nostr_lib \<Rightarrow> registry \<Rightarrow> bool" where
  "reg_wf L r \<longleftrightarrow> conns_wf r \<and> indexes_wf L r \<and> (\<forall>sc. index_table r sc = conn_table r sc) \<and> metrics_wf r"

definition scope_room :: "scope \<Rightarrow> nat \<Rightarrow> registry \<Rightarrow> bool" where
  "scope_room sc n r \<longleftrightarrow>
     index_room n (case hm_get (rg_indexes r) sc of None \<Rightarrow> si_new | Some ix \<Rightarrow> ix)"

lemma log_metric_fields [simp]:
  "rg_connections (log_metric m r) = rg_connections r" "rg_indexes (log_metric m r) = rg_indexes r"
  "rg_metrics_handler (log_metric m r) = rg_metrics_handler r"
  "conn_table (log_metric m r) = conn_table r" "index_table (log_metric m r) = index_table r"
  "conns_wf (log_metric m r) = conns_wf r" "indexes_wf L (log_metric m r) = indexes_wf L r"
  "total_subscriptions (log_metric m r) = total_subscriptions r"
  "rg_metrics_handler r \<Longrightarrow> active_subscriptions (log_metric m r) = active_subscriptions r + metric_value m"
  by (simp_all add: log_metric_def conn_table_def index_table_def conns_wf_def indexes_wf_def
      total_subscriptions_def active_subscriptions_def fun_eq_iff)

lemma registry_new_wf: "reg_wf L (registry_new mh)"
  by (simp add: reg_wf_def registry_new_def conns_wf_def indexes_wf_def index_table_def conn_table_def
      metrics_wf_def active_subscriptions_def total_subscriptions_def fun_eq_iff)

section \<open>Operations keep the invariant\<close>

lemma register_connection_wf:
  assumes "reg_wf L r" "\<not> has_connection r cid"
  shows "reg_wf L (register_connection cid ms ap sc r)"
    and "conn_table (register_connection cid ms ap sc r) = conn_table r"
proof -
  have fresh: "hm_get (rg_connections r) cid = None"
    using assms(2) by (simp add: has_connection_def hm_contains_def)
  show tab: "conn_table (register_connection cid ms ap sc r) = conn_table r"
    using fresh by (auto simp: fun_eq_iff conn_table_def register_connection_def hm_simps split: option.splits)
  have "index_table (register_connection cid ms ap sc r) = index_table r"
    by (simp add: fun_eq_iff index_table_def register_connection_def)
  moreover have "conns_wf (register_connection cid ms ap sc r)" "metrics_wf (register_connection cid ms ap sc r)"
    "indexes_wf L (register_connection cid ms ap sc r)"
    using assms(1) fresh unfolding reg_wf_def conns_wf_def metrics_wf_def indexes_wf_def
    by (auto simp: register_connection_def hm_simps hm_wf_insert total_subscriptions_def hm_insert_fresh
        active_subscriptions_def split: if_splits)
  ultimately show "reg_wf L (register_connection cid ms ap sc r)"
    using assms(1) tab by (simp add: reg_wf_def)
qed

lemma conn_get_wf: "conns_wf r \<Longrightarrow> hm_get (rg_connections r) cid = Some conn \<Longrightarrow> hm_wf (cs_subscriptions conn)"
  by (simp add: conns_wf_def)

lemma reg_index_wf: "reg_wf L r \<Longrightarrow> hm_get (rg_indexes r) sc = Some ix \<Longrightarrow> index_wf L ix"
  by (simp add: reg_wf_def indexes_wf_def)

lemma reg_index_abs: "reg_wf L r \<Longrightarrow> hm_get (rg_indexes r) sc = Some ix \<Longrightarrow> index_abs ix = conn_table r sc"
  unfolding reg_wf_def index_table_def by (metis option.simps(5))

text \<open>The entry of one connection determines the table of its own scope at its own keys.\<close>

lemma conn_table_insert:
  "conn_table (r\<lparr>rg_connections := hm_insert cid conn (rg_connections r), rg_indexes := ixs\<rparr>) sc key =
     (if fst key = cid then (if cs_subdomain conn = sc
        then map_option mset (hm_get (cs_subscriptions conn) (snd key)) else None)
      else conn_table r sc key)"
  by (simp add: conn_table_def hm_simps)

lemma conn_table_remove:
  "conn_table (r\<lparr>rg_connections := hm_remove cid (rg_connections r), rg_indexes := ixs\<rparr>) sc key =
     (if fst key = cid then None else conn_table r sc key)"
  by (simp add: conn_table_def hm_simps)

lemma index_table_insert:
  "index_table (r\<lparr>rg_connections := conns, rg_indexes := hm_insert sc ix (rg_indexes r)\<rparr>) sc' =
     (if sc' = sc then index_abs ix else index_table r sc')"
  by (simp add: index_table_def hm_simps)

lemma indexes_wf_insert: "indexes_wf L r \<Longrightarrow> index_wf L ix \<Longrightarrow>
    indexes_wf L (r\<lparr>rg_connections := conns, rg_indexes := hm_insert sc ix (rg_indexes r)\<rparr>)"
  by (auto simp: indexes_wf_def hm_simps hm_wf_insert)

lemma conns_wf_insert: "conns_wf r \<Longrightarrow> hm_wf (cs_subscriptions conn) \<Longrightarrow>
    conns_wf (r\<lparr>rg_connections := hm_insert cid conn (rg_connections r), rg_indexes := ixs\<rparr>)"
  by (auto simp: conns_wf_def hm_simps hm_wf_insert)

lemma conns_wf_remove:
  "conns_wf r \<Longrightarrow> conns_wf (r\<lparr>rg_connections := hm_remove cid (rg_connections r), rg_indexes := ixs\<rparr>)"
  by (auto simp: conns_wf_def hm_simps hm_wf_remove split: if_splits)

lemma reg_add_subscription_table:
  assumes wf: "reg_wf L r" and conn: "hm_get (rg_connections r) cid = Some conn"
    and fresh: "hm_get (cs_subscriptions conn) sid = None"
    and fs: "list_all filter_wf fs" and room: "scope_room (cs_subdomain conn) (length fs) r"
  shows "reg_wf L (snd (reg_add_subscription L cid sid fs r))"
    and "conn_table (snd (reg_add_subscription L cid sid fs r)) = (conn_table r)
      (cs_subdomain conn := (conn_table r (cs_subdomain conn))((cid, sid) \<mapsto> mset fs))"
proof -
  define sc where "sc = cs_subdomain conn"
  define ix where "ix = (case hm_get (rg_indexes r) sc of None \<Rightarrow> si_new | Some ix \<Rightarrow> ix)"
  define conn' where "conn' = conn\<lparr>cs_subscriptions := hm_insert sid fs (cs_subscriptions conn)\<rparr>"
  define r1 where "r1 = r\<lparr>rg_connections := hm_insert cid conn' (rg_connections r),
      rg_indexes := hm_insert sc (si_add_subscription L cid sid fs ix) (rg_indexes r)\<rparr>"
  have step: "reg_add_subscription L cid sid fs r = (Inr (), log_metric IncrementActive r1)"
    by (simp add: reg_add_subscription_def conn fresh Let_def r1_def ix_def sc_def conn'_def)
  have ix: "index_wf L ix" "index_abs ix = conn_table r sc" "index_room (length fs) ix"
  proof -
    have "index_abs ix = index_table r sc"
      by (simp add: ix_def index_table_def index_abs_new split: option.splits)
    then show "index_abs ix = conn_table r sc"
      using wf by (simp add: reg_wf_def)
    show "index_wf L ix"
      using reg_index_wf [OF wf, of sc] by (simp add: ix_def si_new_wf split: option.splits)
    show "index_room (length fs) ix"
      using room by (simp add: ix_def scope_room_def sc_def)
  qed
  have none: "conn_table r sc (cid, sid) = None"
    by (simp add: conn_table_def conn fresh)
  have ix': "index_wf L (si_add_subscription L cid sid fs ix)"
    "index_abs (si_add_subscription L cid sid fs ix) = (conn_table r sc)((cid, sid) \<mapsto> mset fs)"
    using store.add_invar [OF ix(1) fs ix(3), of "(cid, sid)"]
      store.add_fresh [OF ix(1) fs ix(3), of "(cid, sid)"] ix none by simp_all
  have tab: "conn_table r1 = (conn_table r)(sc := (conn_table r sc)((cid, sid) \<mapsto> mset fs))"
    unfolding r1_def
    by (auto simp: fun_eq_iff conn_table_insert conn'_def hm_simps conn_table_def conn sc_def)
  then show "conn_table (snd (reg_add_subscription L cid sid fs r)) = (conn_table r)
      (cs_subdomain conn := (conn_table r (cs_subdomain conn))((cid, sid) \<mapsto> mset fs))"
    by (simp add: step sc_def)
  have "index_table r1 sc' = conn_table r1 sc'" for sc'
    using wf by (simp add: r1_def index_table_insert ix') (simp add: tab [unfolded r1_def] reg_wf_def)
  moreover have "conns_wf r1" "indexes_wf L r1"
    using wf ix' conn unfolding r1_def reg_wf_def
    by (auto intro!: conns_wf_insert indexes_wf_insert hm_wf_insert simp: conn'_def dest: conn_get_wf)
  moreover have "total_subscriptions r1 = total_subscriptions r + 1"
    using hm_sum_insert [OF conn, of "length \<circ> cs_subscriptions" conn'] fresh
    by (simp add: total_subscriptions_def r1_def conn'_def hm_length_insert)
  moreover have "rg_metrics_handler r1 = rg_metrics_handler r" "active_subscriptions r1 = active_subscriptions r"
    by (simp_all add: r1_def active_subscriptions_def)
  ultimately show "reg_wf L (snd (reg_add_subscription L cid sid fs r))"
    using wf by (simp add: step reg_wf_def metrics_wf_def)
qed

lemma index_remove_eq:
  fixes sc :: scope and cid :: connection_id and sids and conns
  assumes wf: "reg_wf L r"
  defines "r1 \<equiv> index_remove L sc cid sids (r\<lparr>rg_connections := conns\<rparr>)"
  shows "indexes_wf L r1" "rg_connections r1 = conns" "rg_metrics_handler r1 = rg_metrics_handler r"
    "rg_metrics_log r1 = rg_metrics_log r"
    "index_table r1 = (conn_table r)(sc := (\<lambda>(c, s). if c = cid \<and> s \<in> set sids then None
       else conn_table r sc (c, s)))"
proof -
  have it: "index_table r = conn_table r"
    using wf by (auto simp: reg_wf_def)
  have fold_eq: "fold (si_remove_subscription L cid) sids ix =
      fold (\<lambda>key. si_remove_subscription L (fst key) (snd key)) (map (Pair cid) sids) ix" for ix
    by (simp add: fold_map comp_def)
  show "rg_connections r1 = conns" "rg_metrics_handler r1 = rg_metrics_handler r"
    "rg_metrics_log r1 = rg_metrics_log r"
    by (simp_all add: r1_def index_remove_def split: option.splits)
  show "indexes_wf L r1"
  proof (cases "hm_get (rg_indexes r) sc")
    case (Some ix)
    then show ?thesis
      using store.fold_remove [of L ix "map (Pair cid) sids"] reg_index_wf [OF wf Some] wf
        indexes_wf_insert [of L r "fold (si_remove_subscription L cid) sids ix" sc conns]
      by (simp add: r1_def index_remove_def fold_eq reg_wf_def)
  qed (use wf in \<open>simp add: r1_def index_remove_def reg_wf_def indexes_wf_def\<close>)
  show "index_table r1 = (conn_table r)(sc := (\<lambda>(c, s). if c = cid \<and> s \<in> set sids then None
       else conn_table r sc (c, s)))"
  proof (cases "hm_get (rg_indexes r) sc")
    case None
    then have "conn_table r sc = Map.empty"
      by (simp add: it [symmetric] index_table_def)
    with None it show ?thesis
      by (auto simp: r1_def index_remove_def fun_eq_iff index_table_def)
  next
    case (Some ix)
    then show ?thesis
      using store.fold_remove [of L ix "map (Pair cid) sids"] reg_index_wf [OF wf Some]
        reg_index_abs [OF wf Some] it
      by (auto simp: r1_def index_remove_def fun_eq_iff index_table_insert fold_eq image_iff)
  qed
qed

lemma reg_remove_subscription_table:
  assumes wf: "reg_wf L r"
  shows "reg_wf L (snd (reg_remove_subscription L cid sid r))"
    and "conn_table (snd (reg_remove_subscription L cid sid r)) =
      (\<lambda>sc. (conn_table r sc)((cid, sid) := None))"
proof -
  have "reg_wf L (snd (reg_remove_subscription L cid sid r)) \<and>
    conn_table (snd (reg_remove_subscription L cid sid r)) = (\<lambda>sc. (conn_table r sc)((cid, sid) := None))"
  proof (cases "\<exists>conn fs. hm_get (rg_connections r) cid = Some conn \<and>
      hm_get (cs_subscriptions conn) sid = Some fs")
    case True
    then obtain conn fs where conn: "hm_get (rg_connections r) cid = Some conn"
      and sid: "hm_get (cs_subscriptions conn) sid = Some fs"
      by blast
    define conn' where "conn' = conn\<lparr>cs_subscriptions := hm_remove sid (cs_subscriptions conn)\<rparr>"
    define r1 where "r1 = index_remove L (cs_subdomain conn) cid [sid]
        (r\<lparr>rg_connections := hm_insert cid conn' (rg_connections r)\<rparr>)"
    have step: "reg_remove_subscription L cid sid r = (Inr (), log_metric (DecrementActive 1) r1)"
      by (simp add: reg_remove_subscription_def conn sid r1_def conn'_def Let_def)
    note r1 = index_remove_eq [OF wf, where sc = "cs_subdomain conn" and cid = cid and sids = "[sid]"
        and conns = "hm_insert cid conn' (rg_connections r)", folded r1_def]
    have subs_wf: "hm_wf (cs_subscriptions conn)"
      using wf conn by (auto simp: reg_wf_def dest: conn_get_wf)
    have tab: "conn_table r1 = (\<lambda>sc. (conn_table r sc)((cid, sid) := None))"
      by (auto simp: fun_eq_iff conn_table_def r1(2) hm_simps conn conn'_def split: option.splits)
    moreover have "index_table r1 = conn_table r1"
    proof -
      have "conn_table r sc (cid, sid) = None" if "sc \<noteq> cs_subdomain conn" for sc
        using that by (simp add: conn_table_def conn)
      then show ?thesis
        unfolding tab r1(5) by (auto simp: fun_eq_iff split: if_splits)
    qed
    moreover have "conns_wf r1"
      using wf subs_wf unfolding reg_wf_def conns_wf_def
      by (auto simp: r1(2) hm_simps conn'_def hm_wf_insert hm_wf_remove split: if_splits)
    moreover have "total_subscriptions r1 + 1 = total_subscriptions r"
      using hm_sum_insert [OF conn, of "length \<circ> cs_subscriptions" conn'] hm_length_remove [OF subs_wf sid]
      by (simp add: total_subscriptions_def r1(2) conn'_def)
    moreover have "active_subscriptions r1 = active_subscriptions r"
      by (simp add: active_subscriptions_def r1(4))
    ultimately show ?thesis
      using wf r1(1,3) by (auto simp: step reg_wf_def metrics_wf_def)
  next
    case False
    then have "snd (reg_remove_subscription L cid sid r) = r"
      by (auto simp: reg_remove_subscription_def split: option.splits)
    moreover have "conn_table r sc (cid, sid) = None" for sc
      using False by (auto simp: conn_table_def split: option.splits)
    ultimately show ?thesis
      using wf by (auto simp: fun_eq_iff)
  qed
  then show "reg_wf L (snd (reg_remove_subscription L cid sid r))"
    and "conn_table (snd (reg_remove_subscription L cid sid r)) =
      (\<lambda>sc. (conn_table r sc)((cid, sid) := None))"
    by simp_all
qed

lemma cleanup_connection_table:
  assumes wf: "reg_wf L r"
  shows "reg_wf L (cleanup_connection L cid r)"
    and "rg_connections (cleanup_connection L cid r) = hm_remove cid (rg_connections r)"
    and "conn_table (cleanup_connection L cid r) =
      (\<lambda>sc key. if fst key = cid then None else conn_table r sc key)"
proof -
  show conns: "rg_connections (cleanup_connection L cid r) = hm_remove cid (rg_connections r)"
    by (simp add: cleanup_connection_def index_remove_def Let_def split: option.splits)
  then show tab: "conn_table (cleanup_connection L cid r) =
      (\<lambda>sc key. if fst key = cid then None else conn_table r sc key)"
    by (simp add: conn_table_def fun_eq_iff hm_simps)
  show "reg_wf L (cleanup_connection L cid r)"
  proof (cases "hm_get (rg_connections r) cid")
    case None
    then have "cleanup_connection L cid r = r"
      by (simp add: cleanup_connection_def hm_remove_absent)
    with wf show ?thesis
      by simp
  next
    case (Some conn)
    define ids where "ids = hm_keys (cs_subscriptions conn)"
    define r1 where "r1 = index_remove L (cs_subdomain conn) cid ids
        (r\<lparr>rg_connections := hm_remove cid (rg_connections r)\<rparr>)"
    have step: "cleanup_connection L cid r =
        (if 0 < length ids then log_metric (DecrementActive (length ids)) r1 else r1)"
      by (simp add: cleanup_connection_def Some r1_def ids_def Let_def)
    note r1 = index_remove_eq [OF wf, where sc = "cs_subdomain conn" and cid = cid and sids = ids
        and conns = "hm_remove cid (rg_connections r)", folded r1_def]
    have "index_table r1 = conn_table r1"
      unfolding r1(5)
      by (auto simp: fun_eq_iff conn_table_def r1(2) hm_simps Some ids_def map_of_eq_None_iff)
    moreover have "conns_wf r1"
      using wf unfolding reg_wf_def conns_wf_def
      by (auto simp: r1(2) hm_simps hm_wf_remove split: if_splits)
    moreover have "total_subscriptions r1 + length ids = total_subscriptions r"
      using hm_sum_remove [OF _ Some, of "length \<circ> cs_subscriptions"] wf
      by (simp add: total_subscriptions_def r1(2) ids_def reg_wf_def conns_wf_def)
    moreover have "active_subscriptions r1 = active_subscriptions r"
      by (simp add: active_subscriptions_def r1(4))
    ultimately show ?thesis
      using wf r1(1,3) by (auto simp: step reg_wf_def metrics_wf_def)
  qed
qed

lemma fold_cleanup_wf:
  "reg_wf L r \<Longrightarrow> reg_wf L (fold (cleanup_connection L) dead r) \<and>
     rg_connections (fold (cleanup_connection L) dead r) =
       List.filter (\<lambda>x. fst x \<notin> set dead) (rg_connections r)"
  by (induction dead arbitrary: r)
    (auto simp: cleanup_connection_table hm_remove_filter intro!: filter_cong)

section \<open>Distribution\<close>

lemma subseq_set_subset: "subseq xs ys \<Longrightarrow> set xs \<subseteq> set ys"
  by (induction rule: list_emb.induct) auto

text \<open>What the channel of a subscription's connection receives for an event.\<close>

definition delivery :: "nostr_lib \<Rightarrow> registry \<Rightarrow> event \<Rightarrow> sub_key \<Rightarrow> channel \<times> outbound" where
  "delivery L r e key = (case hm_get (rg_connections r) (fst key) of
     None \<Rightarrow> (0, RM_Event (snd key) e, 0, None)
   | Some conn \<Rightarrow> (ms_channel (cs_sender conn), RM_Event (snd key) e, ms_position (cs_sender conn),
       Some (event_message_json (snd key) (event_as_json L e))))"

lemma send_matches_log:
  assumes "\<forall>key \<in> set ms. has_connection r (fst key)"
  shows "\<exists>new dead'. send_matches L e r ms dead out = (dead @ dead', out @ new) \<and>
    subseq new (map (delivery L r e) ms) \<and> set dead' \<subseteq> fst ` set ms \<and>
    (\<forall>key \<in> set ms. delivery L r e key \<in> set new \<or> fst key \<in> set dead')"
  using assms
proof (induction ms arbitrary: dead out)
  case (Cons key ms)
  obtain cid sid where key: "key = (cid, sid)"
    by force
  obtain conn where conn: "hm_get (rg_connections r) cid = Some conn"
    using Cons.prems by (auto simp: key has_connection_def hm_contains_def)
  have d: "delivery L r e key = (ms_channel (cs_sender conn), RM_Event sid e, ms_position (cs_sender conn),
       Some (event_message_json sid (event_as_json L e)))"
    by (simp add: delivery_def key conn)
  have "\<forall>key \<in> set ms. has_connection r (fst key)"
    using Cons.prems by simp
  note IH = Cons.IH [OF this]
  show ?case
  proof (rule try_send_entry_cases [of L "fst (delivery L r e key)" "snd (delivery L r e key)" out])
    assume "try_send_entry L (fst (delivery L r e key)) (snd (delivery L r e key)) out =
      (Inr (), out @ [(fst (delivery L r e key), snd (delivery L r e key))])"
    then have "send_matches L e r (key # ms) dead out =
        send_matches L e r ms dead (out @ [delivery L r e key])"
      by (simp add: key conn send_with_json_def d [unfolded key])
    moreover obtain new dead' where "send_matches L e r ms dead (out @ [delivery L r e key]) =
        (dead @ dead', (out @ [delivery L r e key]) @ new)" "subseq new (map (delivery L r e) ms)"
      "set dead' \<subseteq> fst ` set ms" "\<forall>key \<in> set ms. delivery L r e key \<in> set new \<or> fst key \<in> set dead'"
      using IH by blast
    ultimately show ?thesis
      by (intro exI [of _ "delivery L r e key # new"] exI [of _ dead']) auto
  next
    fix err
    assume "try_send_entry L (fst (delivery L r e key)) (snd (delivery L r e key)) out = (Inl err, out)"
    then have "send_matches L e r (key # ms) dead out = send_matches L e r ms (dead @ [cid]) out"
      by (simp add: key conn send_with_json_def d [unfolded key])
    moreover obtain new dead' where "send_matches L e r ms (dead @ [cid]) out =
        ((dead @ [cid]) @ dead', out @ new)" "subseq new (map (delivery L r e) ms)"
      "set dead' \<subseteq> fst ` set ms" "\<forall>key \<in> set ms. delivery L r e key \<in> set new \<or> fst key \<in> set dead'"
      using IH by blast
    ultimately show ?thesis
      by (intro exI [of _ new] exI [of _ "cid # dead'"]) (auto simp: key)
  qed
qed simp

lemma send_matches_all_sent:
  assumes "\<forall>key \<in> set ms. has_connection r (fst key)" "try_send L = (\<lambda>_ _. Sent)"
  shows "send_matches L e r ms dead out = (dead, out @ map (delivery L r e) ms)"
  using assms
  by (induction ms arbitrary: out)
    (auto simp: has_connection_def hm_contains_def send_with_json_def delivery_def)

text \<open>The subscriptions of a scope that want an event, read off the connections alone.\<close>

definition wanted :: "nostr_lib \<Rightarrow> registry \<Rightarrow> scope \<Rightarrow> event \<Rightarrow> sub_key \<Rightarrow> bool" where
  "wanted L r sc e key \<longleftrightarrow> (\<exists>conn fs. hm_get (rg_connections r) (fst key) = Some conn \<and>
     cs_subdomain conn = sc \<and> hm_get (cs_subscriptions conn) (snd key) = Some fs \<and>
     (\<exists>f \<in> set fs. match_event L f e))"

lemma wanted_iff:
  assumes "reg_wf L r" "hm_get (rg_indexes r) sc = Some ix"
  shows "wanted L r sc e key \<longleftrightarrow> key \<in> set (scan_distribute L e ix)"
proof -
  have abs: "index_abs ix key = conn_table r sc key"
    using reg_index_abs [OF assms] by simp
  have "key \<in> set (scan_distribute L e ix) \<longleftrightarrow>
      (\<exists>M. index_abs ix key = Some M \<and> (\<exists>f \<in># M. match_event L f e))"
    by (auto simp: scan_distribute_def list_ex_iff index_abs_def hm_contains_keys simp del: set_map)
  also have "\<dots> \<longleftrightarrow> wanted L r sc e key"
    unfolding abs by (auto simp: wanted_def conn_table_def split: option.splits if_splits)
  finally show ?thesis ..
qed

lemma distribute_matching:
  assumes wf: "reg_wf L r" and sound: "match_event_sound L" and ix: "hm_get (rg_indexes r) sc = Some ix"
  shows "distinct (fst (si_distribute_event L e ix))"
    and "key \<in> set (fst (si_distribute_event L e ix)) \<Longrightarrow> wanted L r sc e key"
    and "event_new_to e ix \<Longrightarrow> wanted L r sc e key \<Longrightarrow> key \<in> set (fst (si_distribute_event L e ix))"
proof -
  note iwf = reg_index_wf [OF wf ix]
  note res = si_distribute_event_result [OF iwf sound, of e]
  show "distinct (fst (si_distribute_event L e ix))"
    by (rule res(1))
  show "key \<in> set (fst (si_distribute_event L e ix)) \<Longrightarrow> wanted L r sc e key"
    unfolding wanted_iff [OF wf ix] res(2)
    by (auto simp: scan_distribute_def list_ex_iff set_filters_of [OF iwf] group_unseen_def
        simp del: set_map dest: hm_get_in_keys)
  show "event_new_to e ix \<Longrightarrow> wanted L r sc e key \<Longrightarrow> key \<in> set (fst (si_distribute_event L e ix))"
    unfolding wanted_iff [OF wf ix] using distribute_eq_scan [OF iwf sound] by (metis set_mset_mset)
qed

lemma distribute_index_wf:
  fixes e
  assumes wf: "reg_wf L r" and ix: "hm_get (rg_indexes r) sc = Some ix"
  defines "r1 \<equiv> r\<lparr>rg_indexes := hm_insert sc (snd (si_distribute_event L e ix)) (rg_indexes r)\<rparr>"
  shows "reg_wf L r1" "rg_connections r1 = rg_connections r"
proof -
  note iwf = reg_index_wf [OF wf ix]
  show "rg_connections r1 = rg_connections r"
    by (simp add: r1_def)
  have "index_table r1 = index_table r"
    using store.distribute_abs [OF iwf, of e] ix
    by (auto simp: r1_def fun_eq_iff index_table_def hm_simps)
  moreover have "conn_table r1 = conn_table r" "conns_wf r1 = conns_wf r" "metrics_wf r1 = metrics_wf r"
    by (simp_all add: r1_def conn_table_def fun_eq_iff conns_wf_def metrics_wf_def active_subscriptions_def
        total_subscriptions_def)
  moreover have "indexes_wf L r1"
    using wf store.distribute_invar [OF iwf, of e]
    by (auto simp: r1_def reg_wf_def indexes_wf_def hm_simps hm_wf_insert)
  ultimately show "reg_wf L r1"
    using wf by (simp add: reg_wf_def)
qed

lemma distribute_event_wf:
  assumes wf: "reg_wf L r" and sound: "match_event_sound L"
  shows "reg_wf L (fst (distribute_event L e sc r out))"
    and "\<exists>new dead. snd (distribute_event L e sc r out) = out @ new \<and>
      rg_connections (fst (distribute_event L e sc r out)) =
        List.filter (\<lambda>x. fst x \<notin> set dead) (rg_connections r) \<and>
      (\<forall>d \<in> set new. \<exists>key. wanted L r sc e key \<and> d = delivery L r e key) \<and>
      (\<forall>ix key. hm_get (rg_indexes r) sc = Some ix \<longrightarrow> event_new_to e ix \<longrightarrow> wanted L r sc e key \<longrightarrow>
         delivery L r e key \<in> set new \<or> fst key \<in> set dead)"
proof -
  have "reg_wf L (fst (distribute_event L e sc r out)) \<and>
    (\<exists>new dead. snd (distribute_event L e sc r out) = out @ new \<and>
      rg_connections (fst (distribute_event L e sc r out)) =
        List.filter (\<lambda>x. fst x \<notin> set dead) (rg_connections r) \<and>
      (\<forall>d \<in> set new. \<exists>key. wanted L r sc e key \<and> d = delivery L r e key) \<and>
      (\<forall>ix key. hm_get (rg_indexes r) sc = Some ix \<longrightarrow> event_new_to e ix \<longrightarrow> wanted L r sc e key \<longrightarrow>
         delivery L r e key \<in> set new \<or> fst key \<in> set dead))"
  proof (cases "hm_get (rg_indexes r) sc")
    case None
    then have "distribute_event L e sc r out = (r, out)"
      by (simp add: distribute_event_def)
    then show ?thesis
      using wf None by (auto intro!: exI [of _ "[]"])
  next
    case (Some ix)
    define ms where "ms = fst (si_distribute_event L e ix)"
    define r1 where "r1 = r\<lparr>rg_indexes := hm_insert sc (snd (si_distribute_event L e ix)) (rg_indexes r)\<rparr>"
    note r1 = distribute_index_wf [OF wf Some, where e = e, folded r1_def]
    note matching = distribute_matching [OF wf sound Some, where e = e, folded ms_def]
    have "\<forall>key \<in> set ms. has_connection r1 (fst key)"
      using matching(2) r1(2) by (fastforce simp: wanted_def has_connection_def hm_contains_def)
    moreover have delivery: "delivery L r1 e = delivery L r e"
      by (simp add: fun_eq_iff delivery_def r1(2))
    ultimately obtain new dead where send: "send_matches L e r1 ms [] out = (dead, out @ new)"
      "subseq new (map (delivery L r e) ms)" "\<forall>key \<in> set ms. delivery L r e key \<in> set new \<or> fst key \<in> set dead"
      using send_matches_log [of ms r1 L e "[]" out] by auto
    have "distribute_event L e sc r out = (fold (cleanup_connection L) dead r1, out @ new)"
      using send(1) by (simp add: distribute_event_def Some r1_def ms_def Let_def split_beta)
    moreover have "\<forall>d \<in> set new. \<exists>key. wanted L r sc e key \<and> d = delivery L r e key"
      using subseq_set_subset [OF send(2)] matching(2) by fastforce
    moreover have "reg_wf L (fold (cleanup_connection L) dead r1) \<and>
        rg_connections (fold (cleanup_connection L) dead r1) =
          List.filter (\<lambda>x. fst x \<notin> set dead) (rg_connections r)"
      using fold_cleanup_wf [OF r1(1), of dead] by (simp add: r1(2))
    ultimately show ?thesis
      using matching(3) send(3) Some by (intro conjI exI [of _ new] exI [of _ dead]) auto
  qed
  then show "reg_wf L (fst (distribute_event L e sc r out))"
    and "\<exists>new dead. snd (distribute_event L e sc r out) = out @ new \<and>
      rg_connections (fst (distribute_event L e sc r out)) =
        List.filter (\<lambda>x. fst x \<notin> set dead) (rg_connections r) \<and>
      (\<forall>d \<in> set new. \<exists>key. wanted L r sc e key \<and> d = delivery L r e key) \<and>
      (\<forall>ix key. hm_get (rg_indexes r) sc = Some ix \<longrightarrow> event_new_to e ix \<longrightarrow> wanted L r sc e key \<longrightarrow>
         delivery L r e key \<in> set new \<or> fst key \<in> set dead)"
    by blast+
qed

lemma distribute_event_all_sent:
  assumes wf: "reg_wf L r" and sound: "match_event_sound L" and sent: "try_send L = (\<lambda>_ _. Sent)"
    and ix: "hm_get (rg_indexes r) sc = Some ix" and new: "event_new_to e ix"
  shows "\<exists>ms. distinct ms \<and> set ms = {key. wanted L r sc e key} \<and>
    snd (distribute_event L e sc r out) = out @ map (delivery L r e) ms \<and>
    rg_connections (fst (distribute_event L e sc r out)) = rg_connections r"
proof -
  define r1 where "r1 = r\<lparr>rg_indexes := hm_insert sc (snd (si_distribute_event L e ix)) (rg_indexes r)\<rparr>"
  let ?ms = "fst (si_distribute_event L e ix)"
  note r1 = distribute_index_wf [OF wf ix, where e = e, folded r1_def]
  note matching = distribute_matching [OF wf sound ix, where e = e]
  have "\<forall>key \<in> set ?ms. has_connection r1 (fst key)"
    using matching(2) r1(2) by (fastforce simp: wanted_def has_connection_def hm_contains_def)
  moreover have "delivery L r1 e = delivery L r e"
    by (simp add: fun_eq_iff delivery_def r1(2))
  ultimately have "distribute_event L e sc r out = (r1, out @ map (delivery L r e) ?ms)"
    using send_matches_all_sent [OF _ sent, of ?ms r1 e "[]" out]
    by (simp add: distribute_event_def ix r1_def Let_def split_beta)
  then show ?thesis
    using matching new r1(2) by (intro exI [of _ ?ms]) auto
qed

section \<open>Replacing a subscription\<close>

lemma reg_remove_conn:
  assumes "hm_get (rg_connections r) cid = Some conn"
  shows "hm_get (rg_connections (snd (reg_remove_subscription L cid sid r))) cid =
    Some (conn\<lparr>cs_subscriptions := hm_remove sid (cs_subscriptions conn)\<rparr>)"
  using assms
  by (simp add: reg_remove_subscription_def index_remove_def Let_def hm_simps hm_remove_absent
      split: option.split)

lemma remove_keeps_room:
  assumes "reg_wf L r"
  shows "scope_room sc n (snd (reg_remove_subscription L cid sid r)) = scope_room sc n r"
  by (auto simp: reg_remove_subscription_def index_remove_def scope_room_def index_room_def hm_simps Let_def
      split: option.splits)

lemma replace_subscription_table:
  fixes sid
  assumes wf: "reg_wf L r" and conn: "hm_get (rg_connections r) cid = Some conn"
    and fs: "list_all filter_wf fs" and room: "scope_room (cs_subdomain conn) (length fs) r"
  defines "r' \<equiv> snd (reg_add_subscription L cid sid fs (snd (reg_remove_subscription L cid sid r)))"
  shows "reg_wf L r'"
    and "conn_table r' = (conn_table r)(cs_subdomain conn := (conn_table r (cs_subdomain conn))((cid, sid) \<mapsto> mset fs))"
proof -
  let ?r1 = "snd (reg_remove_subscription L cid sid r)"
  define conn1 where "conn1 = conn\<lparr>cs_subscriptions := hm_remove sid (cs_subscriptions conn)\<rparr>"
  have conn1: "hm_get (rg_connections ?r1) cid = Some conn1"
    "cs_subdomain conn1 = cs_subdomain conn" "hm_get (cs_subscriptions conn1) sid = None"
    using reg_remove_conn [OF conn] by (simp_all add: conn1_def hm_simps)
  note r1 = reg_remove_subscription_table [OF wf, of cid sid]
  note add = reg_add_subscription_table [OF r1(1) conn1(1,3) fs]
  have "scope_room (cs_subdomain conn1) (length fs) ?r1"
    using room by (simp add: remove_keeps_room [OF wf] conn1(2))
  note add = add [OF this]
  show "reg_wf L r'"
    using add(1) by (simp add: r'_def)
  have "conn_table r sc (cid, sid) = None" if "sc \<noteq> cs_subdomain conn" for sc
    using that conn by (simp add: conn_table_def)
  then show "conn_table r' = (conn_table r)(cs_subdomain conn := (conn_table r (cs_subdomain conn))((cid, sid) \<mapsto> mset fs))"
    by (auto simp: r'_def add(2) r1(2) conn1(2) fun_eq_iff)
qed

end
