(* ===== verification/Subscription_Coordinator_Correct.thy ===== *)
theory Subscription_Coordinator_Correct
  imports Subscription_Coordinator Subscription_Registry_Correct
begin

text \<open>
  The coordinator: replacing subscriptions keeps the registry consistent, a store command either
  fails with the store unchanged or is answered and then broadcast, the replaceable buffer keeps
  the last event per key, and the answer to a REQ respects limits, visibility and order.
\<close>

section \<open>Subscriptions\<close>

lemma co_add_subscription_eq:
  "co_add_subscription L co sid fs w =
     (let r1 = snd (reg_remove_subscription L (sc_connection_id co) sid (w_registry w))
      in (fst (reg_add_subscription L (sc_connection_id co) sid fs r1),
          w\<lparr>w_registry := snd (reg_add_subscription L (sc_connection_id co) sid fs r1)\<rparr>))"
  by (simp add: co_add_subscription_def co_remove_subscription_def Let_def split_beta)

lemma reg_add_subscription_result:
  "fst (reg_add_subscription L cid sid fs r) =
     (if has_connection r cid then Inr () else Inl (Internal ''Connection not found''))"
  by (simp add: reg_add_subscription_def has_connection_def hm_contains_def Let_def split: option.splits)

lemma reg_remove_has_connection [simp]:
  "has_connection (snd (reg_remove_subscription L cid sid r)) c = has_connection r c"
  by (auto simp: reg_remove_subscription_def index_remove_def has_connection_def hm_contains_def hm_simps Let_def
      split: option.splits)

section \<open>Pages\<close>

definition page_msg :: "message_sender \<Rightarrow> subscription_id \<Rightarrow> event \<Rightarrow> channel \<times> outbound" where
  "page_msg ms sid e = (ms_channel ms, RM_Event sid e, ms_position ms - 1, None)"

lemma send_bypass_entry:
  "send_bypass L ms m out = try_send_entry L (ms_channel ms) (m, ms_position ms - 1, None) out"
  by (simp add: send_bypass_def Let_def)

lemma send_page_eq:
  "\<exists>new. send_page L ms sid limit es k sent out =
      (k + length (take (limit - k) es), rev (map ev_id (take (limit - k) es)) @ sent, out @ new) \<and>
    subseq new (map (page_msg ms sid) (take (limit - k) es))"
proof (induction es arbitrary: k sent out)
  case (Cons e es)
  show ?case
  proof (cases "limit \<le> k")
    case False
    then have t: "take (limit - k) (e # es) = e # take (limit - Suc k) es"
      by (simp add: take_Cons' Suc_diff_le)
    let ?out = "snd (send_bypass L ms (RM_Event sid e) out)"
    obtain new where new: "send_page L ms sid limit es (Suc k) (ev_id e # sent) ?out =
        (Suc k + length (take (limit - Suc k) es), rev (map ev_id (take (limit - Suc k) es)) @ ev_id e # sent,
         ?out @ new)" "subseq new (map (page_msg ms sid) (take (limit - Suc k) es))"
      using Cons.IH by blast
    show ?thesis
    proof (rule try_send_entry_cases [of L "ms_channel ms" "snd (page_msg ms sid e)" out])
      assume "try_send_entry L (ms_channel ms) (snd (page_msg ms sid e)) out =
        (Inr (), out @ [(ms_channel ms, snd (page_msg ms sid e))])"
      then have "?out = out @ [page_msg ms sid e]"
        by (simp add: send_bypass_entry page_msg_def)
      then show ?thesis
        using new False unfolding t by (intro exI [of _ "page_msg ms sid e # new"]) simp
    next
      fix err
      assume "try_send_entry L (ms_channel ms) (snd (page_msg ms sid e)) out = (Inl err, out)"
      then have "?out = out"
        by (simp add: send_bypass_entry page_msg_def)
      then show ?thesis
        using new False unfolding t by (intro exI [of _ new]) (simp add: list_emb_Cons)
    qed
  qed simp
qed simp

lemma send_page_all_sent:
  "try_send L = (\<lambda>_ _. Sent) \<Longrightarrow> send_page L ms sid limit es k sent out =
      (k + length (take (limit - k) es), rev (map ev_id (take (limit - k) es)) @ sent,
       out @ map (page_msg ms sid) (take (limit - k) es))"
  by (induction es arbitrary: k sent out)
    (auto simp: send_bypass_entry page_msg_def take_Cons' Suc_diff_le)

lemma scan_window_kept:
  "snd (scan_window ffn sent es lts acc) = acc @ List.filter (\<lambda>e. ev_id e \<notin> set sent \<and> ffn e) es"
  by (induction ffn sent es lts acc rule: scan_window.induct) auto

definition query_distinct :: "'db lmdb \<Rightarrow> 'db \<Rightarrow> scope \<Rightarrow> bool" where
  "query_distinct D db sc \<longleftrightarrow> (\<forall>f es. db_query D db [f] sc = Inr es \<longrightarrow> distinct (map ev_id es))"

text \<open>Time limits. The window of a page is within the client's: it ends no later than the client's \<open>until\<close>, if there is one.\<close>

definition not_after :: "timestamp option \<Rightarrow> event \<Rightarrow> bool" where
  "not_after u e = (case u of None \<Rightarrow> True | Some t \<Rightarrow> ev_created_at e \<le> t)"

definition window_within :: "timestamp option \<Rightarrow> timestamp option \<Rightarrow> bool" where
  "window_within client u = (case client of None \<Rightarrow> True
   | Some T \<Rightarrow> (case u of None \<Rightarrow> False | Some t \<Rightarrow> t \<le> T))"

text \<open>The event is among those the store returned for a page of the filter, within the client's window.\<close>

definition returned_within :: "'db lmdb \<Rightarrow> 'db \<Rightarrow> scope \<Rightarrow> filter \<Rightarrow> event \<Rightarrow> bool" where
  "returned_within D db sc f e \<longleftrightarrow>
     (\<exists>u es. window_within (f_until f) u \<and> db_query D db [f\<lparr>f_until := u\<rparr>] sc = Inr es \<and> e \<in> set es)"

text \<open>Documented behaviour of the store and of \<open>Filter::match_event\<close>: a query returns only events that its filter
  matches; matching does not look at the limit, and \<open>until\<close> is one of its conditions.\<close>

definition query_matches :: "nostr_lib \<Rightarrow> 'db lmdb \<Rightarrow> 'db \<Rightarrow> scope \<Rightarrow> bool" where
  "query_matches L D db sc \<longleftrightarrow> (\<forall>f es. db_query D db [f] sc = Inr es \<longrightarrow> list_all (match_event L f) es)"

definition match_window :: "nostr_lib \<Rightarrow> bool" where
  "match_window L \<longleftrightarrow> (\<forall>f e l u. match_event L (f\<lparr>f_limit := l\<rparr>) e = match_event L f e \<and>
     (match_event L (f\<lparr>f_until := u\<rparr>) e \<longleftrightarrow> match_event L (f\<lparr>f_until := None\<rparr>) e \<and> not_after u e))"

lemma match_until: "match_window L \<Longrightarrow> match_event L f e \<longleftrightarrow> match_event L (f\<lparr>f_until := None\<rparr>) e \<and> not_after (f_until f) e"
  unfolding match_window_def by (metis filter.surjective filter.update_convs(6))

lemma match_limit: "match_window L \<Longrightarrow> match_event L (f\<lparr>f_limit := l\<rparr>) e = match_event L f e"
  by (simp add: match_window_def)

lemma within_not_after: "window_within client u \<Longrightarrow> not_after u e \<Longrightarrow> not_after client e"
  by (auto simp: window_within_def not_after_def split: option.splits)

lemma within_match:
  assumes "match_window L" "window_within (f_until f) u" "match_event L (f\<lparr>f_until := u\<rparr>) e"
  shows "match_event L f e"
proof -
  have "match_event L (f\<lparr>f_until := None\<rparr>) e" "not_after u e"
    using assms(1,3) unfolding match_window_def by blast+
  then show ?thesis
    using match_until [OF assms(1), of f e] within_not_after [OF assms(2)] by blast
qed

lemma scan_window_oldest: "fst (scan_window ffn sent es lts acc) = Some ts \<Longrightarrow>
    lts = Some ts \<or> (\<exists>e \<in> set es. ts = ev_created_at e)"
  by (induction ffn sent es lts acc rule: scan_window.induct) (auto split: if_splits option.splits)

text \<open>An invariant of the pages of a filter, over the end of the window and the oldest time seen so far: under it every
  returned event is \<open>src\<close>, and the next page has it again.\<close>

definition page_invariant :: "nostr_lib \<Rightarrow> 'db lmdb \<Rightarrow> 'db \<Rightarrow> scope \<Rightarrow> filter
  \<Rightarrow> (timestamp option \<Rightarrow> timestamp option \<Rightarrow> bool) \<Rightarrow> (event \<Rightarrow> bool) \<Rightarrow> bool" where
  "page_invariant L D db sc f stay src \<longleftrightarrow> (\<forall>u lts es. stay u lts \<and> db_query D db [f\<lparr>f_until := u\<rparr>] sc = Inr es \<longrightarrow>
     list_all src es \<and> (\<forall>ffn sent ts. fst (scan_window ffn sent es lts []) = Some ts \<longrightarrow>
       stay (Some (timestamp_sub L ts 1)) (Some ts)))"

lemma page_invariantD:
  assumes "page_invariant L D db sc f stay src" "stay u lts" "db_query D db [f\<lparr>f_until := u\<rparr>] sc = Inr es"
  shows "list_all src es" "fst (scan_window ffn sent es lts []) = Some ts \<Longrightarrow> stay (Some (timestamp_sub L ts 1)) (Some ts)"
  using assms unfolding page_invariant_def by blast+

lemma page_invariant_mono:
  "page_invariant L D db sc f stay src \<Longrightarrow> (\<And>e. src e \<Longrightarrow> src' e) \<Longrightarrow> page_invariant L D db sc f stay src'"
  unfolding page_invariant_def list_all_iff by blast

text \<open>The pages of a client's filter stay within the client's window.\<close>

lemma page_invariant_window:
  assumes "query_matches L D db sc" "match_window L" "\<And>t. timestamp_sub L t 1 = t - 1"
  shows "page_invariant L D db sc f
    (\<lambda>u lts. window_within (f_until f) u \<and> (\<forall>t T. lts = Some t \<and> f_until f = Some T \<longrightarrow> t \<le> T))
    (\<lambda>e. match_event L f e \<and> returned_within D db sc f e)"
proof -
  have "match_event L f e \<and> returned_within D db sc f e"
    if "window_within (f_until f) u" "db_query D db [f\<lparr>f_until := u\<rparr>] sc = Inr es" "e \<in> set es" for u es e
    using that assms(1) within_match [OF assms(2)]
    unfolding query_matches_def list_all_iff returned_within_def by blast
  moreover have until: "t \<le> T" if "match_event L f e" "f_until f = Some T" "t = ev_created_at e" for e t T
    using that match_until [OF assms(2), of f e] by (simp add: not_after_def)
  moreover have "window_within (f_until f) (Some (timestamp_sub L ts 1)) \<and> (\<forall>t T. Some ts = Some t \<and> f_until f = Some T \<longrightarrow> t \<le> T)"
    if "\<forall>t T. lts = Some t \<and> f_until f = Some T \<longrightarrow> t \<le> T" "\<forall>e \<in> set es. match_event L f e"
      "fst (scan_window ffn sent es lts []) = Some ts" for lts es ffn sent ts
  proof -
    have "ts \<le> T" if "f_until f = Some T" for T
      using scan_window_oldest [OF \<open>fst _ = Some ts\<close>] \<open>\<forall>t T. lts = _ \<and> _ \<longrightarrow> _\<close> \<open>\<forall>e \<in> _. _\<close> until that by blast
    moreover have "timestamp_sub L ts 1 \<le> ts"
      using assms(3) by simp
    ultimately show ?thesis
      by (auto simp: window_within_def split: option.split intro: le_trans)
  qed
  ultimately show ?thesis
    unfolding page_invariant_def list_all_iff by (intro allI impI conjI ballI) blast+
qed

text \<open>What one run of the pagination loop may send.\<close>

definition page_run_ok :: "'db lmdb \<Rightarrow> 'db \<Rightarrow> scope \<Rightarrow> (event \<Rightarrow> bool) \<Rightarrow> message_sender \<Rightarrow> subscription_id
  \<Rightarrow> (event \<Rightarrow> bool) \<Rightarrow> nat \<Rightarrow> event_id list \<Rightarrow> outbox \<Rightarrow> (error + event_id list) \<times> outbox \<Rightarrow> bool" where
  "page_run_ok D db sc ffn ms sid src bound sent out res \<longleftrightarrow> (\<exists>evs new. snd res = out @ new \<and>
     subseq new (map (page_msg ms sid) evs) \<and> length evs \<le> bound \<and>
     (\<forall>e \<in> set evs. ffn e \<and> src e \<and> ev_id e \<notin> set sent) \<and> distinct (map ev_id evs) \<and>
     (\<forall>sent'. fst res = Inr sent' \<longrightarrow> set sent' = set sent \<union> ev_id ` set evs))"

lemma page_run_stop: "page_run_ok D db sc ffn ms sid src bound sent out (Inr sent, out)"
  "page_run_ok D db sc ffn ms sid src bound sent out (Inl err, out)"
  by (auto simp: page_run_ok_def intro!: exI [of _ "[]"])

lemma page_run_trans:
  assumes "subseq new (map (page_msg ms sid) evs)" "length evs \<le> b1" "distinct (map ev_id evs)"
    "\<forall>e \<in> set evs. ffn e \<and> src e \<and> ev_id e \<notin> set sent"
    "page_run_ok D db sc ffn ms sid src b2 sent' (out @ new) res" "set sent' = set sent \<union> ev_id ` set evs"
  shows "page_run_ok D db sc ffn ms sid src (b1 + b2) sent out res"
proof -
  obtain evs2 new2 where r: "snd res = (out @ new) @ new2" "subseq new2 (map (page_msg ms sid) evs2)"
    "length evs2 \<le> b2" "\<forall>e \<in> set evs2. ffn e \<and> src e \<and> ev_id e \<notin> set sent'" "distinct (map ev_id evs2)"
    "\<forall>sent''. fst res = Inr sent'' \<longrightarrow> set sent'' = set sent' \<union> ev_id ` set evs2"
    using assms(5) unfolding page_run_ok_def by blast
  have "subseq (new @ new2) (map (page_msg ms sid) (evs @ evs2))"
    using assms(1) r(2) by (simp add: list_emb_append_mono)
  moreover have "distinct (map ev_id (evs @ evs2))"
    using assms(3,6) r(4,5) by auto (metis imageI)
  ultimately show ?thesis
    unfolding page_run_ok_def using assms(2,4,6) r(1,3,4,6)
    by (intro exI [of _ "evs @ evs2"] exI [of _ "new @ new2"]) (auto simp del: map_append)
qed

lemma distinct_ids_sort_filter:
  "distinct (map ev_id es) \<Longrightarrow> distinct (map ev_id (take n (sort_key g (List.filter P es))))"
  by (auto simp: distinct_map intro: inj_on_subset distinct_take dest: in_set_takeD)
    (metis (no_types, lifting) filter_is_subset inj_on_subset set_sort set_take_subset subset_trans)

lemma page_loop_step:
  assumes "db_query D db [win] sc = Inr es" "es \<noteq> []" "scan_window ffn sent es lts [] = (lts', kept)"
    "send_page L ms sid limit (sort_key (\<lambda>e. - int (ev_created_at e)) kept) k sent out = (k', sent', out')"
  shows "page_loop (Suc n) L D db sc ffn ms sid limit win k lts sent out =
    (if k' \<ge> limit then (Inr sent', out')
     else case lts' of
         None \<Rightarrow> (Inr sent', out')
       | Some ts \<Rightarrow> page_loop n L D db sc ffn ms sid limit (win\<lparr>f_until := Some (timestamp_sub L ts 1)\<rparr>)
           k' lts' sent' out')"
proof -
  obtain e0 es0 where es: "es = e0 # es0"
    using assms(2) by (cases es) auto
  show ?thesis
    using assms(1,3,4) unfolding es by (simp del: scan_window.simps)
qed

lemma page_loop_ok:
  assumes "query_distinct D db sc" "page_invariant L D db sc f stay src"
    "win = f\<lparr>f_until := f_until win\<rparr>" "stay (f_until win) lts" "k \<le> limit"
  shows "page_run_ok D db sc ffn ms sid src (limit - k) sent out
    (page_loop n L D db sc ffn ms sid limit win k lts sent out)"
  using assms(3-)
proof (induction n arbitrary: win k lts sent out)
  case 0
  then show ?case
    by (simp add: page_run_stop)
next
  case (Suc n)
  show ?case
  proof (cases "db_query D db [win] sc")
    case (Inr es)
    show ?thesis
    proof (cases es)
      case (Cons e0 es0)
      define kept where "kept = sort_key (\<lambda>e. - int (ev_created_at e))
        (List.filter (\<lambda>e. ev_id e \<notin> set sent \<and> ffn e) es)"
      define evs where "evs = take (limit - k) kept"
      define lts' where "lts' = fst (scan_window ffn sent es lts [])"
      obtain new where new: "send_page L ms sid limit kept k sent out =
          (k + length evs, rev (map ev_id evs) @ sent, out @ new)" "subseq new (map (page_msg ms sid) evs)"
        using send_page_eq [of L ms sid limit kept k sent out] by (auto simp: evs_def)
      have scan: "scan_window ffn sent es lts [] = (lts', List.filter (\<lambda>e. ev_id e \<notin> set sent \<and> ffn e) es)"
        using scan_window_kept [of ffn sent es lts "[]"] by (simp add: lts'_def prod_eq_iff)
      have step: "page_loop (Suc n) L D db sc ffn ms sid limit win k lts sent out =
        (if k + length evs \<ge> limit then (Inr (rev (map ev_id evs) @ sent), out @ new)
         else case lts' of None \<Rightarrow> (Inr (rev (map ev_id evs) @ sent), out @ new)
           | Some ts \<Rightarrow> page_loop n L D db sc ffn ms sid limit (win\<lparr>f_until := Some (timestamp_sub L ts 1)\<rparr>)
               (k + length evs) lts' (rev (map ev_id evs) @ sent) (out @ new))"
        by (rule page_loop_step [OF Inr _ scan new(1) [unfolded kept_def]]) (simp add: Cons)
      have "db_query D db [f\<lparr>f_until := f_until win\<rparr>] sc = Inr es"
        using Inr Suc.prems(1) by simp
      note stay = page_invariantD [OF assms(2) Suc.prems(2) this]
      have evs: "\<forall>e \<in> set evs. ffn e \<and> src e \<and> ev_id e \<notin> set sent" "distinct (map ev_id evs)" "length evs \<le> limit - k"
        using assms(1) Inr stay(1)
        by (auto simp: evs_def kept_def query_distinct_def list_all_iff intro: distinct_ids_sort_filter dest: in_set_takeD)
      have next_win: "win\<lparr>f_until := u\<rparr> = f\<lparr>f_until := f_until (win\<lparr>f_until := u\<rparr>)\<rparr>" for u
        by (subst Suc.prems(1)) simp
      have "page_run_ok D db sc ffn ms sid src (limit - (k + length evs)) (rev (map ev_id evs) @ sent) (out @ new)
          (page_loop n L D db sc ffn ms sid limit (win\<lparr>f_until := Some (timestamp_sub L ts 1)\<rparr>)
            (k + length evs) lts' (rev (map ev_id evs) @ sent) (out @ new))" if "lts' = Some ts" for ts
        using stay(2) [of ffn sent ts] that evs(3) Suc.prems(3) unfolding lts'_def
        by (intro Suc.IH [OF next_win]) simp_all
      then have rest: "page_run_ok D db sc ffn ms sid src (limit - (k + length evs))
          (rev (map ev_id evs) @ sent) (out @ new)
          (page_loop (Suc n) L D db sc ffn ms sid limit win k lts sent out)"
        unfolding step by (auto simp: page_run_stop split: option.splits)
      have "page_run_ok D db sc ffn ms sid src (length evs + (limit - (k + length evs))) sent out
          (page_loop (Suc n) L D db sc ffn ms sid limit win k lts sent out)"
        by (rule page_run_trans [OF new(2) _ evs(2,1) rest]) auto
      then show ?thesis
        using evs(3) Suc.prems by simp
    qed (use Inr in \<open>simp add: page_run_stop\<close>)
  qed (simp add: page_run_stop)
qed

lemma page_run_mono:
  "page_run_ok D db sc ffn ms sid src b sent out res \<Longrightarrow> (\<And>e. src e \<Longrightarrow> src' e) \<Longrightarrow> b \<le> b' \<Longrightarrow>
     page_run_ok D db sc ffn ms sid src' b' sent out res"
  unfolding page_run_ok_def by (meson le_trans)

lemma filters_loop_ok:
  assumes "query_distinct D db sc"
  shows "\<forall>f \<in> set fs. \<exists>stay. page_invariant L D db sc f stay src \<and> stay (f_until f) None \<Longrightarrow>
    page_run_ok D db sc ffn ms sid src (limit * length fs) sent out (filters_loop L D db sc ffn ms sid limit fs sent out)"
proof (induction fs arbitrary: sent out)
  case Nil
  then show ?case
    by (simp add: page_run_stop)
next
  case (Cons f fs)
  obtain stay where stay: "page_invariant L D db sc f stay src" "stay (f_until f) None"
    using Cons.prems by auto
  let ?page = "page_loop 50 L D db sc ffn ms sid limit f 0 None sent out"
  have first: "page_run_ok D db sc ffn ms sid src limit sent out ?page"
    using page_loop_ok [OF assms stay(1), of f None 0 limit] stay(2) by simp
  show ?case
  proof (cases "fst ?page")
    case (Inl err)
    then have "filters_loop L D db sc ffn ms sid limit (f # fs) sent out = ?page"
      by (simp add: prod_eq_iff split: prod.split)
    then show ?thesis
      using page_run_mono [OF first, of src] by simp
  next
    case (Inr sent')
    then have step: "filters_loop L D db sc ffn ms sid limit (f # fs) sent out =
        filters_loop L D db sc ffn ms sid limit fs sent' (snd ?page)"
      by (cases ?page) simp
    obtain evs new where first': "snd ?page = out @ new" "subseq new (map (page_msg ms sid) evs)"
      "length evs \<le> limit" "\<forall>e \<in> set evs. ffn e \<and> src e \<and> ev_id e \<notin> set sent" "distinct (map ev_id evs)"
      "set sent' = set sent \<union> ev_id ` set evs"
      using first Inr unfolding page_run_ok_def by blast
    have "page_run_ok D db sc ffn ms sid src (limit * length fs) sent' (out @ new)
        (filters_loop L D db sc ffn ms sid limit (f # fs) sent out)"
      unfolding step first'(1) by (rule Cons.IH) (use Cons.prems in simp)
    from page_run_trans [OF first'(2,3,5,4) this first'(6)] show ?thesis
      by simp
  qed
qed

lemma fold_min_le: "\<forall>l' \<in> set (l # ls). fold min ls (l::nat) \<le> l'"
proof (induction ls arbitrary: l)
  case (Cons a ls)
  from Cons.IH [of "min a l"] show ?case
    by simp
qed simp

lemma smallest_limit_le:
  "smallest_limit m fs \<le> m"
  "f \<in> set fs \<Longrightarrow> f_limit f = Some l \<Longrightarrow> smallest_limit m fs \<le> l"
proof -
  show "smallest_limit m fs \<le> m"
    by (simp add: smallest_limit_def split: list.split)
  assume "f \<in> set fs" "f_limit f = Some l"
  then have "l \<in> set (List.map_filter f_limit fs)"
    by (force simp: List.map_filter_def)
  then show "smallest_limit m fs \<le> l"
    using fold_min_le by (fastforce simp: smallest_limit_def min_le_iff_disj split: list.split)
qed

section \<open>Pagination against a reference\<close>

text \<open>A well-behaved database for one filter: \<open>evs\<close> are the stored matches, newest first, and a query returns the
  \<open>limit\<close> newest that are not after \<open>until\<close>. The next page asks for what is older than the oldest time of this one by a second,
  so the pages are complete when no page ends inside a second.\<close>

definition pages_of :: "'db lmdb \<Rightarrow> 'db \<Rightarrow> scope \<Rightarrow> filter \<Rightarrow> nat \<Rightarrow> event list \<Rightarrow> bool" where
  "pages_of D db sc f limit evs \<longleftrightarrow> sorted_wrt (\<lambda>a b. ev_created_at b \<le> ev_created_at a) evs \<and>
     distinct (map ev_id evs) \<and> (\<forall>e \<in> set evs. 0 < ev_created_at e) \<and>
     (\<forall>u. db_query D db [f\<lparr>f_until := u\<rparr>] sc = Inr (take limit (List.filter (not_after u) evs)))"

definition pages_split_seconds :: "nat \<Rightarrow> event list \<Rightarrow> bool" where
  "pages_split_seconds limit evs \<longleftrightarrow>
     (\<exists>j. 0 < j \<and> j < length evs \<and> j mod limit = 0 \<and> ev_created_at (evs ! j) = ev_created_at (evs ! (j - 1)))"

lemma scan_window_newest_first:
  assumes "sorted_wrt (\<lambda>a b. ev_created_at b \<le> ev_created_at a) es" "es \<noteq> []"
    "\<forall>e \<in> set es. ev_id e \<notin> set sent" "\<forall>t. lts = Some t \<longrightarrow> (\<forall>e \<in> set es. ev_created_at e \<le> t)"
  shows "fst (scan_window ffn sent es lts acc) = Some (ev_created_at (last es))"
  using assms
proof (induction es arbitrary: lts acc)
  case (Cons e es)
  show ?case
  proof (cases "es = []")
    case True
    then show ?thesis
      using Cons.prems by (auto split: option.splits)
  next
    case False
    have "fst (scan_window ffn sent es (Some (ev_created_at e)) acc') = Some (ev_created_at (last es))" for acc'
      by (rule Cons.IH) (use Cons.prems False in auto)
    then show ?thesis
      using Cons.prems False by (auto split: option.splits)
  qed
qed simp

lemma sort_newest_first:
  assumes "sorted_wrt (\<lambda>a b. ev_created_at b \<le> ev_created_at a) es"
  shows "sort_key (\<lambda>e. - int (ev_created_at e)) es = es"
proof -
  have "sorted_wrt (\<lambda>a b. - int (ev_created_at a) \<le> - int (ev_created_at b)) es"
    by (rule sorted_wrt_mono_rel [OF _ assms]) simp
  then have "sorted (map (\<lambda>e. - int (ev_created_at e)) es)"
    by (simp add: sorted_map)
  then show ?thesis
    by (rule sort_key_id_if_sorted)
qed

lemma not_after_split:
  assumes "sorted_wrt (\<lambda>a b. ev_created_at b \<le> ev_created_at a) (xs @ ys)" "xs \<noteq> []" "0 < ev_created_at (last xs)"
    "\<forall>e \<in> set ys. ev_created_at e < ev_created_at (last xs)"
  shows "List.filter (not_after (Some (ev_created_at (last xs) - 1))) (xs @ ys) = ys"
proof -
  obtain zs z where xs: "xs = zs @ [z]"
    using assms(2) by (cases xs rule: rev_cases) auto
  have "\<forall>e \<in> set xs. ev_created_at (last xs) \<le> ev_created_at e"
    using assms(1) by (auto simp: xs sorted_wrt_append)
  then have "List.filter (not_after (Some (ev_created_at (last xs) - 1))) xs = []"
    "List.filter (not_after (Some (ev_created_at (last xs) - 1))) ys = ys"
    using assms(3,4) by (auto simp: not_after_def filter_empty_conv intro!: filter_True)
  then show ?thesis
    by simp
qed

lemma take_filter_take:
  "limit - k \<le> length (List.filter P (take n xs)) \<Longrightarrow>
     take (limit - k) (List.filter P (take n xs)) = take (limit - k) (List.filter P xs)"
  by (metis append_take_drop_id diff_is_0_eq' filter_append take_append take_eq_Nil append_Nil2)

lemma next_page_older:
  assumes "sorted_wrt (\<lambda>a b. ev_created_at b \<le> ev_created_at a) (xs @ ys)" "xs \<noteq> []" "length xs mod limit = 0"
    "\<not> pages_split_seconds limit (xs @ ys)"
  shows "\<forall>e \<in> set ys. ev_created_at e < ev_created_at (last xs)"
proof (cases ys)
  case (Cons y zs)
  have l: "last xs \<in> set xs" "(xs @ ys) ! (length xs - 1) = last xs"
    using assms(2) by (simp_all add: nth_append last_conv_nth)
  have "ev_created_at ((xs @ ys) ! length xs) \<noteq> ev_created_at ((xs @ ys) ! (length xs - 1))"
    using assms(2-4) Cons unfolding pages_split_seconds_def not_ex by (drule_tac x = "length xs" in spec) simp
  then have "ev_created_at y \<noteq> ev_created_at (last xs)"
    using l(2) Cons by simp
  then show ?thesis
    using assms(1) Cons l(1) by (fastforce simp: sorted_wrt_append)
qed simp

lemma page_loop_reference:
  assumes sent: "try_send L = (\<lambda>_ _. Sent)" and sub: "\<And>t. timestamp_sub L t 1 = t - 1"
    and pages: "pages_of D db sc f limit (prev @ rest)"
    and whole: "\<not> pages_split_seconds limit (prev @ rest)" "length prev mod limit = 0 \<or> rest = []"
    and query: "List.filter (not_after (f_until win)) (prev @ rest) = rest" "win = f\<lparr>f_until := f_until win\<rparr>"
    and k: "k = length (List.filter ffn prev)" "k < limit"
    and ids: "set sent = ev_id ` set (List.filter ffn prev)"
    and lts: "\<forall>t. lts = Some t \<longrightarrow> (\<forall>e \<in> set rest. ev_created_at e \<le> t)"
    and fuel: "length rest \<le> n * limit"
  shows "snd (page_loop n L D db sc ffn ms sid limit win k lts sent out) =
    out @ map (page_msg ms sid) (take (limit - k) (List.filter ffn rest)) \<and>
    is_ok (fst (page_loop n L D db sc ffn ms sid limit win k lts sent out))"
  using pages whole query k ids lts fuel
proof (induction n arbitrary: prev rest win k lts sent out)
  case (Suc n)
  define page where "page = take limit rest"
  have q: "db_query D db [win] sc = Inr page"
    using Suc.prems(1,4,5) unfolding pages_of_def page_def by metis
  have desc: "sorted_wrt (\<lambda>a b. ev_created_at b \<le> ev_created_at a) (prev @ rest)"
    and dist: "distinct (map ev_id (prev @ rest))" and pos: "\<forall>e \<in> set (prev @ rest). 0 < ev_created_at e"
    using Suc.prems(1) unfolding pages_of_def by blast+
  show ?case
  proof (cases "rest = []")
    case True
    then show ?thesis
      using q by (simp add: page_def)
  next
    case False
    then have ne: "page \<noteq> []"
      using Suc.prems(7) by (simp add: page_def)
    have split: "page @ drop limit rest = rest"
      by (simp add: page_def)
    have desc_page: "sorted_wrt (\<lambda>a b. ev_created_at b \<le> ev_created_at a) page"
      using desc by (simp add: page_def sorted_wrt_append sorted_wrt_take)
    have fresh: "\<forall>e \<in> set page. ev_id e \<notin> set sent"
      using dist Suc.prems(8) by (fastforce simp: page_def dest!: in_set_takeD)
    have before: "\<forall>t. lts = Some t \<longrightarrow> (\<forall>e \<in> set page. ev_created_at e \<le> t)"
      using Suc.prems(9) by (auto simp: page_def dest: in_set_takeD)
    have "List.filter (\<lambda>e. ev_id e \<notin> set sent \<and> ffn e) page = List.filter ffn page"
      using fresh by (auto intro: filter_cong)
    then have scan: "scan_window ffn sent page lts [] = (Some (ev_created_at (last page)), List.filter ffn page)"
      using scan_window_newest_first [OF desc_page ne fresh before, of ffn "[]"]
        scan_window_kept [of ffn sent page lts "[]"] by (simp add: prod_eq_iff)
    have sorted: "sort_key (\<lambda>e. - int (ev_created_at e)) (List.filter ffn page) = List.filter ffn page"
      by (rule sort_newest_first) (simp add: desc_page sorted_wrt_filter)
    define now where "now = take (limit - k) (List.filter ffn page)"
    have "send_page L ms sid limit (List.filter ffn page) k sent out =
        (k + length now, rev (map ev_id now) @ sent, out @ map (page_msg ms sid) now)"
      by (simp only: send_page_all_sent [OF sent] now_def)
    note step = page_loop_step [OF q ne scan, unfolded sorted, OF this]
    show ?thesis
    proof (cases "limit \<le> k + length now")
      case True
      then have "now = take (limit - k) (List.filter ffn rest)"
        unfolding now_def page_def by (intro take_filter_take) simp
      then show ?thesis
        unfolding step if_P [OF True] by simp
    next
      case False
      then have now: "now = List.filter ffn page"
        by (simp add: now_def)
      have older_page: "\<forall>e \<in> set (drop limit rest). ev_created_at e < ev_created_at (last page)"
      proof (cases "length rest \<le> limit")
        case False
        then have "length (prev @ page) mod limit = 0"
          using Suc.prems(3) \<open>rest \<noteq> []\<close> by (simp add: page_def)
        then show ?thesis
          using next_page_older [of "prev @ page" "drop limit rest" limit] desc Suc.prems(2) ne split by simp
      qed simp
      let ?win = "win\<lparr>f_until := Some (timestamp_sub L (ev_created_at (last page)) 1)\<rparr>"
      have next_page: "List.filter (not_after (f_until ?win)) ((prev @ page) @ drop limit rest) = drop limit rest"
      proof -
        have "last page \<in> set (prev @ rest)"
          using last_in_set [OF ne] split by (metis UnCI set_append)
        then have "0 < ev_created_at (last (prev @ page))"
          using ne pos by simp
        then show ?thesis
          using not_after_split [of "prev @ page" "drop limit rest"] ne desc split older_page by (simp add: sub [simplified])
      qed
      have win: "?win = f\<lparr>f_until := f_until ?win\<rparr>"
        by (subst Suc.prems(5)) simp
      have older: "\<forall>t. Some (ev_created_at (last page)) = Some t \<longrightarrow> (\<forall>e \<in> set (drop limit rest). ev_created_at e \<le> t)"
        using older_page by auto
      have whole: "\<not> pages_split_seconds limit ((prev @ page) @ drop limit rest)"
        using Suc.prems(2) split by simp
      have multiple: "length (prev @ page) mod limit = 0 \<or> drop limit rest = []"
        using Suc.prems(3) \<open>rest \<noteq> []\<close> by (auto simp: page_def)
      have "length (drop limit rest) \<le> n * limit"
        using Suc.prems(10) Suc.prems(7) by auto
      from Suc.IH [of "prev @ page" "drop limit rest" ?win "k + length now" "rev (map ev_id now) @ sent"
          "Some (ev_created_at (last page))" "out @ map (page_msg ms sid) now", OF _ whole multiple next_page win _ _ _ older this]
      have "snd (page_loop n L D db sc ffn ms sid limit ?win (k + length now) (Some (ev_created_at (last page)))
          (rev (map ev_id now) @ sent) (out @ map (page_msg ms sid) now)) =
        (out @ map (page_msg ms sid) now) @
          map (page_msg ms sid) (take (limit - (k + length now)) (List.filter ffn (drop limit rest))) \<and>
        is_ok (fst (page_loop n L D db sc ffn ms sid limit ?win (k + length now) (Some (ev_created_at (last page)))
          (rev (map ev_id now) @ sent) (out @ map (page_msg ms sid) now)))"
        using Suc.prems(1,6,8) False split by (auto simp: now image_Un)
      moreover have "List.filter ffn rest = now @ List.filter ffn (drop limit rest)"
        unfolding now by (subst split [symmetric]) simp
      ultimately show ?thesis
        unfolding step using False by simp
    qed
  qed
qed simp

section \<open>Store commands\<close>

lemma broadcast_fields [simp]:
  "w_db (broadcast L e sc w) = w_db w" "w_crypto (broadcast L e sc w) = w_crypto w"
  "w_queue (broadcast L e sc w) = w_queue w" "w_queue_open (broadcast L e sc w) = w_queue_open w"
  "w_oneshots (broadcast L e sc w) = w_oneshots w"
  "w_registry (broadcast L e sc w) = fst (distribute_event L e sc (w_registry w) (w_outbox w))"
  "w_outbox (broadcast L e sc w) = snd (distribute_event L e sc (w_registry w) (w_outbox w))"
  by (simp_all add: broadcast_def split_beta)

lemma reply_fields [simp]:
  "w_registry (reply h m w) = w_registry w" "w_outbox (reply h m w) = w_outbox w" "w_db (reply h m w) = w_db w"
  "w_queue (reply h m w) = w_queue w" "w_crypto (reply h m w) = w_crypto w"
  by (simp_all add: reply_def split: option.splits)

lemma respond_saved_fields [simp]:
  "w_registry (respond_saved L e res h w) = w_registry w" "w_db (respond_saved L e res h w) = w_db w"
  by (simp_all add: respond_saved_def Let_def split: option.splits response_handler.splits)

section \<open>The buffer of replaceable events\<close>

definition buffer_key :: "unsigned_event \<times> scope \<Rightarrow> pubkey \<times> kind \<times> scope" where
  "buffer_key p = (ue_pubkey (fst p), ue_kind (fst p), snd p)"

definition buffer_wf :: "nostr_lib \<Rightarrow> replaceable_buffer \<Rightarrow> bool" where
  "buffer_wf L b \<longleftrightarrow> hm_wf b \<and> (\<forall>key u. hm_get b key = Some u \<longrightarrow>
     buffer_key (u, snd (snd key)) = key \<and> buffered_kind L (ue_kind u))"

lemma buffer_insert_eq:
  "buffer_insert L p b = (if buffered_kind L (ue_kind (fst p)) then hm_insert (buffer_key p) (fst p) b else b)"
  by (simp add: buffer_insert_def buffered_kind_def buffer_key_def)

lemma buffer_insert_wf: "buffer_wf L b \<Longrightarrow> buffer_wf L (buffer_insert L p b)"
  by (auto simp: buffer_wf_def buffer_insert_eq hm_simps hm_wf_insert) (simp_all add: buffer_key_def)

lemma buffer_wf_Nil: "buffer_wf L []"
  by (simp add: buffer_wf_def)

lemma buffer_last_write:
  "hm_get (fold (buffer_insert L) ps b) key =
     (case List.filter (\<lambda>p. buffered_kind L (ue_kind (fst p)) \<and> buffer_key p = key) ps of
        [] \<Rightarrow> hm_get b key
      | qs \<Rightarrow> Some (fst (last qs)))"
proof (induction ps arbitrary: b)
  case (Cons p ps)
  show ?case
    unfolding fold_Cons comp_apply Cons.IH
    by (auto simp: buffer_insert_eq hm_simps split: list.splits)
qed simp

lemma buffer_flush_empty: "fst (buffer_flush L D b w) = []"
  by (simp add: buffer_flush_def)

lemma buffer_step_wf:
  "buffer_step L D (Some b, w) (Some b', w') \<Longrightarrow> buffer_wf L b \<Longrightarrow> buffer_wf L b'"
  by (erule buffer_step.cases)
    (auto simp: buffer_insert_wf buffer_flush_def buffer_wf_Nil split: if_splits)

text \<open>Flushing one event with a running signer and a store that accepts.\<close>

lemma flush_one_ok:
  assumes "cr_sign_processor (w_crypto w) = Running" "sign_event L u = Inr e"
    "lm_scoped D (w_db w) sc = Inr ()" "lm_save_event D (w_db w) sc e = Inr db'"
  shows "w_db (flush_one L D (u, sc) w) = db'"
    and "w_outbox (flush_one L D (u, sc) w) = snd (distribute_event L e sc (w_registry w) (w_outbox w))"
    and "cr_sign_processor (w_crypto (flush_one L D (u, sc) w)) = Running"
proof -
  obtain c' where "sign_store_command L (SaveUnsignedEvent u sc (Some 0)) (w_crypto w) =
      (Inr (Some (Inr (Some (SaveSignedEvent e sc None)))), c')" "cr_sign_processor c' = Running"
    using sign_store_command_running [OF assms(1), of L u sc 0] assms(1,2)
      sign_store_command_processor(1) [of L "SaveUnsignedEvent u sc (Some 0)" "w_crypto w"]
    by (cases "sign_store_command L (SaveUnsignedEvent u sc (Some 0)) (w_crypto w)")
      (simp add: sign_event_checked_def)
  then show "w_db (flush_one L D (u, sc) w) = db'"
    "w_outbox (flush_one L D (u, sc) w) = snd (distribute_event L e sc (w_registry w) (w_outbox w))"
    "cr_sign_processor (w_crypto (flush_one L D (u, sc) w)) = Running"
    using assms(3,4) by (simp_all add: flush_one_def db_save_event_def scoped_view_def)
qed

end
