(* ===== verification/Relay_System.thy ===== *)
theory Relay_System
  imports Relay_Builder Subscription_Coordinator_Correct
begin

text \<open>
  The whole relay as a transition system: connections come, send messages, receive what the
  outbound task lets through, and go, while the buffer task runs beside them; all share one
  world. A step is one whole operation of a handler, or one turn of a task: the tasks interleave between the operations.
  (Inside them the source awaits the locks of the registry; \<open>Registry_Threads\<close> models that.) The theory shows that the registry stays consistent and holds live connections only.

  The interface that makes this compositional is the locale \<open>registry_blind\<close>: a middleware that
  neither touches the registry nor the connection's id and leaves the message to the rest of the
  chain as it is. Every middleware of the source but the innermost one is an instance.
\<close>

section \<open>Registry-blind middlewares\<close>

definition reg_view :: "('t, 'n, 'db, 'l) env \<Rightarrow> connection_id \<times> registry" where
  "reg_view e = (en_connection_id e, w_registry (en_world e))"

locale registry_blind =
  fixes mw :: "('t, 'n, 'db, 'l) env middleware"
  assumes connect_view: "reg_view (snd (mw_on_connect mw ms e)) = reg_view e"
    and outbound_view: "reg_view (snd (snd (mw_process_outbound mw ms out e))) = reg_view e"
    and disconnect_view: "reg_view (snd (mw_on_disconnect mw e)) = reg_view e"
    and inbound_view: "reg_view (snd (snd (mw_process_inbound mw ms nxt m e))) = reg_view e \<or>
      (\<exists>e'. reg_view e' = reg_view e \<and>
        reg_view (snd (snd (mw_process_inbound mw ms nxt m e))) = reg_view (snd (snd (nxt m e'))))"

lemma env_send_viewD: "env_send L ms msg e = (r, e') \<Longrightarrow> reg_view e' = reg_view e"
  by (auto simp: reg_view_def env_send_def split: prod.splits)

lemma env_send_view [simp]: "reg_view (snd (env_send L ms msg e)) = reg_view e"
  by (rule env_send_viewD [of L ms msg e "fst (env_send L ms msg e)"]) simp

lemma reg_view_updates [simp]:
  "reg_view (e\<lparr>en_state := st\<rparr>) = reg_view e" "reg_view (e\<lparr>en_context := cx\<rparr>) = reg_view e"
  "reg_view (e\<lparr>en_limiter := l\<rparr>) = reg_view e" "reg_view (e\<lparr>en_metrics := ms\<rparr>) = reg_view e"
  "reg_view (e\<lparr>en_timing := ti\<rparr>) = reg_view e" "reg_view (call_metric c e) = reg_view e"
  by (simp_all add: reg_view_def call_metric_def)

lemma delete_expired_view [simp]: "reg_view (delete_expired L D ev e) = reg_view e"
  by (simp add: reg_view_def delete_expired_def save_and_broadcast_def delete_events_def Let_def split: option.splits prod.splits)

text \<open>Most middlewares either stop or hand the message on in an environment with the same view.\<close>

definition stops_or_passes ::
  "('t, 'n, 'db, 'l) env inbound \<Rightarrow> client_message option \<Rightarrow> ('t, 'n, 'db, 'l) env
     \<Rightarrow> (anyhow_error + unit) \<times> client_message option \<times> ('t, 'n, 'db, 'l) env \<Rightarrow> bool" where
  "stops_or_passes nxt m e r \<longleftrightarrow> reg_view (snd (snd r)) = reg_view e \<or> (\<exists>e'. reg_view e' = reg_view e \<and> r = nxt m e')"

lemma stops: "reg_view e' = reg_view e \<Longrightarrow> stops_or_passes nxt m e (r, m', e')"
  by (simp add: stops_or_passes_def)

lemma passes: "reg_view e' = reg_view e \<Longrightarrow> stops_or_passes nxt m e (nxt m e')"
  by (auto simp: stops_or_passes_def)

lemma registry_blindI:
  assumes "\<And>ms e. reg_view (snd (mw_on_connect mw ms e)) = reg_view e"
    "\<And>ms m e. reg_view (snd (snd (mw_process_outbound mw ms m e))) = reg_view e"
    "\<And>e. reg_view (snd (mw_on_disconnect mw e)) = reg_view e"
    "\<And>ms nxt m e. stops_or_passes nxt m e (mw_process_inbound mw ms nxt m e)"
  shows "registry_blind mw"
  using assms by unfold_locales (auto simp: stops_or_passes_def, metis)

lemma nip40_blind_inbound: "stops_or_passes nxt m e (nip40_inbound L D ms nxt m e)"
  unfolding nip40_inbound_def by (rule passes) (simp split: option.split client_message.split)

lemma metrics_blind_inbound: "stops_or_passes nxt m e (metrics_inbound h ms nxt m e)"
  unfolding metrics_inbound_def by (rule passes) (simp split: option.split client_message.split)

lemma rate_limit_blind_inbound: "stops_or_passes nxt m e (rate_limit_inbound G ms nxt m e)"
  unfolding rate_limit_inbound_def by (auto intro!: stops passes split: prod.split bool.split)

lemma nip42_blind_inbound: "stops_or_passes nxt m e (nip42_inbound L ac ms nxt m e)"
  by (auto intro!: stops passes dest: env_send_viewD
      simp: nip42_inbound_def nip42_auth_def set_authenticated_def split: option.split client_message.split sum.split prod.split)

lemma nip70_blind_inbound: "stops_or_passes nxt m e (nip70_inbound L ms nxt m e)"
  by (auto intro!: stops passes dest: env_send_viewD
      simp: nip70_inbound_def split: option.split client_message.split prod.split)

lemma nip42_on_connect_view: "reg_view (snd (nip42_on_connect L ms e)) = reg_view e"
  by (auto simp: nip42_on_connect_def dest: env_send_viewD split: prod.split sum.split)

lemmas blind_simps = middleware_defs metrics_middleware_def nip40_outbound_def nip42_on_connect_view
  identity_middleware_def passes nip40_blind_inbound metrics_blind_inbound rate_limit_blind_inbound
  nip42_blind_inbound nip70_blind_inbound

interpretation identity_blind: registry_blind "identity_middleware :: ('t, 'n, 'db, 'l) env middleware"
  by (rule registry_blindI) (simp_all add: blind_simps)

interpretation logger_blind: registry_blind "logger_middleware :: ('t, 'n, 'db, 'l) env middleware"
  by (rule registry_blindI) (simp_all add: blind_simps)

interpretation nip40_blind: registry_blind "nip40_middleware L D :: ('t, 'n, 'db, 'l) env middleware" for L D
  by (rule registry_blindI) (simp_all add: blind_simps)

interpretation nip42_blind: registry_blind "nip42_middleware L ac :: ('t, 'n, 'db, 'l) env middleware" for L ac
  by (rule registry_blindI) (simp_all add: blind_simps)

interpretation nip70_blind: registry_blind "nip70_middleware L :: ('t, 'n, 'db, 'l) env middleware" for L
  by (rule registry_blindI) (simp_all add: blind_simps)

interpretation rate_limit_blind: registry_blind "rate_limit_middleware G :: ('t, 'n, 'db, 'l) env middleware" for G
  by (rule registry_blindI) (simp_all add: blind_simps)

interpretation metrics_blind: registry_blind "metrics_middleware h :: ('t, 'n, 'db, 'l) env middleware" for h
  by (rule registry_blindI)
    (simp_all add: blind_simps metrics_outbound_def split: option.split relay_message.split prod.split)

lemma error_handling_view:
  "reg_view (snd (snd (error_handling_inbound L ms nxt m e))) = reg_view (snd (snd (nxt m e)))"
  by (auto simp: error_handling_inbound_def handle_inbound_error_def Let_def dest: env_send_viewD
      split: prod.split sum.split option.split)

interpretation error_handling_blind: registry_blind "error_handling_middleware L :: ('t, 'n, 'db, 'l) env middleware"
  for L
  by unfold_locales (auto simp: middleware_defs error_handling_view)

lemma either_blind:
  "registry_blind l \<Longrightarrow> registry_blind (either_middleware (LeftM l))"
  "registry_blind r \<Longrightarrow> registry_blind (either_middleware (RightM r))"
  by (simp_all add: registry_blind_def either_middleware_def)

section \<open>The registry under the relay's operations\<close>

definition reg_ok :: "nostr_lib \<Rightarrow> connection_id set \<Rightarrow> registry \<Rightarrow> bool" where
  "reg_ok L C r \<longleftrightarrow> reg_wf L r \<and> (\<forall>cid. has_connection r cid \<longrightarrow> cid \<in> C)"

lemma has_connection_keys: "has_connection r cid \<longleftrightarrow> hm_get (rg_connections r) cid \<noteq> None"
  by (simp add: has_connection_def hm_contains_def)

lemma has_connection_log [simp]: "has_connection (log_metric x r) c = has_connection r c"
  by (simp add: has_connection_def)

lemma reg_add_has_connection [simp]:
  "has_connection (snd (reg_add_subscription L cid sid fs r)) c = has_connection r c"
  by (auto simp: reg_add_subscription_def has_connection_keys hm_simps Let_def split: option.splits)

lemma reg_add_absent: "\<not> has_connection r cid \<Longrightarrow> snd (reg_add_subscription L cid sid fs r) = r"
  by (simp add: reg_add_subscription_def has_connection_keys)

lemma distribute_reg_ok:
  assumes "match_event_sound L" "reg_ok L C r"
  shows "reg_ok L C (fst (distribute_event L e sc r out))"
proof -
  have wf: "reg_wf L r"
    using assms(2) by (simp add: reg_ok_def)
  obtain dead where "rg_connections (fst (distribute_event L e sc r out)) =
      List.filter (\<lambda>x. fst x \<notin> set dead) (rg_connections r)"
    using distribute_event_wf(2) [OF wf assms(1), of e sc out] by blast
  then show ?thesis
    using assms(2) distribute_event_wf(1) [OF wf assms(1)]
    by (simp add: reg_ok_def has_connection_keys hm_get_filter_key [where P = "\<lambda>k. k \<notin> set dead"]
        split: if_splits)
qed

lemma cleanup_reg_ok: "reg_ok L (insert cid C) r \<Longrightarrow> reg_ok L C (cleanup_connection L cid r)"
  using cleanup_connection_table(1,2) [of L r cid]
  by (auto simp: reg_ok_def has_connection_keys hm_simps split: if_splits)

lemma reg_remove_reg_ok: "reg_ok L C r \<Longrightarrow> reg_ok L C (snd (reg_remove_subscription L cid sid r))"
  using reg_remove_subscription_table(1) [of L r cid sid] by (simp add: reg_ok_def)

lemma save_and_broadcast_reg_ok:
  assumes "match_event_sound L" "reg_ok L C (w_registry w)"
  shows "reg_ok L C (w_registry (snd (save_and_broadcast L D c w)))"
proof (cases c)
  case (SaveUnsignedEvent u sc h)
  then show ?thesis
    using assms(2) by (auto simp: save_and_broadcast_def save_unsigned_def Let_def
        split: prod.splits sum.splits option.splits store_command.splits)
next
  case (SaveSignedEvent ev sc h)
  then show ?thesis
    using assms by (simp add: save_and_broadcast_def save_signed_def Let_def distribute_reg_ok split: prod.splits)
next
  case (DeleteEvents f sc h)
  then show ?thesis
    using assms(2) by (simp add: save_and_broadcast_def delete_events_def Let_def split: prod.splits)
qed

lemma run_commands_reg_ok:
  assumes "match_event_sound L"
  shows "reg_ok L C (w_registry w) \<Longrightarrow> reg_ok L C (w_registry (snd (run_commands L D cs w)))"
proof (induction cs arbitrary: w)
  case (Cons c cs)
  have "reg_ok L C (w_registry (snd (save_and_broadcast L D c w)))"
    by (rule save_and_broadcast_reg_ok [OF assms Cons.prems])
  then show ?case
    using Cons.IH by (auto split: prod.split sum.split)
qed simp

lemma dispatch_commands_reg_ok:
  assumes "match_event_sound L" "reg_ok L C (w_registry w)"
  shows "reg_ok L C (w_registry (snd (dispatch_commands L D sender cs w)))"
proof -
  have "reg_ok L C (w_registry w')" if "save_and_broadcast L D c w = (r, w')" for c r w'
    using save_and_broadcast_reg_ok [OF assms, of D c] that by simp
  then show ?thesis
    using assms(2) run_commands_reg_ok [OF assms(1), where D = D]
    by (auto simp: dispatch_commands_def split: option.split prod.split sum.split)
qed

definition req_room :: "client_message option \<Rightarrow> registry \<Rightarrow> bool" where
  "req_room m r \<longleftrightarrow> (\<forall>sid fs. m = Some (CM_Req sid fs) \<longrightarrow>
     list_all filter_wf fs \<and> (\<forall>sc. scope_room sc (length fs) r))"

lemma handle_req_reg_ok:
  assumes "reg_ok L C (w_registry w)" "req_room (Some (CM_Req sid fs)) (w_registry w)"
  shows "reg_ok L C (w_registry (snd (handle_req L D co sid fs authed sc filter_fn w)))"
proof (cases "hm_get (rg_connections (w_registry w)) (sc_connection_id co)")
  case None
  then have "\<not> has_connection (w_registry w) (sc_connection_id co)"
    by (simp add: has_connection_keys)
  then show ?thesis
    using reg_remove_reg_ok [OF assms(1)] assms(1)
    by (auto simp: handle_req_def co_add_subscription_eq Let_def reg_add_absent split: prod.split sum.split)
next
  case (Some conn)
  have "reg_wf L (snd (reg_add_subscription L (sc_connection_id co) sid fs
      (snd (reg_remove_subscription L (sc_connection_id co) sid (w_registry w)))))"
    using assms Some by (intro replace_subscription_table(1) [where conn = conn]) (auto simp: reg_ok_def req_room_def)
  then show ?thesis
    using assms(1) by (auto simp: handle_req_def co_add_subscription_eq Let_def reg_ok_def split: prod.split sum.split)
qed

lemma relay_inbound_reg_ok:
  assumes sound: "match_event_sound L" and ok: "reg_ok L C (w_registry (en_world e))"
    and room: "req_room m (w_registry (en_world e))"
  shows "case relay_inbound L D N R ms (process_inbound_chain CEnd) m e of (r, m', e') \<Rightarrow>
    en_connection_id e' = en_connection_id e \<and> reg_ok L C (w_registry (en_world e'))"
proof (cases m)
  case (Some msg)
  show ?thesis
  proof (cases msg)
    case (CM_Event ev)
    have "en_connection_id (snd (handle_event L D R ev (Some ms) e)) = en_connection_id e \<and>
      reg_ok L C (w_registry (en_world (snd (handle_event L D R ev (Some ms) e))))"
      using ok dispatch_commands_reg_ok [OF sound ok]
      by (auto simp: handle_event_def Let_def split: prod.split sum.split option.split) (metis snd_conv)
    then show ?thesis
      by (auto simp: Some CM_Event relay_inbound_def propagate_def split: prod.splits sum.splits)
  next
    case (CM_Req sid fs)
    have "en_connection_id (snd (handle_subscription L D R sid fs e)) = en_connection_id e \<and>
      reg_ok L C (w_registry (en_world (snd (handle_subscription L D R sid fs e))))"
      using ok handle_req_reg_ok [OF ok room [unfolded Some CM_Req]]
      by (auto simp: handle_subscription_def Let_def split: prod.split sum.split option.split) (metis snd_conv)
    then show ?thesis
      by (auto simp: Some CM_Req relay_inbound_def propagate_def split: prod.splits sum.splits)
  next
    case (CM_Close sid)
    then show ?thesis
      using ok reg_remove_reg_ok [OF ok]
      by (auto simp: Some relay_inbound_def handle_close_def co_remove_subscription_def Let_def split: option.split)
  next
    case (CM_NegOpen sid f k i)
    have "reg_view (snd (handle_neg_open L D N sid f i (Some ms) e)) = reg_view e"
      by (auto simp: handle_neg_open_def send_neg_msg_def dest: env_send_viewD split: prod.split sum.split)
    then have "reg_view (snd (snd (relay_inbound L D N R ms (process_inbound_chain CEnd) m e))) = reg_view e"
      by (auto simp: Some CM_NegOpen relay_inbound_def neg_err_def split: prod.split sum.split)
    then show ?thesis
      using ok by (auto simp: reg_view_def split: prod.split)
  next
    case (CM_NegMsg sid t)
    have "reg_view (snd (handle_neg_msg L N sid t (Some ms) e)) = reg_view e"
      by (auto simp: handle_neg_msg_def send_neg_msg_def Let_def dest: env_send_viewD
          split: prod.split sum.split option.split)
    then have "reg_view (snd (snd (relay_inbound L D N R ms (process_inbound_chain CEnd) m e))) = reg_view e"
      by (auto simp: Some CM_NegMsg relay_inbound_def neg_err_def split: prod.split sum.split)
    then show ?thesis
      using ok by (auto simp: reg_view_def split: prod.split)
  qed (use ok in \<open>simp_all add: Some relay_inbound_def propagate_def handle_neg_close_def\<close>)
qed (use ok in \<open>simp add: relay_inbound_def\<close>)

section \<open>Chains around the relay middleware\<close>

inductive relay_chain :: "('t, 'n, 'db, 'l) env middleware \<Rightarrow> ('t, 'n, 'db, 'l) env middleware connected \<Rightarrow> bool"
  for core where
  innermost: "relay_chain core (CLink core CEnd pos ms)"
| outer: "registry_blind mw \<Longrightarrow> relay_chain core nxt \<Longrightarrow> relay_chain core (CLink mw nxt pos ms)"

lemma chain_inbound_reg_ok:
  assumes "relay_chain (relay_mw L D N R) c" "match_event_sound L"
    "reg_ok L C (w_registry (en_world e))" "req_room m (w_registry (en_world e))"
  shows "case process_inbound_chain c m e of (r, m', e') \<Rightarrow>
    en_connection_id e' = en_connection_id e \<and> reg_ok L C (w_registry (en_world e'))"
  using assms(1,3,4)
proof (induction arbitrary: e rule: relay_chain.induct)
  case (innermost pos ms)
  then show ?case
    using relay_inbound_reg_ok [OF assms(2), where ms = ms and D = D and N = N and R = R]
    by (simp add: relay_mw_def)
next
  case (outer mw nxt pos ms)
  let ?r = "mw_process_inbound mw ms (process_inbound_chain nxt) m e"
  consider "reg_view (snd (snd ?r)) = reg_view e"
    | e' where "reg_view e' = reg_view e" "reg_view (snd (snd ?r)) = reg_view (snd (snd (process_inbound_chain nxt m e')))"
    using registry_blind.inbound_view [OF outer(1), of ms "process_inbound_chain nxt" m e] by blast
  then show ?case
  proof cases
    case 1
    then show ?thesis using outer.prems by (simp add: reg_view_def split_beta)
  next
    case 2
    then show ?thesis using outer.IH [of e'] outer.prems by (simp add: reg_view_def split_beta)
  qed
qed

lemma chain_outbound_view:
  assumes "relay_chain (relay_mw L D N R) c"
  shows "reg_view (snd (snd (process_outbound_chain c from m e))) = reg_view e"
  using assms
proof (induction arbitrary: m e rule: relay_chain.induct)
  case (innermost pos ms)
  then show ?case
    by (simp add: relay_mw_def relay_outbound_def split: option.split relay_message.split sum.split bool.split)
next
  case (outer mw nxt pos ms)
  obtain r m' e' where o: "process_outbound_chain nxt from m e = (r, m', e')"
    by (cases "process_outbound_chain nxt from m e")
  then show ?case
    using outer.IH [of m e] registry_blind.outbound_view [OF outer(1)] by (cases r) auto
qed

lemma chain_connect_reg_ok:
  assumes "relay_chain (relay_mw L D N R) c" "reg_ok L C (w_registry (en_world e))"
    "\<not> has_connection (w_registry (en_world e)) (en_connection_id e)"
  shows "case on_connect_chain c e of (r, e') \<Rightarrow> en_connection_id e' = en_connection_id e \<and>
    reg_ok L (if is_ok r then insert (en_connection_id e) C else C) (w_registry (en_world e'))"
  using assms
proof (induction arbitrary: e rule: relay_chain.induct)
  case (innermost pos ms)
  then show ?case
    using register_connection_wf(1) [of L "w_registry (en_world e)" "en_connection_id e" ms
        "ct_authed_pubkey (en_state e)" "md_subdomain (en_meta e)"]
    by (auto simp: relay_mw_def relay_on_connect_def setup_connection_def coordinator_new_def Let_def reg_ok_def
        has_connection_keys register_connection_def hm_simps split: if_splits)
next
  case (outer mw nxt pos ms)
  obtain r e' where c: "mw_on_connect mw ms e = (r, e')"
    by (cases "mw_on_connect mw ms e")
  have "reg_view e' = reg_view e"
    using registry_blind.connect_view [OF outer(1), of ms e] c by simp
  then show ?case
    using outer.IH [of e'] outer.prems c by (cases r) (auto simp: reg_view_def)
qed

lemma chain_disconnect_reg_ok:
  assumes "relay_chain (relay_mw L D N R) c" "reg_ok L (insert (en_connection_id e) C) (w_registry (en_world e))"
  shows "reg_ok L C (w_registry (en_world (snd (on_disconnect_chain c e))))"
  using assms
proof (induction rule: relay_chain.induct)
  case (innermost pos ms)
  then show ?case
    by (simp add: relay_mw_def relay_on_disconnect_def cleanup_reg_ok)
next
  case (outer mw nxt pos ms)
  obtain r e' where d: "on_disconnect_chain nxt e = (r, e')"
    by (cases "on_disconnect_chain nxt e")
  then show ?case
    using outer.IH [OF outer.prems] registry_blind.disconnect_view [OF outer(1), of e']
    by (cases r) (auto simp: reg_view_def)
qed

text \<open>What the builder makes is such a chain, whatever registry-blind middlewares the relay's own code
  puts on top of the relay middleware.\<close>

lemma builder_with_relay_chain:
  "registry_blind mw \<Longrightarrow> relay_chain core (build_connected ch (cb_chain b)) \<Longrightarrow>
     relay_chain core (build_connected ch (cb_chain (builder_with mw b)))"
  by (simp add: builder_with_def relay_chain.outer)

lemma fold_builder_relay_chain:
  "\<forall>mw \<in> set mws. registry_blind mw \<Longrightarrow> relay_chain core (build_connected ch (cb_chain b)) \<Longrightarrow>
     relay_chain core (build_connected ch (cb_chain (fold builder_with mws b)))"
  by (induction mws arbitrary: b) (auto intro: builder_with_relay_chain)

lemma metrics_layer_blind: "registry_blind (metrics_layer b :: ('t, 'n, 'db, 'l) env middleware)"
  using either_blind metrics_blind.registry_blind_axioms identity_blind.registry_blind_axioms
  by (auto simp: metrics_layer_def split: option.split)

lemmas blind_layers = either_blind metrics_layer_blind identity_blind.registry_blind_axioms
  nip42_blind.registry_blind_axioms logger_blind.registry_blind_axioms error_handling_blind.registry_blind_axioms

lemma final_chain_relay_chain:
  assumes "relay_chain core (build_connected ch (cb_chain cb))"
  shows "relay_chain core (build_connected ch (cb_chain (final_chain L b cb)))"
  unfolding final_chain_def Let_def
  by (auto intro!: assms builder_with_relay_chain blind_layers)

section \<open>The transition system\<close>

text \<open>A live connection is its handler and its own part of the environment. A step of a connection runs
  in an environment with that part, the shared world, and whatever the clocks, the rate limiter
  and the metrics are at that moment.\<close>

record ('t, 'n, 'db, 'l) live_connection =
  lv_connection :: "('t, 'n, 'db, 'l) env middleware nostr_connection"
  lv_env :: "('t, 'n, 'db, 'l) env"

record ('t, 'n, 'db, 'l) relay_system =
  sy_world :: "'db world"
  sy_live :: "(connection_id, ('t, 'n, 'db, 'l) live_connection) hmap"
  sy_buffer :: "replaceable_buffer option"

definition resumes :: "('t, 'n, 'db, 'l) env \<Rightarrow> 'db world \<Rightarrow> ('t, 'n, 'db, 'l) env \<Rightarrow> bool" where
  "resumes e0 w e \<longleftrightarrow> en_connection_id e = en_connection_id e0 \<and> en_state e = en_state e0 \<and>
     en_meta e = en_meta e0 \<and> en_context e = en_context e0 \<and> en_world e = w"

definition update_live ::
  "connection_id \<Rightarrow> ('t, 'n, 'db, 'l) env middleware nostr_connection \<Rightarrow> ('t, 'n, 'db, 'l) env
     \<Rightarrow> ('t, 'n, 'db, 'l) relay_system \<Rightarrow> ('t, 'n, 'db, 'l) relay_system" where
  "update_live addr c e s = s\<lparr>sy_world := en_world e,
     sy_live := hm_insert addr \<lparr>lv_connection = c, lv_env = e\<rparr> (sy_live s)\<rparr>"

inductive system_step ::
  "nostr_lib \<Rightarrow> 'db lmdb \<Rightarrow> ('t, 'n, 'db, 'l) env middleware handler_factory \<Rightarrow> (string \<Rightarrow> string option) \<Rightarrow> 't
     \<Rightarrow> ('t, 'n, 'db, 'l) relay_system \<Rightarrow> ('t, 'n, 'db, 'l) relay_system \<Rightarrow> bool" for L D F url custom where
  connect: "hm_get (sy_live s) addr = None \<Longrightarrow> en_world e = sy_world s \<Longrightarrow>
    nostr_on_connect url custom addr (create L F ch host) e = Some (Inr (), c, e') \<Longrightarrow>
    system_step L D F url custom s (update_live addr c e' s)"
| connect_failed: "hm_get (sy_live s) addr = None \<Longrightarrow> en_world e = sy_world s \<Longrightarrow>
    nostr_on_connect url custom addr (create L F ch host) e = Some (Inl err, c, e') \<Longrightarrow>
    system_step L D F url custom s (s\<lparr>sy_world := en_world e'\<rparr>)"
| message: "hm_get (sy_live s) addr = Some \<lparr>lv_connection = c, lv_env = e0\<rparr> \<Longrightarrow> resumes e0 (sy_world s) e \<Longrightarrow>
    (\<forall>m. process_single_message L input = Inr m \<longrightarrow> req_room (Some m) (w_registry (sy_world s))) \<Longrightarrow>
    on_message L input c e = Some (r, e') \<Longrightarrow>
    system_step L D F url custom s (update_live addr c e' s)"
| deliver: "hm_get (sy_live s) addr = Some \<lparr>lv_connection = c, lv_env = e0\<rparr> \<Longrightarrow> resumes e0 (sy_world s) e \<Longrightarrow>
    nc_connected_chain c = Some chain \<Longrightarrow> process_entry chain entry e = (sent, e') \<Longrightarrow>
    system_step L D F url custom s (update_live addr c e' s)"
| disconnect: "hm_get (sy_live s) addr = Some \<lparr>lv_connection = c, lv_env = e0\<rparr> \<Longrightarrow> resumes e0 (sy_world s) e \<Longrightarrow>
    nostr_on_disconnect c e = (c', e') \<Longrightarrow>
    system_step L D F url custom s (s\<lparr>sy_world := en_world e', sy_live := hm_remove addr (sy_live s)\<rparr>)"
| buffer: "buffer_step L D (sy_buffer s, sy_world s) (b', w') \<Longrightarrow>
    system_step L D F url custom s (s\<lparr>sy_world := w', sy_buffer := b'\<rparr>)"

section \<open>The invariant of the system\<close>

definition system_ok ::
  "nostr_lib \<Rightarrow> ('t, 'n, 'db, 'l) env middleware \<Rightarrow> ('t, 'n, 'db, 'l) relay_system \<Rightarrow> bool" where
  "system_ok L core s \<longleftrightarrow> reg_ok L (dom (hm_get (sy_live s))) (w_registry (sy_world s)) \<and>
     (\<forall>addr lv. hm_get (sy_live s) addr = Some lv \<longrightarrow>
        en_connection_id (lv_env lv) = addr \<and> nc_addr (lv_connection lv) = Some addr \<and>
        (\<exists>chain. nc_connected_chain (lv_connection lv) = Some chain \<and> relay_chain core chain))"

lemma flush_reg_ok:
  assumes "match_event_sound L" "reg_ok L C (w_registry w)"
  shows "reg_ok L C (w_registry (snd (buffer_flush L D b w)))"
proof -
  have one: "reg_ok L C (w_registry (flush_one L D p w))" if "reg_ok L C (w_registry w)" for p w
    using that distribute_reg_ok [OF assms(1)]
    by (auto simp: flush_one_def Let_def split: prod.split sum.split option.split store_command.split)
  have "reg_ok L C (w_registry (fold (flush_one L D) ps w))" if "reg_ok L C (w_registry w)" for ps w
    using that by (induction ps arbitrary: w) (simp_all add: one)
  then show ?thesis
    using assms(2) by (simp add: buffer_flush_def)
qed

lemma buffer_step_reg_ok:
  assumes "buffer_step L D (b, w) (b', w')" "match_event_sound L" "reg_ok L C (w_registry w)"
  shows "reg_ok L C (w_registry w')"
proof -
  have flush: "reg_ok L C (w_registry w1)" if "buffer_flush L D b1 w = (b2, w1)" for b1 b2 w1
    using flush_reg_ok [OF assms(2,3), of D b1] that by simp
  show ?thesis
    using assms(1) by (cases rule: buffer_step.cases) (use assms(3) flush in auto)
qed

lemma system_ok_update:
  assumes "system_ok L core s" "reg_ok L (insert addr (dom (hm_get (sy_live s)))) (w_registry (en_world e'))"
    "en_connection_id e' = addr" "nc_addr c = Some addr" "nc_connected_chain c = Some chain" "relay_chain core chain"
  shows "system_ok L core (update_live addr c e' s)"
  using assms by (auto simp: system_ok_def update_live_def hm_simps dom_def reg_ok_def split: if_splits)

lemma system_ok_live:
  assumes "system_ok L core s" "hm_get (sy_live s) addr = Some \<lparr>lv_connection = c, lv_env = e0\<rparr>"
    "resumes e0 (sy_world s) e"
  obtains chain where "nc_connected_chain c = Some chain" "relay_chain core chain" "nc_addr c = Some addr"
    "en_connection_id e = addr" "insert addr (dom (hm_get (sy_live s))) = dom (hm_get (sy_live s))"
    "reg_ok L (dom (hm_get (sy_live s))) (w_registry (en_world e))"
  using assms unfolding system_ok_def resumes_def by fastforce

lemma connect_step_ok:
  assumes sys: "system_ok L (relay_mw L D N R) s" and fresh: "hm_get (sy_live s) addr = None"
    and world: "en_world e = sy_world s"
    and F: "relay_chain (relay_mw L D N R) (build_connected ch (hf_chain F))"
    and run: "nostr_on_connect url custom addr (create L F ch host) e = Some (r, c, e')"
  shows "en_connection_id e' = addr \<and> nc_addr c = Some addr \<and>
    nc_connected_chain c = Some (build_connected ch (hf_chain F)) \<and>
    reg_ok L (if is_ok r then insert addr (dom (hm_get (sy_live s))) else dom (hm_get (sy_live s)))
      (w_registry (en_world e'))"
proof -
  let ?chain = "build_connected ch (hf_chain F)"
  have "\<exists>st meta cx. on_connect_chain ?chain
      (e\<lparr>en_connection_id := addr, en_state := st, en_meta := meta, en_context := cx\<rparr>) = (r, e') \<and>
      nc_addr c = Some addr \<and> nc_connected_chain c = Some ?chain"
    using run
    by (auto simp: nostr_on_connect_def create_def metadata_new_with_context_def Let_def split: prod.splits)
  then obtain st meta cx where c: "nc_addr c = Some addr" "nc_connected_chain c = Some ?chain"
    and on: "on_connect_chain ?chain (e\<lparr>en_connection_id := addr, en_state := st, en_meta := meta, en_context := cx\<rparr>) = (r, e')"
    by blast
  define e1 where "e1 = e\<lparr>en_connection_id := addr, en_state := st, en_meta := meta, en_context := cx\<rparr>"
  have e1: "en_connection_id e1 = addr" "en_world e1 = en_world e" "on_connect_chain ?chain e1 = (r, e')"
    using on by (simp_all add: e1_def)
  have "\<not> has_connection (w_registry (sy_world s)) addr"
    using sys fresh by (auto simp: system_ok_def reg_ok_def)
  then show ?thesis
    using chain_connect_reg_ok [OF F, of "dom (hm_get (sy_live s))" e1] sys e1 c world
    by (auto simp: system_ok_def split: if_splits)
qed

lemma system_step_ok:
  assumes step: "system_step L D F url custom s s'" and sound: "match_event_sound L"
    and F: "\<And>ch. relay_chain (relay_mw L D N R) (build_connected ch (hf_chain F))"
    and sys: "system_ok L (relay_mw L D N R) s"
  shows "system_ok L (relay_mw L D N R) s'"
  using step
proof (cases rule: system_step.cases)
  case (connect addr e ch host c e')
  then show ?thesis
    using connect_step_ok [OF sys connect(2,3) F connect(4)] F by (auto intro!: system_ok_update [OF sys])
next
  case (connect_failed addr e ch host err c e')
  then show ?thesis
    using connect_step_ok [OF sys connect_failed(2,3) F connect_failed(4)] sys by (auto simp: system_ok_def)
next
  case (message addr c e0 e input r e')
  obtain chain where live: "nc_connected_chain c = Some chain" "relay_chain (relay_mw L D N R) chain"
    "nc_addr c = Some addr" "en_connection_id e = addr"
    "insert addr (dom (hm_get (sy_live s))) = dom (hm_get (sy_live s))"
    "reg_ok L (dom (hm_get (sy_live s))) (w_registry (en_world e))"
    by (rule system_ok_live [OF sys message(2,3)])
  have world: "en_world e = sy_world s"
    using message(3) by (simp add: resumes_def)
  have "en_connection_id e' = addr \<and> reg_ok L (dom (hm_get (sy_live s))) (w_registry (en_world e'))"
  proof (cases "process_single_message L input")
    case (Inl err)
    then show ?thesis using message(5) live by (auto simp: on_message_def)
  next
    case (Inr m)
    then have "req_room (Some m) (w_registry (en_world e))"
      using message(4) world by simp
    from chain_inbound_reg_ok [OF live(2) sound live(6) this] show ?thesis
      using message(5) live Inr by (auto simp: on_message_def split_beta)
  qed
  then show ?thesis
    using live unfolding message(1) by (intro system_ok_update [OF sys]) simp_all
next
  case (deliver addr c e0 e chain entry sent e')
  obtain chain' where live: "nc_connected_chain c = Some chain'" "relay_chain (relay_mw L D N R) chain'"
    "nc_addr c = Some addr" "en_connection_id e = addr"
    "insert addr (dom (hm_get (sy_live s))) = dom (hm_get (sy_live s))"
    "reg_ok L (dom (hm_get (sy_live s))) (w_registry (en_world e))"
    by (rule system_ok_live [OF sys deliver(2,3)])
  have "reg_view e' = reg_view e"
    using deliver(4,5) live(1) chain_outbound_view [OF live(2)]
    by (auto simp: process_entry_def split: prod.splits sum.splits option.splits) (metis snd_conv)+
  then show ?thesis
    using live unfolding deliver(1) by (intro system_ok_update [OF sys]) (simp_all add: reg_view_def)
next
  case (disconnect addr c e0 e c' e')
  obtain chain where live: "nc_connected_chain c = Some chain" "relay_chain (relay_mw L D N R) chain"
    "nc_addr c = Some addr" "en_connection_id e = addr"
    "insert addr (dom (hm_get (sy_live s))) = dom (hm_get (sy_live s))"
    "reg_ok L (dom (hm_get (sy_live s))) (w_registry (en_world e))"
    by (rule system_ok_live [OF sys disconnect(2,3)])
  have "reg_ok L (dom (hm_get (sy_live s)) - {addr}) (w_registry (en_world (snd (on_disconnect_chain chain e))))"
    using live by (intro chain_disconnect_reg_ok [OF live(2)]) (simp add: insert_absorb)
  moreover have dom_remove: "dom (hm_get (hm_remove addr (sy_live s))) = dom (hm_get (sy_live s)) - {addr}"
    by (auto simp: dom_def hm_simps split: if_splits)
  ultimately have "reg_ok L (dom (hm_get (hm_remove addr (sy_live s)))) (w_registry (en_world e'))"
    using disconnect(4) live dom_remove by (auto simp: nostr_on_disconnect_def)
  then show ?thesis
    using sys disconnect(1) by (auto simp: system_ok_def hm_simps split: if_splits)
next
  case (buffer b' w')
  then have "reg_ok L (dom (hm_get (sy_live s))) (w_registry w')"
    using sys by (intro buffer_step_reg_ok [OF buffer(2) sound]) (simp add: system_ok_def)
  then show ?thesis
    using sys buffer(1) by (simp add: system_ok_def)
qed

lemma system_reachable_ok:
  assumes "(system_step L D F url custom)\<^sup>*\<^sup>* s s'" "match_event_sound L"
    "\<And>ch. relay_chain (relay_mw L D N R) (build_connected ch (hf_chain F))" "system_ok L (relay_mw L D N R) s"
  shows "system_ok L (relay_mw L D N R) s'"
  using assms(1)
proof (induction rule: rtranclp_induct)
  case base
  show ?case by (rule assms(4))
next
  case (step s1 s2)
  show ?case by (rule system_step_ok [OF step(2) assms(2,3) step(3)])
qed

text \<open>A freshly built relay.\<close>

definition system_init :: "'db world \<Rightarrow> ('t, 'n, 'db, 'l) relay_system" where
  "system_init w = \<lparr>sy_world = w, sy_live = [], sy_buffer = Some []\<rparr>"

lemma build_with_ok:
  assumes "build_with L D N opener url_ok global_set (fold builder_with mws) b = Some (Inr (F, w, diag))"
    "\<forall>mw \<in> set mws. registry_blind mw"
  shows "relay_chain (relay_mw L D N (relay_middleware_of b)) (build_connected ch (hf_chain F))"
    and "system_ok L (relay_mw L D N (relay_middleware_of b)) (system_init w)"
proof -
  let ?core = "relay_mw L D N (relay_middleware_of b)"
  have F: "hf_chain F = cb_chain (final_chain L b (fold builder_with mws (builder_with ?core builder_new)))"
    and w: "w_registry w = registry_new (rb_subscription_metrics_handler b)"
    using assms(1) by (auto simp: build_with_def Let_def split: if_splits sum.splits)
  have "relay_chain ?core (build_connected ch (cb_chain (builder_with ?core builder_new)))"
    by (simp add: builder_with_def builder_new_def relay_chain.innermost)
  then show "relay_chain ?core (build_connected ch (hf_chain F))"
    unfolding F by (intro final_chain_relay_chain fold_builder_relay_chain assms(2))
  show "system_ok L ?core (system_init w)"
    by (simp add: system_ok_def system_init_def w reg_ok_def registry_new_wf)
      (simp add: registry_new_def has_connection_keys)
qed

end
