(* ===== verification/Relay_Diagnostics.thy ===== *)
theory Relay_Diagnostics
  imports Subscription_Registry
begin

text \<open>
  The periodic health check of \<open>src/src/diagnostics.rs\<close>. What it logs is the record \<open>health_report\<close>
  (numbers, not their formatting); \<open>dbg\<close> is the \<open>Debug\<close> rendering of a scope, the key under which the
  previous measurements are kept. Conversions to \<open>i64\<close> and its arithmetic wrap at 64 bits.
\<close>

record scope_metrics =
  sm_filter_count :: nat
  sm_connection_count :: nat
  sm_tracked_events :: nat

record index_metrics =
  im_authors :: nat
  im_kinds :: nat
  im_tags :: nat

record previous_measurements =
  pm_total_connections :: nat
  pm_total_subscriptions :: nat
  pm_scope_metrics :: "(string, scope_metrics) hmap"
  pm_index_metrics :: index_metrics

definition previous_default :: previous_measurements where
  "previous_default = \<lparr>pm_total_connections = 0, pm_total_subscriptions = 0, pm_scope_metrics = [],
     pm_index_metrics = \<lparr>im_authors = 0, im_kinds = 0, im_tags = 0\<rparr>\<rparr>"

definition i64 :: "int \<Rightarrow> int" where
  "i64 x = (x + 2 ^ 63) mod 2 ^ 64 - 2 ^ 63"

definition delta :: "nat \<Rightarrow> nat \<Rightarrow> int" where
  "delta new old = i64 (i64 (int new) - i64 (int old))"

datatype warning =
    GrowingFaster int int
  | EmptyScopeHasFilters string nat

record health_report =
  hr_connections :: "nat \<times> int"
  hr_subscriptions :: "nat \<times> int"
  hr_scopes :: "(string \<times> nat \<times> nat \<times> nat \<times> int) list"
  hr_indexes :: "(nat \<times> int) list"
  hr_warnings :: "warning list"

definition scope_name :: "scope \<Rightarrow> string" where
  "scope_name sc = (case sc of ScopeDefault \<Rightarrow> ''Default'' | ScopeNamed name \<Rightarrow> name)"

definition metrics_of :: "scope_diagnostics \<Rightarrow> scope_metrics" where
  "metrics_of d = \<lparr>sm_filter_count = sd_filter_count d, sm_connection_count = sd_connection_count d,
     sm_tracked_events = sd_tracked_events d\<rparr>"

text \<open>The loop over the scopes: the line of each, and the measurements after it.\<close>

fun scope_lines ::
  "(scope \<Rightarrow> string) \<Rightarrow> scope_diagnostics list \<Rightarrow> (string, scope_metrics) hmap
     \<Rightarrow> (string \<times> nat \<times> nat \<times> nat \<times> int) list \<times> (string, scope_metrics) hmap" where
  "scope_lines dbg [] prev = ([], prev)"
| "scope_lines dbg (d # ds) prev =
     (let key = dbg (sd_scope d);
          tracked = (case hm_get prev key of Some m \<Rightarrow> sm_tracked_events m | None \<Rightarrow> 0);
          line = (scope_name (sd_scope d), sd_filter_count d, sd_connection_count d, sd_tracked_events d,
            delta (sd_tracked_events d) tracked);
          (lines, prev') = scope_lines dbg ds (hm_insert key (metrics_of d) prev)
      in (line # lines, prev'))"

definition detect_anomalies ::
  "(scope \<Rightarrow> string) \<Rightarrow> registry_diagnostics \<Rightarrow> int \<Rightarrow> (string, scope_metrics) hmap \<Rightarrow> warning list" where
  "detect_anomalies dbg diag conn_delta prev =
     (if conn_delta > 0 then
        List.map_filter (\<lambda>d. case hm_get prev (dbg (sd_scope d)) of
            None \<Rightarrow> None
          | Some m \<Rightarrow>
              let events_delta = delta (sd_tracked_events d) (sm_tracked_events m)
              in if events_delta > 0 \<and> events_delta > i64 (conn_delta * 100)
                 then Some (GrowingFaster events_delta conn_delta) else None)
          (rd_scope_diagnostics diag)
      else []) @
     List.map_filter (\<lambda>sc. case hm_get prev (dbg sc) of
         None \<Rightarrow> None
       | Some m \<Rightarrow> if sm_filter_count m > 0 then Some (EmptyScopeHasFilters (scope_name sc) (sm_filter_count m)) else None)
       (rd_empty_scopes diag)"

definition log_health_check ::
  "(scope \<Rightarrow> string) \<Rightarrow> registry_diagnostics \<Rightarrow> previous_measurements \<Rightarrow> health_report \<times> previous_measurements" where
  "log_health_check dbg diag previous =
     (let conn_delta = delta (rd_total_connections diag) (pm_total_connections previous);
          total = (\<lambda>field. sum_list (map field (rd_scope_diagnostics diag)));
          total_subscriptions = total sd_subscription_count;
          (lines, scope_metrics') = scope_lines dbg (rd_scope_diagnostics diag) (pm_scope_metrics previous);
          im = pm_index_metrics previous;
          warnings = detect_anomalies dbg diag conn_delta scope_metrics'
      in (\<lparr>hr_connections = (rd_total_connections diag, conn_delta),
           hr_subscriptions = (total_subscriptions, delta total_subscriptions (pm_total_subscriptions previous)),
           hr_scopes = lines,
           hr_indexes = [(total sd_authors_indexed, delta (total sd_authors_indexed) (im_authors im)),
             (total sd_kinds_indexed, delta (total sd_kinds_indexed) (im_kinds im)),
             (total sd_tags_indexed, delta (total sd_tags_indexed) (im_tags im))],
           hr_warnings = warnings\<rparr>,
          \<lparr>pm_total_connections = rd_total_connections diag, pm_total_subscriptions = total_subscriptions,
           pm_scope_metrics = scope_metrics',
           pm_index_metrics = \<lparr>im_authors = total sd_authors_indexed, im_kinds = total sd_kinds_indexed,
             im_tags = total sd_tags_indexed\<rparr>\<rparr>))"

text \<open>\<open>run_diagnostics\<close>: one check at the start and one per tick, each on the registry as it is then.\<close>

fun run_diagnostics :: "(scope \<Rightarrow> string) \<Rightarrow> registry list \<Rightarrow> previous_measurements \<Rightarrow> health_report list" where
  "run_diagnostics dbg [] prev = []"
| "run_diagnostics dbg (r # rs) prev = (let (report, prev') = log_health_check dbg (get_diagnostics r) prev
     in report # run_diagnostics dbg rs prev')"

section \<open>Results\<close>

lemma delta_self [simp]: "delta n n = 0"
  by (simp add: delta_def i64_def)

lemma delta_exact: "new < 2 ^ 62 \<Longrightarrow> old < 2 ^ 62 \<Longrightarrow> delta new old = int new - int old"
  by (simp add: delta_def i64_def)

text \<open>After the loop, every scope of the diagnostics has its current metrics on record.\<close>

lemma scope_lines_other:
  "\<forall>d \<in> set ds. dbg (sd_scope d) \<noteq> key \<Longrightarrow> hm_get (snd (scope_lines dbg ds prev)) key = hm_get prev key"
  by (induction ds arbitrary: prev) (auto simp: Let_def split_beta hm_simps)

lemma scope_lines_current:
  "distinct (map (dbg \<circ> sd_scope) ds) \<Longrightarrow> d \<in> set ds \<Longrightarrow>
     hm_get (snd (scope_lines dbg ds prev)) (dbg (sd_scope d)) = Some (metrics_of d)"
proof (induction ds arbitrary: prev)
  case (Cons a ds)
  show ?case
  proof (cases "d = a")
    case True
    have "\<forall>d' \<in> set ds. dbg (sd_scope d') \<noteq> dbg (sd_scope a)"
      using Cons.prems(1) by (auto simp: image_iff)
    then show ?thesis
      using True by (simp add: Let_def split_beta scope_lines_other hm_simps)
  next
    case False
    then show ?thesis
      using Cons by (simp add: Let_def split_beta)
  qed
qed simp

lemma in_map_filter: "y \<in> set (List.map_filter f xs) \<longleftrightarrow> (\<exists>x \<in> set xs. f x = Some y)"
  by (induction xs) (auto simp: map_filter_simps split: option.splits)

lemma no_growth_warning:
  assumes "distinct (map (dbg \<circ> sd_scope) (rd_scope_diagnostics diag))"
  shows "GrowingFaster x y \<notin> set (hr_warnings (fst (log_health_check dbg diag previous)))"
  using scope_lines_current [OF assms]
  by (auto simp: log_health_check_def detect_anomalies_def Let_def split_beta in_map_filter metrics_of_def
      split: option.splits if_splits)

end
