(* ===== verification/Websocket_Connection.thy ===== *)
theory Websocket_Connection
  imports Message_Sender
begin

text \<open>
  The life of one socket, \<open>src/src/websocket/connection.rs\<close>, with the handler interface of
  \<open>src/src/websocket/handler.rs\<close>. Time is a natural number (the units of \<open>Instant\<close>). The socket is
  the list of what arrives: the arrival time, the item, and how long \<open>on_message\<close> takes for it;
  after the list nothing arrives any more. A handler also says how long its \<open>on_connect\<close> and its
  \<open>on_disconnect\<close> take; the clock of the connection starts after the first, and the task of the socket ends
  only after the second. \<open>timeout\<close> delivers an item that arrives no later than
  its deadline.
\<close>

datatype disconnect_reason =
    ReasonClose nat string
  | ReasonError string
  | ReasonTimeout string
  | ReasonUnknown

definition from_close_frame :: "(nat \<times> string) option \<Rightarrow> disconnect_reason" where
  "from_close_frame f = (case f of Some (code, reason) \<Rightarrow> ReasonClose code reason | None \<Rightarrow> ReasonUnknown)"

record 's ws_handler =
  wh_on_connect :: "'s \<Rightarrow> (anyhow_error + unit) \<times> 's"
  wh_on_message :: "string \<Rightarrow> 's \<Rightarrow> (anyhow_error + unit) \<times> 's"
  wh_on_disconnect :: "disconnect_reason \<Rightarrow> 's \<Rightarrow> 's"
  wh_connect_time :: "'s \<Rightarrow> nat"
  wh_disconnect_time :: "disconnect_reason \<Rightarrow> 's \<Rightarrow> nat"

record connection_config =
  cc_max_connections :: "nat option"
  cc_max_connection_duration :: "nat option"
  cc_idle_timeout :: "nat option"

text \<open>What \<open>ws_stream.next()\<close> returns.\<close>

datatype ws_item =
    WsText string
  | WsBinary
  | WsClose "(nat \<times> string) option"
  | WsPingPong
  | WsError string
  | WsEnd

datatype socket_end = ConnectFailed | MessageFailed | Disconnected disconnect_reason | Waiting

abbreviation max_duration_reason :: disconnect_reason where
  "max_duration_reason \<equiv> ReasonTimeout ''Maximum connection duration exceeded''"

abbreviation idle_reason :: disconnect_reason where
  "idle_reason \<equiv> ReasonTimeout ''Idle timeout''"

text \<open>The timeout of one turn: already over (\<open>Inl\<close>), or how long to wait and why.\<close>

definition next_timeout ::
  "connection_config \<Rightarrow> nat \<Rightarrow> nat \<Rightarrow> nat \<Rightarrow> disconnect_reason + (nat \<times> disconnect_reason) option" where
  "next_timeout cfg start activity now =
     (let idle = (\<lambda>existing. case cc_idle_timeout cfg of
          None \<Rightarrow> Inr existing
        | Some idle_duration \<Rightarrow>
            if now - activity \<ge> idle_duration then Inl idle_reason
            else let idle_remaining = idle_duration - (now - activity)
              in Inr (case existing of
                   None \<Rightarrow> Some (idle_remaining, idle_reason)
                 | Some (remaining, reason) \<Rightarrow>
                     if idle_remaining < remaining then Some (idle_remaining, idle_reason)
                     else Some (remaining, reason)))
      in case cc_max_connection_duration cfg of
           None \<Rightarrow> idle None
         | Some max_duration \<Rightarrow>
             if now - start \<ge> max_duration then Inl max_duration_reason
             else idle (Some (max_duration - (now - start), max_duration_reason)))"

text \<open>\<open>on_disconnect\<close> at time \<open>t\<close>, awaited, then the end of the task.\<close>

definition disconnect_at :: "'s ws_handler \<Rightarrow> disconnect_reason \<Rightarrow> nat \<Rightarrow> 's \<Rightarrow> socket_end \<times> nat \<times> 's" where
  "disconnect_at H reason t s = (Disconnected reason, t + wh_disconnect_time H reason s, wh_on_disconnect H reason s)"

fun socket_loop ::
  "connection_config \<Rightarrow> 's ws_handler \<Rightarrow> nat \<Rightarrow> nat \<Rightarrow> nat \<Rightarrow> (nat \<times> ws_item \<times> nat) list \<Rightarrow> 's
     \<Rightarrow> socket_end \<times> nat \<times> 's" where
  "socket_loop cfg H start activity now [] s = (case next_timeout cfg start activity now of
     Inl reason \<Rightarrow> disconnect_at H reason now s
   | Inr None \<Rightarrow> (Waiting, now, s)
   | Inr (Some (d, reason)) \<Rightarrow> disconnect_at H reason (now + d) s)"
| "socket_loop cfg H start activity now ((t, item, cost) # rest) s =
     (case next_timeout cfg start activity now of
        Inl reason \<Rightarrow> disconnect_at H reason now s
      | Inr to \<Rightarrow>
          (case (case to of Some (d, reason) \<Rightarrow> if now + d < t then to else None | None \<Rightarrow> None) of
             Some (d, reason) \<Rightarrow> disconnect_at H reason (now + d) s
           | None \<Rightarrow>
               let got = max now t
               in (case item of
                  WsText text \<Rightarrow> (case wh_on_message H text s of
                      (Inl _, s') \<Rightarrow> (MessageFailed, got + cost, s')
                    | (Inr _, s') \<Rightarrow> socket_loop cfg H start got (got + cost) rest s')
                | WsBinary \<Rightarrow> socket_loop cfg H start got got rest s
                | WsClose frame \<Rightarrow>
                    disconnect_at H (from_close_frame frame) got s
                | WsPingPong \<Rightarrow> socket_loop cfg H start got got rest s
                | WsError err \<Rightarrow> disconnect_at H (ReasonError err) got s
                | WsEnd \<Rightarrow> disconnect_at H ReasonUnknown got s)))"

definition handle_socket ::
  "connection_config \<Rightarrow> 's ws_handler \<Rightarrow> nat \<Rightarrow> (nat \<times> ws_item \<times> nat) list \<Rightarrow> 's \<Rightarrow> socket_end \<times> nat \<times> 's" where
  "handle_socket cfg H now items s =
     (let start = now + wh_connect_time H s
      in case wh_on_connect H s of
           (Inl _, s') \<Rightarrow> (ConnectFailed, start, s')
         | (Inr _, s') \<Rightarrow> socket_loop cfg H start start start items s')"

section \<open>Results\<close>

text \<open>A handler that counts: it keeps the list of the reasons it was disconnected with.\<close>

definition recording :: "'s ws_handler \<Rightarrow> ('s \<times> disconnect_reason list) ws_handler" where
  "recording H =
     \<lparr>wh_on_connect = (\<lambda>(s, l). map_prod id (\<lambda>s'. (s', l)) (wh_on_connect H s)),
      wh_on_message = (\<lambda>text (s, l). map_prod id (\<lambda>s'. (s', l)) (wh_on_message H text s)),
      wh_on_disconnect = (\<lambda>r (s, l). (wh_on_disconnect H r s, l @ [r])),
      wh_connect_time = (\<lambda>(s, l). wh_connect_time H s),
      wh_disconnect_time = (\<lambda>r (s, l). wh_disconnect_time H r s)\<rparr>"

definition end_log :: "socket_end \<Rightarrow> disconnect_reason list" where
  "end_log x = (case x of Disconnected r \<Rightarrow> [r] | _ \<Rightarrow> [])"

lemma end_log_simps [simp]: "end_log (Disconnected r) = [r]" "end_log ConnectFailed = []"
  "end_log MessageFailed = []" "end_log Waiting = []"
  by (simp_all add: end_log_def)

lemma recording_simps [simp]:
  "wh_on_message (recording H) text (s, l) = (case wh_on_message H text s of (r, s') \<Rightarrow> (r, s', l))"
  "wh_on_connect (recording H) (s, l) = (case wh_on_connect H s of (r, s') \<Rightarrow> (r, s', l))"
  "wh_on_disconnect (recording H) r (s, l) = (wh_on_disconnect H r s, l @ [r])"
  "wh_connect_time (recording H) (s, l) = wh_connect_time H s"
  "wh_disconnect_time (recording H) r (s, l) = wh_disconnect_time H r s"
  by (simp_all add: recording_def split: prod.splits)

lemma disconnect_at_recording [simp]:
  "disconnect_at (recording H) r t (s, l) = (case disconnect_at H r t s of (x, t', s') \<Rightarrow> (x, t', s', l @ end_log x))"
  by (simp add: disconnect_at_def)

lemma socket_loop_recording:
  "socket_loop cfg (recording H) start activity now items (s, l) =
     (case socket_loop cfg H start activity now items s of (x, t, s') \<Rightarrow> (x, t, s', l @ end_log x))"
proof (induction items arbitrary: activity now s)
  case (Cons i items)
  obtain t item cost where i: "i = (t, item, cost)"
    by (cases i)
  show ?case
  proof (cases "next_timeout cfg start activity now")
    case (Inr to)
    then show ?thesis
      unfolding i by (cases item) (auto simp: Let_def Cons.IH split: option.splits prod.splits sum.splits)
  qed (simp add: i)
qed (simp split: sum.splits option.splits prod.splits)

lemma next_timeout_bound:
  assumes "cc_max_connection_duration cfg = Some d"
  shows "case next_timeout cfg start activity now of
      Inl _ \<Rightarrow> True
    | Inr None \<Rightarrow> False
    | Inr (Some (w, r)) \<Rightarrow> now - start + w \<le> d"
  using assms by (auto simp: next_timeout_def Let_def split: option.splits)

text \<open>With a maximal duration the socket closes in time: no later than the duration after the start,
  plus the time of one call of \<open>on_message\<close> and that of \<open>on_disconnect\<close>.\<close>

lemma socket_loop_deadline:
  assumes d: "cc_max_connection_duration cfg = Some d" and b: "\<And>r s. wh_disconnect_time H r s \<le> b"
  shows "start \<le> now \<Longrightarrow> now \<le> start + d + c \<Longrightarrow> list_all (\<lambda>(t, item, cost). cost \<le> c) items \<Longrightarrow>
    case socket_loop cfg H start activity now items s of (x, t, s') \<Rightarrow> x \<noteq> Waiting \<and> t \<le> start + d + c + b"
proof (induction items arbitrary: activity now s)
  case Nil
  then show ?case
    using next_timeout_bound [OF d, where start = start and activity = activity and now = now]
    by (auto simp: disconnect_at_def add_mono b split: sum.splits option.splits)
next
  case (Cons i items)
  obtain t item cost where i: "i = (t, item, cost)"
    by (cases i)
  show ?case
  proof (cases "next_timeout cfg start activity now")
    case (Inr to)
    then obtain w r where to: "next_timeout cfg start activity now = Inr (Some (w, r))" and w: "now - start + w \<le> d"
      using next_timeout_bound [OF d, where start = start and activity = activity and now = now]
      by (auto split: option.splits)
    show ?thesis
    proof (cases "now + w < t")
      case True
      then show ?thesis using to w Cons.prems i by (simp add: disconnect_at_def add_mono b)
    next
      case False
      then have got: "start \<le> max now t" "max now t \<le> start + d" "cost \<le> c"
        using w Cons.prems i by auto
      have rest: "list_all (\<lambda>(t, item, cost). cost \<le> c) items"
        using Cons.prems(3) by simp
      show ?thesis
      proof (cases item)
        case (WsText msg)
        obtain res s' where m: "wh_on_message H msg s = (res, s')"
          by (cases "wh_on_message H msg s")
        have "case socket_loop cfg H start (max now t) (max now t + cost) items s' of
            (x, t, s') \<Rightarrow> x \<noteq> Waiting \<and> t \<le> start + d + c + b"
          using got rest by (intro Cons.IH) auto
        then show ?thesis
          using got False to i WsText by (cases res) (auto simp: Let_def m)
      next
        case WsBinary
        have "case socket_loop cfg H start (max now t) (max now t) items s of
            (x, t, s') \<Rightarrow> x \<noteq> Waiting \<and> t \<le> start + d + c + b"
          using got rest by (intro Cons.IH) auto
        then show ?thesis
          using False to i WsBinary by (simp add: Let_def)
      next
        case WsPingPong
        have "case socket_loop cfg H start (max now t) (max now t) items s of
            (x, t, s') \<Rightarrow> x \<noteq> Waiting \<and> t \<le> start + d + c + b"
          using got rest by (intro Cons.IH) auto
        then show ?thesis
          using False to i WsPingPong by (simp add: Let_def)
      qed (use False to i got in \<open>simp_all add: disconnect_at_def add_mono b\<close>)
    qed
  next
    case (Inl r)
    then show ?thesis using Cons.prems i by (simp add: disconnect_at_def add_mono b)
  qed
qed

end
