(* ===== verification/Nostr_Instance.thy ===== *)
theory Nostr_Instance
  imports Nostr_Types
begin

text \<open>
  A concrete instance of the third-party functions, used to show that the hypotheses the theorems
  place on them can hold: the filter matcher of NIP-01, single-character tags, channels that
  never fill, and small sample events and filters.
\<close>

definition opt_contains :: "'a list option \<Rightarrow> 'a \<Rightarrow> bool" where
  "opt_contains o' x = (case o' of None \<Rightarrow> True | Some xs \<Rightarrow> xs = [] \<or> x \<in> set xs)"

definition demo_slt_from_str :: "string \<Rightarrow> single_letter_tag option" where
  "demo_slt_from_str s = (case s of [c] \<Rightarrow> Some c | _ \<Rightarrow> None)"

definition demo_tag_kind_as_str :: "tag_kind \<Rightarrow> string" where
  "demo_tag_kind_as_str k = (case k of
     TagExpiration \<Rightarrow> ''expiration'' | TagProtected \<Rightarrow> ''-'' | TagOther s \<Rightarrow> s)"

definition demo_tag_match :: "event \<Rightarrow> single_letter_tag \<times> string list \<Rightarrow> bool" where
  "demo_tag_match e tv \<longleftrightarrow> snd tv = [] \<or> list_ex (\<lambda>tg.
     demo_slt_from_str (demo_tag_kind_as_str (tag_kind tg)) = Some (fst tv) \<and>
     list_ex (\<lambda>v. v \<in> set (drop 1 (tag_slice tg))) (snd tv)) (ev_tags e)"

definition demo_match :: "filter \<Rightarrow> event \<Rightarrow> bool" where
  "demo_match f e \<longleftrightarrow> opt_contains (f_ids f) (ev_id e) \<and> opt_contains (f_authors f) (ev_pubkey e) \<and>
     opt_contains (f_kinds f) (ev_kind e) \<and> list_all (demo_tag_match e) (f_generic_tags f) \<and>
     (case f_since f of None \<Rightarrow> True | Some t \<Rightarrow> t \<le> ev_created_at e) \<and>
     (case f_until f of None \<Rightarrow> True | Some t \<Rightarrow> ev_created_at e \<le> t)"

definition demo_event :: "event_id \<Rightarrow> pubkey \<Rightarrow> kind \<Rightarrow> event" where
  "demo_event i p k = \<lparr>ev_id = i, ev_pubkey = p, ev_created_at = 100, ev_kind = k, ev_tags = [],
     ev_content = ''hello''\<rparr>"

definition demo_sign :: "unsigned_event \<Rightarrow> string + event" where
  "demo_sign u = Inr \<lparr>ev_id = ue_created_at u, ev_pubkey = ue_pubkey u, ev_created_at = ue_created_at u,
     ev_kind = ue_kind u, ev_tags = ue_tags u, ev_content = ue_content u\<rparr>"

definition demo_lib :: nostr_lib where
  "demo_lib = \<lparr>match_event = demo_match, event_verify = (\<lambda>_. Inr ()), event_as_json = ev_content,
     from_json = (\<lambda>_. Inl ''parse error''), slt_as_str = (\<lambda>c. [c]), slt_from_str = demo_slt_from_str,
     tag_kind_as_str = demo_tag_kind_as_str,
     find_standardized = (\<lambda>ts k. case List.filter (\<lambda>t. tag_kind t = k) ts of
        [] \<Rightarrow> None | t # _ \<Rightarrow> tag_standardized t),
     is_replaceable_kind = (\<lambda>k. k = 0 \<or> k = 3 \<or> (10000 \<le> k \<and> k < 20000)),
     is_addressable_kind = (\<lambda>k. 30000 \<le> k \<and> k < 40000),
     relay_url_str = (\<lambda>u. u), url_host_str = (\<lambda>u. Some u),
     scope_named = (\<lambda>s. if s = [] then None else Some (ScopeNamed s)),
     try_send = (\<lambda>_ _. Sent), sign_event = demo_sign, timestamp_sub = (\<lambda>t n. t - n),
     debug_str = (\<lambda>s. s)\<rparr>"

lemma demo_lib_simps [simp]:
  "match_event demo_lib = demo_match" "try_send demo_lib = (\<lambda>_ _. Sent)"
  "event_verify demo_lib = (\<lambda>_. Inr ())" "sign_event demo_lib = demo_sign"
  "slt_as_str demo_lib = (\<lambda>c. [c])" "slt_from_str demo_lib = demo_slt_from_str"
  "tag_kind_as_str demo_lib = demo_tag_kind_as_str" "event_as_json demo_lib = ev_content"
  by (simp_all add: demo_lib_def)

lemma demo_lib_sound: "match_event_sound demo_lib"
  unfolding match_event_sound_def tag_has_value_def
  by (fastforce simp: demo_match_def opt_contains_def demo_tag_match_def list_all_iff list_ex_iff)

definition author_filter :: "pubkey \<Rightarrow> filter" where
  "author_filter p = filter_new\<lparr>f_authors := Some [p]\<rparr>"

definition kind_filter :: "kind \<Rightarrow> filter" where
  "kind_filter k = filter_new\<lparr>f_kinds := Some [k]\<rparr>"

lemmas demo_defs = demo_match_def opt_contains_def demo_event_def author_filter_def kind_filter_def
  filter_new_def demo_slt_from_str_def demo_tag_kind_as_str_def demo_tag_match_def

end
