(* ===== verification/Subscription_Index_Properties.thy ===== *)
theory Subscription_Index_Properties
  imports Subscription_Index_Distribution Nostr_Instance
begin

text \<open>
  The properties of the subscription index: it refines the abstract table through any history,
  its indexed distribution equals a scan, an event is handed to a subscription at most once, and
  removing subscriptions leaves nothing behind.
\<close>

section \<open>Removing what was added\<close>

lemma fold_add_other_filters:
  assumes "index_wf L ix" "hm_contains (si_filter_groups ix) key" "\<forall>f \<in> set fs. filter_wf f"
    "si_next_filter_id ix + length fs < 2 ^ 64"
  shows "List.filter (\<lambda>x. tf_parent (snd x) \<noteq> key) (si_all_filters (fold (add_one_filter L key) fs ix)) =
    List.filter (\<lambda>x. tf_parent (snd x) \<noteq> key) (si_all_filters ix)"
  using assms
proof (induction fs arbitrary: ix)
  case (Cons f fs)
  have "index_wf L (add_one_filter L key f ix)"
    "hm_contains (si_filter_groups (add_one_filter L key f ix)) key"
    using Cons.prems fold_add_one_filter_wf [of L ix key "[f]"] add_one_filter_groups(2) [of ix key L f]
    by (simp_all add: index_wf_def del: add_one_filter_fields(2-4))
  moreover have "si_next_filter_id (add_one_filter L key f ix) = si_next_filter_id ix + 1"
    using Cons.prems by (simp add: fetch_add_u64_def)
  moreover have "hm_get (si_all_filters ix) (si_next_filter_id ix) = None"
    using Cons.prems(1) by (simp add: index_wf_def next_id_fresh)
  ultimately show ?case
    using Cons.IH [of "add_one_filter L key f ix"] Cons.prems
    by (simp add: hm_insert_fresh tracked_filter_new_def del: add_one_filter_fields(1,3,4))
qed simp

lemma candidates_of_live:
  assumes "index_core L ix" "index_core L ix'" "live ix = live ix'"
  shows "set (get_candidate_filters L ix e) = set (get_candidate_filters L ix' e)"
  using assms unfolding candidates(2) [OF assms(1)] candidates(2) [OF assms(2)]
  by (simp add: candidate_sources_def index_core_def buckets_exact_def flat.exact_def nested.exact_def
      set_tag_candidates)

lemma remove_add_filters:
  assumes wf: "index_wf L ix" and fs: "\<forall>f \<in> set fs. filter_wf f"
    and room: "si_next_filter_id ix + length fs < 2 ^ 64"
    and fresh: "hm_get (si_filter_groups ix) (c, s) = None"
  shows "si_all_filters (si_remove_subscription L c s (si_add_subscription L c s fs ix)) =
    si_all_filters ix"
proof -
  have "\<forall>x \<in> set (si_all_filters ix). tf_parent (snd x) \<noteq> (c, s)"
    using index_wf_group(2) [OF wf fresh] index_wf_all_get [OF wf] by force
  then show ?thesis
    using fold_add_other_filters [OF ensure_group_wf [OF wf] fs] room
      si_add_subscription_wf(1) [OF wf fs room]
    by (simp add: si_remove_subscription_all_filters) (simp add: si_add_subscription_def)
qed

lemma fold_remove_all:
  assumes "index_wf L ix"
  shows "index_wf L (fold (\<lambda>(c, s). si_remove_subscription L c s) keys ix) \<and>
    si_filter_groups (fold (\<lambda>(c, s). si_remove_subscription L c s) keys ix) =
      List.filter (\<lambda>x. fst x \<notin> set keys) (si_filter_groups ix)"
  using assms
  by (induction keys arbitrary: ix)
    (auto simp: si_remove_subscription_wf hm_remove_filter split: prod.splits intro!: filter_cong)

section \<open>Properties\<close>

text \<open>C15. Through every history of subscribing, unsubscribing and distributing that starts from an
  empty index and adds fewer than \<open>2 ^ 64 - 1\<close> filters, the index stays well formed (every bucket
  holds exactly the live filters with that key, ids and groups agree) and represents the table
  that the same history produces on a plain map from subscriptions to filters.\<close>

theorem index_history_refines_table:
  assumes "list_all op_ok ops" "sum_list (map op_cost ops) + 1 < 2 ^ 64"
  shows "index_wf L (fold (index_step L) ops si_new) \<and>
    index_abs (fold (index_step L) ops si_new) = fold table_step ops Map.empty"
  using index_run_wf [OF si_new_wf, of ops L] assms by (simp add: index_abs_new) (simp add: si_new_def)

definition demo_ops :: "index_op list" where
  "demo_ops = [IxAdd ''c1'' ''a'' [author_filter 7, kind_filter 1], IxAdd ''c2'' ''a'' [kind_filter 1],
     IxDistribute (demo_event 5 7 1), IxRemove ''c1'' ''a'']"

theorem index_history_refines_table_witness:
  "index_wf demo_lib (fold (index_step demo_lib) demo_ops si_new) \<and>
   fold table_step demo_ops Map.empty = [(''c2'', ''a'') \<mapsto> {#kind_filter 1#}]"
proof -
  have "list_all op_ok demo_ops" "sum_list (map op_cost demo_ops) + 1 < 2 ^ 64"
    by (simp_all add: demo_ops_def filter_wf_def author_filter_def kind_filter_def filter_new_def)
  from index_history_refines_table [OF this, of demo_lib] show ?thesis
    by (simp add: demo_ops_def table_add_def fun_eq_iff)
qed

text \<open>C3. Distribution through the inverted index hands a new event to exactly the subscriptions
  that a scan of all filters finds, each once, for every matcher that only matches events
  carrying a key the filter lists.\<close>

theorem index_distribute_equals_scan:
  assumes "index_wf L ix" "match_event_sound L" "event_new_to e ix"
  shows "mset (fst (si_distribute_event L e ix)) = mset (scan_distribute L e ix)"
  using assms by (rule distribute_eq_scan)

definition demo_index :: subscription_index where
  "demo_index = si_add_subscription demo_lib ''c2'' ''b'' [kind_filter 9]
     (si_add_subscription demo_lib ''c1'' ''a'' [author_filter 7, kind_filter 1] si_new)"

lemma demo_index_eval:
  "demo_index = \<lparr>si_authors = [(7, [tracked_filter_new (author_filter 7) (''c1'', ''a'') (Some AuthorField) 1])],
     si_kinds = [(1, [tracked_filter_new (kind_filter 1) (''c1'', ''a'') (Some KindField) 2]),
                 (9, [tracked_filter_new (kind_filter 9) (''c2'', ''b'') (Some KindField) 3])],
     si_event_ids = [], si_tags = [], si_match_all = [],
     si_all_filters = [(1, tracked_filter_new (author_filter 7) (''c1'', ''a'') (Some AuthorField) 1),
       (2, tracked_filter_new (kind_filter 1) (''c1'', ''a'') (Some KindField) 2),
       (3, tracked_filter_new (kind_filter 9) (''c2'', ''b'') (Some KindField) 3)],
     si_filter_groups = [((''c1'', ''a''), (filter_group_new ''c1'' ''a'')\<lparr>fg_filter_ids := [2, 1]\<rparr>),
       ((''c2'', ''b''), (filter_group_new ''c2'' ''b'')\<lparr>fg_filter_ids := [3]\<rparr>)],
     si_next_filter_id = 4, si_filter_last_seen = (\<lambda>_. None)\<rparr>"
  by (simp add: demo_index_def si_add_subscription_def ensure_group_def si_new_def add_one_filter_def
      filter_group_new_def choose_index_field_def nonempty_list_def author_filter_def kind_filter_def
      filter_new_def tracked_filter_new_def add_filter_to_indexes_def bucket_push_all_def
      bucket_push_def bucket_get_def fetch_add_u64_def group_insert_id_def Let_def fun_upd_idem)

lemma demo_index_wf: "index_wf demo_lib demo_index"
proof -
  have fs: "\<forall>f \<in> set [author_filter 7, kind_filter 1]. filter_wf f" "\<forall>f \<in> set [kind_filter 9]. filter_wf f"
    by (simp_all add: filter_wf_def author_filter_def kind_filter_def filter_new_def)
  have "si_next_filter_id si_new = 1"
    by (simp add: si_new_def)
  then show ?thesis
    using si_add_subscription_wf [OF si_new_wf fs(1)] si_add_subscription_wf(1) [OF _ fs(2)]
    by (simp add: demo_index_def)
qed

lemma demo_index_new: "event_new_to e demo_index"
  by (auto simp: event_new_to_def demo_index_eval filter_group_new_def split: if_splits)

theorem index_distribute_equals_scan_witness:
  "mset (fst (si_distribute_event demo_lib (demo_event 5 7 1) demo_index)) = {#(''c1'', ''a'')#}"
proof -
  have "scan_distribute demo_lib (demo_event 5 7 1) demo_index = [(''c1'', ''a'')]"
    by (simp add: scan_distribute_def filters_of_def demo_index_eval tracked_filter_new_def demo_defs)
  then show ?thesis
    using index_distribute_equals_scan [OF demo_index_wf demo_lib_sound demo_index_new, of "demo_event 5 7 1"]
    by simp
qed

text \<open>An event is handed to a subscription at most once: one distribution lists every
  subscription at most once, only live ones, and distributing the same event again at once
  reaches nobody. Distribution keeps the index well formed and its table unchanged.\<close>

lemma index_distribute_at_most_once:
  assumes "index_wf L ix" "match_event_sound L"
  shows "distinct (fst (si_distribute_event L e ix)) \<and>
    set (fst (si_distribute_event L e ix)) \<subseteq> dom (index_abs ix) \<and>
    fst (si_distribute_event L e (snd (si_distribute_event L e ix))) = [] \<and>
    index_wf L (snd (si_distribute_event L e ix)) \<and>
    index_abs (snd (si_distribute_event L e ix)) = index_abs ix"
  using si_distribute_event_result [OF assms, of e] distribute_twice [OF assms, of e]
    si_distribute_event_wf [OF assms(1), of e] same_index_abs
  by (auto simp: group_unseen_def index_abs_def hm_contains_def dom_def)

lemma index_distribute_at_most_once_example:
  "fst (si_distribute_event demo_lib (demo_event 5 7 1)
     (snd (si_distribute_event demo_lib (demo_event 5 7 1) demo_index))) = []"
  using index_distribute_at_most_once [OF demo_index_wf demo_lib_sound] by blast

text \<open>C27. Unsubscribing is the inverse of subscribing under a fresh key: the stored filters and the
  table are those of before, and for every event the candidate filters looked up are the same.\<close>

theorem index_remove_undoes_add:
  assumes "index_wf L ix" "\<forall>f \<in> set fs. filter_wf f" "si_next_filter_id ix + length fs < 2 ^ 64"
    "hm_get (si_filter_groups ix) (c, s) = None"
  shows "let ix' = si_remove_subscription L c s (si_add_subscription L c s fs ix) in
    index_wf L ix' \<and> si_all_filters ix' = si_all_filters ix \<and> index_abs ix' = index_abs ix \<and>
    (\<forall>e. set (get_candidate_filters L ix' e) = set (get_candidate_filters L ix e))"
proof -
  let ?ix' = "si_remove_subscription L c s (si_add_subscription L c s fs ix)"
  note added = si_add_subscription_wf(1) [OF assms(1-3), of c s]
  have wf: "index_wf L ?ix'" and all: "si_all_filters ?ix' = si_all_filters ix"
    using added remove_add_filters [OF assms] by (simp_all add: si_remove_subscription_wf)
  moreover have "index_abs ?ix' = index_abs ix"
    using assms(4) by (simp add: index_abs_remove [OF added] index_abs_add [OF assms(1-3)]
        table_add_def fun_eq_iff index_abs_def [of ix] hm_contains_def)
  moreover have "live ?ix' = live ix"
    by (simp add: live_def all)
  ultimately show ?thesis
    using candidates_of_live [of L ?ix' ix] assms(1) by (simp add: Let_def index_wf_def)
qed

theorem index_remove_undoes_add_witness:
  "si_all_filters (si_remove_subscription demo_lib ''c3'' ''z''
     (si_add_subscription demo_lib ''c3'' ''z'' [kind_filter 4] demo_index)) = si_all_filters demo_index"
  using index_remove_undoes_add [OF demo_index_wf, of "[kind_filter 4]" "''c3''" "''z''"]
  by (simp add: Let_def demo_index_eval filter_wf_def kind_filter_def filter_new_def)

text \<open>C31. Nothing leaks: once every subscription of a well-formed index has been removed, the
  filter table, the match-all list and the maps of all four indexes are empty.\<close>

theorem index_no_leak:
  assumes "index_wf L ix" "set (hm_keys (si_filter_groups ix)) \<subseteq> set keys"
  shows "let ix' = fold (\<lambda>(c, s). si_remove_subscription L c s) keys ix in
    si_filter_groups ix' = [] \<and> si_all_filters ix' = [] \<and> si_match_all ix' = [] \<and>
    si_authors ix' = [] \<and> si_kinds ix' = [] \<and> si_event_ids ix' = [] \<and> si_tags ix' = []"
proof -
  let ?ix' = "fold (\<lambda>(c, s). si_remove_subscription L c s) keys ix"
  have wf: "index_wf L ?ix'" and groups: "si_filter_groups ?ix' = []"
    using fold_remove_all [OF assms(1), of keys] assms(2) by (auto simp: filter_empty_conv)
  then show ?thesis
    using index_empty [OF wf groups] by (simp add: Let_def)
qed

theorem index_no_leak_witness:
  "si_authors (fold (\<lambda>(c, s). si_remove_subscription demo_lib c s) [(''c1'', ''a''), (''c2'', ''b'')] demo_index) = []"
  using index_no_leak [OF demo_index_wf, of "[(''c1'', ''a''), (''c2'', ''b'')]"]
  by (simp add: demo_index_eval Let_def)

end
