(* ===== verification/Subscription_Registry_Properties.thy ===== *)
theory Subscription_Registry_Properties
  imports Subscription_Registry_Correct Subscription_Index_Properties
begin

text \<open>
  The properties of the subscription registry, with a small registry of two connections in two
  scopes on which they are witnessed.
\<close>

definition demo_sender :: "channel \<Rightarrow> message_sender" where
  "demo_sender ch = \<lparr>ms_channel = ch, ms_position = 0\<rparr>"

definition demo_registry0 :: registry where
  "demo_registry0 = register_connection ''c2'' (demo_sender 2) None (ScopeNamed ''t'')
     (register_connection ''c1'' (demo_sender 1) None ScopeDefault (registry_new True))"

definition demo_registry1 :: registry where
  "demo_registry1 = snd (reg_add_subscription demo_lib ''c1'' ''a'' [kind_filter 1]
     (snd (reg_remove_subscription demo_lib ''c1'' ''a'' demo_registry0)))"

definition demo_registry :: registry where
  "demo_registry = snd (reg_add_subscription demo_lib ''c2'' ''b'' [kind_filter 1]
     (snd (reg_remove_subscription demo_lib ''c2'' ''b'' demo_registry1)))"

lemmas demo_filter_defs = author_filter_def kind_filter_def filter_new_def

lemmas registry_eval = demo_sender_def register_connection_def registry_new_def
  reg_add_subscription_def reg_remove_subscription_def index_remove_def log_metric_def Let_def
  si_add_subscription_def ensure_group_def si_new_def add_one_filter_def filter_group_new_def
  choose_index_field_def nonempty_list_def tracked_filter_new_def
  add_filter_to_indexes_def bucket_push_all_def bucket_push_def bucket_get_def fetch_add_u64_def
  group_insert_id_def

definition demo_conn :: "channel \<Rightarrow> (subscription_id, filter list) hmap \<Rightarrow> scope \<Rightarrow> connection_subscriptions" where
  "demo_conn ch subs sc = \<lparr>cs_subscriptions = subs, cs_sender = demo_sender ch, cs_auth_pubkey = None,
     cs_subdomain = sc\<rparr>"

lemma demo_registry0_eval:
  "rg_connections demo_registry0 = [(''c1'', demo_conn 1 [] ScopeDefault), (''c2'', demo_conn 2 [] (ScopeNamed ''t''))]"
  "rg_indexes demo_registry0 = []" "rg_metrics_handler demo_registry0" "rg_metrics_log demo_registry0 = []"
  by (simp_all add: demo_registry0_def registry_eval demo_conn_def)

lemma demo_registry1_eval:
  "rg_connections demo_registry1 = [(''c1'', demo_conn 1 [(''a'', [kind_filter 1])] ScopeDefault),
     (''c2'', demo_conn 2 [] (ScopeNamed ''t''))]"
  "rg_indexes demo_registry1 = [(ScopeDefault, si_add_subscription demo_lib ''c1'' ''a'' [kind_filter 1] si_new)]"
  "rg_metrics_handler demo_registry1" "rg_metrics_log demo_registry1 = [IncrementActive]"
  by (simp_all add: demo_registry1_def demo_registry0_eval reg_add_subscription_def
      reg_remove_subscription_def demo_conn_def Let_def log_metric_def)

lemma demo_registry_eval:
  "rg_connections demo_registry = [(''c1'', demo_conn 1 [(''a'', [kind_filter 1])] ScopeDefault),
     (''c2'', demo_conn 2 [(''b'', [kind_filter 1])] (ScopeNamed ''t''))]"
  "rg_indexes demo_registry = [(ScopeDefault, si_add_subscription demo_lib ''c1'' ''a'' [kind_filter 1] si_new),
     (ScopeNamed ''t'', si_add_subscription demo_lib ''c2'' ''b'' [kind_filter 1] si_new)]"
  "rg_metrics_log demo_registry = [IncrementActive, IncrementActive]"
  by (simp_all add: demo_registry_def demo_registry1_eval reg_add_subscription_def
      reg_remove_subscription_def demo_conn_def Let_def log_metric_def)

lemma demo_registry_wf: "reg_wf demo_lib demo_registry"
proof -
  have fs: "list_all filter_wf [kind_filter 1]"
    by (simp add: filter_wf_def demo_filter_defs)
  have "reg_wf demo_lib demo_registry0"
    unfolding demo_registry0_def
    by (intro register_connection_wf registry_new_wf)
      (simp_all add: registry_new_def register_connection_def has_connection_def hm_contains_def)
  then have "reg_wf demo_lib demo_registry1"
    unfolding demo_registry1_def
    by (rule replace_subscription_table(1) [OF _ _ fs])
      (simp_all add: demo_registry0_eval scope_room_def index_room_def si_new_def)
  then show ?thesis
    unfolding demo_registry_def
    by (rule replace_subscription_table(1) [OF _ _ fs, where conn = "demo_conn 2 [] (ScopeNamed ''t'')"])
      (simp_all add: demo_registry1_eval scope_room_def index_room_def si_new_def demo_conn_def)
qed

lemma demo_scope_index:
  "hm_get (rg_indexes demo_registry) ScopeDefault =
     Some (si_add_subscription demo_lib ''c1'' ''a'' [kind_filter 1] si_new)"
  by (simp add: demo_registry_eval)

lemma demo_scope_index_new: "event_new_to e (si_add_subscription demo_lib ''c1'' ''a'' [kind_filter 1] si_new)"
  by (auto simp: event_new_to_def registry_eval demo_filter_defs split: if_splits)

text \<open>C16. Delivery. When no channel refuses, distributing an event that is new to the scope's index
  appends to the outbox exactly one EVENT message per subscription of that scope with a matching
  filter, on the channel of its connection, and touches no connection.\<close>

theorem registry_distribute_delivers:
  assumes "reg_wf L r" "match_event_sound L" "try_send L = (\<lambda>_ _. Sent)"
    "hm_get (rg_indexes r) sc = Some ix" "event_new_to e ix"
  shows "\<exists>ms. distinct ms \<and> set ms = {key. wanted L r sc e key} \<and>
    snd (distribute_event L e sc r out) = out @ map (delivery L r e) ms \<and>
    rg_connections (fst (distribute_event L e sc r out)) = rg_connections r"
  using assms by (rule distribute_event_all_sent)

theorem registry_distribute_delivers_witness:
  "snd (distribute_event demo_lib (demo_event 5 7 1) ScopeDefault demo_registry []) =
     [(1, RM_Event ''a'' (demo_event 5 7 1), 0, Some (event_message_json ''a'' ''hello''))]"
proof -
  have w: "{key. wanted demo_lib demo_registry ScopeDefault (demo_event 5 7 1) key} = {(''c1'', ''a'')}"
    by (auto simp: wanted_def demo_registry_eval demo_conn_def demo_defs split: if_splits)
  have single: "ms = [(''c1'', ''a'')]" if "distinct ms" "set ms = {(''c1'', ''a'')}" for ms
    using that by (cases ms; cases "tl ms") auto
  have "try_send demo_lib = (\<lambda>_ _. Sent)"
    by simp
  from registry_distribute_delivers [OF demo_registry_wf demo_lib_sound this demo_scope_index
      demo_scope_index_new, of "demo_event 5 7 1" "[]", unfolded w]
  obtain ms where ms: "distinct ms" "set ms = {(''c1'', ''a'')}"
    and out: "snd (distribute_event demo_lib (demo_event 5 7 1) ScopeDefault demo_registry []) =
       map (delivery demo_lib demo_registry (demo_event 5 7 1)) ms"
    by auto
  have "ev_content (demo_event 5 7 1) = ''hello''"
    by (simp add: demo_event_def)
  then show ?thesis
    unfolding out single [OF ms]
    by (simp add: delivery_def demo_registry_eval demo_conn_def demo_sender_def)
qed

text \<open>C19. Isolation and completeness under failing channels. Whatever the channels do, every message
  a distribution sends is the EVENT of a subscription of that very scope whose filters match; and
  every such subscription either receives it or loses its connection, if the event is new to the index. The registry stays
  consistent.\<close>

theorem registry_distribute_isolation:
  assumes "reg_wf L r" "match_event_sound L"
  shows "reg_wf L (fst (distribute_event L e sc r out)) \<and>
    (\<exists>new. snd (distribute_event L e sc r out) = out @ new \<and>
      (\<forall>d \<in> set new. \<exists>key. wanted L r sc e key \<and> d = delivery L r e key) \<and>
      (\<forall>ix key. hm_get (rg_indexes r) sc = Some ix \<longrightarrow> event_new_to e ix \<longrightarrow> wanted L r sc e key \<longrightarrow>
         delivery L r e key \<in> set new \<or> \<not> has_connection (fst (distribute_event L e sc r out)) (fst key)))"
proof -
  obtain new dead where
    "snd (distribute_event L e sc r out) = out @ new"
    "rg_connections (fst (distribute_event L e sc r out)) =
        List.filter (\<lambda>x. fst x \<notin> set dead) (rg_connections r)"
    "\<forall>d \<in> set new. \<exists>key. wanted L r sc e key \<and> d = delivery L r e key"
    "\<forall>ix key. hm_get (rg_indexes r) sc = Some ix \<longrightarrow> event_new_to e ix \<longrightarrow> wanted L r sc e key \<longrightarrow>
         delivery L r e key \<in> set new \<or> fst key \<in> set dead"
    using distribute_event_wf(2) [OF assms] by blast
  then show ?thesis
    using distribute_event_wf(1) [OF assms] hm_get_filter_key [of "\<lambda>c. c \<notin> set dead" "rg_connections r"]
    by (intro conjI exI [of _ new]) (auto simp: has_connection_def hm_contains_def)
qed

text \<open>The same relay with channels that are all full: the matching connection is dropped.\<close>

definition full_lib :: nostr_lib where
  "full_lib = demo_lib\<lparr>try_send := (\<lambda>_ _. ChannelFull)\<rparr>"

lemma full_lib_sound: "match_event_sound full_lib"
  using demo_lib_sound by (simp add: full_lib_def match_event_sound_def tag_has_value_def)

lemma full_lib_wf: "reg_wf full_lib r = reg_wf demo_lib r"
proof -
  have "slt_as_str full_lib = slt_as_str demo_lib"
    by (simp add: full_lib_def)
  then have "tag_keys full_lib = tag_keys demo_lib"
    by (simp only: tag_keys_def [abs_def] tag_arg_def)
  then show ?thesis
    by (simp add: reg_wf_def indexes_wf_def index_wf_def index_core_def buckets_exact_def)
qed

theorem registry_distribute_isolation_witness:
  "let (r', out') = distribute_event full_lib (demo_event 5 7 1) ScopeDefault demo_registry [] in
   delivery full_lib demo_registry (demo_event 5 7 1) (''c1'', ''a'') \<in> set out' \<or> \<not> has_connection r' ''c1''"
proof -
  have "wanted full_lib demo_registry ScopeDefault (demo_event 5 7 1) (''c1'', ''a'')"
    by (simp add: wanted_def demo_registry_eval demo_conn_def full_lib_def demo_defs)
  then show ?thesis
    using registry_distribute_isolation [OF _ full_lib_sound, of demo_registry "demo_event 5 7 1" ScopeDefault "[]"]
      demo_registry_wf demo_scope_index demo_scope_index_new
    by (auto simp: full_lib_wf split_beta)
qed

text \<open>C32. Cleaning up a connection removes it and all its subscriptions from the table and from the
  index of every scope, leaves the subscriptions of all other connections as they were, and keeps
  the registry consistent (the gauge drops by the number of its subscriptions).\<close>

theorem registry_cleanup_complete:
  assumes "reg_wf L r"
  shows "let r' = cleanup_connection L cid r in reg_wf L r' \<and> \<not> has_connection r' cid \<and>
    (\<forall>sc sid. index_table r' sc (cid, sid) = None) \<and>
    (\<forall>sc c sid. c \<noteq> cid \<longrightarrow> index_table r' sc (c, sid) = index_table r sc (c, sid))"
  using cleanup_connection_table [OF assms, of cid] assms
  by (simp add: Let_def reg_wf_def has_connection_def hm_contains_def hm_simps)

theorem registry_cleanup_complete_witness:
  "index_table (cleanup_connection demo_lib ''c1'' demo_registry) ScopeDefault (''c1'', ''a'') = None \<and>
   index_table (cleanup_connection demo_lib ''c1'' demo_registry) (ScopeNamed ''t'') (''c2'', ''b'') =
     Some {#kind_filter 1#}"
proof -
  have "index_table demo_registry (ScopeNamed ''t'') (''c2'', ''b'') = Some {#kind_filter 1#}"
    using demo_registry_wf by (simp add: reg_wf_def conn_table_def demo_registry_eval demo_conn_def)
  then show ?thesis
    using registry_cleanup_complete [OF demo_registry_wf, of "''c1''"] by (simp add: Let_def)
qed

text \<open>Subscribing under an id that the connection already uses, without removing it first,
  replaces the filters in the connection's own map but leaves the old filters in the index: the
  subscription keeps receiving events that only the replaced filters match.\<close>

lemma registry_add_keeps_replaced_filters:
  assumes "reg_wf L r" "hm_get (rg_connections r) cid = Some conn"
    "hm_get (cs_subscriptions conn) sid = Some old" "list_all filter_wf fs"
    "hm_get (rg_indexes r) (cs_subdomain conn) = Some ix" "index_room (length fs) ix"
  shows "index_table (snd (reg_add_subscription L cid sid fs r)) (cs_subdomain conn) (cid, sid) =
      Some (mset old + mset fs) \<and>
    conn_table (snd (reg_add_subscription L cid sid fs r)) (cs_subdomain conn) (cid, sid) = Some (mset fs)"
proof -
  have "index_abs ix (cid, sid) = Some (mset old)"
    using reg_index_abs [OF assms(1,5)] assms(2,3) by (simp add: conn_table_def)
  then have "index_abs (si_add_subscription L cid sid fs ix) (cid, sid) = Some (mset old + mset fs)"
    using store.add_abs [OF reg_index_wf [OF assms(1,5)] assms(4,6), of "(cid, sid)"]
    by (simp add: table_add_def)
  then show ?thesis
    using assms(2,3,5)
    by (simp add: reg_add_subscription_def Let_def index_table_def conn_table_def hm_simps)
qed

end
