(* ===== verification/Subscription_Coordinator_Properties.thy ===== *)
theory Subscription_Coordinator_Properties
  imports Subscription_Coordinator_Correct Subscription_Registry_Properties
begin

text \<open>
  The properties of the coordinator: the answer to a REQ, storing and broadcasting, and the buffer
  of replaceable events.
\<close>

section \<open>A small database\<close>

text \<open>A list of events, newest first, queried with the matcher of NIP-01.\<close>

definition demo_lmdb :: "event list lmdb" where
  "demo_lmdb = \<lparr>lm_scoped = (\<lambda>_ _. Inr ()), lm_save_event = (\<lambda>db _ e. Inr (e # db)),
     lm_delete = (\<lambda>db _ f. Inr (List.filter (\<lambda>e. \<not> demo_match f e) db)),
     lm_query = (\<lambda>db _ f. Inr (case f_limit f of
        None \<Rightarrow> List.filter (demo_match f) db | Some l \<Rightarrow> take l (List.filter (demo_match f) db))),
     lm_count = (\<lambda>db _ f. Inr (length (List.filter (demo_match f) db))),
     lm_negentropy_items = (\<lambda>db _ f. Inr (map (\<lambda>e. (ev_id e, ev_created_at e)) db)),
     lm_list_scopes = (\<lambda>_. Inr [ScopeDefault]), lm_error_str = (\<lambda>_. ''db''),
     lm_events_extend = (@)\<rparr>"

lemma demo_db_query:
  "db_query demo_lmdb db [f] sc = Inr (case f_limit f of
     None \<Rightarrow> List.filter (demo_match f) db | Some l \<Rightarrow> take l (List.filter (demo_match f) db))"
  by (simp add: db_query_def scoped_view_def demo_lmdb_def)

definition demo_stored :: "event list" where
  "demo_stored = map (\<lambda>i. (demo_event i 7 1)\<lparr>ev_created_at := i\<rparr>) [50, 40, 30, 20, 10]"

definition demo_world :: "event list world" where
  "demo_world = \<lparr>w_registry = demo_registry, w_outbox = [], w_db = demo_stored, w_crypto = crypto_new,
     w_queue = [], w_queue_open = True, w_oneshots = []\<rparr>"

section \<open>Answering a REQ\<close>


text \<open>A store with two events in one second, and one in which they stand where a page of two ends.\<close>

definition timed_events :: "(event_id \<times> timestamp) list \<Rightarrow> event list" where
  "timed_events = map (\<lambda>(i, t). (demo_event i 7 1)\<lparr>ev_created_at := t\<rparr>)"


abbreviation demo_boundary :: "event list" where
  "demo_boundary \<equiv> timed_events [(1, 50), (2, 40), (3, 40)]"

lemma timed_events_simps [simp]: "timed_events [] = []"
  "timed_events ((i, t) # its) = (demo_event i 7 1)\<lparr>ev_created_at := t\<rparr> # timed_events its"
  by (simp_all add: timed_events_def)

lemma demo_match_until: "demo_match (filter_new\<lparr>f_limit := l, f_until := u\<rparr>) = not_after u"
  by (auto simp: demo_match_def filter_new_def opt_contains_def not_after_def fun_eq_iff)


text \<open>The last condition is needed: when the second event of a page of two is hidden and the third has the same time, the next
  page begins a second earlier, and the third event, stored, matching and visible, is never sent.\<close>

lemma req_page_boundary_loses_event:
  "process_historical_events demo_lib demo_lmdb 2 ''s'' [filter_new] None ScopeDefault (demo_sender 1)
     (\<lambda>e _ _. ev_id e \<noteq> 2) demo_boundary [] =
   (Inr (), map (page_msg (demo_sender 1) ''s'') (timed_events [(1, 50)]) @ [(1, RM_Eose ''s'', 0, None)])"
  "pages_of demo_lmdb demo_boundary ScopeDefault (filter_new\<lparr>f_limit := Some 2\<rparr>) 2 demo_boundary"
proof -
  show "pages_of demo_lmdb demo_boundary ScopeDefault (filter_new\<lparr>f_limit := Some 2\<rparr>) 2 demo_boundary"
    by (simp add: pages_of_def demo_db_query demo_match_until) (simp add: demo_event_def)
  show "process_historical_events demo_lib demo_lmdb 2 ''s'' [filter_new] None ScopeDefault (demo_sender 1)
     (\<lambda>e _ _. ev_id e \<noteq> 2) demo_boundary [] =
   (Inr (), map (page_msg (demo_sender 1) ''s'') (timed_events [(1, 50)]) @ [(1, RM_Eose ''s'', 0, None)])"
  proof -
    have "page_loop (Suc (Suc n)) demo_lib demo_lmdb demo_boundary ScopeDefault (\<lambda>e. ev_id e \<noteq> 2) (demo_sender 1) ''s'' 2
        (filter_new\<lparr>f_limit := Some 2\<rparr>) 0 None [] [] = (Inr [1], map (page_msg (demo_sender 1) ''s'') (timed_events [(1, 50)]))" for n
      by (simp add: demo_db_query demo_match_def filter_new_def opt_contains_def demo_event_def demo_lib_def send_bypass_entry
          try_send_entry_def page_msg_def Let_def)
    from this [of 48] show ?thesis
      by (simp add: process_historical_events_def smallest_limit_def map_filter_simps filter_new_def send_def try_send_entry_def
          demo_lib_def demo_sender_def Let_def)
  qed
qed

text \<open>C25. Safety of the stored-events phase, for any number of filters and any channel outcomes: what
  is sent are EVENT messages on the requesting channel, each for an event that one of the client's own filters matches (its
  \<open>until\<close> included), that the store returned for a page of that filter within the client's window, and that the filter function
  allows; no event is sent twice, at most \<open>limit\<close> per filter, where \<open>limit\<close> is at most the relay's maximum and
  every limit the client gave; on success EOSE is the last message. The store's queries return no event twice and only events that
  match; \<open>until\<close> is one of the conditions of matching, the limit is none.\<close>

theorem req_stored_events_sound:
  assumes "query_distinct D db sc" "query_matches L D db sc" "match_window L" "\<And>t. timestamp_sub L t 1 = t - 1"
  shows "let limit = smallest_limit max_limit fs;
      (res, out') = process_historical_events L D max_limit sid fs authed sc ms filter_fn db out
    in limit \<le> max_limit \<and> (\<forall>f \<in> set fs. \<forall>l. f_limit f = Some l \<longrightarrow> limit \<le> l) \<and>
      (\<exists>evs new. out' = out @ new @ (if is_ok res then [(ms_channel ms, RM_Eose sid, ms_position ms, None)] else []) \<and>
        subseq new (map (page_msg ms sid) evs) \<and> length evs \<le> limit * length fs \<and>
        distinct (map ev_id evs) \<and>
        (\<forall>e \<in> set evs. filter_fn e sc authed \<and>
          (\<exists>f \<in> set fs. match_event L f e \<and> returned_within D db sc (f\<lparr>f_limit := Some limit\<rparr>) e)))"
proof -
  let ?limit = "smallest_limit max_limit fs" and ?ffn = "\<lambda>e. filter_fn e sc authed"
  let ?fs = "map (\<lambda>f. f\<lparr>f_limit := Some (smallest_limit max_limit fs)\<rparr>) fs"
  let ?run = "filters_loop L D db sc ?ffn ms sid ?limit ?fs [] out"
  let ?src = "\<lambda>e. \<exists>f \<in> set fs. match_event L f e \<and> returned_within D db sc (f\<lparr>f_limit := Some ?limit\<rparr>) e"
  have "\<exists>stay. page_invariant L D db sc f stay ?src \<and> stay (f_until f) None" if "f \<in> set ?fs" for f
  proof -
    let ?stay = "\<lambda>u lts. window_within (f_until f) u \<and> (\<forall>t T. lts = Some t \<and> f_until f = Some T \<longrightarrow> t \<le> T)"
    obtain g where g: "g \<in> set fs" "f = g\<lparr>f_limit := Some ?limit\<rparr>"
      using \<open>f \<in> set ?fs\<close> by auto
    have "page_invariant L D db sc f ?stay ?src"
      by (rule page_invariant_mono [OF page_invariant_window [OF assms(2-4)]])
        (use g match_limit [OF assms(3)] in blast)
    moreover have "?stay (f_until f) None"
      by (simp add: window_within_def split: option.split)
    ultimately show ?thesis
      by blast
  qed
  then obtain evs new where run: "snd ?run = out @ new" "subseq new (map (page_msg ms sid) evs)"
    "length evs \<le> ?limit * length fs" "distinct (map ev_id evs)" "\<forall>e \<in> set evs. ?ffn e \<and> ?src e"
    using filters_loop_ok [OF assms(1), of ?fs L ?src ?ffn ms sid ?limit "[]" out] unfolding page_run_ok_def by auto
  have "\<exists>res. process_historical_events L D max_limit sid fs authed sc ms filter_fn db out =
      (res, out @ new @ (if is_ok res then [(ms_channel ms, RM_Eose sid, ms_position ms, None)] else []))"
  proof (cases "fst ?run")
    case (Inl err)
    then show ?thesis
      using run(1) by (cases ?run) (simp add: process_historical_events_def Let_def)
  next
    case (Inr s)
    have run_eq: "process_historical_events L D max_limit sid fs authed sc ms filter_fn db out =
      (case send L ms (RM_Eose sid) (out @ new) of
         (Inl e, out'') \<Rightarrow> (Inl (Internal (''Failed to send EOSE: '' @ debug_str L (anyhow_display e))), out'')
       | (Inr _, out'') \<Rightarrow> (Inr (), out''))"
      using run(1) Inr by (cases ?run) (simp add: process_historical_events_def Let_def)
    show ?thesis
      by (cases rule: try_send_entry_cases [of L "ms_channel ms" "(RM_Eose sid, ms_position ms, None)" "out @ new"])
        (simp_all add: run_eq send_def)
  qed
  then show ?thesis
    using run(2-5) smallest_limit_le by (fastforce simp: Let_def)
qed

lemma demo_query_ok: "query_distinct demo_lmdb demo_stored ScopeDefault" "query_matches demo_lib demo_lmdb db sc" "match_window demo_lib"
proof -
  show "query_distinct demo_lmdb demo_stored ScopeDefault"
    unfolding query_distinct_def demo_db_query
    by (auto simp: demo_stored_def demo_event_def distinct_map inj_on_def split: option.splits
        intro!: distinct_take dest!: in_set_takeD)
  show "query_matches demo_lib demo_lmdb db sc"
    unfolding query_matches_def demo_db_query
    by (auto simp: demo_lib_def list_all_iff split: option.splits dest!: in_set_takeD)
  show "match_window demo_lib"
    by (auto simp: match_window_def demo_lib_def demo_match_def not_after_def)
qed

theorem req_stored_events_sound_witness:
  "let (res, out') = process_historical_events demo_lib demo_lmdb 2 ''s'' [filter_new\<lparr>f_until := Some 35\<rparr>, kind_filter 1] None
       ScopeDefault (demo_sender 1) (\<lambda>_ _ _. True) demo_stored []
   in \<exists>evs new. out' = new @ (if is_ok res
       then [(ms_channel (demo_sender 1), RM_Eose ''s'', ms_position (demo_sender 1), None)] else []) \<and>
     subseq new (map (page_msg (demo_sender 1) ''s'') evs) \<and> length evs \<le> 4 \<and> distinct (map ev_id evs) \<and>
     (\<forall>e \<in> set evs. \<exists>f \<in> {filter_new\<lparr>f_until := Some 35\<rparr>, kind_filter 1}. match_event demo_lib f e)"
proof -
  have sub: "timestamp_sub demo_lib t 1 = t - 1" for t
    by (simp add: demo_lib_def)
  note sound = req_stored_events_sound [OF demo_query_ok(1,2,3) sub, of 2 "[filter_new\<lparr>f_until := Some 35\<rparr>, kind_filter 1]"
      "''s''" None "demo_sender 1" "\<lambda>_ _ _. True" "[]"]
  have limit: "smallest_limit 2 [filter_new\<lparr>f_until := Some 35\<rparr>, kind_filter 1] = 2"
    by (simp add: smallest_limit_def map_filter_simps filter_new_def kind_filter_def)
  have two: "2 * length [filter_new\<lparr>f_until := Some 35\<rparr>, kind_filter 1] = 4"
    by simp
  have fs: "set [filter_new\<lparr>f_until := Some 35\<rparr>, kind_filter 1] = {filter_new\<lparr>f_until := Some 35\<rparr>, kind_filter 1}"
    by simp
  from sound show ?thesis
    unfolding limit two fs Let_def split_beta append_Nil by blast
qed

text \<open>C26. A REQ is live only after its stored events and EOSE went out: when that phase succeeds, the
  subscription is registered with exactly the client's filters, whatever was under the same id
  before, and the registry stays consistent; when it fails, the registry is untouched and the
  error is returned.\<close>

theorem req_registers_after_eose:
  assumes "reg_wf L (w_registry w)" "hm_get (rg_connections (w_registry w)) (sc_connection_id co) = Some conn"
    "list_all filter_wf fs" "scope_room (cs_subdomain conn) (length fs) (w_registry w)"
  shows "let (res, out') = process_historical_events L D (sc_max_limit co) sid fs authed sc
        (sc_outgoing_sender co) filter_fn (w_db w) (w_outbox w);
      (res', w') = handle_req L D co sid fs authed sc filter_fn w
    in res' = res \<and> w_outbox w' = out' \<and> w_db w' = w_db w \<and> reg_wf L (w_registry w') \<and>
      (if is_ok res
       then conn_table (w_registry w') (cs_subdomain conn) =
         (conn_table (w_registry w) (cs_subdomain conn))((sc_connection_id co, sid) \<mapsto> mset fs)
       else w_registry w' = w_registry w)"
proof -
  obtain res out' where hist: "process_historical_events L D (sc_max_limit co) sid fs authed sc
      (sc_outgoing_sender co) filter_fn (w_db w) (w_outbox w) = (res, out')"
    by fastforce
  have "has_connection (w_registry w) (sc_connection_id co)"
    using assms(2) by (simp add: has_connection_def hm_contains_def)
  then show ?thesis
    using replace_subscription_table [OF assms] assms(1)
    by (cases res) (simp_all add: handle_req_def hist co_add_subscription_eq reg_add_subscription_result Let_def)
qed

definition demo_coordinator :: coordinator where
  "demo_coordinator = \<lparr>sc_connection_id = ''c1'', sc_outgoing_sender = demo_sender 1, sc_max_limit = 2\<rparr>"

theorem req_registers_after_eose_witness:
  "reg_wf demo_lib (w_registry (snd (handle_req demo_lib demo_lmdb demo_coordinator ''s'' [kind_filter 4] None
     ScopeDefault (\<lambda>_ _ _. True) demo_world)))"
proof -
  have "hm_get (rg_connections (w_registry demo_world)) (sc_connection_id demo_coordinator) =
      Some (demo_conn 1 [(''a'', [kind_filter 1])] ScopeDefault)"
    by (simp add: demo_world_def demo_coordinator_def demo_registry_eval)
  moreover have "si_next_filter_id (si_add_subscription demo_lib ''c1'' ''a'' [kind_filter 1] si_new) = 2"
    by (simp add: registry_eval demo_filter_defs)
  ultimately show ?thesis
    using req_registers_after_eose [of demo_lib demo_world demo_coordinator _ "[kind_filter 4]" demo_lmdb "''s''" None
        ScopeDefault "\<lambda>_ _ _. True"] demo_registry_wf
    by (fastforce simp: Let_def split_beta demo_world_def demo_conn_def filter_wf_def demo_filter_defs scope_room_def
        demo_registry_eval index_room_def)
qed

section \<open>Storing and broadcasting\<close>

text \<open>A signed event is broadcast only after it was stored and answered: on success the OK
  message precedes every EVENT of the broadcast and the store holds what the database returned; on
  failure the store and the registry are unchanged and nothing but an OK with the error is sent.\<close>

lemma save_signed_answers_then_broadcasts:
  fixes w :: "'db world"
  shows "let (res, w') = save_and_broadcast L D (SaveSignedEvent e sc (Some (MessageSender ms))) w in
    case db_save_event D e sc (w_db w) of
      (Inr _, db') \<Rightarrow>
        let out1 = snd (send_bypass L ms (RM_Ok (ev_id e) True []) (w_outbox w)) in
        res = Inr () \<and> w_db w' = db' \<and>
        (w_registry w', w_outbox w') = distribute_event L e sc (w_registry w) out1
    | (Inl m, db') \<Rightarrow>
        res = Inl (Internal m) \<and> db' = w_db w \<and> w_db w' = w_db w \<and> w_registry w' = w_registry w \<and>
        w_outbox w' = snd (send_bypass L ms (RM_Ok (ev_id e) False (''Internal error: '' @ m)) (w_outbox w))"
proof -
  obtain r db' where save: "db_save_event D e sc (w_db w) = (r, db')"
    by fastforce
  show ?thesis
  proof (cases r)
    case (Inl m)
    then show ?thesis
      using db_save_event_err [of D e sc "w_db w" m db'] save
      by (simp add: save_and_broadcast_def save_signed_def respond_saved_def Let_def)
  next
    case (Inr u)
    then show ?thesis
      using save by (simp add: save_and_broadcast_def save_signed_def respond_saved_def broadcast_def Let_def split_beta)
  qed
qed

text \<open>An event the relay creates and signs itself (not replaceable) is stored but never broadcast:
  the registry and all channels are exactly as before, so no live subscription sees it.\<close>

lemma save_unsigned_never_broadcasts:
  "let w' = snd (save_and_broadcast L D (SaveUnsignedEvent u sc h) w)
   in w_registry w' = w_registry w \<and> w_outbox w' = w_outbox w"
  by (simp add: save_and_broadcast_def save_unsigned_def Let_def
      split: prod.split sum.split option.split store_command.split)

section \<open>The replaceable-event buffer\<close>

text \<open>C33. Between two flushes the buffer holds, for every author, kind and scope, exactly the last
  replaceable or addressable event received with them, and nothing else.\<close>

theorem buffer_holds_last_event:
  "hm_get (fold (buffer_insert L) ps []) key =
     (case List.filter (\<lambda>p. buffered_kind L (ue_kind (fst p)) \<and> buffer_key p = key) ps of
        [] \<Rightarrow> None
      | qs \<Rightarrow> Some (fst (last qs)))"
  by (simp add: buffer_last_write split: list.split)

text \<open>The key leaves out the \<open>d\<close> tag: two addressable events of one author and kind with different
  identifiers, received between two flushes, leave only the second in the buffer, so the first is
  never signed nor stored.\<close>

lemma buffer_drops_other_identifiers:
  assumes "is_addressable_kind L (ue_kind u1)" "ue_kind u2 = ue_kind u1" "ue_pubkey u2 = ue_pubkey u1"
  shows "fold (buffer_insert L) [(u1, sc), (u2, sc)] [] = [(buffer_key (u1, sc), u2)]"
  using assms by (simp add: buffer_insert_eq buffered_kind_def buffer_key_def)

definition demo_unsigned :: "kind \<Rightarrow> string \<Rightarrow> unsigned_event" where
  "demo_unsigned k d = \<lparr>ue_pubkey = 7, ue_created_at = 100, ue_kind = k,
     ue_tags = [\<lparr>tag_kind = TagOther ''d'', tag_content = Some d, tag_slice = [''d'', d], tag_standardized = None\<rparr>],
     ue_content = ''x''\<rparr>"

text \<open>The buffer task: from an empty buffer, whatever it receives and whenever its timer fires, the
  buffer has one entry per key, filed under the key of its event and of a buffered kind; a flush
  empties it.\<close>

lemma buffer_task_invariant:
  assumes "(buffer_step L D)\<^sup>*\<^sup>* (Some [], w) (Some b, w')"
  shows "buffer_wf L b \<and> fst (buffer_flush L D b w') = []"
proof -
  have "(\<forall>b. fst s = Some b \<longrightarrow> buffer_wf L b)" if "(buffer_step L D)\<^sup>*\<^sup>* (Some [], w) s" for s
    using that
  proof (induction rule: rtranclp_induct)
    case base
    then show ?case
      by (simp add: buffer_wf_Nil)
  next
    case (step s s')
    then show ?case
      by (cases s; cases s') (auto elim: buffer_step.cases dest!: buffer_step_wf)
  qed
  then show ?thesis
    using assms by (auto simp: buffer_flush_empty)
qed

lemma buffer_task_invariant_example:
  "buffer_wf demo_lib [((7, 30000, ScopeDefault), demo_unsigned 30000 ''a'')]"
proof -
  let ?w = "demo_world\<lparr>w_queue := [(demo_unsigned 30000 ''a'', ScopeDefault)]\<rparr>"
  have "(buffer_step demo_lib demo_lmdb)\<^sup>*\<^sup>* (Some [], ?w)
      (Some (buffer_insert demo_lib (demo_unsigned 30000 ''a'', ScopeDefault) []), ?w\<lparr>w_queue := []\<rparr>)"
    by (rule r_into_rtranclp, rule buffer_step.recv) simp
  from buffer_task_invariant [OF this] show ?thesis
    by (simp add: buffer_insert_def demo_unsigned_def demo_lib_def)
qed

end
