(* ===== verification/Middleware_Properties.thy ===== *)
theory Middleware_Properties
  imports Middlewares Subscription_Coordinator_Properties
begin

text \<open>
  The properties of the per-connection state, of the middleware chain, and of the single
  middlewares.
\<close>

section \<open>A sample connection\<close>

definition demo_state :: "(unit, unit) conn_state" where
  "demo_state = (state_with_custom ())\<lparr>ct_challenge := Some ''ch'', ct_max_subscriptions := Some 1,
     ct_coordinator := Some \<lparr>sc_connection_id = ''c1'', sc_outgoing_sender = demo_sender 1, sc_max_limit = 10\<rparr>\<rparr>"

definition demo_env :: "(unit, unit, event list, unit) env" where
  "demo_env = \<lparr>en_connection_id = ''c1'', en_state = demo_state,
     en_meta = \<lparr>md_relay_url = ''ws://relay.example.com'', md_subdomain = ScopeDefault\<rparr>,
     en_context = \<lparr>cx_authed_pubkey = None, cx_subdomain = ScopeDefault, cx_relay_pubkey = 1\<rparr>,
     en_world = demo_world, en_now = 1000, en_instant = 0, en_challenge = ''fresh'', en_limiter = (),
     en_metrics = [], en_timing = []\<rparr>"

lemma demo_env_simps [simp]:
  "en_connection_id demo_env = ''c1''" "en_state demo_env = demo_state" "en_world demo_env = demo_world"
  "en_now demo_env = 1000" "w_outbox demo_world = []" "w_db demo_world = demo_stored"
  "en_meta demo_env = \<lparr>md_relay_url = ''ws://relay.example.com'', md_subdomain = ScopeDefault\<rparr>"
  "en_context demo_env = \<lparr>cx_authed_pubkey = None, cx_subdomain = ScopeDefault, cx_relay_pubkey = 1\<rparr>"
  by (simp_all add: demo_env_def demo_world_def)

lemma demo_state_simps [simp]:
  "ct_challenge demo_state = Some ''ch''" "ct_authed_pubkey demo_state = None" "ct_max_subscriptions demo_state = Some 1"
  "ct_quota_usage demo_state = []" "ct_custom demo_state = ()"
  "ct_coordinator demo_state = Some \<lparr>sc_connection_id = ''c1'', sc_outgoing_sender = demo_sender 1, sc_max_limit = 10\<rparr>"
  by (simp_all add: demo_state_def state_with_custom_def)

definition tag_of :: "tag_standard \<Rightarrow> tag" where
  "tag_of x = \<lparr>tag_kind = (if x = StdProtected then TagProtected else TagOther ''x''), tag_content = None,
     tag_slice = [], tag_standardized = Some x\<rparr>"

section \<open>The subscription quota\<close>

definition quota_run :: "(subscription_id + subscription_id) list \<Rightarrow> ('t, 'n) conn_state \<Rightarrow> ('t, 'n) conn_state" where
  "quota_run ops st = fold (\<lambda>op st. case op of
     Inl sid \<Rightarrow> snd (reserve_quota_slot sid st) | Inr sid \<Rightarrow> snd (release_quota_slot sid st)) ops st"

lemma quota_run_slots: "quota_run ops st = fold quota.slot_step ops st"
proof -
  have "quota.slot_step = (\<lambda>op (st :: ('a, 'b) conn_state). case op of
     Inl sid \<Rightarrow> snd (reserve_quota_slot sid st) | Inr sid \<Rightarrow> snd (release_quota_slot sid st))"
    by (auto simp: fun_eq_iff split: sum.splits)
  then show ?thesis
    by (simp add: quota_run_def)
qed

text \<open>C35. Whatever sequence of reservations (\<open>Inl\<close>) and releases (\<open>Inr\<close>) a fresh connection with a
  limit goes through, it never holds more subscriptions than the limit, no id twice; and when an
  id is released, any id can be reserved next.\<close>

theorem quota_never_exceeded:
  assumes "st = quota_run ops ((state_with_custom t)\<lparr>ct_max_subscriptions := Some m\<rparr>)"
  shows "subscription_count st \<le> m \<and> distinct (ct_quota_usage st) \<and>
    (sid \<in> set (ct_quota_usage st) \<longrightarrow> is_ok (fst (reserve_quota_slot sid' (snd (release_quota_slot sid st)))))"
proof -
  have "quota.within_cap ((state_with_custom t)\<lparr>ct_max_subscriptions := Some m\<rparr>)"
    by (simp add: quota.within_cap_def quota_invar_def state_with_custom_def)
  then have w: "quota.within_cap st" "ct_max_subscriptions st = Some m"
    using quota.within_cap_run [of _ ops] unfolding assms quota_run_slots by (force simp: state_with_custom_def)+
  then show ?thesis
    using quota.release_then_reserve [of st sid sid']
    by (auto simp: quota.within_cap_def quota_invar_def subscription_count_def distinct_card)
qed

theorem quota_never_exceeded_witness:
  "let st = quota_run [Inl ''a'', Inl ''b'', Inl ''c'', Inr ''a'']
        ((state_with_custom () :: (unit, unit) conn_state)\<lparr>ct_max_subscriptions := Some 2\<rparr>)
   in ct_quota_usage st = [''b''] \<and> subscription_count st \<le> 2"
  using quota_never_exceeded [OF refl, where ops = "[Inl ''a'', Inl ''b'', Inl ''c'', Inr ''a'']"
      and t = "() :: unit" and m = 2 and sid = "''b''" and sid' = "''c''"]
  by (simp add: quota_run_def reserve_quota_slot_def release_quota_slot_def state_with_custom_def Let_def)

section \<open>The chain\<close>

text \<open>C36. Routing of outgoing messages. In the chain built by adding the middlewares \<open>mws\<close> one after
  the other, a message sent from position \<open>p\<close> is processed by exactly the middlewares that were
  added as number \<open>p\<close> and later, in that order (from the sender outwards), each with the sender
  of its own position, stopping at the first error.\<close>

theorem chain_outbound_route:
  "process_outbound_chain (build_connected ch (cb_chain (fold builder_with mws builder_new))) p m e =
     run_outbound (map (\<lambda>i. (mws ! i, i, \<lparr>ms_channel = ch, ms_position = i\<rparr>)) [p..<length mws]) m e"
  by (rule outbound_route)

text \<open>A message sent with \<open>send_bypass\<close> from position \<open>p\<close> does not skip the outbound processing of
  its own middleware: it is processed by the middlewares from position \<open>p - 1\<close> on, its own
  included.\<close>

lemma send_bypass_processes_own_outbound:
  assumes "p < length mws" "send_bypass L \<lparr>ms_channel = ch, ms_position = p\<rparr> msg out = (Inr (), out')"
  shows "\<exists>from. out' = out @ [(ch, msg, from, None)] \<and>
    process_outbound_chain (build_connected ch (cb_chain (fold builder_with mws builder_new))) from (Some msg) e =
      run_outbound (map (\<lambda>i. (mws ! i, i, \<lparr>ms_channel = ch, ms_position = i\<rparr>)) ([p - 1..<p] @ [p..<length mws]))
        (Some msg) e"
proof -
  have "out' = out @ [(ch, msg, p - 1, None)]"
    using assms(2) by (cases rule: try_send_entry_cases [of L ch "(msg, p - 1, None)" out])
      (auto simp: send_bypass_def Let_def split: if_splits)
  moreover have "[p - 1..<p] @ [p..<length mws] = [p - 1..<length mws]"
    using assms(1) by (metis diff_le_self le_Suc_ex less_imp_le upt_add_eq_append)
  ultimately show ?thesis
    by (intro exI [of _ "p - 1"]) (simp only: outbound_route)
qed

section \<open>Error handling\<close>

text \<open>What a client is to be told, by the wire rules and not by the code: a refused EVENT or AUTH is answered by OK with the
  event's id, a refused REQ, CLOSE or NEG message by CLOSED with its subscription id; the reason begins with the prefix of the
  error's kind. An error that names an event or a subscription of its own is answered for that one, and a notice
  by NOTICE. There is no answer to COUNT and to a text that is no message.\<close>

inductive refusal :: "client_message \<Rightarrow> string \<Rightarrow> relay_message \<Rightarrow> bool" where
  "refusal (CM_Event ev) why (RM_Ok (ev_id ev) False why)"
| "refusal (CM_Auth ev) why (RM_Ok (ev_id ev) False why)"
| "refusal (CM_Req sid fs) why (RM_Closed sid why)"
| "refusal (CM_Close sid) why (RM_Closed sid why)"
| "refusal (CM_NegOpen sid f k t) why (RM_Closed sid why)"
| "refusal (CM_NegMsg sid t) why (RM_Closed sid why)"
| "refusal (CM_NegClose sid) why (RM_Closed sid why)"

inductive error_answer :: "error \<Rightarrow> client_message \<Rightarrow> relay_message \<Rightarrow> bool" where
  "refusal cm (''auth-required: '' @ t) r \<Longrightarrow> error_answer (AuthRequired t) cm r"
| "refusal cm (''restricted: '' @ t) r \<Longrightarrow> error_answer (Restricted t) cm r"
| "refusal cm (''duplicate: '' @ t) r \<Longrightarrow> error_answer (Duplicate t) cm r"
| "refusal cm (''error: Internal error: '' @ t) r \<Longrightarrow> error_answer (Internal t) cm r"
| "refusal cm (''error: WebSocket error: '' @ t) r \<Longrightarrow> error_answer (WebSocket t) cm r"
| "refusal cm (''error: Database error: '' @ t) r \<Longrightarrow> error_answer (Database t) cm r"
| "refusal cm (''error: Protocol error: '' @ t) r \<Longrightarrow> error_answer (Protocol t) cm r"
| "refusal cm t r \<Longrightarrow> error_answer (Notice t) cm (RM_Notice t)"
| "refusal cm t r \<Longrightarrow> error_answer (EventError t eid) cm (RM_Ok eid False (''error: '' @ t))"
| "refusal cm t r \<Longrightarrow> error_answer (SubscriptionError t sid) cm (RM_Closed sid (''error: '' @ t))"

inductive_simps refusal_simps [simp]:
  "refusal (CM_Event ev) why r" "refusal (CM_Auth ev) why r" "refusal (CM_Req sid fs) why r" "refusal (CM_Close sid) why r"
  "refusal (CM_NegOpen sid f k t) why r" "refusal (CM_NegMsg sid t) why r" "refusal (CM_NegClose sid) why r"
  "refusal (CM_Count sid f) why r"

inductive_simps error_answer_simps [simp]:
  "error_answer (AuthRequired t) cm r" "error_answer (Restricted t) cm r" "error_answer (Duplicate t) cm r"
  "error_answer (Internal t) cm r" "error_answer (WebSocket t) cm r" "error_answer (Database t) cm r"
  "error_answer (Protocol t) cm r" "error_answer (Notice t) cm r" "error_answer (EventError t eid) cm r"
  "error_answer (SubscriptionError t eid) cm r"

lemma refusal_answerable [simp]: "(\<exists>r. refusal cm why r) \<longleftrightarrow> \<not> (\<exists>sid f. cm = CM_Count sid f)"
  by (cases cm) (auto intro: refusal.intros)

text \<open>The code's two tables give exactly these answers.\<close>

lemma inbound_error_message_answers:
  "(case message_id_of (Some cm) of
      Some i \<Rightarrow> error_answer err cm r \<longleftrightarrow> r = inbound_error_message err i
    | None \<Rightarrow> \<not> error_answer err cm r)"
  by (cases cm; cases err) (simp_all add: message_id_of_def inbound_error_message_def reject_def)

lemma message_id_of_answerable: "message_id_of (Some cm) = None \<longleftrightarrow> (\<exists>sid f. cm = CM_Count sid f)"
  by (cases cm) (simp_all add: message_id_of_def)

text \<open>C37. The error-handling middleware never fails and leaves what the rest of the chain did as it is. It adds at most one
  message: when the rest failed with a relay error and the client's message is answerable (any message but COUNT), then the
  answer that \<open>error_answer\<close> gives for the error and the message is put into the connection's channel, unless the channel
  does not take it; in every other case nothing is sent.\<close>

theorem error_handling_answers_errors:
  "case nxt m e of (r, m', e') \<Rightarrow>
     (case error_handling_inbound L ms nxt m e of (r2, m2, e2) \<Rightarrow>
        r2 = Inr () \<and> m2 = m' \<and> en_state e2 = en_state e' \<and> en_context e2 = en_context e' \<and>
        w_db (en_world e2) = w_db (en_world e') \<and> w_registry (en_world e2) = w_registry (en_world e') \<and>
        (case (r, m) of
           (Inl (FromError err), Some cm) \<Rightarrow>
             if \<exists>sid f. cm = CM_Count sid f then e2 = e'
             else (\<exists>reply sent. error_answer err cm reply \<and> env_outbox e2 = env_outbox e' @ sent \<and>
               set sent \<subseteq> {(ms_channel ms, reply, ms_position ms, None)} \<and>
               length sent \<le> 1 \<and> (try_send L (env_outbox e') (ms_channel ms) = Sent \<longrightarrow> sent \<noteq> []))
         | _ \<Rightarrow> e2 = e'))"
proof -
  obtain r m' e' where n: "nxt m e = (r, m', e')"
    by (cases "nxt m e")
  have unanswered: "error_handling_inbound L ms nxt m e = (Inr (), m', e')"
    if "downcast_error x = None \<or> message_id_of m = None" "r = Inl x" for x
    using that n by (auto simp: error_handling_inbound_def split: option.splits)
  consider (ok) "r = Inr ()" | (foreign) t where "r = Inl (AnyhowMsg t)" | (nothing) err where "r = Inl (FromError err)" "m = None"
    | (count) err cm where "r = Inl (FromError err)" "m = Some cm" "\<exists>sid f. cm = CM_Count sid f"
    | (answer) err cm i where "r = Inl (FromError err)" "m = Some cm" "\<not> (\<exists>sid f. cm = CM_Count sid f)" "message_id_of m = Some i"
    using message_id_of_answerable by (cases r; cases m) (metis anyhow_error.exhaust old.unit.exhaust not_Some_eq)+
  then show ?thesis
  proof cases
    case answer
    have "error_answer err cm (inbound_error_message err i)"
      using inbound_error_message_answers [of err cm "inbound_error_message err i"] answer by simp
    then show ?thesis
      using n answer
      by (cases rule: env_send_cases [of L ms "inbound_error_message err i" e'])
        (auto simp: error_handling_inbound_def handle_inbound_error_def downcast_error_def env_send_def send_def
          try_send_entry_def)
  next
    case ok
    then show ?thesis
      using n by (simp add: error_handling_inbound_def)
  next
    case (foreign t)
    then show ?thesis
      using n unanswered [of "AnyhowMsg t"] by (simp add: downcast_error_def)
  next
    case (nothing err)
    then show ?thesis
      using n unanswered [of "FromError err"] by (simp add: message_id_of_def)
  next
    case (count err cm)
    then show ?thesis
      using n unanswered [of "FromError err"] message_id_of_answerable [of cm] by simp
  qed
qed

theorem error_handling_answers_errors_witness:
  "env_outbox (snd (snd (error_handling_inbound demo_lib (demo_sender 1)
      (\<lambda>m e. (Inl (FromError (Restricted ''quota'')), m, e)) (Some (CM_Req ''s'' [])) demo_env))) =
    [(1, RM_Closed ''s'' ''restricted: quota'', 0, None)]"
proof -
  have "sent = [x]" if "set sent \<subseteq> {x}" "length sent \<le> 1" "sent \<noteq> []" for sent and x :: "channel \<times> outbound"
    using that by (cases sent) auto
  then show ?thesis
    using error_handling_answers_errors [where nxt = "\<lambda>m e. (Inl (FromError (Restricted ''quota'')), m, e)"
        and m = "Some (CM_Req ''s'' [])" and e = demo_env and L = demo_lib and ms = "demo_sender 1"]
    by (auto simp: demo_sender_def split: prod.splits)
qed

section \<open>NIP-42\<close>

definition auth_valid :: "nostr_lib \<Rightarrow> auth_config \<Rightarrow> ('t, 'n, 'db, 'l) env \<Rightarrow> event \<Rightarrow> bool" where
  "auth_valid L ac e ev \<longleftrightarrow> (\<exists>challenge url. ct_challenge (en_state e) = Some challenge \<and> ev_kind ev = 22242 \<and>
     event_verify L ev = Inr () \<and> find_map tag_challenge (ev_tags ev) = Some challenge \<and>
     find_map tag_relay (ev_tags ev) = Some url \<and>
     validate_relay_url L ac (relay_url_str L url) (md_subdomain (en_meta e)) \<and>
     en_now e \<le> ev_created_at ev + 600)"

lemma auth_failure_None: "auth_failure L ac e ev = None \<longleftrightarrow> auth_valid L ac e ev"
  by (auto simp: auth_failure_def auth_valid_def is_ok_iff split: option.splits if_splits)

text \<open>C29. A connection is authenticated by an AUTH message exactly when the event has the right kind
  and a valid signature, carries the pending challenge and a relay URL that fits the connection,
  and is not older than ten minutes. Then the key and the event context are set and the challenge
  is used up, so that no second AUTH can succeed; otherwise nothing changes but the messages sent,
  and the error is passed on.\<close>

theorem nip42_authenticates_exactly_valid:
  "case nip42_inbound L ac ms next (Some (CM_Auth ev)) e of (r, m, e') \<Rightarrow>
     (if auth_valid L ac e ev then
        ct_authed_pubkey (en_state e') = Some (ev_pubkey ev) \<and> cx_authed_pubkey (en_context e') = Some (ev_pubkey ev) \<and>
        cx_subdomain (en_context e') = cx_subdomain (en_context e) \<and>
        ct_challenge (en_state e') = None \<and> (\<forall>ev'. \<not> auth_valid L ac e' ev')
      else en_state e' = en_state e \<and> en_context e' = en_context e \<and> \<not> is_ok r) \<and>
     w_db (en_world e') = w_db (en_world e) \<and> w_registry (en_world e') = w_registry (en_world e)"
proof (cases "auth_failure L ac e ev")
  case None
  let ?e1 = "e\<lparr>en_state := (en_state e)\<lparr>ct_authed_pubkey := Some (ev_pubkey ev), ct_challenge := None\<rparr>,
    en_context := \<lparr>cx_authed_pubkey = Some (ev_pubkey ev), cx_subdomain = cx_subdomain (en_context e),
      cx_relay_pubkey = cx_relay_pubkey (en_context e)\<rparr>\<rparr>"
  have "auth_valid L ac e ev"
    using None by (simp add: auth_failure_None)
  then show ?thesis
    using None
    by (cases rule: env_send_cases [of L ms "RM_Ok (ev_id ev) True ''authenticated''" ?e1])
      (simp_all add: nip42_inbound_def nip42_auth_def set_authenticated_def auth_valid_def)
next
  case (Some p)
  then have "\<not> auth_valid L ac e ev"
    by (metis auth_failure_None option.distinct(1))
  then show ?thesis
    using Some
    by (cases p; cases rule: env_send_cases [of L ms "RM_Ok (ev_id ev) False (fst p)" e])
      (simp_all add: nip42_inbound_def nip42_auth_def)
qed

text \<open>A rejected AUTH is answered twice: the authentication middleware sends an OK message itself
  and also returns an error, for which the error-handling middleware around it sends another OK
  message with the same event id.\<close>

lemma nip42_rejection_answered_twice:
  assumes "try_send L = (\<lambda>_ _. Sent)" "\<not> auth_valid L ac e ev"
  shows "\<exists>a b. env_outbox (snd (snd (error_handling_inbound L ms2 (nip42_inbound L ac ms1 next) (Some (CM_Auth ev)) e))) =
    env_outbox e @ [(ms_channel ms1, RM_Ok (ev_id ev) False (''auth-required: '' @ a), ms_position ms1, None),
                    (ms_channel ms2, RM_Ok (ev_id ev) False (''auth-required: '' @ b), ms_position ms2, None)]"
proof -
  have "\<exists>a b. auth_failure L ac e ev = Some (''auth-required: '' @ a, b)"
    using assms(2) unfolding auth_failure_None [symmetric]
    by (auto simp: auth_failure_def split: option.splits if_splits)
  then obtain a b where "auth_failure L ac e ev = Some (''auth-required: '' @ a, b)"
    by blast
  then show ?thesis
    by (simp add: error_handling_inbound_def nip42_inbound_def nip42_auth_def env_send_ok [OF assms(1)]
        downcast_error_def handle_inbound_error_def message_id_of_def inbound_error_message_def reject_def)
qed

text \<open>The relay URL of an AUTH event, away from localhost: with subdomain checking, it is accepted
  exactly when its host is the relay's own host (for a connection in the default scope) or the
  connection's subdomain, a dot, and the relay's host (for a named scope).\<close>

lemma validate_relay_url_exact_host:
  assumes far: "\<not> str_contains url ''localhost''" "\<not> str_contains url ''127.0.0.1''"
      "\<not> str_contains (ac_relay_url ac) ''localhost''" "\<not> str_contains (ac_relay_url ac) ''127.0.0.1''"
    and hosts: "url_host_str L url = Some client_host" "url_host_str L (ac_relay_url ac) = Some relay_host"
    and name: "client_host \<noteq> ''localhost''" "\<not> parse_ip_addr_ok client_host" "CHR '':'' \<notin> set client_host"
    and strict: "ac_validate_subdomains ac"
  shows "validate_relay_url L ac url sc \<longleftrightarrow>
    client_host = (case sc of ScopeDefault \<Rightarrow> relay_host | ScopeNamed s \<Rightarrow> s @ ''.'' @ relay_host)"
proof -
  let ?cp = "str_split CHR ''.'' client_host" and ?rp = "str_split CHR ''.'' relay_host"
  let ?k = "length ?cp - length ?rp"
  have sub: "extract_subdomain client_host (length ?rp) =
      (if length ?cp \<le> length ?rp then None else Some (str_join ''.'' (take ?k ?cp)))"
    using name str_split_simple [OF name(3)] by (simp add: extract_subdomain_def Let_def)
  have sub_Some: "extract_subdomain client_host (length ?rp) = Some s \<longleftrightarrow>
      length ?rp < length ?cp \<and> str_join ''.'' (take ?k ?cp) = s" for s
    unfolding sub by auto
  have base: "str_join ''.'' (drop ?k ?cp) = relay_host \<longleftrightarrow> drop ?k ?cp = ?rp"
  proof
    assume "str_join ''.'' (drop ?k ?cp) = relay_host"
    moreover have "drop ?k ?cp \<noteq> []"
      using length_greater_0_conv [of ?rp] length_greater_0_conv [of ?cp] by (simp add: not_le)
    ultimately show "drop ?k ?cp = ?rp"
      by (metis in_set_dropD list_all_iff str_split_join str_split_parts)
  qed (simp add: str_join_split)
  have valid: "validate_relay_url L ac url sc \<longleftrightarrow> drop ?k ?cp = ?rp \<and>
      (case sc of ScopeNamed s \<Rightarrow> extract_subdomain client_host (length ?rp) = Some s
       | ScopeDefault \<Rightarrow> extract_subdomain client_host (length ?rp) = None)"
    using far strict by (auto simp: validate_relay_url_def hosts Let_def str_join_split base
        split: scope.splits option.splits)
  show ?thesis
  proof (cases sc)
    case ScopeDefault
    have "drop ?k ?cp = ?rp \<and> length ?cp \<le> length ?rp \<longleftrightarrow> client_host = relay_host"
      by (metis (no_types, lifting) diff_is_0_eq drop0 order_refl str_join_split)
    then show ?thesis
      unfolding valid using ScopeDefault by (auto simp: sub)
  next
    case (ScopeNamed s)
    have "client_host = s @ ''.'' @ relay_host"
      if "drop ?k ?cp = ?rp" "length ?rp < length ?cp" "str_join ''.'' (take ?k ?cp) = s"
    proof -
      have "client_host = str_join ''.'' (take ?k ?cp @ ?rp)"
        using that(1) by (metis append_take_drop_id str_join_split)
      then show ?thesis
        using that(2,3) str_join_append [of "take ?k ?cp" ?rp "''.''"] by (simp add: str_join_split)
    qed
    moreover have "drop ?k ?cp = ?rp \<and> length ?rp < length ?cp \<and> str_join ''.'' (take ?k ?cp) = s"
      if "client_host = s @ ''.'' @ relay_host"
      using that by (simp add: str_split_concat str_join_split)
    ultimately have "client_host = s @ ''.'' @ relay_host \<longleftrightarrow>
        drop ?k ?cp = ?rp \<and> length ?rp < length ?cp \<and> str_join ''.'' (take ?k ?cp) = s"
      by blast
    then show ?thesis
      using valid unfolding ScopeNamed scope.case sub_Some by blast
  qed
qed

section \<open>NIP-70\<close>

text \<open>A protected event goes on along the chain exactly when the connection is authenticated as
  its author. Otherwise the rest of the chain is never reached (the result is the same whatever it
  would do), nothing is stored, and the client gets an error or an OK message with status false.\<close>

lemma nip70_protected_only_by_author:
  assumes "find_standardized L (ev_tags ev) TagProtected \<noteq> None"
  shows "if ct_authed_pubkey (en_state e) = Some (ev_pubkey ev)
    then nip70_inbound L ms nxt (Some (CM_Event ev)) e = nxt (Some (CM_Event ev)) e
    else case nip70_inbound L ms nxt (Some (CM_Event ev)) e of (r, m, e') \<Rightarrow>
      (\<forall>nxt'. nip70_inbound L ms nxt' (Some (CM_Event ev)) e = (r, m, e')) \<and>
      w_db (en_world e') = w_db (en_world e) \<and> w_registry (en_world e') = w_registry (en_world e) \<and>
      en_state e' = en_state e \<and>
      (\<not> is_ok r \<or> (\<exists>msg. env_outbox e' =
         env_outbox e @ [(ms_channel ms, RM_Ok (ev_id ev) False msg, ms_position ms, None)]))"
proof -
  obtain y where y: "find_standardized L (ev_tags ev) TagProtected = Some y"
    using assms by blast
  show ?thesis
  proof (cases "ct_authed_pubkey (en_state e)")
    case None
    then show ?thesis
      using y by (simp add: nip70_inbound_def)
  next
    case (Some pk)
    show ?thesis
      by (cases rule: env_send_cases [of L ms
            "RM_Ok (ev_id ev) False ''rejected: this event may only be published by its author''" e])
        (use y Some in \<open>simp_all add: nip70_inbound_def\<close>)
  qed
qed

section \<open>NIP-40\<close>

text \<open>An expired EVENT is not dropped: the deletion of its id is the only thing the expiration
  middleware does before it passes the same message to the rest of the chain, and it sends no
  OK message.\<close>

lemma nip40_expired_event_passes_inbound:
  assumes "expired (en_now e) ev"
  shows "\<exists>e'. (\<forall>nxt. nip40_inbound L D ms nxt (Some (CM_Event ev)) e = nxt (Some (CM_Event ev)) e') \<and>
    env_outbox e' = env_outbox e \<and> en_state e' = en_state e \<and>
    w_db (en_world e') = (if ct_coordinator (en_state e) = None then w_db (en_world e)
      else snd (db_delete D (filter_new\<lparr>f_ids := Some [ev_id ev]\<rparr>) (md_subdomain (en_meta e)) (w_db (en_world e))))"
  using assms
  by (intro exI [of _ "delete_expired L D ev e"])
    (simp add: nip40_inbound_def delete_expired_def save_and_broadcast_def delete_events_def reply_def Let_def
      split_beta split: option.splits)

end
