(* ===== verification/Relay_Properties.thy ===== *)
theory Relay_Properties
  imports Relay_System Relay_Diagnostics Websocket_Connection Middleware_Properties
begin

text \<open>
  The properties of the assembled relay: the chain that the builder makes, what a connection does
  with a message from the text that arrives to the bytes that leave, the life of a socket, and the
  consistency of the whole system.
\<close>

section \<open>A sample relay\<close>

definition demo_negentropy :: "(unit, unit) negentropy_lib" where
  "demo_negentropy = \<lparr>ng_storage_new = (), ng_insert = (\<lambda>_ _ _. Inr ()), ng_seal = (\<lambda>_. Inr ()),
     ng_owned = (\<lambda>_ _. Inr ()), ng_reconcile = (\<lambda>n bs. (Inr bs, n)), hex_decode = (\<lambda>_. Inr []),
     hex_encode = (\<lambda>_. [])\<rparr>"

definition demo_processor :: "unit event_processor" where
  "demo_processor = default_processor\<lparr>ep_can_see_event := (\<lambda>ev _ cx.
     Inr (ev_kind ev \<noteq> 4 \<or> cx_authed_pubkey cx = Some (ev_pubkey ev)))\<rparr>"

definition demo_builder :: "unit event_processor \<Rightarrow> (unit, event list, unit) relay_builder" where
  "demo_builder P = set_event_processor P
     (relay_builder_new (relay_config_new ''wss://relay.example.com'' (DbInstance demo_stored) 1))"

definition demo_opener :: "event list db_opener" where
  "demo_opener = (\<lambda>_ _ _. Inl (Database ''no such path''))"

definition demo_factory ::
  "nostr_lib \<Rightarrow> event list lmdb \<Rightarrow> unit event_processor \<Rightarrow> (unit, unit, event list, unit) env middleware handler_factory"
  where
  "demo_factory L D P = \<lparr>hf_chain = cb_chain (final_chain L (demo_builder P)
       (builder_with (relay_mw L D demo_negentropy (relay_middleware_of (demo_builder P))) builder_new)),
     hf_scope_config = Disabled, hf_channel_size = 250250, hf_relay_pubkey = 1\<rparr>"

definition demo_fresh_world :: "event list world" where
  "demo_fresh_world = \<lparr>w_registry = registry_new False, w_outbox = [], w_db = demo_stored,
     w_crypto = crypto_new, w_queue = [], w_queue_open = True, w_oneshots = []\<rparr>"

lemma demo_build:
  "build_with L D demo_negentropy demo_opener (\<lambda>_. True) False (\<lambda>cb. cb) (demo_builder P) =
     Some (Inr (demo_factory L D P, demo_fresh_world, False))"
  by (simp add: build_with_def build_database_def demo_factory_def demo_fresh_world_def demo_builder_def
      set_event_processor_def relay_builder_new_def relay_config_new_def calculate_channel_size_def)

lemma demo_builder_simps [simp]:
  "\<not> rb_without_defaults (demo_builder P)" "rb_event_processor (demo_builder P) = P"
  "\<not> rb_enable_metrics (demo_builder P)"
  by (simp_all add: demo_builder_def set_event_processor_def relay_builder_new_def)

text \<open>A library that reads every text as the message \<open>m\<close>, and a connection of the sample relay.\<close>

definition reading :: "client_message \<Rightarrow> nostr_lib" where
  "reading m = demo_lib\<lparr>from_json := (\<lambda>_. Inr m)\<rparr>"

lemma reading_simps [simp]:
  "from_json (reading m) inp = Inr m" "try_send (reading m) = (\<lambda>_ _. Sent)" "event_verify (reading m) ev = Inr ()"
  by (simp_all add: reading_def demo_lib_def)

definition demo_connection ::
  "nostr_lib \<Rightarrow> event list lmdb \<Rightarrow> unit event_processor \<Rightarrow> (unit, unit, event list, unit) env middleware nostr_connection" where
  "demo_connection L D P = (create L (demo_factory L D P) 1 None)\<lparr>nc_addr := Some ''c1'',
     nc_connected_chain := Some (build_connected 1 (hf_chain (demo_factory L D P)))\<rparr>"

lemma demo_connection_simps [simp]: "nc_channel (demo_connection L D P) = 1" "nc_addr (demo_connection L D P) = Some ''c1''"
  by (simp_all add: demo_connection_def create_def)

section \<open>The default chain\<close>

lemma build_with_chain:
  assumes "build_with L D N opener url_ok global_set (\<lambda>cb. cb) b = Some (Inr (F, w, diag))"
  shows "hf_chain F = cb_chain (final_chain L b (builder_with (relay_mw L D N (relay_middleware_of b)) builder_new))"
    and "hf_scope_config F = rc_scope_config (rb_config b)"
    and "hf_channel_size F = calculate_channel_size (rb_config b)"
  using assms by (auto simp: build_with_def Let_def split: if_splits sum.splits)

definition default_links ::
  "nostr_lib \<Rightarrow> 'db lmdb \<Rightarrow> ('n, 's) negentropy_lib \<Rightarrow> ('t, 'd, 'i) relay_builder \<Rightarrow> ('t, 'n, 'db, 'l) env middleware list" where
  "default_links L D N b = [relay_mw L D N (relay_middleware_of b), metrics_layer b,
     if rc_enable_auth (rb_config b)
     then either_middleware (LeftM (nip42_middleware L (auth_with_url (rc_relay_url (rb_config b)))))
     else either_middleware (RightM identity_middleware),
     either_middleware (LeftM (error_handling_middleware L)), either_middleware (LeftM logger_middleware)]"

lemma final_chain_default:
  "\<not> rb_without_defaults b \<Longrightarrow>
   final_chain L b (builder_with (relay_mw L D N (relay_middleware_of b)) builder_new) =
     fold builder_with (default_links L D N b) builder_new"
  by (simp add: final_chain_def default_links_def Let_def)

lemma relay_outbound_env: "snd (snd (relay_outbound R ms m e)) = e"
  by (simp add: relay_outbound_def split: option.split relay_message.split sum.split bool.split)

lemma metrics_layer_outbound:
  "\<forall>eid st t. m \<noteq> Some (RM_Ok eid st t) \<Longrightarrow> mw_process_outbound (metrics_layer b) ms m e = (Inr (), m, e)"
  by (auto simp: metrics_layer_def either_middleware_def metrics_middleware_def metrics_outbound_def identity_middleware_def
      default_middleware_def split: option.split relay_message.split)

lemma default_layers_outbound:
  "mw_process_outbound (either_middleware (LeftM (nip42_middleware L ac))) ms m e = (Inr (), m, e)"
  "mw_process_outbound (either_middleware (LeftM (error_handling_middleware L))) ms m e = (Inr (), m, e)"
  "mw_process_outbound (either_middleware (LeftM logger_middleware)) ms m e = (Inr (), m, e)"
  "mw_process_outbound (either_middleware (RightM identity_middleware)) ms m e = (Inr (), m, e)"
  by (simp_all add: either_middleware_def middleware_defs identity_middleware_def)

text \<open>C2. Visibility. Whatever the relay's own event processor decides, in the relay that the builder
  makes by default an EVENT message from the relay middleware (stored events and live ones alike)
  reaches the socket exactly when the processor lets the connection see the event at that moment,
  and then unchanged; an error of the processor counts as hidden.\<close>

theorem relay_hides_invisible_events:
  assumes "build_with L D N opener url_ok global_set (\<lambda>cb. cb) b = Some (Inr (F, w, diag))"
    "\<not> rb_without_defaults b"
  shows "process_entry (build_connected ch (hf_chain F)) (RM_Event sid ev, 0, json) e =
    (if visible (rb_event_processor b) (ct_custom (en_state e)) (en_context e) ev
     then [(RM_Event sid ev, json)] else [], e)"
  using assms
  by (simp add: process_entry_def build_with_chain(1) [OF assms(1)] final_chain_default outbound_route)
    (auto simp: default_links_def upt_rec relay_mw_def relay_outbound_def visible_def relay_middleware_of_def
      metrics_layer_outbound default_layers_outbound json_to_use_def split: sum.splits bool.splits)

theorem relay_hides_invisible_events_witness:
  "process_entry (build_connected 1 (hf_chain (demo_factory demo_lib demo_lmdb demo_processor))) (RM_Event ''s'' (demo_event 5 7 4), 0, None) demo_env =
     ([], demo_env) \<and>
   process_entry (build_connected 1 (hf_chain (demo_factory demo_lib demo_lmdb demo_processor))) (RM_Event ''s'' (demo_event 5 7 1), 0, None) demo_env =
     ([(RM_Event ''s'' (demo_event 5 7 1), None)], demo_env)"
  using relay_hides_invisible_events [OF demo_build [where L = demo_lib and D = demo_lmdb and P = demo_processor], where ch = 1 and sid = "''s''" and
      ev = "demo_event 5 7 4" and json = None and e = demo_env]
    relay_hides_invisible_events [OF demo_build [where L = demo_lib and D = demo_lmdb and P = demo_processor], where ch = 1 and sid = "''s''" and
      ev = "demo_event 5 7 1" and json = None and e = demo_env]
  by (simp add: visible_def demo_processor_def default_processor_def demo_event_def)

section \<open>Messages\<close>

text \<open>C21. Signatures. An EVENT whose signature does not verify never reaches the middleware chain:
  whatever the chain, nothing in the database, the registry or the connection's state changes, and
  the client gets an OK message with status false for that event id.\<close>

theorem invalid_signature_rejected:
  assumes "nc_addr c \<noteq> None" "inp \<noteq> []" "from_json L inp = Inr (CM_Event ev)" "event_verify L ev = Inl err"
  shows "on_message L inp c e = Some (Inr (), e\<lparr>en_world := (en_world e)\<lparr>w_outbox := env_outbox e @
    [(nc_channel c, RM_Ok (ev_id ev) False ''invalid: event signature verification failed'', 0, None)]\<rparr>\<rparr>)"
  using assms by (simp add: on_message_def process_single_message_def ingester_reply_def)

definition forged_lib :: nostr_lib where
  "forged_lib = (reading (CM_Event (demo_event 5 7 1)))\<lparr>event_verify := (\<lambda>_. Inl ''bad'')\<rparr>"

theorem invalid_signature_rejected_witness:
  "on_message forged_lib ''x'' (demo_connection forged_lib demo_lmdb demo_processor) demo_env =
     Some (Inr (), demo_env\<lparr>en_world := demo_world\<lparr>w_outbox :=
       [(1, RM_Ok 5 False ''invalid: event signature verification failed'', 0, None)]\<rparr>\<rparr>)"
  using invalid_signature_rejected [of "demo_connection forged_lib demo_lmdb demo_processor"
      "''x''" forged_lib "demo_event 5 7 1" "''bad''" demo_env]
  by (simp add: forged_lib_def demo_event_def)

text \<open>The first message of a negentropy session is lost: what the ingester makes of a NEG-OPEN does
  not depend on the initial message (or id size) the client sent, it is always the empty one.\<close>

lemma ingester_drops_negentropy_message:
  assumes "inp \<noteq> []" "from_json L inp = Inr (CM_NegOpen sid f k initial)"
  shows "process_single_message L inp = Inr (CM_NegOpen sid f None '''')"
  using assms by (simp add: process_single_message_def)

section \<open>The default chain inbound\<close>

text \<open>A connection of the factory once it is connected.\<close>

definition connected_to :: "'m handler_factory \<Rightarrow> 'm nostr_connection \<Rightarrow> bool" where
  "connected_to F c \<longleftrightarrow> nc_addr c \<noteq> None \<and> nc_connected_chain c = Some (build_connected (nc_channel c) (hf_chain F))"

definition no_auth_message :: "client_message \<Rightarrow> bool" where
  "no_auth_message m \<longleftrightarrow> (\<forall>ev. m \<noteq> CM_Auth ev)"

lemma no_auth_message_simps [simp]:
  "no_auth_message (CM_Event ev)" "no_auth_message (CM_Req sid fs)" "no_auth_message (CM_Close sid)"
  "no_auth_message (CM_Count sid f)"
  by (simp_all add: no_auth_message_def)

lemma default_layers_inbound:
  "no_auth_message m \<Longrightarrow>
     mw_process_inbound (either_middleware (LeftM (nip42_middleware L ac))) ms nxt (Some m) e = nxt (Some m) e"
  "mw_process_inbound (either_middleware (LeftM (error_handling_middleware L))) ms nxt m' e = error_handling_inbound L ms nxt m' e"
  "mw_process_inbound (either_middleware (LeftM logger_middleware)) ms nxt m' e = nxt m' e"
  "mw_process_inbound (either_middleware (RightM identity_middleware)) ms nxt m' e = nxt m' e"
  by (auto simp: either_middleware_def middleware_defs identity_middleware_def nip42_inbound_def no_auth_message_def
      split: client_message.splits)

lemma default_inbound:
  assumes "build_with L D N opener url_ok global_set (\<lambda>cb. cb) b = Some (Inr (F, w, diag))"
    "\<not> rb_without_defaults b" "\<not> rb_enable_metrics b" "no_auth_message m"
  shows "process_inbound_chain (build_connected ch (hf_chain F)) (Some m) e =
    error_handling_inbound L \<lparr>ms_channel = ch, ms_position = 3\<rparr>
      (relay_inbound L D N (relay_middleware_of b) \<lparr>ms_channel = ch, ms_position = 0\<rparr> (process_inbound_chain CEnd)) (Some m) e"
  unfolding build_with_chain(1) [OF assms(1)] final_chain_default [OF assms(2)] default_links_def
  using assms(3,4)
  by (simp add: builder_with_def builder_new_def default_layers_inbound metrics_layer_def relay_mw_def)
    (simp add: error_handling_inbound_def default_layers_inbound numeral_3_eq_3)

lemma on_message_default:
  assumes "build_with L D N opener url_ok global_set (\<lambda>cb. cb) b = Some (Inr (F, w, diag))"
    "\<not> rb_without_defaults b" "\<not> rb_enable_metrics b" "connected_to F c"
    "process_single_message L inp = Inr m" "no_auth_message m"
  shows "on_message L inp c e = Some (Inr (), snd (snd (error_handling_inbound L \<lparr>ms_channel = nc_channel c, ms_position = 3\<rparr>
      (relay_inbound L D N (relay_middleware_of b) \<lparr>ms_channel = nc_channel c, ms_position = 0\<rparr> (process_inbound_chain CEnd))
      (Some m) e)))"
  using assms(4,5) default_inbound [OF assms(1-3,6)] by (simp add: on_message_def connected_to_def)

text \<open>C8. The life of a published event, from the text that arrives. In the default relay, an EVENT
  with a valid signature is handed to the database in the connection's scope. If the database
  accepts it, the client gets OK and then every matching subscription of the scope gets the event,
  and nothing else of the connection changes. If it refuses, nothing is stored or broadcast, and
  the refusal is answered twice: once by the store command and once by the error-handling
  middleware.\<close>

theorem event_stored_answered_broadcast:
  assumes "build_with L D N opener url_ok global_set (\<lambda>cb. cb) b = Some (Inr (F, w0, diag))"
    "\<not> rb_without_defaults b" "\<not> rb_enable_metrics b" "rb_event_processor b = default_processor"
    "connected_to F c" "ct_coordinator (en_state e) = Some co" "try_send L = (\<lambda>_ _. Sent)"
    "inp \<noteq> []" "from_json L inp = Inr (CM_Event ev)" "event_verify L ev = Inr ()"
  shows "\<exists>w'. on_message L inp c e = Some (Inr (), e\<lparr>en_world := w'\<rparr>) \<and>
    (case db_save_event D ev (cx_subdomain (en_context e)) (w_db (en_world e)) of
       (Inr _, db') \<Rightarrow> w_db w' = db' \<and>
         (w_registry w', w_outbox w') = distribute_event L ev (cx_subdomain (en_context e)) (w_registry (en_world e))
           (env_outbox e @ [(nc_channel c, RM_Ok (ev_id ev) True [], 0, None)])
     | (Inl msg, db') \<Rightarrow> w_db w' = w_db (en_world e) \<and> w_registry w' = w_registry (en_world e) \<and>
         w_outbox w' = env_outbox e @
           [(nc_channel c, RM_Ok (ev_id ev) False (''Internal error: '' @ msg), 0, None),
            (nc_channel c, RM_Ok (ev_id ev) False (''error: Database error: Internal error: '' @ msg), 3, None)])"
proof -
  let ?sc = "cx_subdomain (en_context e)"
  have m: "process_single_message L inp = Inr (CM_Event ev)"
    using assms(8-10) by (simp add: process_single_message_def)
  obtain r db' where save: "db_save_event D ev ?sc (w_db (en_world e)) = (r, db')"
    by fastforce
  note unfold_simps = on_message_default [OF assms(1-3,5) m no_auth_message_simps(1)] save assms(4,6,7)
    error_handling_inbound_def relay_inbound_def propagate_def handle_event_def relay_middleware_of_def
    default_processor_def dispatch_commands_def command_from_def is_save_signed_def swap_remove_def
    save_and_broadcast_def save_signed_def respond_saved_def broadcast_def send_bypass_def Let_def
    downcast_error_def message_id_of_def handle_inbound_error_def inbound_error_message_def reject_def
    env_send_ok [OF assms(7)]
  show ?thesis
  proof (cases r)
    case (Inl msg)
    then have "db' = w_db (en_world e)"
      using db_save_event_err [of D ev ?sc "w_db (en_world e)" msg db'] save by simp
    then show ?thesis
      using Inl by (intro exI [of _ "(en_world e)\<lparr>w_outbox := env_outbox e @
        [(nc_channel c, RM_Ok (ev_id ev) False (''Internal error: '' @ msg), 0, None),
         (nc_channel c, RM_Ok (ev_id ev) False (''error: Database error: Internal error: '' @ msg), 3, None)]\<rparr>"])
        (simp add: unfold_simps)
  next
    case (Inr u)
    then show ?thesis
      by (intro exI [of _ "broadcast L ev ?sc ((en_world e)\<lparr>w_db := db',
        w_outbox := env_outbox e @ [(nc_channel c, RM_Ok (ev_id ev) True [], 0, None)]\<rparr>)"])
        (simp add: unfold_simps split_beta)
  qed
qed


lemma demo_connected [simp]: "connected_to (demo_factory L D P) (demo_connection L D P)"
  by (simp add: connected_to_def demo_connection_def create_def)

definition full_lmdb :: "event list lmdb" where
  "full_lmdb = demo_lmdb\<lparr>lm_save_event := (\<lambda>_ _ _. Inl DbNotSupported)\<rparr>"

theorem event_stored_answered_broadcast_witness:
  "let L = reading (CM_Event (demo_event 5 7 1)) in
   (\<exists>w'. on_message L ''x'' (demo_connection L demo_lmdb default_processor) demo_env =
      Some (Inr (), demo_env\<lparr>en_world := w'\<rparr>) \<and> w_db w' = demo_event 5 7 1 # demo_stored) \<and>
   (\<exists>w'. on_message L ''x'' (demo_connection L full_lmdb default_processor) demo_env =
      Some (Inr (), demo_env\<lparr>en_world := w'\<rparr>) \<and> w_db w' = demo_stored \<and> w_outbox w' =
        [(1, RM_Ok 5 False ''Internal error: db'', 0, None),
         (1, RM_Ok 5 False ''error: Database error: Internal error: db'', 3, None)])"
  using event_stored_answered_broadcast [OF demo_build [where P = default_processor and D = demo_lmdb
      and L = "reading (CM_Event (demo_event 5 7 1))"], where inp = "''x''" and ev = "demo_event 5 7 1" and e = demo_env
      and c = "demo_connection (reading (CM_Event (demo_event 5 7 1))) demo_lmdb default_processor"]
    event_stored_answered_broadcast [OF demo_build [where P = default_processor and D = full_lmdb
      and L = "reading (CM_Event (demo_event 5 7 1))"], where inp = "''x''" and ev = "demo_event 5 7 1" and e = demo_env
      and c = "demo_connection (reading (CM_Event (demo_event 5 7 1))) full_lmdb default_processor"]
  by (auto simp: Let_def db_save_event_def scoped_view_def full_lmdb_def demo_lmdb_def demo_event_def)

text \<open>C22. CLOSE ends a subscription at once: its quota slot is free again, the registry has no such
  subscription of the connection in any scope and otherwise the same table, and nothing is sent.\<close>

theorem close_ends_subscription:
  assumes "build_with L D N opener url_ok global_set (\<lambda>cb. cb) b = Some (Inr (F, w0, diag))"
    "\<not> rb_without_defaults b" "\<not> rb_enable_metrics b"
    "connected_to F c" "ct_coordinator (en_state e) = Some co" "reg_wf L (w_registry (en_world e))"
    "inp \<noteq> []" "from_json L inp = Inr (CM_Close sid)"
  shows "\<exists>e'. on_message L inp c e = Some (Inr (), e') \<and>
    set (ct_quota_usage (en_state e')) = set (ct_quota_usage (en_state e)) - {sid} \<and>
    reg_wf L (w_registry (en_world e')) \<and>
    index_table (w_registry (en_world e')) sc key =
      (if key = (sc_connection_id co, sid) then None else index_table (w_registry (en_world e)) sc key) \<and>
    env_outbox e' = env_outbox e"
proof -
  have m: "process_single_message L inp = Inr (CM_Close sid)"
    using assms(7,8) by (simp add: process_single_message_def)
  note removed = reg_remove_subscription_table [OF assms(6), of "sc_connection_id co" sid]
  have "index_table r sc = conn_table r sc" if "reg_wf L r" for r
    using that by (simp add: reg_wf_def)
  then show ?thesis
    using assms(5,6) removed
    by (auto simp: on_message_default [OF assms(1-4) m no_auth_message_simps(3)] error_handling_inbound_def
        relay_inbound_def handle_close_def release_quota_slot_def co_remove_subscription_def Let_def)
qed


text \<open>A registry with one subscription, for any library.\<close>

definition one_subscription :: "nostr_lib \<Rightarrow> registry" where
  "one_subscription L = snd (reg_add_subscription L ''c1'' ''a'' [kind_filter 1]
     (snd (reg_remove_subscription L ''c1'' ''a''
       (register_connection ''c1'' (demo_sender 1) None ScopeDefault (registry_new False)))))"

lemma one_subscription_wf: "reg_wf L (one_subscription L)"
proof -
  let ?r = "register_connection ''c1'' (demo_sender 1) None ScopeDefault (registry_new False)"
  have "reg_wf L ?r"
    by (rule register_connection_wf [OF registry_new_wf]) (simp add: registry_new_def has_connection_keys)
  then show ?thesis
    unfolding one_subscription_def
    by (rule replace_subscription_table(1))
      (simp_all add: registry_eval filter_wf_def demo_filter_defs scope_room_def index_room_def)
qed

lemma one_subscription_table:
  "conn_table (one_subscription L) ScopeDefault (''c1'', ''a'') = Some {# kind_filter 1 #}"
  by (simp add: one_subscription_def conn_table_def register_connection_def registry_new_def
      reg_add_subscription_def reg_remove_subscription_def log_metric_def Let_def)

definition subscribed_env :: "nostr_lib \<Rightarrow> (unit, unit, event list, unit) env" where
  "subscribed_env L = demo_env\<lparr>en_state := demo_state\<lparr>ct_quota_usage := [''a'']\<rparr>,
     en_world := demo_world\<lparr>w_registry := one_subscription L\<rparr>\<rparr>"

theorem close_ends_subscription_witness:
  "let L = reading (CM_Close ''a''); e = subscribed_env L in
   index_table (w_registry (en_world e)) ScopeDefault (''c1'', ''a'') \<noteq> None \<and>
   (\<exists>e'. on_message L ''x'' (demo_connection L demo_lmdb default_processor) e = Some (Inr (), e') \<and>
     ct_quota_usage (en_state e') = [] \<and> index_table (w_registry (en_world e')) ScopeDefault (''c1'', ''a'') = None)"
  using close_ends_subscription [OF demo_build [where L = "reading (CM_Close ''a'')" and D = demo_lmdb and P = default_processor],
      where c = "demo_connection (reading (CM_Close ''a'')) demo_lmdb default_processor" and inp = "''x''" and sid = "''a''"
        and e = "subscribed_env (reading (CM_Close ''a''))" and sc = ScopeDefault and key = "(''c1'', ''a'')"]
    one_subscription_wf [of "reading (CM_Close ''a'')"] one_subscription_table [of "reading (CM_Close ''a'')"]
  by (auto simp: Let_def subscribed_env_def demo_world_def reg_wf_def)

lemma default_processor_simps [simp]:
  "visible default_processor t cx = (\<lambda>_. True)" "ep_verify_filters default_processor fs t cx = Inr ()"
  by (simp_all add: visible_def default_processor_def fun_eq_iff)

text \<open>A REQ that fails after the quota check keeps its slot: when answering it returns an error
  (a failing query, or a full channel at EOSE), the id stays reserved although no subscription
  was registered, so that the quota shrinks until the client sends a CLOSE for it.\<close>

lemma failed_req_keeps_slot:
  assumes "build_with L D N opener url_ok global_set (\<lambda>cb. cb) b = Some (Inr (F, w0, diag))"
    "\<not> rb_without_defaults b" "\<not> rb_enable_metrics b" "rb_event_processor b = default_processor"
    "connected_to F c" "ct_coordinator (en_state e) = Some co"
    "is_ok (fst (reserve_quota_slot sid (en_state e)))"
    "process_historical_events L D (sc_max_limit co) sid fs (cx_authed_pubkey (en_context e)) (md_subdomain (en_meta e))
       (sc_outgoing_sender co) (\<lambda>_ _ _. True) (w_db (en_world e)) (env_outbox e) = (Inl err, out')"
    "inp \<noteq> []" "from_json L inp = Inr (CM_Req sid fs)"
  shows "\<exists>e'. on_message L inp c e = Some (Inr (), e') \<and> sid \<in> set (ct_quota_usage (en_state e')) \<and>
    w_registry (en_world e') = w_registry (en_world e)"
proof -
  have m: "process_single_message L inp = Inr (CM_Req sid fs)"
    using assms(9,10) by (simp add: process_single_message_def)
  obtain st where st: "reserve_quota_slot sid (en_state e) = (Inr (), st)" "sid \<in> set (ct_quota_usage st)"
    "ct_coordinator st = Some co"
    using assms(6,7) by (auto simp: reserve_quota_slot_def split: if_splits option.splits)
  have h: "handle_subscription L D (relay_middleware_of b) sid fs e =
      (Inl err, e\<lparr>en_state := st, en_world := (en_world e)\<lparr>w_outbox := out'\<rparr>\<rparr>)"
    using assms(4,8) st
    by (simp add: handle_subscription_def relay_middleware_of_def handle_req_def Let_def default_processor_simps)
  show ?thesis
    unfolding on_message_default [OF assms(1-3,5) m no_auth_message_simps(2)]
    using st(2)
    by (cases rule: env_send_cases [of L "\<lparr>ms_channel = nc_channel c, ms_position = 3\<rparr>"
          "inbound_error_message err (IdSubscription sid)"
          "e\<lparr>en_state := st, en_world := (en_world e)\<lparr>w_outbox := out'\<rparr>\<rparr>"])
      (simp_all add: error_handling_inbound_def relay_inbound_def propagate_def h downcast_error_def
        message_id_of_def handle_inbound_error_def)
qed

text \<open>COUNT is accepted by the parser and then dropped without any answer: in the default relay it
  changes nothing and sends nothing.\<close>

lemma count_never_answered:
  assumes "build_with L D N opener url_ok global_set (\<lambda>cb. cb) b = Some (Inr (F, w0, diag))"
    "\<not> rb_without_defaults b" "\<not> rb_enable_metrics b" "connected_to F c"
    "inp \<noteq> []" "from_json L inp = Inr (CM_Count sid f)"
  shows "on_message L inp c e = Some (Inr (), e)"
proof -
  have m: "process_single_message L inp = Inr (CM_Count sid f)"
    using assms(5,6) by (simp add: process_single_message_def)
  show ?thesis
    by (simp add: on_message_default [OF assms(1-4) m] error_handling_inbound_def relay_inbound_def
        downcast_error_def message_id_of_def)
qed

definition broken_lmdb :: "event list lmdb" where
  "broken_lmdb = demo_lmdb\<lparr>lm_query := (\<lambda>_ _ _. Inl DbNotSupported)\<rparr>"

section \<open>The whole system\<close>

text \<open>C1. Consistency of the running relay between the operations of its handlers. Take a relay built with any middlewares of
  the kinds the source has (registry-blind ones), and any order of the following steps, of any number of connections: \<open>on_connect\<close>
  (it may fail), \<open>on_message\<close>, the delivery of one message by the outbound task, \<open>on_disconnect\<close>, and a step of the buffer task (a flush included).
  Each is one step: tasks interleave between these operations, not inside them, where they await a lock of the registry. What interleaving
  inside the registry's operations preserves, and what it can break, is the subject of \<open>Registry_Threads\<close>. Then the index
  of every scope represents exactly the subscriptions of the connections registered in it, every
  registered connection is live (nothing is left behind by those that have gone), and the gauge of
  the subscription metrics is the number of subscriptions.\<close>

theorem relay_registry_consistent:
  assumes "build_with L D N opener url_ok global_set (fold builder_with mws) b = Some (Inr (F, w, diag))"
    "\<forall>mw \<in> set mws. registry_blind mw" "match_event_sound L"
    "(system_step L D F url custom)\<^sup>*\<^sup>* (system_init w) s"
  shows "(\<forall>sc. index_table (w_registry (sy_world s)) sc = conn_table (w_registry (sy_world s)) sc) \<and>
    (\<forall>cid. has_connection (w_registry (sy_world s)) cid \<longrightarrow> hm_get (sy_live s) cid \<noteq> None) \<and>
    (rg_metrics_handler (w_registry (sy_world s)) \<longrightarrow>
       active_subscriptions (w_registry (sy_world s)) = int (total_subscriptions (w_registry (sy_world s))))"
  using system_reachable_ok [OF assms(4,3) build_with_ok [OF assms(1,2)]]
  by (auto simp: system_ok_def reg_ok_def reg_wf_def metrics_wf_def)


text \<open>A relay with one middleware of its own (NIP-70), in which a client connects and sends a REQ.\<close>

lemma reading_sound: "match_event_sound (reading m)"
  using demo_lib_sound by (simp add: match_event_sound_def tag_has_value_def reading_def)

definition req_lib :: nostr_lib where
  "req_lib = reading (CM_Req ''q'' [kind_filter 9])"

abbreviation req_builder :: "(unit, event list, unit) relay_builder" where
  "req_builder \<equiv> demo_builder default_processor"

abbreviation req_core :: "(unit, unit, event list, unit) env middleware" where
  "req_core \<equiv> relay_mw req_lib demo_lmdb demo_negentropy (relay_middleware_of req_builder)"

definition req_factory :: "(unit, unit, event list, unit) env middleware handler_factory" where
  "req_factory = \<lparr>hf_chain = cb_chain (final_chain req_lib req_builder
       (builder_with (nip70_middleware req_lib) (builder_with req_core builder_new))),
     hf_scope_config = Disabled, hf_channel_size = 250250, hf_relay_pubkey = 1\<rparr>"

lemma req_build:
  "build_with req_lib demo_lmdb demo_negentropy demo_opener (\<lambda>_. True) False (fold builder_with [nip70_middleware req_lib])
     req_builder = Some (Inr (req_factory, demo_fresh_world, False))"
  by (simp add: build_with_def build_database_def req_factory_def demo_fresh_world_def demo_builder_def
      set_event_processor_def relay_builder_new_def relay_config_new_def calculate_channel_size_def)

abbreviation req_chain :: "(unit, unit, event list, unit) env middleware connected" where
  "req_chain \<equiv> build_connected 1 (hf_chain req_factory)"

lemma demo_no_auth [simp]: "\<not> rc_enable_auth (rb_config (demo_builder P))"
  by (simp add: demo_builder_def set_event_processor_def relay_builder_new_def relay_config_new_def)

lemma req_chain_hooks:
  "on_connect_chain req_chain e = relay_on_connect (relay_middleware_of req_builder) \<lparr>ms_channel = 1, ms_position = 0\<rparr> e"
  "process_inbound_chain req_chain (Some (CM_Req sid fs)) e =
     error_handling_inbound req_lib \<lparr>ms_channel = 1, ms_position = 4\<rparr>
       (relay_inbound req_lib demo_lmdb demo_negentropy (relay_middleware_of req_builder) \<lparr>ms_channel = 1, ms_position = 0\<rparr>
         (process_inbound_chain CEnd)) (Some (CM_Req sid fs)) e"
  by (simp_all add: req_factory_def final_chain_def builder_with_def builder_new_def metrics_layer_def either_middleware_def
      middleware_defs identity_middleware_def relay_mw_def Let_def split: prod.split sum.split)
   (simp_all add: error_handling_inbound_def nip70_inbound_def numeral_eq_Suc)


definition req_connection :: "(unit, unit, event list, unit) env middleware nostr_connection" where
  "req_connection = (create req_lib req_factory 1 None)\<lparr>nc_chain_blueprint := None,
     nc_connected_chain := Some req_chain, nc_addr := Some ''c1''\<rparr>"

definition req_env :: "(unit, unit, event list, unit) env" where
  "req_env = demo_env\<lparr>en_state := (state_with_custom ())\<lparr>ct_registry := True, ct_max_subscriptions := Some 50,
       ct_coordinator := Some \<lparr>sc_connection_id = ''c1'', sc_outgoing_sender = demo_sender 1, sc_max_limit = 5000\<rparr>\<rparr>,
     en_meta := \<lparr>md_relay_url = ''ws://c1'', md_subdomain = ScopeDefault\<rparr>,
     en_world := demo_fresh_world\<lparr>w_registry :=
       register_connection ''c1'' (demo_sender 1) None ScopeDefault (registry_new False)\<rparr>\<rparr>"

lemma req_create: "create req_lib req_factory 1 None = \<lparr>nc_chain_blueprint = Some (hf_chain req_factory),
    nc_connected_chain = None, nc_subdomain = ScopeDefault, nc_relay_pubkey = 1, nc_addr = None, nc_channel = 1,
    nc_cancelled = False\<rparr>"
  by (simp add: create_def connection_scope_def) (simp add: req_factory_def)

lemma demo_limits: "rc_max_limit (rb_config (demo_builder P)) = 5000" "rc_max_subscriptions (rb_config (demo_builder P)) = 50"
  by (simp_all add: demo_builder_def set_event_processor_def relay_builder_new_def relay_config_new_def)

lemma req_connected:
  "nostr_on_connect Some () ''c1'' (create req_lib req_factory 1 None) (demo_env\<lparr>en_world := demo_fresh_world\<rparr>) =
     Some (Inr (), req_connection, req_env)"
  unfolding req_connection_def req_create
  by (simp add: nostr_on_connect_def metadata_new_with_context_def Let_def req_chain_hooks(1) [unfolded One_nat_def]
      relay_on_connect_def setup_connection_def coordinator_new_def state_with_custom_def relay_middleware_of_def
      relay_max_subscriptions_def demo_limits)
    (simp add: req_env_def demo_env_def demo_fresh_world_def state_with_custom_def demo_sender_def)


definition subscribed :: "(unit, unit, event list, unit) env" where
  "subscribed = snd (snd (process_inbound_chain req_chain (Some (CM_Req ''q'' [kind_filter 9])) req_env))"

lemma page_loop_empty:
  "db_query D db [f] sc = Inr [] \<Longrightarrow> page_loop 50 L D db sc g ms sid l f n lts sent out = (Inr sent, out)"
  using page_loop.simps(2) [of 49 L D db sc g ms sid l f n lts sent out] by simp

lemma req_no_stored: "process_historical_events req_lib demo_lmdb l ''q'' [kind_filter 9] a ScopeDefault (demo_sender 1) g
    demo_stored out = (Inr (), out @ [(1, RM_Eose ''q'', 0, None)])"
proof -
  have none: "db_query demo_lmdb demo_stored [(kind_filter 9)\<lparr>f_limit := Some n\<rparr>] ScopeDefault = Inr []" for n
    by (simp add: demo_db_query demo_stored_def demo_event_def demo_match_def kind_filter_def filter_new_def opt_contains_def)
  show ?thesis
    by (simp add: process_historical_events_def Let_def page_loop_empty [OF none] send_def req_lib_def demo_sender_def)
qed

lemma req_env_simps:
  "ct_coordinator (en_state req_env) = Some \<lparr>sc_connection_id = ''c1'', sc_outgoing_sender = demo_sender 1, sc_max_limit = 5000\<rparr>"
  "reserve_quota_slot ''q'' (en_state req_env) = (Inr (), (en_state req_env)\<lparr>ct_quota_usage := [''q'']\<rparr>)"
  "md_subdomain (en_meta req_env) = ScopeDefault" "w_db (en_world req_env) = demo_stored"
  "w_registry (en_world req_env) = register_connection ''c1'' (demo_sender 1) None ScopeDefault (registry_new False)"
  by (simp_all add: req_env_def reserve_quota_slot_def state_with_custom_def demo_fresh_world_def)

lemma req_registers: "fst (reg_add_subscription req_lib ''c1'' ''q'' [kind_filter 9]
   (snd (reg_remove_subscription req_lib ''c1'' ''q'' (w_registry (en_world req_env))))) = Inr ()"
  by (simp add: req_env_simps register_connection_def registry_new_def reg_add_subscription_def
      reg_remove_subscription_def Let_def)

lemma subscribed_world:
  "w_registry (en_world subscribed) = snd (reg_add_subscription req_lib ''c1'' ''q'' [kind_filter 9]
     (snd (reg_remove_subscription req_lib ''c1'' ''q'' (w_registry (en_world req_env)))))"
  using req_registers
  by (simp add: subscribed_def req_chain_hooks(2) [unfolded One_nat_def] error_handling_inbound_def relay_inbound_def
      propagate_def handle_subscription_def relay_middleware_of_def req_env_simps Let_def handle_req_def
      req_no_stored [unfolded One_nat_def] co_add_subscription_def co_remove_subscription_def split_beta)

lemma subscribed_message: "on_message req_lib ''x'' req_connection req_env = Some (Inr (), subscribed)"
  by (simp add: on_message_def req_connection_def process_single_message_def req_lib_def)
    (simp add: subscribed_def req_lib_def)


definition req_system :: "(unit, unit, event list, unit) relay_system" where
  "req_system = update_live ''c1'' req_connection req_env (system_init demo_fresh_world)"

lemma req_system_steps:
  "(system_step req_lib demo_lmdb req_factory Some ())\<^sup>*\<^sup>* (system_init demo_fresh_world)
     (update_live ''c1'' req_connection subscribed req_system)"
proof -
  have "system_step req_lib demo_lmdb req_factory Some () (system_init demo_fresh_world) req_system"
    unfolding req_system_def
    by (rule system_step.connect [OF _ _ req_connected]) (simp_all add: system_init_def)
  moreover have "system_step req_lib demo_lmdb req_factory Some () req_system
      (update_live ''c1'' req_connection subscribed req_system)"
  proof (rule system_step.message [OF _ _ _ subscribed_message])
    show "hm_get (sy_live req_system) ''c1'' = Some \<lparr>lv_connection = req_connection, lv_env = req_env\<rparr>"
      by (simp add: req_system_def update_live_def hm_simps)
    show "resumes req_env (sy_world req_system) req_env"
      by (simp add: resumes_def req_system_def update_live_def)
    show "\<forall>m. process_single_message req_lib ''x'' = Inr m \<longrightarrow> req_room (Some m) (w_registry (sy_world req_system))"
      by (simp add: process_single_message_def req_lib_def req_room_def filter_wf_def demo_filter_defs scope_room_def
          index_room_def req_system_def update_live_def req_env_simps register_connection_def registry_new_def si_new_def)
  qed
  ultimately show ?thesis
    by simp
qed

theorem relay_registry_consistent_witness:
  "index_table (w_registry (en_world subscribed)) ScopeDefault (''c1'', ''q'') = Some {# kind_filter 9 #}"
proof -
  have "conn_table (w_registry (en_world subscribed)) ScopeDefault (''c1'', ''q'') = Some {# kind_filter 9 #}"
    by (simp add: subscribed_world req_env_simps conn_table_def register_connection_def registry_new_def
        reg_add_subscription_def reg_remove_subscription_def log_metric_def Let_def)
  then show ?thesis
    using relay_registry_consistent [OF req_build _ _ req_system_steps]
    by (simp add: update_live_def reading_sound req_lib_def nip70_blind.registry_blind_axioms)
qed


section \<open>Sockets\<close>


definition demo_ws :: "nat ws_handler" where
  "demo_ws = \<lparr>wh_on_connect = (\<lambda>n. (Inr (), n)),
     wh_on_message = (\<lambda>m n. (if m = ''bad'' then Inl (AnyhowMsg m) else Inr (), n + 1)), wh_on_disconnect = (\<lambda>_ n. n),
     wh_connect_time = (\<lambda>_. 1), wh_disconnect_time = (\<lambda>_ _. 5)\<rparr>"


text \<open>The bound is reached: a message that arrives with the deadline is still handled, and \<open>on_disconnect\<close> comes after it.\<close>

lemma socket_end_bound_reached:
  "handle_socket \<lparr>cc_max_connections = None, cc_max_connection_duration = Some 100, cc_idle_timeout = None\<rparr> demo_ws 0
     [(101, WsText ''late'', 2)] 0 = (Disconnected max_duration_reason, 108, 1)"
  by (simp add: handle_socket_def next_timeout_def demo_ws_def disconnect_at_def Let_def)

section \<open>Scopes\<close>

text \<open>C38. Round trip of a subdomain. When the relay separates subdomains from a base domain of \<open>n\<close>
  labels, a client that connects to the host \<open>s.base\<close>, with or without a port, gets exactly the scope
  named \<open>s\<close>, or the default scope when \<open>s\<close> is not a valid name.\<close>

theorem subdomain_scope_roundtrip:
  assumes "CHR '':'' \<notin> set (s @ ''.'' @ base)" "s @ ''.'' @ base \<noteq> ''localhost''" "\<not> parse_ip_addr_ok (s @ ''.'' @ base)"
    "length (str_split CHR ''.'' base) = n" "port = [] \<or> (\<exists>p. port = CHR '':'' # p)"
  shows "nc_subdomain (create L (F\<lparr>hf_scope_config := Subdomain n\<rparr>) ch (Some (s @ ''.'' @ base @ port))) =
    (case scope_named L s of Some sc \<Rightarrow> sc | None \<Rightarrow> ScopeDefault)"
proof -
  have hd: "(case str_split CHR '':'' (s @ ''.'' @ base @ port) of h # _ \<Rightarrow> h | [] \<Rightarrow> s @ ''.'' @ base @ port) = s @ ''.'' @ base"
    using assms(5) str_split_append [OF assms(1)] str_split_simple [OF assms(1)] by auto
  have "extract_subdomain (s @ ''.'' @ base @ port) n = extract_subdomain (s @ ''.'' @ base) n"
    using str_split_simple [OF assms(1)] unfolding extract_subdomain_def hd by simp
  then show ?thesis
    using extract_subdomain_of_join [OF assms(1-4)] by (simp add: create_def connection_scope_def)
qed

theorem subdomain_scope_roundtrip_witness:
  "nc_subdomain (create demo_lib ((demo_factory demo_lib demo_lmdb default_processor)\<lparr>hf_scope_config := Subdomain 2\<rparr>) 1
     (Some ''blog.example.com:8080'')) = ScopeNamed ''blog''"
  using subdomain_scope_roundtrip [where s = "''blog''" and base = "''example.com''" and n = 2 and port = "'':8080''"
      and L = demo_lib and F = "demo_factory demo_lib demo_lmdb default_processor" and ch = 1]
  by (simp add: parse_ip_addr_ok_def octet_ok_def is_digit_char_def demo_lib_def)

text \<open>A relay configured with a fixed scope does not use it: whatever its Host header, a connection
  is in the default scope, where the configuration's own rule (\<open>resolve_scope\<close>) gives the fixed one.\<close>

lemma fixed_scope_ignored:
  assumes "build_with L D N opener url_ok global_set chain_fn b = Some (Inr (F, w, diag))"
    "rc_scope_config (rb_config b) = Fixed sc"
  shows "nc_subdomain (create L F ch host) = ScopeDefault \<and> resolve_scope L (hf_scope_config F) host = sc"
proof -
  have "hf_scope_config F = Fixed sc"
    using assms by (auto simp: build_with_def Let_def split: if_splits sum.splits)
  then show ?thesis
    by (simp add: create_def connection_scope_def resolve_scope_def split: option.split)
qed


section \<open>Channel sizes\<close>

lemma historical_out_length:
  assumes "query_distinct D db sc"
  shows "length (snd (process_historical_events L D max_limit sid fs authed sc ms g db out)) \<le>
    length out + max_limit * length fs + 1"
proof -
  let ?limit = "smallest_limit max_limit fs" and ?ffn = "\<lambda>e. g e sc authed"
  let ?fs = "map (\<lambda>f. f\<lparr>f_limit := Some ?limit\<rparr>) fs"
  let ?run = "filters_loop L D db sc ?ffn ms sid ?limit ?fs [] out"
  have "page_run_ok D db sc ?ffn ms sid (\<lambda>_. True) (?limit * length ?fs) [] out ?run"
    by (rule filters_loop_ok [OF assms, of _ L])
      (auto simp: page_invariant_def list_all_iff intro!: exI [of _ "\<lambda>_ _. True"])
  then have "length (snd ?run) \<le> length out + ?limit * length fs"
    unfolding page_run_ok_def by (auto dest: list_emb_length)
  moreover have "?limit * length fs \<le> max_limit * length fs"
    using smallest_limit_le by (intro mult_right_mono) auto
  ultimately have run: "length (snd ?run) \<le> length out + max_limit * length fs"
    by linarith
  have "length (snd (send L ms (RM_Eose sid) o')) \<le> length o' + 1" for o'
    by (cases rule: try_send_entry_cases [of L "ms_channel ms" "(RM_Eose sid, ms_position ms, None)" o'])
      (simp_all add: send_def)
  then have "length (snd (process_historical_events L D max_limit sid fs authed sc ms g db out)) \<le> length (snd ?run) + 1"
    by (auto simp: process_historical_events_def Let_def split: prod.split sum.split)
       (metis snd_conv)+
  then show ?thesis
    using run by linarith
qed

text \<open>The size of a connection's channel. If the configured sizes fit a machine word, the whole
  answer to a REQ with at most as many filters as the connection may have subscriptions fits into
  the channel, EOSE included, so that a client that was up to date misses none of it. But a relay
  with an unlimited number of subscriptions (0) gets channels of size 0.\<close>

lemma channel_fits_request:
  assumes "build_with L D N opener url_ok global_set chain_fn b = Some (Inr (F, w, diag))"
    "rc_max_subscriptions (rb_config b) * (rc_max_limit (rb_config b) + 5) < 2 ^ 64"
    "query_distinct D db sc"
  shows "if rc_max_subscriptions (rb_config b) = 0
    then hf_channel_size F = 0 \<and> rm_max_subscriptions (relay_middleware_of b) = None
    else length fs \<le> rc_max_subscriptions (rb_config b) \<longrightarrow>
      length (snd (process_historical_events L D (rm_max_limit (relay_middleware_of b)) sid fs authed sc ms g db out)) \<le>
        length out + hf_channel_size F"
proof -
  let ?m = "rc_max_subscriptions (rb_config b)" and ?l = "rc_max_limit (rb_config b)"
  have size: "hf_channel_size F = calculate_channel_size (rb_config b)"
    using assms(1) by (auto simp: build_with_def Let_def split: if_splits sum.splits)
  show ?thesis
  proof (cases "?m = 0")
    case False
    then have "?l + 5 \<le> ?m * (?l + 5)"
      by (cases ?m) simp_all
    then have "?l + 5 < 2 ^ 64"
      using assms(2) by linarith
    then have "hf_channel_size F = ?m * (?l + 5)"
      using assms(2) by (simp add: size calculate_channel_size_def Let_def)
    moreover have "?l * length fs + 1 \<le> ?m * (?l + 5)" if "length fs \<le> ?m"
    proof -
      have "?l * length fs \<le> ?l * ?m"
        by (rule mult_le_mono2 [OF that])
      moreover have "?m * (?l + 5) = ?l * ?m + 5 * ?m"
        by (simp add: algebra_simps)
      ultimately show ?thesis
        using False by linarith
    qed
    ultimately show ?thesis
      using False historical_out_length [OF assms(3), of L ?l sid fs authed ms g out]
      by (auto simp: relay_middleware_of_def)
  qed (simp add: size calculate_channel_size_def relay_middleware_of_def relay_max_subscriptions_def)
qed


lemma channel_fits_request_example:
  "length (snd (process_historical_events demo_lib demo_lmdb 5000 ''s'' [filter_new, kind_filter 1] None ScopeDefault
     (demo_sender 1) (\<lambda>_ _ _. True) demo_stored [])) \<le> 250250"
  using channel_fits_request [OF demo_build [where L = demo_lib and D = demo_lmdb and P = default_processor] _ demo_query_ok(1),
      where sid = "''s''" and fs = "[filter_new, kind_filter 1]" and authed = None and ms = "demo_sender 1" and out = "[]"
      and g = "\<lambda>_ _ _. True"]
  by (simp add: demo_limits relay_middleware_of_def demo_factory_def)

section \<open>Diagnostics\<close>

text \<open>The health check can never report that tracked events grow faster than connections: it
  compares the current numbers with measurements that it has just overwritten by them. This holds for
  every sequence of registries it looks at.\<close>

lemma diagnostics_never_warn_of_growth:
  assumes "inj dbg" "\<forall>r \<in> set rs. distinct (map fst (rg_indexes r))" "report \<in> set (run_diagnostics dbg rs prev)"
  shows "GrowingFaster x y \<notin> set (hr_warnings report)"
  using assms(2,3)
proof (induction rs arbitrary: prev)
  case (Cons r rs)
  have "map (dbg \<circ> sd_scope) (rd_scope_diagnostics (get_diagnostics r)) = map dbg (map fst (rg_indexes r))"
    by (simp add: get_diagnostics_def scope_diag_def Let_def)
  moreover have "distinct (map dbg (map fst (rg_indexes r)))"
    using Cons.prems(1) by (subst distinct_map) (simp add: inj_on_subset [OF assms(1)])
  ultimately have "distinct (map (dbg \<circ> sd_scope) (rd_scope_diagnostics (get_diagnostics r)))"
    by (simp only:)
  from no_growth_warning [OF this] show ?case
    using Cons by (auto simp: Let_def split_beta)
qed simp

definition demo_dbg :: "scope \<Rightarrow> string" where
  "demo_dbg sc = (case sc of ScopeDefault \<Rightarrow> ''Default'' | ScopeNamed n \<Rightarrow> ''Named '' @ n)"

section \<open>Connection limits\<close>

text \<open>The limits on connections in the relay's configuration are not used: the relay that is built is the
  same for every choice of them.\<close>

lemma websocket_config_fields [simp]:
  "rc_relay_url (with_websocket_config wc c) = rc_relay_url c" "rc_database (with_websocket_config wc c) = rc_database c"
  "rc_keys (with_websocket_config wc c) = rc_keys c" "rc_scope_config (with_websocket_config wc c) = rc_scope_config c"
  "rc_enable_auth (with_websocket_config wc c) = rc_enable_auth c"
  "rc_max_subscriptions (with_websocket_config wc c) = rc_max_subscriptions c"
  "rc_max_limit (with_websocket_config wc c) = rc_max_limit c" "rc_max_readers (with_websocket_config wc c) = rc_max_readers c"
  "rc_enable_diagnostics (with_websocket_config wc c) = rc_enable_diagnostics c"
  "rc_ingester_cpu_affinity (with_websocket_config wc c) = rc_ingester_cpu_affinity c"
  by (simp_all add: with_websocket_config_def)

lemma websocket_config_ignored:
  "build_with L D N opener url_ok global_set chain_fn (b\<lparr>rb_config := with_websocket_config wc (rb_config b)\<rparr>) =
     build_with L D N opener url_ok global_set chain_fn b"
  by (simp add: build_with_def build_database_def calculate_channel_size_def final_chain_def metrics_layer_def
      relay_middleware_of_def relay_max_subscriptions_def Let_def split: sum.split option.split database_config.split)

end
