(* ===== verification/Outbound_Properties.thy ===== *)
theory Outbound_Properties
  imports Relay_Properties
begin

text \<open>
  The outbound task of a connection: what it writes to the socket, compared with what was sent to
  the connection's channel.
\<close>

section \<open>One batch\<close>

definition entry_text :: "(relay_message \<Rightarrow> string) \<Rightarrow> relay_message \<times> string option \<Rightarrow> string" where
  "entry_text as_json p = (case snd p of Some j \<Rightarrow> j | None \<Rightarrow> as_json (fst p))"

text \<open>What the task may write for one entry of the channel: the chain's verdict at some moment.\<close>

definition entry_output ::
  "'e middleware connected \<Rightarrow> (relay_message \<Rightarrow> string) \<Rightarrow> outbound \<Rightarrow> string list \<Rightarrow> bool" where
  "entry_output chain as_json x js \<longleftrightarrow> (\<exists>e. js = map (entry_text as_json) (fst (process_entry chain x e)))"

lemma process_batch_outputs:
  "process_batch chain xs e = (out, e') \<Longrightarrow>
     \<exists>outs. list_all2 (entry_output chain as_json) xs outs \<and> map (entry_text as_json) out = concat outs"
proof (induction xs arbitrary: e out)
  case (Cons x xs)
  obtain o1 e1 where 1: "process_entry chain x e = (o1, e1)"
    by fastforce
  obtain o2 where 2: "process_batch chain xs e1 = (o2, e')" "out = o1 @ o2"
    using Cons.prems 1 by (auto split: prod.splits)
  obtain outs where "list_all2 (entry_output chain as_json) xs outs" "map (entry_text as_json) o2 = concat outs"
    using Cons.IH [OF 2(1)] by blast
  moreover have "entry_output chain as_json x (map (entry_text as_json) o1)"
    unfolding entry_output_def using 1 by (metis fst_conv)
  ultimately show ?case
    using 2(2) by (intro exI [of _ "map (entry_text as_json) o1 # outs"]) simp
qed simp

lemma write_batch_prefix:
  "write_batch as_json sink_ok ps written = (ok, written') \<Longrightarrow>
     \<exists>js. written' = written @ js \<and> prefix js (map (entry_text as_json) ps) \<and> (ok \<longrightarrow> js = map (entry_text as_json) ps)"
proof (induction ps arbitrary: written)
  case (Cons p ps)
  obtain m pre where p: "p = (m, pre)"
    by (cases p)
  show ?case
  proof (cases "sink_ok written (entry_text as_json p)")
    case True
    then have "write_batch as_json sink_ok ps (written @ [entry_text as_json p]) = (ok, written')"
      using Cons.prems by (cases pre) (simp_all add: p entry_text_def Let_def)
    from Cons.IH [OF this] show ?thesis
      by auto
  next
    case False
    then show ?thesis
      using Cons.prems by (cases pre) (simp_all add: p entry_text_def Let_def)
  qed
qed simp

section \<open>Outbound processing leaves the channels alone\<close>

definition keeps_outbox :: "('t, 'n, 'db, 'l) env middleware connected \<Rightarrow> bool" where
  "keeps_outbox chain \<longleftrightarrow> (\<forall>from m e. env_outbox (snd (snd (process_outbound_chain chain from m e))) = env_outbox e)"

lemma keeps_outbox_link:
  assumes "\<And>ms m e. env_outbox (snd (snd (mw_process_outbound mw ms m e))) = env_outbox e" "keeps_outbox nxt"
  shows "keeps_outbox (CLink mw nxt pos ms)"
  using assms unfolding keeps_outbox_def by (auto split: prod.split sum.split) (metis snd_conv)+

lemma process_batch_outbox:
  assumes "keeps_outbox chain"
  shows "env_outbox (snd (process_batch chain xs e)) = env_outbox e"
proof (induction xs arbitrary: e)
  case (Cons x xs)
  have "env_outbox (snd (process_entry chain x e)) = env_outbox e"
    using assms unfolding keeps_outbox_def process_entry_def
    by (auto split: prod.split sum.split option.split) (metis snd_conv)+
  then show ?case
    using Cons by (simp add: Let_def split_beta)
qed simp

lemma keeps_outbox_end: "keeps_outbox CEnd"
  by (simp add: keeps_outbox_def)

lemma metrics_layer_outbox: "env_outbox (snd (snd (mw_process_outbound (metrics_layer b) ms m e))) = env_outbox e"
  by (simp add: metrics_layer_def either_middleware_def metrics_middleware_def metrics_outbound_def identity_middleware_def
      default_middleware_def call_metric_def split: option.split relay_message.split prod.split)

lemma default_keeps_outbox:
  assumes "build_with L D N opener url_ok global_set (\<lambda>cb. cb) b = Some (Inr (F, w, diag))" "\<not> rb_without_defaults b"
  shows "keeps_outbox (build_connected ch (hf_chain F))"
  unfolding build_with_chain(1) [OF assms(1)] final_chain_default [OF assms(2)] default_links_def
  by (auto simp: builder_with_def builder_new_def relay_mw_def relay_outbound_env default_layers_outbound metrics_layer_outbox
      intro!: keeps_outbox_link keeps_outbox_end)

lemma process_entry_length: "length (fst (process_entry chain x e)) \<le> 1"
  by (simp add: process_entry_def split: prod.split sum.split option.split)

lemma entry_output_length: "entry_output chain as_json x js \<Longrightarrow> length js \<le> 1"
  using process_entry_length [of chain x] by (auto simp: entry_output_def)

section \<open>The task\<close>

definition task_ok ::
  "('t, 'n, 'db, 'l) env middleware connected \<Rightarrow> channel \<Rightarrow> (relay_message \<Rightarrow> string) \<Rightarrow> ('t, 'n, 'db, 'l) env outbound_task \<Rightarrow> bool"
  where
  "task_ok chain ch as_json s \<longleftrightarrow> (\<exists>seen later outs. channel_log (env_outbox (ot_env s)) ch = seen @ later \<and>
     length seen = ot_consumed s \<and> list_all2 (entry_output chain as_json) seen outs \<and>
     prefix (ot_written s) (concat outs) \<and> (ot_running s \<longrightarrow> ot_written s = concat outs))"

lemma outbound_step_ok:
  assumes "keeps_outbox chain" "outbound_step chain ch as_json sink_ok s s'" "task_ok chain ch as_json s"
  shows "task_ok chain ch as_json s'"
proof -
  obtain seen rest outs where s: "channel_log (env_outbox (ot_env s)) ch = seen @ rest" "length seen = ot_consumed s"
    "list_all2 (entry_output chain as_json) seen outs" "prefix (ot_written s) (concat outs)"
    "ot_running s \<Longrightarrow> ot_written s = concat outs"
    using assms(3) unfolding task_ok_def by blast
  show ?thesis
    using assms(2)
  proof cases
    case (batch old messages later processed e' ok written)
    have old: "old = seen" "rest = messages @ later"
      using s(1,2) batch(3,4) by auto
    obtain outs' where outs': "list_all2 (entry_output chain as_json) messages outs'"
      "map (entry_text as_json) processed = concat outs'"
      using process_batch_outputs [OF batch(7)] by blast
    obtain js where js: "written = ot_written s @ js" "prefix js (concat outs')" "ok \<longrightarrow> js = concat outs'"
      using write_batch_prefix [OF batch(8)] outs'(2) by auto
    have "env_outbox e' = env_outbox (ot_env s)"
      using process_batch_outbox [OF assms(1), of messages "ot_env s"] batch(7) by simp
    moreover have "list_all2 (entry_output chain as_json) (seen @ messages) (outs @ outs')"
      using s(3) outs'(1) by (rule list_all2_appendI)
    moreover have "prefix written (concat (outs @ outs'))"
      using js(1,2) s(5) [OF batch(2)] by simp
    ultimately show ?thesis
      unfolding task_ok_def using s(1,2) s(5) [OF batch(2)] js old
      by (intro exI [of _ "seen @ messages"] exI [of _ later] exI [of _ "outs @ outs'"]) (simp add: batch(1))
  next
    case cancel
    then show ?thesis
      using s unfolding task_ok_def by auto
  next
    case (other e' sent)
    then show ?thesis
      using s unfolding task_ok_def
      by (intro exI [of _ seen] exI [of _ "rest @ channel_log sent ch"] exI [of _ outs]) simp
  qed
qed

lemma outbound_reachable_ok:
  assumes "keeps_outbox chain" "(outbound_step chain ch as_json sink_ok)\<^sup>*\<^sup>* \<lparr>ot_consumed = 0, ot_written = [], ot_running = True, ot_env = e\<rparr> s"
  shows "task_ok chain ch as_json s"
  using assms(2)
proof (induction rule: rtranclp_induct)
  case base
  show ?case
    by (simp add: task_ok_def)
next
  case (step s1 s2)
  show ?case
    by (rule outbound_step_ok [OF assms(1) step(2,3)])
qed

text \<open>C10. Order of delivery. In the default relay, whatever runs beside it, the outbound task of a
  connection has at every moment consumed a first part of what was sent to the connection's channel, entry
  by entry in order, and has written for each of them what the middleware chain made of it (one text or
  nothing): nothing is written twice, reordered or skipped. After a failed write or the cancellation it has
  written a first part of that.\<close>

theorem outbound_task_in_order:
  assumes "build_with L D N opener url_ok global_set (\<lambda>cb. cb) b = Some (Inr (F, w, diag))" "\<not> rb_without_defaults b"
    "(outbound_step (build_connected ch (hf_chain F)) ch as_json sink_ok)\<^sup>*\<^sup>*
       \<lparr>ot_consumed = 0, ot_written = [], ot_running = True, ot_env = e\<rparr> s"
  shows "ot_consumed s \<le> length (channel_log (env_outbox (ot_env s)) ch) \<and>
    (\<exists>outs. list_all2 (entry_output (build_connected ch (hf_chain F)) as_json)
        (take (ot_consumed s) (channel_log (env_outbox (ot_env s)) ch)) outs \<and>
      list_all (\<lambda>js. length js \<le> 1) outs \<and> prefix (ot_written s) (concat outs) \<and>
      (ot_running s \<longrightarrow> ot_written s = concat outs))"
proof -
  let ?chain = "build_connected ch (hf_chain F)"
  obtain seen later outs where ok: "channel_log (env_outbox (ot_env s)) ch = seen @ later" "length seen = ot_consumed s"
    "list_all2 (entry_output ?chain as_json) seen outs" "prefix (ot_written s) (concat outs)"
    "ot_running s \<longrightarrow> ot_written s = concat outs"
    using outbound_reachable_ok [OF default_keeps_outbox [OF assms(1,2)] assms(3)] unfolding task_ok_def by blast
  have "list_all (\<lambda>js. length js \<le> 1) outs"
    using ok(3) by (metis entry_output_length list_all2_conv_all_nth list_all_length)
  then show ?thesis
    using ok by (auto intro!: exI [of _ outs])
qed


abbreviation demo_chain :: "(unit, unit, event list, unit) env middleware connected" where
  "demo_chain \<equiv> build_connected 1 (hf_chain (demo_factory demo_lib demo_lmdb default_processor))"

lemma demo_notice: "process_entry demo_chain (RM_Notice ''x'', 0, None) e = ([(RM_Notice ''x'', None)], e)"
  by (simp add: process_entry_def build_with_chain(1) [OF demo_build] final_chain_default outbound_route)
    (simp add: default_links_def upt_rec relay_mw_def relay_outbound_def metrics_layer_outbound default_layers_outbound
      json_to_use_def)

theorem outbound_task_in_order_witness:
  "let e = demo_env\<lparr>en_world := demo_world\<lparr>w_outbox := [(1, RM_Notice ''x'', 0, None)]\<rparr>\<rparr>;
       s = \<lparr>ot_consumed = 1, ot_written = [''NOTICE''], ot_running = True, ot_env = e\<rparr>
   in outbound_step demo_chain 1 (\<lambda>_. ''NOTICE'') (\<lambda>_ _. True)
        \<lparr>ot_consumed = 0, ot_written = [], ot_running = True, ot_env = e\<rparr> s \<and>
      (\<exists>outs. list_all2 (entry_output demo_chain (\<lambda>_. ''NOTICE'')) [(RM_Notice ''x'', 0, None)] outs \<and>
         [''NOTICE''] = concat outs)"
proof -
  define e where "e = demo_env\<lparr>en_world := demo_world\<lparr>w_outbox := [(1, RM_Notice ''x'', 0, None)]\<rparr>\<rparr>"
  define s where "s = \<lparr>ot_consumed = 1, ot_written = [''NOTICE''], ot_running = True, ot_env = e\<rparr>"
  have log: "channel_log (env_outbox e) 1 = [(RM_Notice ''x'', 0, None)]"
    by (simp add: e_def channel_log_def)
  have step: "outbound_step demo_chain 1 (\<lambda>_. ''NOTICE'') (\<lambda>_ _. True)
      \<lparr>ot_consumed = 0, ot_written = [], ot_running = True, ot_env = e\<rparr> s"
    using outbound_step.batch [of "\<lparr>ot_consumed = 0, ot_written = [], ot_running = True, ot_env = e\<rparr>" 1 "[]"
        "[(RM_Notice ''x'', 0, None)]" "[]" demo_chain "[(RM_Notice ''x'', None)]" e "\<lambda>_. ''NOTICE''" "\<lambda>_ _. True" True "[''NOTICE'']"]
      log demo_notice [of e] by (simp add: s_def)
  then have "(outbound_step demo_chain 1 (\<lambda>_. ''NOTICE'') (\<lambda>_ _. True))\<^sup>*\<^sup>*
      \<lparr>ot_consumed = 0, ot_written = [], ot_running = True, ot_env = e\<rparr> s"
    by (rule r_into_rtranclp)
  from outbound_task_in_order [OF demo_build demo_builder_simps(1) this] step log show ?thesis
    unfolding Let_def e_def [symmetric] s_def [symmetric] by (auto simp: s_def)
qed


section \<open>Catching up\<close>

lemma write_batch_all: "write_batch as_json (\<lambda>_ _. True) ps written = (True, written @ map (entry_text as_json) ps)"
proof (induction ps arbitrary: written)
  case (Cons p ps)
  show ?case
    using Cons by (cases p; cases "snd p") (simp_all add: entry_text_def Let_def)
qed simp

definition backlog :: "channel \<Rightarrow> ('t, 'n, 'db, 'l) env outbound_task \<Rightarrow> nat" where
  "backlog ch s = length (channel_log (env_outbox (ot_env s)) ch) - ot_consumed s"

lemma outbound_turn:
  assumes "keeps_outbox chain" "ot_running s" "ot_consumed s < length (channel_log (env_outbox (ot_env s)) ch)"
  shows "\<exists>s'. outbound_step chain ch as_json (\<lambda>_ _. True) s s' \<and> ot_running s' \<and>
    env_outbox (ot_env s') = env_outbox (ot_env s) \<and> backlog ch s' = backlog ch s - 10 \<and>
    ot_consumed s' \<le> length (channel_log (env_outbox (ot_env s')) ch)"
proof -
  let ?log = "channel_log (env_outbox (ot_env s)) ch"
  let ?rest = "drop (ot_consumed s) ?log"
  obtain processed e' where p: "process_batch chain (take 10 ?rest) (ot_env s) = (processed, e')"
    by fastforce
  have e': "env_outbox e' = env_outbox (ot_env s)"
    using process_batch_outbox [OF assms(1), of "take 10 ?rest" "ot_env s"] p by simp
  let ?s' = "\<lparr>ot_consumed = ot_consumed s + length (take 10 ?rest),
    ot_written = ot_written s @ map (entry_text as_json) processed, ot_running = True, ot_env = e'\<rparr>"
  have "?log = take (ot_consumed s) ?log @ take 10 ?rest @ drop 10 ?rest"
    by (simp only: append_take_drop_id)
  then have "outbound_step chain ch as_json (\<lambda>_ _. True) s ?s'"
    using assms(2,3) p by (intro outbound_step.batch [of _ _ "take (ot_consumed s) ?log" _ "drop 10 ?rest" _ processed])
      (auto simp: write_batch_all)
  then show ?thesis
    using assms(3) e' by (intro exI [of _ ?s']) (auto simp: backlog_def)
qed

lemma turns_left: "n \<noteq> 0 \<Longrightarrow> (n + 9) div 10 = Suc ((n - 10 + 9) div (10 :: nat))"
  by (cases "n < 10") (simp_all add: le_div_geq)

lemma outbound_catches_up:
  assumes "keeps_outbox chain" "ot_running s" "ot_consumed s \<le> length (channel_log (env_outbox (ot_env s)) ch)"
  shows "\<exists>s'. (outbound_step chain ch as_json (\<lambda>_ _. True) ^^ ((backlog ch s + 9) div 10)) s s' \<and> ot_running s' \<and>
    env_outbox (ot_env s') = env_outbox (ot_env s) \<and> backlog ch s' = 0 \<and>
    ot_consumed s' \<le> length (channel_log (env_outbox (ot_env s')) ch)"
  using assms(2,3)
proof (induction "backlog ch s" arbitrary: s rule: less_induct)
  case less
  show ?case
  proof (cases "backlog ch s = 0")
    case True
    then show ?thesis
      using less.prems by (intro exI [of _ s]) simp
  next
    case False
    then have "ot_consumed s < length (channel_log (env_outbox (ot_env s)) ch)"
      by (simp add: backlog_def)
    from outbound_turn [OF assms(1) less.prems(1) this, of as_json] obtain s1 where
      s1: "outbound_step chain ch as_json (\<lambda>_ _. True) s s1" "ot_running s1"
      "env_outbox (ot_env s1) = env_outbox (ot_env s)" "backlog ch s1 = backlog ch s - 10"
      "ot_consumed s1 \<le> length (channel_log (env_outbox (ot_env s1)) ch)"
      by blast
    moreover have "(backlog ch s + 9) div 10 = Suc ((backlog ch s1 + 9) div 10)"
      unfolding s1(4) by (rule turns_left [OF False])
    moreover have "backlog ch s1 < backlog ch s"
      using s1(4) False by simp
    ultimately show ?thesis
      using less.hyps [OF _ s1(2,5)] by (metis relpowp_Suc_I2)
  qed
qed

text \<open>C11. Delivery. In the default relay, with a socket that accepts what is written to it, the outbound task of
  a connection can from every state in which it still runs catch up by its own turns alone: after one turn for
  every ten waiting entries (rounded up) everything that was sent to the channel is consumed, and what the chain
  made of it is written.\<close>

theorem outbound_task_catches_up:
  assumes "build_with L D N opener url_ok global_set (\<lambda>cb. cb) b = Some (Inr (F, w, diag))" "\<not> rb_without_defaults b"
    "(outbound_step (build_connected ch (hf_chain F)) ch as_json (\<lambda>_ _. True))\<^sup>*\<^sup>*
       \<lparr>ot_consumed = 0, ot_written = [], ot_running = True, ot_env = e\<rparr> s" "ot_running s"
  shows "\<exists>s' outs. (outbound_step (build_connected ch (hf_chain F)) ch as_json (\<lambda>_ _. True) ^^ ((backlog ch s + 9) div 10)) s s' \<and>
    env_outbox (ot_env s') = env_outbox (ot_env s) \<and>
    list_all2 (entry_output (build_connected ch (hf_chain F)) as_json) (channel_log (env_outbox (ot_env s)) ch) outs \<and>
    ot_written s' = concat outs"
proof -
  let ?chain = "build_connected ch (hf_chain F)"
  note keeps = default_keeps_outbox [OF assms(1,2), of ch]
  have "ot_consumed s \<le> length (channel_log (env_outbox (ot_env s)) ch)"
    using outbound_reachable_ok [OF keeps assms(3)] by (auto simp: task_ok_def)
  from outbound_catches_up [OF keeps assms(4) this] obtain s' where
    s': "(outbound_step ?chain ch as_json (\<lambda>_ _. True) ^^ ((backlog ch s + 9) div 10)) s s'" "ot_running s'"
    "env_outbox (ot_env s') = env_outbox (ot_env s)" "backlog ch s' = 0"
    "ot_consumed s' \<le> length (channel_log (env_outbox (ot_env s')) ch)"
    by blast
  then have "task_ok ?chain ch as_json s'"
    using outbound_reachable_ok [OF keeps] assms(3) by (meson relpowp_imp_rtranclp rtranclp_trans)
  then obtain seen later outs where ok: "channel_log (env_outbox (ot_env s')) ch = seen @ later" "length seen = ot_consumed s'"
    "list_all2 (entry_output ?chain as_json) seen outs" "ot_written s' = concat outs"
    using s'(2) unfolding task_ok_def by blast
  moreover have "later = []"
    using ok(1,2) s'(4,5) by (simp add: backlog_def)
  ultimately show ?thesis
    using s'(1,3) by auto
qed

theorem outbound_task_catches_up_witness:
  "let e = demo_env\<lparr>en_world := demo_world\<lparr>w_outbox := [(1, RM_Notice ''x'', 0, None)]\<rparr>\<rparr>
   in \<exists>s'. outbound_step demo_chain 1 (\<lambda>_. ''NOTICE'') (\<lambda>_ _. True)
        \<lparr>ot_consumed = 0, ot_written = [], ot_running = True, ot_env = e\<rparr> s' \<and> ot_written s' = [''NOTICE'']"
proof -
  define e where "e = demo_env\<lparr>en_world := demo_world\<lparr>w_outbox := [(1, RM_Notice ''x'', 0, None)]\<rparr>\<rparr>"
  let ?s = "\<lparr>ot_consumed = 0, ot_written = [], ot_running = True, ot_env = e\<rparr>"
  have log: "channel_log (env_outbox e) 1 = [(RM_Notice ''x'', 0, None)]"
    by (simp add: e_def channel_log_def)
  have one: "(backlog 1 ?s + 9) div 10 = 1"
    using log by (simp add: backlog_def)
  have out: "entry_output demo_chain (\<lambda>_. ''NOTICE'') (RM_Notice ''x'', 0, None) js \<Longrightarrow> js = [''NOTICE'']" for js
    by (auto simp: entry_output_def demo_notice [unfolded One_nat_def] entry_text_def)
  have "ot_running ?s"
    by simp
  note drains = outbound_task_catches_up [OF demo_build [where L = demo_lib and D = demo_lmdb and P = default_processor]
      demo_builder_simps(1) rtranclp.rtrancl_refl this, where ch = 1 and as_json = "\<lambda>_. ''NOTICE''"]
  obtain s' outs where s': "(outbound_step demo_chain 1 (\<lambda>_. ''NOTICE'') (\<lambda>_ _. True) ^^ ((backlog 1 ?s + 9) div 10)) ?s s'"
    "list_all2 (entry_output demo_chain (\<lambda>_. ''NOTICE'')) (channel_log (env_outbox (ot_env ?s)) 1) outs" "ot_written s' = concat outs"
    using drains by blast
  have "outbound_step demo_chain 1 (\<lambda>_. ''NOTICE'') (\<lambda>_ _. True) ?s s'"
    using s'(1) unfolding one relpowp_1 .
  moreover have "outs = [[''NOTICE'']]"
    using s'(2) out unfolding outbound_task.select_convs log by (auto simp: list_all2_Cons1)
  ultimately show ?thesis
    using s'(3) unfolding Let_def e_def [symmetric] by auto
qed

end
