(* ===== verification/Subscription_Registry_Reachable.thy ===== *)
theory Subscription_Registry_Reachable
  imports Subscription_Registry_Properties
begin

text \<open>
  The registries that sequences of whole operations reach, the bare \<open>add_subscription\<close> on an id in use included. That
  call replaces the filters of the connection and adds to those of the index. No operation reads the filters of a
  connection, so every such registry is a consistent one whose connections have had
  their filters exchanged: \<open>with_filters\<close> commutes with each operation, and the invariant of the consistent
  registry carries over. Overlapping operations are the subject of \<open>Registry_Threads\<close>.
\<close>

section \<open>Maps with exchanged values\<close>

lemma map_of_keyed: "map_of (map (\<lambda>(k, v). (k, g k v)) xs) k = map_option (g k) (map_of xs k)"
  by (induction xs) auto

lemma insert_keyed: "hm_insert k (g k v) (map (\<lambda>(k, v). (k, g k v)) xs) = map (\<lambda>(k, v). (k, g k v)) (hm_insert k v xs)"
  by (induction xs) auto

lemma remove_keyed: "hm_remove k (map (\<lambda>(k, v). (k, g k v)) xs) = map (\<lambda>(k, v). (k, g k v)) (hm_remove k xs)"
  by (induction xs) auto

lemma insert_keyed_other:
  assumes "hm_wf xs" "\<And>k' v'. k' \<noteq> k \<Longrightarrow> g' k' v' = g k' v'" "g' k v = w"
  shows "hm_insert k w (map (\<lambda>(k, v). (k, g k v)) xs) = map (\<lambda>(k, v). (k, g' k v)) (hm_insert k v xs)"
  using assms(1)
proof (induction xs)
  case (Cons x xs)
  obtain k1 v1 where x: "x = (k1, v1)"
    by (cases x)
  show ?case
  proof (cases "k1 = k")
    case True
    then have "map (\<lambda>(k, v). (k, g k v)) xs = map (\<lambda>(k, v). (k, g' k v)) xs"
      using Cons.prems x assms(2) by (force intro!: map_cong)
    then show ?thesis
      using True x assms(3) by simp
  next
    case False
    then show ?thesis
      using Cons x assms(2) by simp
  qed
qed (simp add: assms(3))

section \<open>Exchanging the filters of the connections\<close>

definition conn_filters :: "(subscription_id \<Rightarrow> filter list) \<Rightarrow> connection_subscriptions \<Rightarrow> connection_subscriptions" where
  "conn_filters G conn = conn\<lparr>cs_subscriptions := map (\<lambda>(sid, _). (sid, G sid)) (cs_subscriptions conn)\<rparr>"

definition with_filters :: "(sub_key \<Rightarrow> filter list) \<Rightarrow> registry \<Rightarrow> registry" where
  "with_filters F a = a\<lparr>rg_connections :=
     map (\<lambda>(cid, conn). (cid, conn_filters (\<lambda>sid. F (cid, sid)) conn)) (rg_connections a)\<rparr>"

lemma conn_filters_fields [simp]:
  "cs_sender (conn_filters G conn) = cs_sender conn" "cs_subdomain (conn_filters G conn) = cs_subdomain conn"
  "hm_keys (cs_subscriptions (conn_filters G conn)) = hm_keys (cs_subscriptions conn)"
  "hm_get (cs_subscriptions (conn_filters G conn)) sid = map_option (\<lambda>_. G sid) (hm_get (cs_subscriptions conn) sid)"
  "length (cs_subscriptions (conn_filters G conn)) = length (cs_subscriptions conn)"
  "cs_subscriptions (conn_filters G conn) = [] \<longleftrightarrow> cs_subscriptions conn = []"
  using map_of_keyed [of "\<lambda>s _. G s" "cs_subscriptions conn" sid]
  by (simp_all add: conn_filters_def comp_def split_beta)

lemma conn_filters_remove:
  "conn_filters G conn\<lparr>cs_subscriptions := hm_remove sid (cs_subscriptions (conn_filters G conn))\<rparr> =
   conn_filters G (conn\<lparr>cs_subscriptions := hm_remove sid (cs_subscriptions conn)\<rparr>)"
  using remove_keyed [of sid "\<lambda>s _. G s" "cs_subscriptions conn"] by (simp add: conn_filters_def)

lemma with_filters_fields [simp]:
  "rg_indexes (with_filters F a) = rg_indexes a" "rg_metrics_handler (with_filters F a) = rg_metrics_handler a"
  "rg_metrics_log (with_filters F a) = rg_metrics_log a"
  "hm_get (rg_connections (with_filters F a)) cid =
     map_option (conn_filters (\<lambda>sid. F (cid, sid))) (hm_get (rg_connections a) cid)"
  "has_connection (with_filters F a) cid = has_connection a cid"
  by (simp_all add: with_filters_def map_of_keyed has_connection_def hm_contains_def)

lemma with_filters_log [simp]: "with_filters F (log_metric m a) = log_metric m (with_filters F a)"
  by (simp add: log_metric_def with_filters_def)

lemma with_filters_indexes:
  "with_filters F (a\<lparr>rg_indexes := ixs\<rparr>) = with_filters F a\<lparr>rg_indexes := ixs\<rparr>"
  by (simp add: with_filters_def)

lemma with_filters_insert:
  "with_filters F (a\<lparr>rg_connections := hm_insert cid conn (rg_connections a)\<rparr>) =
   with_filters F a\<lparr>rg_connections := hm_insert cid (conn_filters (\<lambda>sid. F (cid, sid)) conn) (rg_connections (with_filters F a))\<rparr>"
  by (simp add: with_filters_def insert_keyed [where g = "\<lambda>cid. conn_filters (\<lambda>sid. F (cid, sid))", symmetric])

lemma with_filters_remove:
  "with_filters F (a\<lparr>rg_connections := hm_remove cid (rg_connections a)\<rparr>) =
   with_filters F a\<lparr>rg_connections := hm_remove cid (rg_connections (with_filters F a))\<rparr>"
  by (simp add: with_filters_def remove_keyed [where g = "\<lambda>cid. conn_filters (\<lambda>sid. F (cid, sid))", symmetric])

lemma with_filters_index_remove:
  "with_filters F (index_remove L sc cid sids a) = index_remove L sc cid sids (with_filters F a)"
  by (simp add: index_remove_def with_filters_indexes split: option.split)

text \<open>The operations that remove, and the distribution, do not see the filters.\<close>

lemma with_filters_register:
  "with_filters F (register_connection cid ms ap sc a) = register_connection cid ms ap sc (with_filters F a)"
  by (simp add: register_connection_def with_filters_insert) (simp add: conn_filters_def)

lemma with_filters_remove_subscription:
  "with_filters F (snd (reg_remove_subscription L cid sid a)) = snd (reg_remove_subscription L cid sid (with_filters F a))"
  by (simp add: reg_remove_subscription_def with_filters_index_remove with_filters_insert conn_filters_remove Let_def
      split: option.split)

lemma with_filters_cleanup: "with_filters F (cleanup_connection L cid a) = cleanup_connection L cid (with_filters F a)"
  by (simp add: cleanup_connection_def with_filters_index_remove with_filters_remove Let_def split: option.split)

lemma with_filters_drop: "with_filters F (connection_handle_drop L cid a) = connection_handle_drop L cid (with_filters F a)"
  by (simp add: connection_handle_drop_def with_filters_cleanup)

lemma with_filters_send: "send_matches L e (with_filters F a) ms dead out = send_matches L e a ms dead out"
  by (induction L e a ms dead out rule: send_matches.induct) (auto split: option.splits sum.splits prod.splits)

lemma with_filters_fold_cleanup:
  "with_filters F (fold (cleanup_connection L) dead a) = fold (cleanup_connection L) dead (with_filters F a)"
  by (induction dead arbitrary: a) (simp_all add: with_filters_cleanup)

lemma with_filters_distribute:
  "distribute_event L e sc (with_filters F a) out =
     (with_filters F (fst (distribute_event L e sc a out)), snd (distribute_event L e sc a out))"
  by (simp add: distribute_event_def with_filters_fold_cleanup with_filters_send Let_def split_beta
      flip: with_filters_indexes split: option.split)

section \<open>Adding to an id in use\<close>

text \<open>The registry whose connections keep what the index keeps: all filters added since the last removal.\<close>

definition accumulate :: "nostr_lib \<Rightarrow> connection_id \<Rightarrow> subscription_id \<Rightarrow> filter list \<Rightarrow> registry \<Rightarrow> registry" where
  "accumulate L cid sid fs a = (case hm_get (rg_connections a) cid of
     None \<Rightarrow> a
   | Some conn \<Rightarrow>
       let old = (case hm_get (cs_subscriptions conn) sid of None \<Rightarrow> [] | Some old \<Rightarrow> old)
       in snd (reg_add_subscription L cid sid fs a)\<lparr>rg_connections :=
            hm_insert cid (conn\<lparr>cs_subscriptions := hm_insert sid (old @ fs) (cs_subscriptions conn)\<rparr>) (rg_connections a)\<rparr>)"

lemma add_with_filters:
  assumes "conns_wf a"
  shows "snd (reg_add_subscription L cid sid fs (with_filters F a)) =
    with_filters (F((cid, sid) := fs)) (accumulate L cid sid fs a)"
proof (cases "hm_get (rg_connections a) cid")
  case None
  then have "\<forall>x \<in> set (rg_connections a). fst x \<noteq> cid"
    by (force simp: map_of_eq_None_iff)
  then have "map (\<lambda>(c, conn). (c, conn_filters (\<lambda>s. (F((cid, sid) := fs)) (c, s)) conn)) (rg_connections a) =
      map (\<lambda>(c, conn). (c, conn_filters (\<lambda>s. F (c, s)) conn)) (rg_connections a)"
    by (intro map_cong refl) (auto simp: fun_upd_def)
  then have "with_filters (F((cid, sid) := fs)) a = with_filters F a"
    by (simp add: with_filters_def)
  then show ?thesis
    using None by (simp add: reg_add_subscription_def accumulate_def)
next
  case (Some conn)
  define old where "old = (case hm_get (cs_subscriptions conn) sid of None \<Rightarrow> [] | Some old \<Rightarrow> old)"
  define conn' where "conn' = conn\<lparr>cs_subscriptions := hm_insert sid (old @ fs) (cs_subscriptions conn)\<rparr>"
  define F' where "F' = F((cid, sid) := fs)"
  let ?g = "\<lambda>F cid. conn_filters (\<lambda>sid. F (cid, sid))"
  have F': "F' (cid, sid) = fs" "\<And>key. key \<noteq> (cid, sid) \<Longrightarrow> F' key = F key"
    by (simp_all add: F'_def)
  have wf: "hm_wf (cs_subscriptions conn)" "hm_wf (rg_connections a)"
    using assms conn_get_wf [OF assms Some] by (simp_all add: conns_wf_def)
  have "hm_insert sid fs (map (\<lambda>(s, v). (s, F (cid, s))) (cs_subscriptions conn)) =
      map (\<lambda>(s, v). (s, F' (cid, s))) (hm_insert sid (old @ fs) (cs_subscriptions conn))"
    by (rule insert_keyed_other [OF wf(1)]) (simp_all add: F')
  then have subs: "?g F cid conn\<lparr>cs_subscriptions := hm_insert sid fs (cs_subscriptions (?g F cid conn))\<rparr> = ?g F' cid conn'"
    by (simp add: conn_filters_def conn'_def)
  have "hm_insert cid (?g F' cid conn') (map (\<lambda>(cid, conn). (cid, ?g F cid conn)) (rg_connections a)) =
      map (\<lambda>(cid, conn). (cid, ?g F' cid conn)) (hm_insert cid conn' (rg_connections a))"
    by (rule insert_keyed_other [OF wf(2)]) (simp_all add: F')
  then have conns: "with_filters F' (b\<lparr>rg_connections := hm_insert cid conn' (rg_connections a)\<rparr>) =
      b\<lparr>rg_connections := hm_insert cid (?g F' cid conn') (rg_connections (with_filters F a))\<rparr>" for b
    by (simp add: with_filters_def)
  have acc: "accumulate L cid sid fs a = snd (reg_add_subscription L cid sid fs a)\<lparr>rg_connections := hm_insert cid conn' (rg_connections a)\<rparr>"
    by (simp add: accumulate_def Some conn'_def old_def)
  have "snd (reg_add_subscription L cid sid fs (with_filters F a)) =
      snd (reg_add_subscription L cid sid fs a)\<lparr>rg_connections := hm_insert cid (?g F' cid conn') (rg_connections (with_filters F a))\<rparr>"
    using Some by (simp add: reg_add_subscription_def subs log_metric_def Let_def)
  then show ?thesis
    unfolding acc F'_def [symmetric] conns .
qed

lemma accumulate_table:
  assumes wf: "reg_wf L a" and conn: "hm_get (rg_connections a) cid = Some conn"
    and fs: "list_all filter_wf fs" and room: "scope_room (cs_subdomain conn) (length fs) a"
  shows "reg_wf L (accumulate L cid sid fs a)"
    and "conn_table (accumulate L cid sid fs a) = (conn_table a)
      (cs_subdomain conn := table_add (cid, sid) fs (conn_table a (cs_subdomain conn)))"
proof -
  define sc where "sc = cs_subdomain conn"
  have "reg_wf L (accumulate L cid sid fs a) \<and> conn_table (accumulate L cid sid fs a) = (conn_table a)
      (sc := table_add (cid, sid) fs (conn_table a sc))"
  proof (cases "hm_get (cs_subscriptions conn) sid")
    case None
    then have "accumulate L cid sid fs a = snd (reg_add_subscription L cid sid fs a)"
      by (simp add: accumulate_def reg_add_subscription_def conn log_metric_def Let_def)
    moreover have "conn_table a sc (cid, sid) = None"
      by (simp add: conn_table_def conn None)
    ultimately show ?thesis
      using reg_add_subscription_table [OF wf conn None fs room] by (simp add: table_add_def sc_def)
  next
    case (Some old)
    define ix where "ix = (case hm_get (rg_indexes a) sc of None \<Rightarrow> si_new | Some ix \<Rightarrow> ix)"
    define conn' where "conn' = conn\<lparr>cs_subscriptions := hm_insert sid (old @ fs) (cs_subscriptions conn)\<rparr>"
    have acc: "accumulate L cid sid fs a = a\<lparr>rg_connections := hm_insert cid conn' (rg_connections a),
        rg_indexes := hm_insert sc (si_add_subscription L cid sid fs ix) (rg_indexes a)\<rparr>" (is "_ = ?a")
      by (simp add: accumulate_def reg_add_subscription_def conn Some conn'_def ix_def sc_def Let_def)
    have key: "conn_table a sc (cid, sid) = Some (mset old)"
      by (simp add: conn_table_def conn Some sc_def)
    have "index_abs ix = index_table a sc"
      by (simp add: ix_def index_table_def index_abs_new split: option.splits)
    then have ix: "index_wf L ix" "index_abs ix = conn_table a sc" "index_room (length fs) ix"
      using reg_index_wf [OF wf, of sc] wf room
      by (auto simp: ix_def si_new_wf scope_room_def sc_def reg_wf_def split: option.splits)
    have ix': "index_wf L (si_add_subscription L cid sid fs ix)"
      "index_abs (si_add_subscription L cid sid fs ix) = table_add (cid, sid) fs (conn_table a sc)"
      using store.add_invar [OF ix(1) fs ix(3), of "(cid, sid)"] store.add_abs [OF ix(1) fs ix(3), of "(cid, sid)"] ix(2)
      by simp_all
    have tab: "conn_table ?a = (conn_table a)(sc := table_add (cid, sid) fs (conn_table a sc))"
      using key by (auto simp: fun_eq_iff conn_table_insert conn'_def hm_simps conn_table_def conn sc_def table_add_def)
    moreover have "index_table ?a sc' = conn_table ?a sc'" for sc'
      using wf by (simp add: index_table_insert ix' tab reg_wf_def)
    moreover have "conns_wf ?a" "indexes_wf L ?a"
      using wf ix' conn unfolding reg_wf_def
      by (auto intro!: conns_wf_insert indexes_wf_insert hm_wf_insert simp: conn'_def dest: conn_get_wf)
    moreover have "total_subscriptions ?a = total_subscriptions a"
      using hm_sum_insert [OF conn, of "length \<circ> cs_subscriptions" conn'] Some
      by (simp add: total_subscriptions_def conn'_def hm_length_insert)
    moreover have "active_subscriptions ?a = active_subscriptions a"
      by (simp add: active_subscriptions_def)
    ultimately show ?thesis
      using wf unfolding acc by (simp add: reg_wf_def metrics_wf_def)
  qed
  then show "reg_wf L (accumulate L cid sid fs a)"
    and "conn_table (accumulate L cid sid fs a) = (conn_table a)
      (cs_subdomain conn := table_add (cid, sid) fs (conn_table a (cs_subdomain conn)))"
    by (simp_all add: sc_def)
qed

section \<open>Reachable registries\<close>

text \<open>One operation after the other. A connection id is registered when it is not in use (the relay makes a fresh one for every
  socket), and the filter counter of the scope has room. The last part of the state is kept for the
  statement only: the subscriptions whose last \<open>add_subscription\<close> found their id in use.\<close>

definition has_subscription :: "registry \<Rightarrow> sub_key \<Rightarrow> bool" where
  "has_subscription r key \<longleftrightarrow> (case hm_get (rg_connections r) (fst key) of
     None \<Rightarrow> False | Some conn \<Rightarrow> hm_get (cs_subscriptions conn) (snd key) \<noteq> None)"

inductive reg_step :: "nostr_lib \<Rightarrow> registry \<times> outbox \<times> sub_key set \<Rightarrow> registry \<times> outbox \<times> sub_key set \<Rightarrow> bool" for L where
  register: "\<not> has_connection r cid \<Longrightarrow>
    reg_step L (r, out, D) (register_connection cid ms ap sc r, out, D)"
| add: "hm_get (rg_connections r) cid = Some conn \<Longrightarrow> list_all filter_wf fs \<Longrightarrow>
    scope_room (cs_subdomain conn) (length fs) r \<Longrightarrow>
    reg_step L (r, out, D) (snd (reg_add_subscription L cid sid fs r), out,
      if has_subscription r (cid, sid) then insert (cid, sid) D else D - {(cid, sid)})"
| remove: "reg_step L (r, out, D) (snd (reg_remove_subscription L cid sid r), out, D)"
| cleanup: "reg_step L (r, out, D) (cleanup_connection L cid r, out, D)"
| handle_drop: "reg_step L (r, out, D) (connection_handle_drop L cid r, out, D)"
| distribute: "distribute_event L e sc r out = (r', out') \<Longrightarrow> reg_step L (r, out, D) (r', out', D)"

text \<open>The registry is a consistent one with other filters in its connections, which are among those of the consistent
  one, and all of them except for the subscriptions in \<open>D\<close>.\<close>

definition exchanged :: "nostr_lib \<Rightarrow> registry \<Rightarrow> sub_key set \<Rightarrow> bool" where
  "exchanged L r D \<longleftrightarrow> (\<exists>a F. r = with_filters F a \<and> reg_wf L a \<and>
     (\<forall>sc key M. conn_table a sc key = Some M \<longrightarrow> mset (F key) \<subseteq># M \<and> (key \<notin> D \<longrightarrow> M = mset (F key))))"

lemma exchangedI:
  assumes "reg_wf L a" "\<And>sc key M. conn_table a sc key = Some M \<Longrightarrow> mset (F key) \<subseteq># M \<and> (key \<notin> D \<longrightarrow> M = mset (F key))"
  shows "exchanged L (with_filters F a) D"
  using assms unfolding exchanged_def by blast

lemma has_subscription_with_filters [simp]: "has_subscription (with_filters F a) key = has_subscription a key"
  by (simp add: has_subscription_def split: option.split)

lemma scope_room_with_filters [simp]: "scope_room sc n (with_filters F a) = scope_room sc n a"
  by (simp add: scope_room_def)

lemma has_subscription_table: "hm_get (rg_connections a) cid = Some conn \<Longrightarrow>
    \<not> has_subscription a (cid, sid) \<longleftrightarrow> conn_table a (cs_subdomain conn) (cid, sid) = None"
  by (simp add: has_subscription_def conn_table_def)

lemma conn_table_scope: "hm_get (rg_connections a) cid = Some conn \<Longrightarrow> conn_table a sc (cid, sid) = Some M \<Longrightarrow>
    sc = cs_subdomain conn"
  by (auto simp: conn_table_def split: if_splits)

lemma exchanged_add:
  assumes "exchanged L r D" "hm_get (rg_connections r) cid = Some conn" "list_all filter_wf fs"
    "scope_room (cs_subdomain conn) (length fs) r"
  shows "exchanged L (snd (reg_add_subscription L cid sid fs r))
    (if has_subscription r (cid, sid) then insert (cid, sid) D else D - {(cid, sid)})"
proof -
  obtain a F where a: "r = with_filters F a" "reg_wf L a"
    and F: "\<And>sc key M. conn_table a sc key = Some M \<Longrightarrow> mset (F key) \<subseteq># M \<and> (key \<notin> D \<longrightarrow> M = mset (F key))"
    using assms(1) unfolding exchanged_def by blast
  obtain c where c: "hm_get (rg_connections a) cid = Some c" "cs_subdomain c = cs_subdomain conn"
    using assms(2) a(1) by auto
  have room: "scope_room (cs_subdomain c) (length fs) a"
    using assms(4) a(1) c(2) by simp
  note acc = accumulate_table [OF a(2) c(1) assms(3) room, of sid]
  have "conns_wf a"
    using a(2) by (simp add: reg_wf_def)
  have "mset ((F((cid, sid) := fs)) key) \<subseteq># M \<and>
      (key \<notin> (if has_subscription a (cid, sid) then insert (cid, sid) D else D - {(cid, sid)}) \<longrightarrow>
        M = mset ((F((cid, sid) := fs)) key))"
    if "conn_table (accumulate L cid sid fs a) sc key = Some M" for sc key M
  proof (cases "key = (cid, sid)")
    case True
    have "sc = cs_subdomain c"
      using that True conn_table_scope [OF c(1), of sc sid] by (auto simp: acc(2) split: if_splits)
    then show ?thesis
      using that True has_subscription_table [OF c(1), of sid] by (auto simp: acc(2) table_add_def)
  next
    case False
    then have "conn_table a sc key = Some M"
      using that by (auto simp: acc(2) table_add_def split: if_splits)
    then show ?thesis
      using F False by auto
  qed
  then show ?thesis
    unfolding a(1) add_with_filters [OF \<open>conns_wf a\<close>] has_subscription_with_filters by (rule exchangedI [OF acc(1)])
qed

lemma distribute_keeps_filters:
  assumes "reg_wf L a" "match_event_sound L" "conn_table (fst (distribute_event L e sc a out)) sc' key = Some M"
  shows "conn_table a sc' key = Some M"
proof -
  obtain dead where "rg_connections (fst (distribute_event L e sc a out)) =
      List.filter (\<lambda>x. fst x \<notin> set dead) (rg_connections a)"
    using distribute_event_wf(2) [OF assms(1,2), of e sc out] by auto
  then show ?thesis
    using assms(3) hm_get_filter_key [of "\<lambda>c. c \<notin> set dead" "rg_connections a"]
    by (auto simp: conn_table_def split: if_splits option.splits)
qed

lemma reg_step_exchanged:
  assumes "reg_step L s s'" "match_event_sound L" "exchanged L (fst s) (snd (snd s))"
  shows "exchanged L (fst s') (snd (snd s'))"
proof -
  obtain r out D r' out' D' where s: "s = (r, out, D)" "s' = (r', out', D')"
    by (cases s; cases s')
  obtain a F where a: "r = with_filters F a" "reg_wf L a"
    and F: "\<And>sc key M. conn_table a sc key = Some M \<Longrightarrow> mset (F key) \<subseteq># M \<and> (key \<notin> D \<longrightarrow> M = mset (F key))"
    using assms(3) unfolding exchanged_def s by auto
  have cleanup: "exchanged L (cleanup_connection L cid r) D" for cid
    unfolding a(1) with_filters_cleanup [symmetric]
    by (rule exchangedI [OF cleanup_connection_table(1) [OF a(2)]])
      (use F in \<open>auto simp: cleanup_connection_table [OF a(2)] split: if_splits\<close>)
  from assms(1) [unfolded s] have "exchanged L r' D'"
  proof cases
    case (register cid ms ap sc)
    then have "\<not> has_connection a cid"
      by (simp add: a(1))
    note reg = register_connection_wf [OF a(2) this, of ms ap sc]
    show ?thesis
      unfolding register a(1) with_filters_register [symmetric] using F by (intro exchangedI [OF reg(1)]) (simp add: reg(2))
  next
    case (add cid conn fs sid)
    then show ?thesis
      using exchanged_add assms(3) s by simp
  next
    case (remove cid sid)
    note rem = reg_remove_subscription_table [OF a(2), of cid sid]
    show ?thesis
      unfolding remove a(1) with_filters_remove_subscription [symmetric] using F
      by (intro exchangedI [OF rem(1)]) (auto simp: rem(2) split: if_splits)
  next
    case (handle_drop cid)
    then show ?thesis
      using cleanup assms(3) s by (simp add: connection_handle_drop_def)
  next
    case (distribute e sc)
    then have r': "r' = with_filters F (fst (distribute_event L e sc a out))"
      by (simp add: a(1) with_filters_distribute)
    show ?thesis
      unfolding distribute r' using F distribute_keeps_filters [OF a(2) assms(2)] distribute_event_wf(1) [OF a(2) assms(2)]
      by (intro exchangedI) blast+
  qed (use cleanup in simp)
  then show ?thesis
    by (simp add: s)
qed

lemma reg_reachable_exchanged:
  assumes "(reg_step L)\<^sup>*\<^sup>* (registry_new mh, [], {}) s" "match_event_sound L"
  shows "exchanged L (fst s) (snd (snd s))"
  using assms(1)
proof (induction rule: rtranclp_induct)
  case base
  have "with_filters (\<lambda>_. []) (registry_new mh) = registry_new mh"
    by (simp add: with_filters_def registry_new_def)
  moreover have "exchanged L (with_filters (\<lambda>_. []) (registry_new mh)) {}"
    by (rule exchangedI [OF registry_new_wf]) (simp add: conn_table_def registry_new_def)
  ultimately show ?case
    by simp
next
  case (step s s')
  then show ?case
    using reg_step_exchanged assms(2) by blast
qed

lemma exchanged_consistent:
  assumes "exchanged L r D"
  shows "indexes_wf L r" "rg_metrics_handler r \<longrightarrow> active_subscriptions r = int (total_subscriptions r)"
    "case conn_table r sc key of
        None \<Rightarrow> index_table r sc key = None
      | Some M \<Rightarrow> \<exists>N. index_table r sc key = Some N \<and> M \<subseteq># N \<and> (key \<notin> D \<longrightarrow> N = M)"
proof -
  obtain a F where a: "r = with_filters F a" "reg_wf L a"
    and F: "\<And>sc key M. conn_table a sc key = Some M \<Longrightarrow> mset (F key) \<subseteq># M \<and> (key \<notin> D \<longrightarrow> M = mset (F key))"
    using assms unfolding exchanged_def by blast
  show "indexes_wf L r"
    using a by (simp add: reg_wf_def indexes_wf_def)
  have "total_subscriptions r = total_subscriptions a"
    by (simp add: a(1) total_subscriptions_def with_filters_def comp_def split_beta)
  then show "rg_metrics_handler r \<longrightarrow> active_subscriptions r = int (total_subscriptions r)"
    using a by (simp add: reg_wf_def metrics_wf_def active_subscriptions_def)
  have "index_table r sc key = conn_table a sc key"
    using a by (simp add: reg_wf_def index_table_def)
  moreover have "conn_table r sc key = map_option (\<lambda>_. mset (F key)) (conn_table a sc key)"
    by (cases key) (simp add: a(1) conn_table_def option.map_comp comp_def split: option.split)
  ultimately show "case conn_table r sc key of
        None \<Rightarrow> index_table r sc key = None
      | Some M \<Rightarrow> \<exists>N. index_table r sc key = Some N \<and> M \<subseteq># N \<and> (key \<notin> D \<longrightarrow> N = M)"
    using F [of sc key] by (cases "conn_table a sc key") auto
qed

text \<open>C12. Whatever whole operations (registrations under unused ids, additions under new and used subscription ids,
  removals, clean-ups, drops, distributions) have run one after the other, every index is well formed, the gauge driven by the metrics
  calls equals the number of active subscriptions, and the index of each scope holds exactly the subscriptions of the
  connections registered in it. The filters it holds of a subscription include the connection's, and are exactly these unless
  the last addition found the id in use, whose filters then stay behind; the coordinator never does that, since it removes the id first.\<close>

theorem registry_reachable_consistent:
  assumes "(reg_step L)\<^sup>*\<^sup>* (registry_new mh, [], {}) (r, out, D)" "match_event_sound L"
  shows "indexes_wf L r \<and> (rg_metrics_handler r \<longrightarrow> active_subscriptions r = int (total_subscriptions r)) \<and>
    (\<forall>sc key. case conn_table r sc key of
        None \<Rightarrow> index_table r sc key = None
      | Some M \<Rightarrow> \<exists>N. index_table r sc key = Some N \<and> M \<subseteq># N \<and> (key \<notin> D \<longrightarrow> N = M))"
  using exchanged_consistent [of L r D] reg_reachable_exchanged [OF assms] by simp

text \<open>Two connections, and a second addition under an id in use.\<close>

definition demo_registry2 :: registry where
  "demo_registry2 = snd (reg_add_subscription demo_lib ''c1'' ''a'' [kind_filter 2] demo_registry1)"

lemma demo_registry2_eval:
  "rg_connections demo_registry2 = [(''c1'', demo_conn 1 [(''a'', [kind_filter 2])] ScopeDefault),
     (''c2'', demo_conn 2 [] (ScopeNamed ''t''))]"
  "rg_metrics_handler demo_registry2" "rg_metrics_log demo_registry2 = [IncrementActive]"
  by (simp_all add: demo_registry2_def demo_registry1_eval reg_add_subscription_def demo_conn_def Let_def)

lemma demo_registry2_reachable:
  "(reg_step demo_lib)\<^sup>*\<^sup>* (registry_new True, [], {}) (demo_registry2, [], {(''c1'', ''a'')})"
proof -
  have fs: "list_all filter_wf [kind_filter k]" for k
    by (simp add: filter_wf_def demo_filter_defs)
  have "reg_step demo_lib (registry_new True, [], {})
      (register_connection ''c1'' (demo_sender 1) None ScopeDefault (registry_new True), [], {})"
    by (rule reg_step.register) (simp add: registry_new_def has_connection_def hm_contains_def)
  moreover have "reg_step demo_lib (register_connection ''c1'' (demo_sender 1) None ScopeDefault (registry_new True), [], {})
      (demo_registry0, [], {})"
    unfolding demo_registry0_def
    by (rule reg_step.register) (simp add: registry_new_def register_connection_def has_connection_def hm_contains_def)
  moreover have "snd (reg_remove_subscription demo_lib ''c1'' ''a'' demo_registry0) = demo_registry0"
    by (simp add: reg_remove_subscription_def demo_registry0_eval demo_conn_def)
  then have "reg_step demo_lib (demo_registry0, [], {}) (demo_registry1, [], {})"
    using reg_step.add [of demo_registry0 "''c1''" _ "[kind_filter 1]" demo_lib "[]" "{}" "''a''"] fs
    by (simp add: demo_registry1_def demo_registry0_eval scope_room_def index_room_def si_new_def has_subscription_def demo_conn_def)
  moreover have "si_next_filter_id (si_add_subscription demo_lib ''c1'' ''a'' [kind_filter 1] si_new) = 2"
    by (simp add: registry_eval demo_filter_defs)
  then have "reg_step demo_lib (demo_registry1, [], {}) (demo_registry2, [], {(''c1'', ''a'')})"
    using reg_step.add [of demo_registry1 "''c1''" _ "[kind_filter 2]" demo_lib "[]" "{}" "''a''"] fs
    by (simp add: demo_registry2_def demo_registry1_eval scope_room_def index_room_def has_subscription_def demo_conn_def)
  ultimately show ?thesis
    by (meson converse_rtranclp_into_rtranclp rtranclp.rtrancl_refl)
qed

theorem registry_reachable_consistent_witness:
  "(\<exists>N. index_table demo_registry2 ScopeDefault (''c1'', ''a'') = Some N \<and> {#kind_filter 2#} \<subseteq># N) \<and>
   index_table demo_registry2 ScopeDefault (''c2'', ''a'') = None \<and>
   active_subscriptions demo_registry2 = 1 \<and> total_subscriptions demo_registry2 = 1"
proof -
  have t: "conn_table demo_registry2 ScopeDefault (''c1'', ''a'') = Some {#kind_filter 2#}"
    "conn_table demo_registry2 ScopeDefault (''c2'', ''a'') = None"
    by (simp_all add: conn_table_def demo_registry2_eval demo_conn_def)
  have all: "\<forall>sc key. case conn_table demo_registry2 sc key of
      None \<Rightarrow> index_table demo_registry2 sc key = None
    | Some M \<Rightarrow> \<exists>N. index_table demo_registry2 sc key = Some N \<and> M \<subseteq># N \<and> (key \<notin> {(''c1'', ''a'')} \<longrightarrow> N = M)"
    using registry_reachable_consistent [OF demo_registry2_reachable demo_lib_sound] by (elim conjE)
  from spec [OF spec [OF all, of ScopeDefault], of "(''c1'', ''a'')"] spec [OF spec [OF all, of ScopeDefault], of "(''c2'', ''a'')"]
  show ?thesis
    by (simp add: t active_subscriptions_def total_subscriptions_def demo_registry2_eval demo_conn_def)
qed

end
