(* ===== verification/Export_Import.thy ===== *)
theory Export_Import
  imports Relay_Database Middlewares
begin

text \<open>
  The command-line tool \<open>src/src/bin/export_import.rs\<close>: exporting every scope of a database to a
  file of JSON lines, and importing such files again. A directory is a map from file names to
  contents. The operating system is the parameter record \<open>os\<close> (which calls fail, and what a failing
  write leaves behind); parsing one event, and whether saving it counts as a success, is the
  parameter \<open>event_codec\<close>. Characters are code points below 256. Progress bars and log lines are left out.
\<close>

type_synonym directory = "(string, string) hmap"

record os =
  os_create_dir :: "string + unit"
  os_read_dir :: "string + unit"
  os_create :: "string \<Rightarrow> string + unit"
  os_write :: "string \<Rightarrow> string \<Rightarrow> (string + unit) \<times> string"
  os_open :: "string \<Rightarrow> string + unit"
  os_lines :: "string \<Rightarrow> string \<Rightarrow> (string + string) list"

record 'db event_codec =
  ec_from_json :: "string \<Rightarrow> string + event"
  ec_is_success :: "'db \<Rightarrow> scope \<Rightarrow> event \<Rightarrow> bool"

section \<open>File names\<close>

text \<open>\<open>char::is_alphanumeric\<close> for the code points below 256.\<close>

definition is_alphanumeric :: "char \<Rightarrow> bool" where
  "is_alphanumeric c \<longleftrightarrow> (let n = (of_char c :: nat) in
     48 \<le> n \<and> n \<le> 57 \<or> 65 \<le> n \<and> n \<le> 90 \<or> 97 \<le> n \<and> n \<le> 122 \<or>
     n \<in> {170, 178, 179, 181, 185, 186, 188, 189, 190} \<or> 192 \<le> n \<and> n \<noteq> 215 \<and> n \<noteq> 247)"

definition plain_char :: "char \<Rightarrow> bool" where
  "plain_char c \<longleftrightarrow> is_alphanumeric c \<or> c = CHR ''-'' \<or> c = CHR ''_''"

definition sanitize_filename :: "string \<Rightarrow> string" where
  "sanitize_filename name = map (\<lambda>c. if plain_char c then c else CHR ''_'') name"

definition scope_to_filename :: "scope \<Rightarrow> bool \<Rightarrow> nat option \<Rightarrow> string" where
  "scope_to_filename sc include_count event_total =
     (let base = (case sc of
          ScopeDefault \<Rightarrow> ''scope_default''
        | ScopeNamed name \<Rightarrow> ''scope_'' @ sanitize_filename name)
      in case (include_count, event_total) of
           (True, Some n) \<Rightarrow> base @ ''_'' @ nat_str n @ ''.jsonl''
         | _ \<Rightarrow> base @ ''.jsonl'')"

text \<open>\<open>str::trim_end_matches\<close> with a string removes the suffix as often as it is there.\<close>

function trim_end_str :: "string \<Rightarrow> string \<Rightarrow> string" where
  "trim_end_str pat s =
     (if pat \<noteq> [] \<and> str_ends_with s pat then trim_end_str pat (take (length s - length pat) s) else s)"
  by auto
termination
  by (relation "measure (\<lambda>(pat, s). length s)") (auto simp: str_ends_with_def intro!: diff_less dest: le_zero_eq [THEN iffD1])

declare trim_end_str.simps [simp del]

definition parse_scope_from_filename :: "nostr_lib \<Rightarrow> string \<Rightarrow> scope option" where
  "parse_scope_from_filename L filename =
     (if \<not> str_ends_with filename ''.jsonl'' then None
      else let name = trim_end_str ''.jsonl'' filename; parts = str_split CHR ''_'' name
      in if length parts < 2 \<or> parts ! 0 \<noteq> ''scope'' then None
         else if parts ! 1 = ''default'' then Some ScopeDefault
         else let end_index = (if length parts > 2 \<and> parse_u64 (List.last parts) \<noteq> None
                then length parts - 1 else length parts)
           in scope_named L (str_join ''_'' (drop 1 (take end_index parts))))"

section \<open>Export\<close>

abbreviation newline :: char where
  "newline \<equiv> CHR 0x0A"

definition export_scope ::
  "nostr_lib \<Rightarrow> 'db lmdb \<Rightarrow> os \<Rightarrow> 'db \<Rightarrow> scope \<Rightarrow> bool \<Rightarrow> directory \<Rightarrow> (anyhow_error + nat) \<times> directory" where
  "export_scope L D S db sc include_count dir = (case lm_scoped D db sc of
     Inl e \<Rightarrow> (Inl (AnyhowMsg (''Failed to get scoped view: '' @ e)), dir)
   | Inr _ \<Rightarrow> (case lm_query D db sc filter_new of
       Inl e \<Rightarrow> (Inl (AnyhowMsg (if str_contains (lm_error_str D e) ''NotFound''
           then ''Failed to query events: '' @ lm_error_str D e @ ''. This appears to be a database integrity issue. '' @
             ''Please run the nostr-lmdb-integrity tool to check and repair corrupted indices.''
           else ''Failed to query events: '' @ lm_error_str D e)), dir)
     | Inr events \<Rightarrow>
         let event_total = length events;
             filename = scope_to_filename sc include_count (Some event_total)
         in (case os_create S filename of
            Inl e \<Rightarrow> (Inl (AnyhowMsg (''Failed to create file: '' @ debug_str L filename)), dir)
          | Inr _ \<Rightarrow> (case os_write S filename (concat (map (\<lambda>ev. event_as_json L ev @ [newline]) events)) of
              (Inl e, content) \<Rightarrow> (Inl (AnyhowMsg e), hm_insert filename content dir)
            | (Inr _, content) \<Rightarrow> (Inr event_total, hm_insert filename content dir)))))"

text \<open>The loop over the scopes; a scope that fails is only logged. The numbers are the exported events
  and scopes of the final log line.\<close>

fun export_scopes ::
  "nostr_lib \<Rightarrow> 'db lmdb \<Rightarrow> os \<Rightarrow> 'db \<Rightarrow> bool \<Rightarrow> scope list \<Rightarrow> nat \<times> nat \<Rightarrow> directory \<Rightarrow> (nat \<times> nat) \<times> directory" where
  "export_scopes L D S db include_count [] totals dir = (totals, dir)"
| "export_scopes L D S db include_count (sc # scs) (events, scopes) dir =
     (case export_scope L D S db sc include_count dir of
        (Inr event_total, dir') \<Rightarrow> export_scopes L D S db include_count scs (events + event_total, scopes + 1) dir'
      | (Inl _, dir') \<Rightarrow> export_scopes L D S db include_count scs (events, scopes) dir')"

definition export_database ::
  "nostr_lib \<Rightarrow> 'db lmdb \<Rightarrow> os \<Rightarrow> 'db \<Rightarrow> bool \<Rightarrow> bool \<Rightarrow> directory option \<Rightarrow> (anyhow_error + nat \<times> nat) \<times> directory option" where
  "export_database L D S db force include_count output_dir =
     (case (case output_dir of
          Some dir \<Rightarrow> Inr dir
        | None \<Rightarrow> map_sum (\<lambda>e. AnyhowMsg ''Failed to create output directory'') (\<lambda>_. []) (os_create_dir S)) of
        Inl e \<Rightarrow> (Inl e, output_dir)
      | Inr dir \<Rightarrow>
          (case (if force then Inr False else map_sum AnyhowMsg (\<lambda>_. dir \<noteq> []) (os_read_dir S)) of
             Inl e \<Rightarrow> (Inl e, Some dir)
           | Inr True \<Rightarrow> (Inl (AnyhowMsg ''Output directory is not empty. Use --force to overwrite existing files.''), Some dir)
           | Inr False \<Rightarrow> (case lm_list_scopes D db of
               Inl e \<Rightarrow> (Inl (AnyhowMsg e), Some dir)
             | Inr scopes \<Rightarrow> (case export_scopes L D S db include_count scopes (0, 0) dir of
                 (totals, dir') \<Rightarrow> (Inr totals, Some dir')))))"

section \<open>Import\<close>

fun save_loop ::
  "'db lmdb \<Rightarrow> 'db event_codec \<Rightarrow> scope \<Rightarrow> event list \<Rightarrow> nat \<Rightarrow> 'db \<Rightarrow> (anyhow_error + nat) \<times> 'db" where
  "save_loop D C sc [] saved_count db = (Inr saved_count, db)"
| "save_loop D C sc (e # es) saved_count db = (case lm_save_event D db sc e of
     Inl err \<Rightarrow> (Inl (AnyhowMsg (''Failed to save event: '' @ lm_error_str D err)), db)
   | Inr db' \<Rightarrow> save_loop D C sc es (if ec_is_success C db sc e then saved_count + 1 else saved_count) db')"

definition save_events_batch ::
  "'db lmdb \<Rightarrow> 'db event_codec \<Rightarrow> scope \<Rightarrow> event list \<Rightarrow> 'db \<Rightarrow> (anyhow_error + nat) \<times> 'db" where
  "save_events_batch D C sc events db = (case lm_scoped D db sc of
     Inl e \<Rightarrow> (Inl (AnyhowMsg (''Failed to get scoped view: '' @ e)), db)
   | Inr _ \<Rightarrow> save_loop D C sc events 0 db)"

definition import_final ::
  "'db lmdb \<Rightarrow> 'db event_codec \<Rightarrow> scope \<Rightarrow> bool \<Rightarrow> event list \<Rightarrow> nat \<Rightarrow> nat \<Rightarrow> 'db \<Rightarrow> (anyhow_error + nat \<times> nat) \<times> 'db" where
  "import_final D C sc skip_errors batch imported errors db =
     (if batch = [] then (Inr (imported, errors), db)
      else case save_events_batch D C sc batch db of
        (Inr event_total, db') \<Rightarrow> (Inr (imported + event_total, errors), db')
      | (Inl e, db') \<Rightarrow>
          (if skip_errors then Inr (imported, errors + length batch)
           else Inl (AnyhowMsg (''Failed to import final batch: '' @ anyhow_display e)), db'))"

text \<open>The loop over the lines, with the number of the next line.\<close>

fun import_lines ::
  "nostr_lib \<Rightarrow> 'db lmdb \<Rightarrow> 'db event_codec \<Rightarrow> scope \<Rightarrow> string \<Rightarrow> bool \<Rightarrow> nat \<Rightarrow> (string + string) list \<Rightarrow> event list
     \<Rightarrow> nat \<Rightarrow> nat \<Rightarrow> 'db \<Rightarrow> (anyhow_error + nat \<times> nat) \<times> 'db" where
  "import_lines L D C sc file skip_errors n [] batch imported errors db =
     import_final D C sc skip_errors batch imported errors db"
| "import_lines L D C sc file skip_errors n (Inl e # ls) batch imported errors db = (Inl (AnyhowMsg e), db)"
| "import_lines L D C sc file skip_errors n (Inr l # ls) batch imported errors db =
     (if str_trim l = [] then import_lines L D C sc file skip_errors (n + 1) ls batch imported errors db
      else case ec_from_json C l of
        Inl e \<Rightarrow>
          if skip_errors then import_lines L D C sc file skip_errors (n + 1) ls batch imported (errors + 1) db
          else (Inl (AnyhowMsg (''Failed to parse event at line '' @ nat_str n @ '' in '' @ debug_str L file @ '': '' @ e)), db)
      | Inr event \<Rightarrow>
          let batch' = batch @ [event]
          in if length batch' \<ge> 100 then
               (case save_events_batch D C sc batch' db of
                  (Inr event_total, db') \<Rightarrow>
                    import_lines L D C sc file skip_errors (n + 1) ls [] (imported + event_total) errors db'
                | (Inl e, db') \<Rightarrow>
                    if skip_errors
                    then import_lines L D C sc file skip_errors (n + 1) ls [] imported (errors + length batch') db'
                    else (Inl (AnyhowMsg (''Failed to import batch ending at line '' @ nat_str n @ '': '' @
                      anyhow_display e)), db'))
             else import_lines L D C sc file skip_errors (n + 1) ls batch' imported errors db)"

definition import_scope_with_progress ::
  "nostr_lib \<Rightarrow> 'db lmdb \<Rightarrow> 'db event_codec \<Rightarrow> os \<Rightarrow> scope \<Rightarrow> string \<Rightarrow> string \<Rightarrow> bool \<Rightarrow> 'db
     \<Rightarrow> (anyhow_error + nat \<times> nat) \<times> 'db" where
  "import_scope_with_progress L D C S sc file content skip_errors db = (case os_open S file of
     Inl e \<Rightarrow> (Inl (AnyhowMsg (''Failed to open file: '' @ debug_str L file)), db)
   | Inr _ \<Rightarrow> import_lines L D C sc file skip_errors 1 (os_lines S file content) [] 0 0 db)"

fun count_lines :: "(string + string) list \<Rightarrow> nat \<Rightarrow> string + nat" where
  "count_lines [] n = Inr n"
| "count_lines (Inl e # ls) n = Inl e"
| "count_lines (Inr l # ls) n = count_lines ls (if str_trim l = [] then n else n + 1)"

definition count_events_in_file :: "os \<Rightarrow> string \<Rightarrow> string \<Rightarrow> string + nat" where
  "count_events_in_file S file content = (case os_open S file of
     Inl e \<Rightarrow> Inl e | Inr _ \<Rightarrow> count_lines (os_lines S file content) 0)"

text \<open>\<open>Path::extension\<close> is \<open>jsonl\<close>: the name ends so and does not begin with that dot.\<close>

definition jsonl_extension :: "string \<Rightarrow> bool" where
  "jsonl_extension name \<longleftrightarrow> str_ends_with name ''.jsonl'' \<and> length name > 6"

definition import_file_info :: "nostr_lib \<Rightarrow> os \<Rightarrow> directory \<Rightarrow> (string \<times> string \<times> scope \<times> nat) list" where
  "import_file_info L S entries = List.map_filter (\<lambda>(name, content).
     case parse_scope_from_filename L name of
       None \<Rightarrow> None
     | Some sc \<Rightarrow> (case count_events_in_file S name content of
         Inr event_total \<Rightarrow> Some (name, content, sc, event_total) | Inl _ \<Rightarrow> None)) entries"

fun import_files ::
  "nostr_lib \<Rightarrow> 'db lmdb \<Rightarrow> 'db event_codec \<Rightarrow> os \<Rightarrow> bool \<Rightarrow> (string \<times> string \<times> scope \<times> nat) list \<Rightarrow> nat \<times> nat \<times> nat \<Rightarrow> 'db
     \<Rightarrow> (anyhow_error + nat \<times> nat \<times> nat) \<times> 'db" where
  "import_files L D C S skip_errors [] totals db = (Inr totals, db)"
| "import_files L D C S skip_errors ((name, content, sc, _) # rest) (imported, errors, files) db =
     (case import_scope_with_progress L D C S sc name content skip_errors db of
        (Inr (i, err), db') \<Rightarrow> import_files L D C S skip_errors rest (imported + i, errors + err, files + 1) db'
      | (Inl e, db') \<Rightarrow>
          if skip_errors then import_files L D C S skip_errors rest (imported, errors, files) db' else (Inl e, db'))"

definition eq_ignore_case_y :: "string \<Rightarrow> bool" where
  "eq_ignore_case_y s \<longleftrightarrow> s = ''y'' \<or> s = ''Y''"

text \<open>\<open>confirm\<close> is what the user types, unless the prompt is skipped. The result holds the imported
  events, the errors and the files, or nothing when the user declines.\<close>

definition import_database ::
  "nostr_lib \<Rightarrow> 'db lmdb \<Rightarrow> 'db event_codec \<Rightarrow> os \<Rightarrow> directory option \<Rightarrow> bool \<Rightarrow> string + string \<Rightarrow> bool \<Rightarrow> 'db
     \<Rightarrow> (anyhow_error + (nat \<times> nat \<times> nat) option) \<times> 'db" where
  "import_database L D C S input_dir skip_confirmation confirm skip_errors db = (case input_dir of
     None \<Rightarrow> (Inl (AnyhowMsg ''Input directory does not exist''), db)
   | Some dir \<Rightarrow> (case os_read_dir S of
       Inl e \<Rightarrow> (Inl (AnyhowMsg e), db)
     | Inr _ \<Rightarrow>
         let entries = List.filter (\<lambda>(name, _). jsonl_extension name) dir
         in if entries = [] then (Inl (AnyhowMsg ''No JSONL files found in input directory''), db)
            else let file_info = import_file_info L S entries
              in (case (if skip_confirmation then Inr True
                    else map_sum AnyhowMsg (\<lambda>s. eq_ignore_case_y (str_trim s)) confirm) of
                 Inl e \<Rightarrow> (Inl e, db)
               | Inr False \<Rightarrow> (Inr None, db)
               | Inr True \<Rightarrow> (case import_files L D C S skip_errors file_info (0, 0, 0) db of
                   (r, db') \<Rightarrow> (map_sum id Some r, db')))))"

end
