(* ===== verification/Export_Import_Properties.thy ===== *)
theory Export_Import_Properties
  imports Export_Import Subscription_Coordinator_Properties
begin

text \<open>
  What the export and import tool preserves: scopes through file names, and whole databases through
  a directory of files; and where it does not.
\<close>

section \<open>File names\<close>

declare nat_str.simps [simp del]

lemma digits_val_snoc: "digits_val (s @ [c]) = 10 * digits_val s + (of_char c - 48)"
  by (simp add: digits_val_def)

lemma digit_char: "d < 10 \<Longrightarrow> (of_char (char_of (48 + d) :: char) :: nat) = 48 + d"
  by simp

lemma nat_str_ok:
  "list_all is_digit_char (nat_str n) \<and> nat_str n \<noteq> [] \<and> digits_val (nat_str n) = n"
proof (induction n rule: nat_str.induct)
  case (1 n)
  show ?case
  proof (cases "n < 10")
    case True
    then show ?thesis
      by (simp add: nat_str.simps [of n] is_digit_char_def digits_val_def)
  next
    case False
    then have "nat_str n = nat_str (n div 10) @ [char_of (48 + n mod 10)]"
      by (subst nat_str.simps) simp
    then show ?thesis
      using 1 False by (simp add: digits_val_snoc is_digit_char_def)
  qed
qed

lemma nat_str_chars: "c \<in> set (nat_str n) \<Longrightarrow> is_digit_char c"
  using nat_str_ok [of n] by (simp add: list_all_iff)

lemma not_digit [simp]: "\<not> is_digit_char CHR ''+''" "\<not> is_digit_char CHR ''_''" "\<not> is_digit_char CHR ''.''"
  by (simp_all add: is_digit_char_def)

lemma parse_u64_nat_str: "n < 2 ^ 64 \<Longrightarrow> parse_u64 (nat_str n) = Some n"
  using nat_str_ok [of n] nat_str_chars [of "CHR ''+''" n]
  by (cases "nat_str n") (auto simp: parse_u64_def Let_def)

lemma not_plain [simp]: "\<not> plain_char CHR ''.''" "\<not> plain_char CHR ''/''"
  by (simp_all add: plain_char_def is_alphanumeric_def)

lemma sanitize_plain: "list_all plain_char name \<Longrightarrow> sanitize_filename name = name"
  by (induction name) (simp_all add: sanitize_filename_def)

lemma trim_jsonl:
  assumes "CHR ''.'' \<notin> set s"
  shows "trim_end_str ''.jsonl'' (s @ ''.jsonl'') = s"
proof -
  have "\<not> str_ends_with s ''.jsonl''"
  proof
    assume "str_ends_with s ''.jsonl''"
    then have "drop (length s - length ''.jsonl'') s = ''.jsonl''"
      unfolding str_ends_with_def by blast
    then have "CHR ''.'' \<in> set (drop (length s - length ''.jsonl'') s)"
      by (simp only:) simp
    then show False
      using assms by (blast dest: in_set_dropD)
  qed
  then show ?thesis
    by (subst trim_end_str.simps) (simp add: trim_end_str.simps [of _ s])
qed

text \<open>What the parser makes of a name, given the parts between its underscores.\<close>

lemma parse_parts:
  assumes "CHR ''.'' \<notin> set s"
  shows "parse_scope_from_filename L (''scope_'' @ s @ ''.jsonl'') =
    (let parts = str_split CHR ''_'' s in
     if hd parts = ''default'' then Some ScopeDefault
     else scope_named L (str_join ''_''
       (if length parts > 1 \<and> parse_u64 (List.last parts) \<noteq> None then butlast parts else parts)))"
proof -
  have "str_ends_with ((''scope_'' @ s) @ ''.jsonl'') ''.jsonl''"
    by (rule str_ends_with_append)
  moreover have "trim_end_str ''.jsonl'' ((''scope_'' @ s) @ ''.jsonl'') = ''scope_'' @ s"
    using assms by (intro trim_jsonl) auto
  moreover have "str_split CHR ''_'' (''scope_'' @ s) = ''scope'' # str_split CHR ''_'' s"
    using str_split_append [of "CHR ''_''" "''scope''" s] by simp
  moreover obtain p ps where "str_split CHR ''_'' s = p # ps"
    by (cases "str_split CHR ''_'' s") simp_all
  ultimately show ?thesis
    by (simp add: parse_scope_from_filename_def Let_def butlast_conv_take hd_conv_nth)
qed

lemma plain_no_dot: "list_all plain_char name \<Longrightarrow> CHR ''.'' \<notin> set name"
  by (auto simp: list_all_iff)

lemma split_count: "str_split CHR ''_'' (name @ ''_'' @ nat_str n) = str_split CHR ''_'' name @ [nat_str n]"
  using str_split_concat [of "CHR ''_''" name "nat_str n"] str_split_simple [of "CHR ''_''" "nat_str n"]
    nat_str_chars [of "CHR ''_''" n] by auto

lemma scope_parse_back:
  assumes "list_all plain_char name" "hd (str_split CHR ''_'' name) \<noteq> ''default''"
    "CHR ''_'' \<notin> set name \<or> parse_u64 (List.last (str_split CHR ''_'' name)) = None"
  shows "parse_scope_from_filename L (scope_to_filename (ScopeNamed name) False k) = scope_named L name"
    and "parse_scope_from_filename L (scope_to_filename ScopeDefault b k) = Some ScopeDefault"
proof -
  show "parse_scope_from_filename L (scope_to_filename (ScopeNamed name) False k) = scope_named L name"
    using parse_parts [OF plain_no_dot [OF assms(1)], of L] assms(2,3) str_split_simple [of "CHR ''_''" name]
    by (auto simp: scope_to_filename_def sanitize_plain [OF assms(1)] Let_def str_join_split split: if_splits)
  have "parse_scope_from_filename L (''scope_'' @ (''default'' @ s) @ ''.jsonl'') = Some ScopeDefault"
    if "s = [] \<or> (\<exists>m. s = ''_'' @ nat_str m)" for s
  proof -
    have no_dot: "CHR ''.'' \<notin> set (''default'' @ s)"
      using that nat_str_chars [of "CHR ''.''"] by auto
    have "hd (str_split CHR ''_'' (''default'' @ s)) = ''default''"
      using that split_count [of "''default''"] str_split_simple [of "CHR ''_''" "''default''"] by auto
    then show ?thesis
      unfolding parse_parts [OF no_dot] Let_def by simp
  qed
  from this [of "[]"] this [of "''_'' @ nat_str (the k)"]
  show "parse_scope_from_filename L (scope_to_filename ScopeDefault b k) = Some ScopeDefault"
    by (cases k; cases b) (auto simp: scope_to_filename_def Let_def)
qed

text \<open>A scope whose name has only plain characters and does not begin with the part \<open>default\<close> is
  found again in the name of its file when the number of events is part of the name. Without the number this
  holds when the name has no underscore or does not end in a number; the default scope is always found again.\<close>

lemma numbered_parse_back:
  assumes "list_all plain_char name" "hd (str_split CHR ''_'' name) \<noteq> ''default''" "n < 2 ^ 64"
  shows "parse_scope_from_filename L (scope_to_filename (ScopeNamed name) True (Some n)) = scope_named L name"
proof -
  have dot: "CHR ''.'' \<notin> set (name @ ''_'' @ nat_str n)"
    using plain_no_dot [OF assms(1)] nat_str_chars [of "CHR ''.''" n] by auto
  have "str_split CHR ''_'' name \<noteq> []" "str_join ''_'' (str_split CHR ''_'' name) = name"
    by (simp_all add: str_join_split)
  then show ?thesis
    using parse_parts [OF dot, of L] assms(2) parse_u64_nat_str [OF assms(3)]
    by (simp add: scope_to_filename_def sanitize_plain [OF assms(1)] split_count [simplified] Let_def)
qed

lemma scope_filename_roundtrip:
  assumes "list_all plain_char name" "hd (str_split CHR ''_'' name) \<noteq> ''default''" "n < 2 ^ 64"
    "CHR ''_'' \<notin> set name \<or> parse_u64 (List.last (str_split CHR ''_'' name)) = None"
  shows "parse_scope_from_filename L (scope_to_filename (ScopeNamed name) True (Some n)) = scope_named L name \<and>
    parse_scope_from_filename L (scope_to_filename (ScopeNamed name) False k) = scope_named L name \<and>
    parse_scope_from_filename L (scope_to_filename ScopeDefault b k) = Some ScopeDefault"
  using numbered_parse_back [OF assms(1-3)] scope_parse_back [OF assms(1,2,4)] by blast

text \<open>Scopes that keep their name on the way through a file name: plain characters only, no first part \<open>default\<close>, and, when
  the number of events is not part of the file name, no last part that is a number.\<close>

definition file_safe :: "nostr_lib \<Rightarrow> bool \<Rightarrow> scope \<Rightarrow> bool" where
  "file_safe L include_count sc \<longleftrightarrow> (case sc of ScopeDefault \<Rightarrow> True
   | ScopeNamed name \<Rightarrow> list_all plain_char name \<and> hd (str_split CHR ''_'' name) \<noteq> ''default'' \<and>
       (include_count \<or> CHR ''_'' \<notin> set name \<or> parse_u64 (List.last (str_split CHR ''_'' name)) = None) \<and>
       scope_named L name = Some (ScopeNamed name))"

lemma file_safe_parse:
  assumes "file_safe L inc sc" "n < 2 ^ 64"
  shows "parse_scope_from_filename L (scope_to_filename sc inc (Some n)) = Some sc"
proof (cases sc)
  case ScopeDefault
  have "list_all plain_char ''t''" "hd (str_split CHR ''_'' ''t'') \<noteq> ''default''" "CHR ''_'' \<notin> set ''t''"
    by (simp_all add: plain_char_def is_alphanumeric_def)
  then show ?thesis
    using scope_parse_back(2) [of "''t''"] ScopeDefault by simp
next
  case (ScopeNamed name)
  then show ?thesis
    using assms numbered_parse_back [of name n L] scope_parse_back(1) [of name L "Some n"]
    by (cases inc) (auto simp: file_safe_def)
qed

lemma scope_filename_roundtrip_example:
  "parse_scope_from_filename demo_lib (scope_to_filename (ScopeNamed ''my_blog'') True (Some 42)) = Some (ScopeNamed ''my_blog'')"
proof -
  have parts: "str_split CHR ''_'' ''my_blog'' = [''my'', ''blog'']"
    by simp
  have "list_all plain_char ''my_blog''"
    by (simp add: plain_char_def is_alphanumeric_def)
  moreover have "parse_u64 ''blog'' = None"
    by (simp add: parse_u64_def is_digit_char_def)
  ultimately show ?thesis
    using scope_filename_roundtrip [of "''my_blog''" 42 demo_lib None True] by (simp add: parts demo_lib_def)
qed

text \<open>Without the number in the file name, a scope whose name ends in an underscore and a number is
  read back as the scope without that ending, so an import puts its events into another scope; and a
  scope whose name begins with \<open>default_\<close> is read back as the default scope.\<close>

lemma scope_filename_confusion:
  assumes "list_all plain_char name" "hd (str_split CHR ''_'' name) \<noteq> ''default''" "n < 2 ^ 64"
  shows "parse_scope_from_filename L (scope_to_filename (ScopeNamed (name @ ''_'' @ nat_str n)) False k) = scope_named L name \<and>
    parse_scope_from_filename L (scope_to_filename (ScopeNamed (''default_'' @ name)) False k) = Some ScopeDefault"
proof
  have plain: "list_all plain_char (name @ ''_'' @ nat_str n)" "list_all plain_char (''default_'' @ name)"
    using assms(1) nat_str_chars [of _ n]
    by (auto simp: list_all_iff plain_char_def is_digit_char_def is_alphanumeric_def)
  show "parse_scope_from_filename L (scope_to_filename (ScopeNamed (name @ ''_'' @ nat_str n)) False k) = scope_named L name"
    using parse_parts [OF plain_no_dot [OF plain(1)], of L] assms(2) parse_u64_nat_str [OF assms(3)]
    by (simp add: scope_to_filename_def sanitize_plain [OF plain(1), simplified] split_count [simplified] Let_def str_join_split)
  show "parse_scope_from_filename L (scope_to_filename (ScopeNamed (''default_'' @ name)) False k) = Some ScopeDefault"
    using parse_parts [OF plain_no_dot [OF plain(2)], of L] str_split_append [of "CHR ''_''" "''default''" name]
    by (simp add: scope_to_filename_def sanitize_plain [OF plain(2), simplified] Let_def)
qed

section \<open>A database through files and back\<close>

text \<open>\<open>BufRead::lines\<close> on a text file.\<close>

definition strip_cr :: "string \<Rightarrow> string" where
  "strip_cr l = (if l \<noteq> [] \<and> List.last l = CHR 0x0D then butlast l else l)"

definition file_lines :: "string \<Rightarrow> string list" where
  "file_lines s = (let parts = str_split newline s in
     map strip_cr (butlast parts) @ (if List.last parts = [] then [] else [List.last parts]))"

definition good_os :: "os \<Rightarrow> bool" where
  "good_os S \<longleftrightarrow> os_create_dir S = Inr () \<and> os_read_dir S = Inr () \<and> (\<forall>f. os_create S f = Inr () \<and> os_open S f = Inr ()) \<and>
     (\<forall>f t. os_write S f t = (Inr (), t) \<and> os_lines S f t = map Inr (file_lines t))"

definition json_ok :: "nostr_lib \<Rightarrow> 'db event_codec \<Rightarrow> event \<Rightarrow> bool" where
  "json_ok L C e \<longleftrightarrow> ec_from_json C (event_as_json L e) = Inr e \<and> newline \<notin> set (event_as_json L e) \<and>
     str_trim (event_as_json L e) \<noteq> [] \<and> List.last (event_as_json L e) \<noteq> CHR 0x0D"

definition events_text :: "nostr_lib \<Rightarrow> event list \<Rightarrow> string" where
  "events_text L es = concat (map (\<lambda>ev. event_as_json L ev @ [newline]) es)"

lemma file_lines_events: "list_all (json_ok L C) es \<Longrightarrow> file_lines (events_text L es) = map (event_as_json L) es"
proof (induction es)
  case (Cons e es)
  have split: "str_split newline (events_text L (e # es)) = event_as_json L e # str_split newline (events_text L es)"
    using Cons.prems str_split_append [of newline "event_as_json L e" "events_text L es"]
    by (simp add: events_text_def json_ok_def)
  then show ?case
    using Cons by (auto simp: file_lines_def Let_def strip_cr_def json_ok_def split: if_splits)
qed (simp add: file_lines_def events_text_def)

text \<open>A store in which saving always succeeds, with the effect \<open>sv\<close>.\<close>

definition saves :: "'db lmdb \<Rightarrow> (scope \<Rightarrow> event \<Rightarrow> 'db \<Rightarrow> 'db) \<Rightarrow> bool" where
  "saves D sv \<longleftrightarrow> (\<forall>db sc e. lm_scoped D db sc = Inr () \<and> lm_save_event D db sc e = Inr (sv sc e db))"

lemma save_loop_saves: "saves D sv \<Longrightarrow> \<exists>m. save_loop D C sc es n db = (Inr m, fold (sv sc) es db)"
  by (induction es arbitrary: n db) (simp_all add: saves_def)

lemma save_events_batch_saves: "saves D sv \<Longrightarrow> \<exists>m. save_events_batch D C sc es db = (Inr m, fold (sv sc) es db)"
  using save_loop_saves [of D sv C sc es 0 db] by (simp add: save_events_batch_def saves_def)

lemma import_lines_saves:
  assumes "saves D sv"
  shows "list_all (json_ok L C) es \<Longrightarrow>
    \<exists>i. import_lines L D C sc fnm skip n (map (Inr \<circ> event_as_json L) es) batch imported errors db =
      (Inr (i, errors), fold (sv sc) (batch @ es) db)"
proof (induction es arbitrary: n batch imported db)
  case Nil
  then show ?case
    using save_events_batch_saves [OF assms, of C sc batch db] by (auto simp: import_final_def)
next
  case (Cons e es)
  have e: "str_trim (event_as_json L e) \<noteq> []" "ec_from_json C (event_as_json L e) = Inr e" "list_all (json_ok L C) es"
    using Cons.prems by (auto simp: json_ok_def [of _ _ e])
  obtain m where m: "save_events_batch D C sc (batch @ [e]) db = (Inr m, fold (sv sc) (batch @ [e]) db)"
    using save_events_batch_saves [OF assms] by blast
  show ?case
    using Cons.IH [OF e(3), of "n + 1" "[]" "imported + m" "fold (sv sc) (batch @ [e]) db"]
      Cons.IH [OF e(3), of "n + 1" "batch @ [e]" imported db] e(1,2) m
    by (cases "length (batch @ [e]) \<ge> 100") (simp_all add: Let_def)
qed

lemma import_scope_saves:
  assumes "good_os S" "saves D sv" "list_all (json_ok L C) es"
  shows "\<exists>i. import_scope_with_progress L D C S sc fnm (events_text L es) skip db = (Inr (i, 0), fold (sv sc) es db)"
  using assms(1) import_lines_saves [OF assms(2,3), where sc = sc and fnm = fnm and skip = skip and n = 1 and batch = "[]"
      and imported = 0 and errors = 0 and db = db]
  by (simp add: import_scope_with_progress_def good_os_def file_lines_events [OF assms(3)])

lemma count_lines_ok: "list_all (json_ok L C) es \<Longrightarrow> \<exists>m. count_lines (map (Inr \<circ> event_as_json L) es) n = Inr m"
  by (induction es arbitrary: n) simp_all


lemma export_scopes_files:
  assumes "good_os S" "\<forall>sc \<in> set scs. lm_scoped D db sc = Inr () \<and> lm_query D db sc filter_new = Inr (evs sc)"
    "\<forall>sc \<in> set scs. scope_to_filename sc inc (Some (length (evs sc))) = fname sc"
    "distinct (map fname scs)" "\<forall>sc \<in> set scs. fname sc \<notin> fst ` set dir"
  shows "export_scopes L D S db inc scs (a, b) dir = ((a + sum_list (map (length \<circ> evs) scs), b + length scs),
    dir @ map (\<lambda>sc. (fname sc, events_text L (evs sc))) scs)"
  using assms(2-)
proof (induction scs arbitrary: a b dir)
  case (Cons sc scs)
  have "hm_get dir (fname sc) = None"
    using Cons.prems(4) by (simp add: map_of_eq_None_iff)
  then have step: "export_scope L D S db sc inc dir = (Inr (length (evs sc)), dir @ [(fname sc, events_text L (evs sc))])"
    using assms(1) Cons.prems(1,2) by (simp add: export_scope_def good_os_def Let_def hm_insert_fresh events_text_def)
  have "fname sc \<notin> fname ` set scs"
    using Cons.prems(3) by simp
  then have "\<forall>x \<in> set scs. fname x \<noteq> fname sc"
    by (metis imageI)
  then have "\<forall>x \<in> set scs. fname x \<notin> fst ` set (dir @ [(fname sc, events_text L (evs sc))])"
    using Cons.prems(4) by simp
  from Cons.IH [OF _ _ _ this] show ?case
    using Cons.prems(1-3) by (simp add: step)
qed simp

lemma import_files_saves:
  assumes "good_os S" "saves D sv" "\<forall>sc \<in> set scs. list_all (json_ok L C) (evs sc)"
  shows "\<exists>i. import_files L D C S skip (map (\<lambda>sc. (fname sc, events_text L (evs sc), sc, cnt sc)) scs) (a, 0, f) db =
    (Inr (i, 0, f + length scs), fold (\<lambda>sc. fold (sv sc) (evs sc)) scs db)"
  using assms(3)
proof (induction scs arbitrary: a f db)
  case (Cons sc scs)
  obtain i where "import_scope_with_progress L D C S sc (fname sc) (events_text L (evs sc)) skip db =
      (Inr (i, 0), fold (sv sc) (evs sc) db)"
    using import_scope_saves [OF assms(1,2)] Cons.prems by fastforce
  then show ?case
    using Cons.IH [of "a + i" "Suc f" "fold (sv sc) (evs sc) db"] Cons.prems by auto
qed simp

lemma file_info_all:
  assumes "good_os S" "\<forall>sc \<in> set scs. list_all (json_ok L C) (evs sc) \<and> parse_scope_from_filename L (fname sc) = Some sc"
  shows "\<exists>cnt. import_file_info L S (map (\<lambda>sc. (fname sc, events_text L (evs sc))) scs) =
    map (\<lambda>sc. (fname sc, events_text L (evs sc), sc, cnt sc)) scs"
proof -
  have "\<exists>m. count_events_in_file S (fname sc) (events_text L (evs sc)) = Inr m" if "sc \<in> set scs" for sc
    using assms that count_lines_ok [of L C "evs sc" 0]
    by (simp add: count_events_in_file_def good_os_def file_lines_events [of L C])
  then obtain cnt where cnt: "\<forall>sc \<in> set scs. count_events_in_file S (fname sc) (events_text L (evs sc)) = Inr (cnt sc)"
    by metis
  have "import_file_info L S (map (\<lambda>sc. (fname sc, events_text L (evs sc))) scs) =
    map (\<lambda>sc. (fname sc, events_text L (evs sc), sc, cnt sc)) scs"
    using assms(2) cnt by (induction scs) (simp_all add: import_file_info_def map_filter_simps)
  then show ?thesis
    by blast
qed


text \<open>C39. Round trip of a whole database whose scope names survive a file name: they consist of letters, digits and the other
  plain characters, do not begin with the part \<open>default\<close>, and, when files are named without the number of events, do not end
  in an underscore and a number. If no call of the operating system or the store fails and events print to one line of JSON
  and parse back, then exporting into a new directory and importing it into any database saves exactly the
  events of every scope into that scope, in order (in batches of 100), without errors.\<close>

theorem export_import_roundtrip:
  assumes "good_os S" "saves D sv" "lm_list_scopes D db = Inr scs" "distinct scs" "scs \<noteq> []"
    "\<forall>sc \<in> set scs. lm_query D db sc filter_new = Inr (evs sc) \<and> list_all (json_ok L C) (evs sc) \<and>
       length (evs sc) < 2 ^ 64 \<and> file_safe L inc sc"
  shows "\<exists>dir imported. export_database L D S db False inc None =
      (Inr (sum_list (map (length \<circ> evs) scs), length scs), Some dir) \<and>
    import_database L D C S (Some dir) True answer skip db0 =
      (Inr (Some (imported, 0, length scs)), fold (\<lambda>sc. fold (sv sc) (evs sc)) scs db0)"
proof -
  define fname where "fname sc = scope_to_filename sc inc (Some (length (evs sc)))" for sc
  define dir where "dir = map (\<lambda>sc. (fname sc, events_text L (evs sc))) scs"
  have parsed: "parse_scope_from_filename L (fname sc) = Some sc" if "sc \<in> set scs" for sc
    using assms(6) that by (simp add: fname_def file_safe_parse)
  have names: "distinct (map fname scs)"
  proof -
    have "x = y" if "x \<in> set scs" "y \<in> set scs" "fname x = fname y" for x y
      using parsed that by (metis option.inject)
    then show ?thesis
      using assms(4) by (simp add: distinct_map inj_on_def)
  qed
  have "export_scopes L D S db inc scs (0, 0) [] = ((sum_list (map (length \<circ> evs) scs), length scs), dir)"
    using export_scopes_files [OF assms(1) _ _ names, where dir = "[]" and L = L and D = D and db = db and evs = evs and inc = inc
        and a = 0 and b = 0] assms(2,6) by (simp add: fname_def saves_def dir_def)
  then have exported: "export_database L D S db False inc None =
      (Inr (sum_list (map (length \<circ> evs) scs), length scs), Some dir)"
    using assms(1,3) by (simp add: export_database_def good_os_def)
  have ext: "jsonl_extension (fname sc)" for sc
    by (auto simp: fname_def scope_to_filename_def jsonl_extension_def str_ends_with_def Let_def split: scope.split bool.split)
  have "List.filter (\<lambda>(name, _). jsonl_extension name) dir = dir"
    by (simp add: dir_def filter_id_conv ext)
  moreover obtain cnt where "import_file_info L S dir = map (\<lambda>sc. (fname sc, events_text L (evs sc), sc, cnt sc)) scs"
    using file_info_all [OF assms(1), of scs L C evs fname] assms(6) parsed by (auto simp: dir_def)
  moreover obtain i where "import_files L D C S skip (map (\<lambda>sc. (fname sc, events_text L (evs sc), sc, cnt sc)) scs) (0, 0, 0) db0 =
      (Inr (i, 0, length scs), fold (\<lambda>sc. fold (sv sc) (evs sc)) scs db0)"
    using import_files_saves [OF assms(1,2), where f = 0 and a = 0 and scs = scs and L = L and C = C and evs = evs] assms(6)
    by fastforce
  moreover have "dir \<noteq> []"
    using assms(5) by (simp add: dir_def)
  ultimately show ?thesis
    using exported assms(1) by (auto simp: import_database_def good_os_def Let_def intro!: exI [of _ dir])
qed


text \<open>A store with two scopes, and an operating system that never fails.\<close>

definition tool_lmdb :: "event list lmdb" where
  "tool_lmdb = demo_lmdb\<lparr>lm_list_scopes := (\<lambda>_. Inr [ScopeDefault, ScopeNamed ''t'']),
     lm_query := (\<lambda>_ sc _. Inr (if sc = ScopeDefault then [demo_event 5 7 1] else []))\<rparr>"

definition tool_codec :: "event list event_codec" where
  "tool_codec = \<lparr>ec_from_json = (\<lambda>_. Inr (demo_event 5 7 1)), ec_is_success = (\<lambda>_ _ _. True)\<rparr>"

definition tool_os :: os where
  "tool_os = \<lparr>os_create_dir = Inr (), os_read_dir = Inr (), os_create = (\<lambda>_. Inr ()), os_write = (\<lambda>_ t. (Inr (), t)),
     os_open = (\<lambda>_. Inr ()), os_lines = (\<lambda>_ t. map Inr (file_lines t))\<rparr>"

lemma tool_os_good: "good_os tool_os"
  by (simp add: good_os_def tool_os_def)

lemma tool_saves: "saves tool_lmdb (\<lambda>_ e db. e # db)"
  by (simp add: saves_def tool_lmdb_def demo_lmdb_def)

theorem export_import_roundtrip_witness:
  "\<exists>dir imported. export_database demo_lib tool_lmdb tool_os [] False False None = (Inr (1, 2), Some dir) \<and>
     import_database demo_lib tool_lmdb tool_codec tool_os (Some dir) True (Inr []) False [] =
       (Inr (Some (imported, 0, 2)), [demo_event 5 7 1])"
proof -
  have "file_safe demo_lib False ScopeDefault" "file_safe demo_lib False (ScopeNamed ''t'')"
    by (simp_all add: file_safe_def plain_char_def is_alphanumeric_def demo_lib_def)
  moreover have "json_ok demo_lib tool_codec (demo_event 5 7 1)"
    by (simp add: json_ok_def demo_lib_def tool_codec_def demo_event_def str_trim_def is_space_def)
  ultimately show ?thesis
    using export_import_roundtrip [OF tool_os_good tool_saves, where db = "[]" and scs = "[ScopeDefault, ScopeNamed ''t'']"
        and evs = "\<lambda>sc. if sc = ScopeDefault then [demo_event 5 7 1] else []" and L = demo_lib and C = tool_codec and inc = False
        and answer = "Inr []" and skip = False and ?db0.0 = "[]"]
    by (simp add: tool_lmdb_def numeral_2_eq_2 [symmetric])
qed

text \<open>Two scopes whose names differ only in characters that are not plain share a file: the export
  reports the events of both, but the file holds those of the later one only.\<close>

lemma export_collision_loses_events:
  assumes "good_os S" "lm_list_scopes D db = Inr [s1, s2]"
    "\<forall>sc \<in> {s1, s2}. lm_scoped D db sc = Inr () \<and> lm_query D db sc filter_new = Inr (evs sc)"
    "scope_to_filename s1 False None = scope_to_filename s2 False None"
  shows "export_database L D S db False False None =
    (Inr (length (evs s1) + length (evs s2), 2), Some [(scope_to_filename s2 False None, events_text L (evs s2))])"
proof -
  have no_number: "scope_to_filename sc False (Some k) = scope_to_filename sc False None" for sc k
    by (simp add: scope_to_filename_def)
  show ?thesis
    using assms(1-3) assms(4) [symmetric]
    by (simp add: no_number export_database_def export_scope_def good_os_def Let_def events_text_def)
qed


end
