(* ===== verification/Lmdb_Keys.thy ===== *)
theory Lmdb_Keys
  imports Export_Import "HOL-Library.Word"
begin

text \<open>
  What the two database tools \<open>src/src/bin/nostr-lmdb-integrity.rs\<close> and
  \<open>src/src/bin/nostr-lmdb-dump.rs\<close> share: keys and values as lists of bytes, big-endian integers at
  their width, UTF-8, the store of the crate \<open>heed\<close> as the parameter record \<open>heed\<close>, the list of
  database names both tools probe, and the table from scope hashes to scope names.

  Strings of these tools are their UTF-8 bytes: one character per byte. \<open>usize\<close> is 64 bits wide.
\<close>

unbundle bit_operations_syntax

type_synonym byte = "8 word"
type_synonym bytes = "byte list"
type_synonym scope_hash = "32 word"
type_synonym scope_registry = "(scope_hash, string) hmap"

section \<open>UTF-8\<close>

definition byte_char :: "byte \<Rightarrow> char" where
  "byte_char b = char_of (unat b)"

definition utf8_cont :: "byte \<Rightarrow> bool" where
  "utf8_cont b \<longleftrightarrow> b AND 0xC0 = 0x80"

definition safe_get :: "bytes \<Rightarrow> nat \<Rightarrow> byte" where
  "safe_get bs i = (if i < length bs then bs ! i else 0)"

definition utf8_second3 :: "byte \<Rightarrow> byte \<Rightarrow> bool" where
  "utf8_second3 b c \<longleftrightarrow>
     b = 0xE0 \<and> 0xA0 \<le> c \<and> c \<le> 0xBF \<or> 0xE1 \<le> b \<and> b \<le> 0xEC \<and> 0x80 \<le> c \<and> c \<le> 0xBF \<or>
     b = 0xED \<and> 0x80 \<le> c \<and> c \<le> 0x9F \<or> 0xEE \<le> b \<and> b \<le> 0xEF \<and> 0x80 \<le> c \<and> c \<le> 0xBF"

definition utf8_second4 :: "byte \<Rightarrow> byte \<Rightarrow> bool" where
  "utf8_second4 b c \<longleftrightarrow>
     b = 0xF0 \<and> 0x90 \<le> c \<and> c \<le> 0xBF \<or> 0xF1 \<le> b \<and> b \<le> 0xF3 \<and> 0x80 \<le> c \<and> c \<le> 0xBF \<or>
     b = 0xF4 \<and> 0x80 \<le> c \<and> c \<le> 0x8F"

text \<open>The first chunk of a byte string: whether it is a character, and how many bytes it has. An
  ill-formed chunk is the longest prefix that some character begins with, or one byte.\<close>

definition utf8_chunk :: "bytes \<Rightarrow> bool \<times> nat" where
  "utf8_chunk bs = (let b = safe_get bs 0 in
     if b < 0x80 then (True, 1)
     else if 0xC2 \<le> b \<and> b \<le> 0xDF then (if utf8_cont (safe_get bs 1) then (True, 2) else (False, 1))
     else if 0xE0 \<le> b \<and> b \<le> 0xEF then
       (if \<not> utf8_second3 b (safe_get bs 1) then (False, 1)
        else if utf8_cont (safe_get bs 2) then (True, 3) else (False, 2))
     else if 0xF0 \<le> b \<and> b \<le> 0xF4 then
       (if \<not> utf8_second4 b (safe_get bs 1) then (False, 1)
        else if \<not> utf8_cont (safe_get bs 2) then (False, 2)
        else if utf8_cont (safe_get bs 3) then (True, 4) else (False, 3))
     else (False, 1))"

lemma utf8_chunk_pos: "0 < snd (utf8_chunk bs)"
  by (simp add: utf8_chunk_def Let_def)

lemma utf8_chunk_pos': "(ok, n) = utf8_chunk bs \<Longrightarrow> 0 < n"
  using utf8_chunk_pos [of bs] by (metis snd_conv)

function utf8_valid :: "bytes \<Rightarrow> bool" where
  "utf8_valid bs \<longleftrightarrow> (if bs = [] then True
     else case utf8_chunk bs of (ok, n) \<Rightarrow> ok \<and> utf8_valid (drop n bs))"
  by auto
termination
  by (relation "measure length") (auto dest!: utf8_chunk_pos' intro!: diff_less)

text \<open>\<open>String::from_utf8_lossy\<close> puts the replacement character in place of each ill-formed chunk.\<close>

definition replacement_character :: string where
  "replacement_character = [CHR 0xEF, CHR 0xBF, CHR 0xBD]"

function from_utf8_lossy :: "bytes \<Rightarrow> string" where
  "from_utf8_lossy bs = (if bs = [] then []
     else case utf8_chunk bs of (ok, n) \<Rightarrow>
       (if ok then map byte_char (take n bs) else replacement_character) @ from_utf8_lossy (drop n bs))"
  by auto
termination
  by (relation "measure length") (auto dest!: utf8_chunk_pos' intro!: diff_less)

declare utf8_valid.simps [simp del] from_utf8_lossy.simps [simp del]

definition from_utf8 :: "bytes \<Rightarrow> string option" where
  "from_utf8 bs = (if utf8_valid bs then Some (map byte_char bs) else None)"

lemma utf8_valid_lossy: "utf8_valid bs \<Longrightarrow> from_utf8_lossy bs = map byte_char bs"
proof (induction bs rule: utf8_valid.induct)
  case (1 bs)
  then show ?case
    by (cases "utf8_chunk bs")
      (auto simp: utf8_valid.simps [of bs] from_utf8_lossy.simps [of bs] simp flip: map_append
        split: if_splits)
qed

lemma utf8_valid_ascii: "list_all (\<lambda>b. b < 0x80) bs \<Longrightarrow> utf8_valid bs"
  by (induction bs) (auto simp: utf8_valid.simps [of "_ # _"] utf8_valid.simps [of "[]"]
      utf8_chunk_def safe_get_def Let_def)

section \<open>The store\<close>

text \<open>A database is named, or the unnamed one. \<open>hd_open\<close> tells whether it exists, \<open>hd_iter\<close> yields
  its entries or an error in the place of one, \<open>hd_delete\<close> works on the state of a write
  transaction, and \<open>hd_commit\<close> makes that state the state of the store.\<close>

record 'e heed =
  hd_read_txn :: "'e \<Rightarrow> string + unit"
  hd_open :: "'e \<Rightarrow> string option \<Rightarrow> string + bool"
  hd_stat :: "'e \<Rightarrow> string option \<Rightarrow> string + nat"
  hd_iter :: "'e \<Rightarrow> string option \<Rightarrow> string + (string + bytes \<times> bytes) list"
  hd_write_txn :: "'e \<Rightarrow> string + unit"
  hd_delete :: "'e \<Rightarrow> string option \<Rightarrow> bytes \<Rightarrow> (string + bool) \<times> 'e"
  hd_commit :: "'e \<Rightarrow> string + 'e"

text \<open>The documented behaviour of a healthy store: no call fails, \<open>ent\<close> gives the entries of a
  database in iteration order, a deletion removes the entries of that key, leaves the other named databases alone
  and no key of the unnamed one appears or disappears (LMDB keeps the roots of the named databases
  as its values).\<close>

definition heed_deletes ::
  "'e heed \<Rightarrow> ('e \<Rightarrow> string option \<Rightarrow> (bytes \<times> bytes) list option) \<Rightarrow> 'e \<Rightarrow> string \<Rightarrow> bytes \<Rightarrow> bool" where
  "heed_deletes H ent e n k \<longleftrightarrow> (\<forall>xs. ent e (Some n) = Some xs \<longrightarrow>
     (\<exists>e'. hd_delete H e (Some n) k = (Inr (hm_contains xs k), e') \<and>
        ent e' (Some n) = Some (hm_remove k xs) \<and> (\<forall>m. m \<noteq> n \<longrightarrow> ent e' (Some m) = ent e (Some m)) \<and>
        map_option hm_keys (ent e' None) = map_option hm_keys (ent e None)))"

definition heed_ok :: "'e heed \<Rightarrow> ('e \<Rightarrow> string option \<Rightarrow> (bytes \<times> bytes) list option) \<Rightarrow> bool" where
  "heed_ok H ent \<longleftrightarrow> (\<forall>e. hd_read_txn H e = Inr () \<and> hd_write_txn H e = Inr () \<and> hd_commit H e = Inr e \<and>
     (\<forall>n. hd_open H e n = Inr (ent e n \<noteq> None) \<and>
        (\<forall>xs. ent e n = Some xs \<longrightarrow> hd_iter H e n = Inr (map Inr xs) \<and> hd_stat H e n = Inr (length xs))) \<and>
     (\<forall>n k. heed_deletes H ent e n k))"

lemma heed_okD:
  assumes "heed_ok H ent"
  shows "hd_read_txn H e = Inr ()" "hd_write_txn H e = Inr ()" "hd_commit H e = Inr e"
    "hd_open H e n = Inr (ent e n \<noteq> None)"
    "ent e n = Some xs \<Longrightarrow> hd_iter H e n = Inr (map Inr xs)"
    "ent e n = Some xs \<Longrightarrow> hd_stat H e n = Inr (length xs)"
    "heed_deletes H ent e m k"
  using assms by (auto simp: heed_ok_def)

text \<open>The crates \<open>hex\<close> and \<open>serde_json\<close>, and how a path is printed.\<close>

datatype json = JStr string | JNum nat | JBool bool | JObject "(string, json) hmap"

record tool_lib =
  hex_of :: "bytes \<Rightarrow> string"
  json_to_string :: "json \<Rightarrow> string + string"
  debug_path :: "string \<Rightarrow> string"

text \<open>What \<open>hex::encode\<close> is documented to return: two lowercase digits for each byte.\<close>

definition hex_digits :: string where
  "hex_digits = ''0123456789abcdef''"

definition hex_byte :: "byte \<Rightarrow> string" where
  "hex_byte b = [hex_digits ! (unat b div 16), hex_digits ! (unat b mod 16)]"

definition hex_ok :: "tool_lib \<Rightarrow> bool" where
  "hex_ok T \<longleftrightarrow> (\<forall>bs. hex_of T bs = concat (map hex_byte bs))"

section \<open>Names\<close>

definition common_names :: "string list" where
  "common_names = [''events'', ''events_scoped'', ''ci'', ''ci_scoped'', ''tci'', ''tci_scoped'',
     ''aci'', ''aci_scoped'', ''akci'', ''akci_scoped'', ''atci'', ''atci_scoped'', ''ktci'', ''ktci_scoped'',
     ''deleted-ids'', ''deleted-ids_scoped'', ''deleted-coordinates'', ''deleted-coordinates_scoped'',
     ''__global_scope_metadata'']"

text \<open>The name a database is opened by.\<close>

definition db_handle :: "string \<Rightarrow> string option" where
  "db_handle name = (if name = ''(unnamed)'' then None else Some name)"

fun probe_names :: "'e heed \<Rightarrow> 'e \<Rightarrow> string list \<Rightarrow> string list \<Rightarrow> anyhow_error + string list" where
  "probe_names H e [] found = Inr found"
| "probe_names H e (name # names) found = (case hd_open H e (db_handle name) of
     Inl err \<Rightarrow> Inl (AnyhowMsg err)
   | Inr present \<Rightarrow> probe_names H e names (if present then found @ [name] else found))"

lemma probe_names_ok: "heed_ok H ent \<Longrightarrow>
    probe_names H e names found = Inr (found @ List.filter (\<lambda>n. ent e (db_handle n) \<noteq> None) names)"
  by (induction names arbitrary: found) (auto simp: heed_okD)

section \<open>Scope hashes\<close>

fun read_scope_registry :: "(string + bytes \<times> bytes) list \<Rightarrow> scope_registry \<Rightarrow> anyhow_error + scope_registry" where
  "read_scope_registry [] registry = Inr registry"
| "read_scope_registry (Inl err # items) registry = Inl (AnyhowMsg err)"
| "read_scope_registry (Inr (key, value) # items) registry = read_scope_registry items
     (case from_utf8 key of
        Some scope_name \<Rightarrow> if length value = 4 then hm_insert (word_rcat value) scope_name registry else registry
      | None \<Rightarrow> registry)"

text \<open>The test of the length field of a scoped key: \<open>key.len() == 12 + key_len as usize\<close>, where the sum
  wraps around (in a build without overflow checks).\<close>

definition scoped_key_len :: "bytes \<Rightarrow> 64 word" where
  "scoped_key_len key = word_rcat (take 8 (drop 4 key))"

definition scoped_len_ok :: "bytes \<Rightarrow> bool" where
  "scoped_len_ok key \<longleftrightarrow> length key = unat (12 + scoped_key_len key)"

text \<open>The layout of a scoped key as both parsers read it: the hash, the length of the key, the key.\<close>

definition to_be_bytes :: "'a::len word \<Rightarrow> bytes" where
  "to_be_bytes w = map (\<lambda>i. ucast (drop_bit (8 * i) w)) (rev [0..<LENGTH('a) div 8])"

lemma length_to_be_bytes [simp]: "length (to_be_bytes (w :: 'a::len word)) = LENGTH('a) div 8"
  by (simp add: to_be_bytes_def)

lemma bit_from_be_bytes: "bit (word_rcat bs :: 'a::len word) n \<longleftrightarrow>
    n < LENGTH('a) \<and> n div 8 < length bs \<and> bit (rev bs ! (n div 8)) (n mod 8)" for bs :: bytes
  using bit_horner_sum_uint_exp_iff [of "rev bs" n] by (simp add: word_rcat_def bit_word_of_int_iff)

lemma from_to_be_bytes: "8 dvd LENGTH('a) \<Longrightarrow> word_rcat (to_be_bytes w) = (w :: 'a::len word)"
  by (rule bit_word_eqI)
    (auto simp: bit_from_be_bytes to_be_bytes_def rev_map bit_ucast_iff bit_drop_bit_eq elim!: dvdE)

lemma to_from_be_bytes:
  assumes "length bs = LENGTH('a) div 8" "8 dvd LENGTH('a)"
  shows "to_be_bytes (word_rcat bs :: 'a::len word) = bs"
proof (rule nth_equalityI)
  fix i assume "i < length (to_be_bytes (word_rcat bs :: 'a word))"
  then have i: "i < length bs"
    using assms by simp
  let ?k = "length bs - Suc i"
  have "to_be_bytes (word_rcat bs :: 'a word) ! i = ucast (drop_bit (8 * ?k) (word_rcat bs :: 'a word))"
    using i assms(1) by (simp add: to_be_bytes_def rev_nth)
  also have "\<dots> = bs ! i"
  proof (rule bit_word_eqI)
    fix j assume "j < LENGTH(8)"
    then have j: "j < 8" "8 * ?k + j < LENGTH('a)"
      using i assms by auto
    then show "bit (ucast (drop_bit (8 * ?k) (word_rcat bs :: 'a word)) :: byte) j = bit (bs ! i) j"
      using i by (auto simp: bit_ucast_iff bit_drop_bit_eq bit_from_be_bytes rev_nth)
  qed
  finally show "to_be_bytes (word_rcat bs :: 'a word) ! i = bs ! i" .
qed (use assms in simp)

definition scoped_key :: "scope_hash \<Rightarrow> bytes \<Rightarrow> bytes" where
  "scoped_key h key = to_be_bytes h @ to_be_bytes (of_nat (length key) :: 64 word) @ key"

lemma scoped_key_parts [simp]:
  "length (scoped_key h key) = 12 + length key" "take 4 (scoped_key h key) = to_be_bytes h"
  "take 8 (drop 4 (scoped_key h key)) = to_be_bytes (of_nat (length key) :: 64 word)"
  "drop 12 (scoped_key h key) = key"
  by (simp_all add: scoped_key_def)

lemma from_to_be_bytes_u32 [simp]: "word_rcat (to_be_bytes h) = (h :: 32 word)"
  by (rule from_to_be_bytes) simp

lemma from_to_be_bytes_u64 [simp]: "word_rcat (to_be_bytes n) = (n :: 64 word)"
  by (rule from_to_be_bytes) simp

lemma from_to_be_bytes_u16 [simp]: "word_rcat (to_be_bytes n) = (n :: 16 word)"
  by (rule from_to_be_bytes) simp

lemma scoped_key_len_scoped [simp]: "scoped_key_len (scoped_key h key) = of_nat (length key)"
  by (simp add: scoped_key_len_def)

lemma scoped_len_ok_scoped: "length key < 2 ^ 64 - 12 \<Longrightarrow> scoped_len_ok (scoped_key h key)"
  by (simp add: scoped_len_ok_def unat_word_ariths unat_of_nat)

text \<open>Every key that passes the test is a scoped key.\<close>

lemma scoped_len_ok_is_scoped:
  assumes "12 \<le> length key" "scoped_len_ok key" "length key < 2 ^ 64"
  shows "key = scoped_key (word_rcat (take 4 key)) (drop 12 key)"
proof -
  have "12 + scoped_key_len key = of_nat (length key)"
    using assms(2) by (simp add: scoped_len_ok_def)
  then have "scoped_key_len key = of_nat (length key - 12)"
    using assms(1) by (simp add: of_nat_diff eq_diff_eq add.commute)
  then have "to_be_bytes (of_nat (length (drop 12 key)) :: 64 word) = take 8 (drop 4 key)"
    using assms(1) to_from_be_bytes [of "take 8 (drop 4 key)", where 'a = 64]
    by (simp add: scoped_key_len_def)
  moreover have "take 4 key @ take 8 (drop 4 key) @ drop 12 key = key"
    using append_take_drop_id [of 4 key] append_take_drop_id [of 8 "drop 4 key"] by simp
  ultimately show ?thesis
    using assms(1) by (simp add: scoped_key_def to_from_be_bytes)
qed

end
