(* ===== verification/Lmdb_Integrity.thy ===== *)
theory Lmdb_Integrity
  imports Lmdb_Keys
begin

text \<open>
  The integrity tool \<open>src/src/bin/nostr-lmdb-integrity.rs\<close>: it collects the ids of all stored
  events, reports every index entry whose key holds another id, and removes the reported entries in
  wet-run mode. A panic is the result \<open>None\<close>. The grouping of the report has the order in which the
  databases first occur (the program's \<open>HashMap\<close> leaves it open); log lines are left out.
\<close>

record corrupted_entry =
  ce_database :: string
  ce_key :: bytes
  ce_event_id :: string
  ce_index_type :: string
  ce_scope :: "string option"

record event_id_info =
  ei_event_id :: string
  ei_index_type :: string
  ei_scope :: "string option"

section \<open>Keys\<close>

definition parse_scoped_key :: "bytes \<Rightarrow> scope_registry \<Rightarrow> (string \<times> bytes) option option" where
  "parse_scoped_key key registry =
     (if length key < 12 then Some None
      else if \<not> scoped_len_ok key then Some None
      else case hm_get registry (word_rcat (take 4 key)) of
        Some scope_name \<Rightarrow> Some (Some (scope_name, drop 12 key))
      | None \<Rightarrow> None)"

definition key_slice :: "nat \<Rightarrow> nat \<Rightarrow> bytes \<Rightarrow> bytes" where
  "key_slice a b key = drop a (take b key)"

definition extract_from_ci_key :: "tool_lib \<Rightarrow> bytes \<Rightarrow> string option \<Rightarrow> event_id_info option" where
  "extract_from_ci_key T key sc = (if length key \<ge> 40
     then Some \<lparr>ei_event_id = hex_of T (key_slice 8 40 key), ei_index_type = ''created_at_index'', ei_scope = sc\<rparr>
     else None)"

definition extract_from_tci_key :: "tool_lib \<Rightarrow> bytes \<Rightarrow> string option \<Rightarrow> event_id_info option" where
  "extract_from_tci_key T key sc = (if length key \<ge> 226
     then Some \<lparr>ei_event_id = hex_of T (key_slice 194 226 key), ei_index_type = ''tag_created_at_index'', ei_scope = sc\<rparr>
     else None)"

definition extract_from_aci_key :: "tool_lib \<Rightarrow> bytes \<Rightarrow> string option \<Rightarrow> event_id_info option" where
  "extract_from_aci_key T key sc = (if length key \<ge> 72
     then Some \<lparr>ei_event_id = hex_of T (key_slice 40 72 key), ei_index_type = ''author_created_at_index'', ei_scope = sc\<rparr>
     else None)"

definition extract_from_akci_key :: "tool_lib \<Rightarrow> bytes \<Rightarrow> string option \<Rightarrow> event_id_info option" where
  "extract_from_akci_key T key sc = (if length key \<ge> 74
     then Some \<lparr>ei_event_id = hex_of T (key_slice 42 74 key), ei_index_type = ''author_kind_created_at_index'', ei_scope = sc\<rparr>
     else None)"

definition extract_from_atci_key :: "tool_lib \<Rightarrow> bytes \<Rightarrow> string option \<Rightarrow> event_id_info option" where
  "extract_from_atci_key T key sc = (if length key \<ge> 258
     then Some \<lparr>ei_event_id = hex_of T (key_slice 226 258 key), ei_index_type = ''author_tag_created_at_index'', ei_scope = sc\<rparr>
     else None)"

definition extract_from_ktci_key :: "tool_lib \<Rightarrow> bytes \<Rightarrow> string option \<Rightarrow> event_id_info option" where
  "extract_from_ktci_key T key sc = (if length key \<ge> 228
     then Some \<lparr>ei_event_id = hex_of T (key_slice 196 228 key), ei_index_type = ''kind_tag_created_at_index'', ei_scope = sc\<rparr>
     else None)"

definition extract_from_deleted_ids_key :: "tool_lib \<Rightarrow> bytes \<Rightarrow> string option \<Rightarrow> event_id_info option" where
  "extract_from_deleted_ids_key T key sc = (if length key = 32
     then Some \<lparr>ei_event_id = hex_of T key, ei_index_type = ''deleted_ids'', ei_scope = sc\<rparr>
     else None)"

definition extract_base :: "tool_lib \<Rightarrow> string \<Rightarrow> bytes \<Rightarrow> string option \<Rightarrow> event_id_info option" where
  "extract_base T base_db key sc =
     (if base_db = ''ci'' then extract_from_ci_key T key sc
      else if base_db = ''tci'' then extract_from_tci_key T key sc
      else if base_db = ''aci'' then extract_from_aci_key T key sc
      else if base_db = ''akci'' then extract_from_akci_key T key sc
      else if base_db = ''atci'' then extract_from_atci_key T key sc
      else if base_db = ''ktci'' then extract_from_ktci_key T key sc
      else if base_db = ''deleted-ids'' then extract_from_deleted_ids_key T key sc
      else None)"

definition extract_event_id_from_key ::
  "tool_lib \<Rightarrow> bytes \<Rightarrow> string \<Rightarrow> scope_registry \<Rightarrow> event_id_info option option" where
  "extract_event_id_from_key T key db_name registry =
     (let base_db = trim_end_str ''_scoped'' db_name
      in if str_ends_with db_name ''_scoped''
         then (case parse_scoped_key key registry of
             None \<Rightarrow> None
           | Some None \<Rightarrow> Some None
           | Some (Some (scope_name, actual_key)) \<Rightarrow> Some (extract_base T base_db actual_key (Some scope_name)))
         else Some (extract_base T base_db key None))"

section \<open>Reading the store\<close>

definition probed_names :: "string list" where
  "probed_names = common_names @ [''(unnamed)''] @ map (\<lambda>i. ''unknown_db_'' @ nat_str i) [0..<100]"

definition discover_databases :: "'e heed \<Rightarrow> 'e \<Rightarrow> anyhow_error + string list" where
  "discover_databases H e = probe_names H e probed_names []"

definition is_expected_database :: "string \<Rightarrow> bool" where
  "is_expected_database name \<longleftrightarrow> name \<in> set common_names \<or> name = ''(unnamed)''"

definition discover_scope_registry :: "'e heed \<Rightarrow> 'e \<Rightarrow> anyhow_error + scope_registry" where
  "discover_scope_registry H e = (case hd_open H e (Some ''__global_scope_metadata'') of
     Inl err \<Rightarrow> Inl (AnyhowMsg err)
   | Inr False \<Rightarrow> Inr []
   | Inr True \<Rightarrow> (case hd_iter H e (Some ''__global_scope_metadata'') of
       Inl err \<Rightarrow> Inl (AnyhowMsg err)
     | Inr items \<Rightarrow> read_scope_registry items []))"

definition plain_event_id :: "tool_lib \<Rightarrow> bytes \<Rightarrow> string option" where
  "plain_event_id T key = (if length key = 32 then Some (hex_of T key) else None)"

definition scoped_event_id :: "tool_lib \<Rightarrow> bytes \<Rightarrow> string option" where
  "scoped_event_id T key =
     (if length key \<ge> 12 \<and> scoped_len_ok key \<and> scoped_key_len key = 32 then Some (hex_of T (drop 12 key)) else None)"

fun collect_ids ::
  "(bytes \<Rightarrow> string option) \<Rightarrow> (string + bytes \<times> bytes) list \<Rightarrow> string set \<Rightarrow> anyhow_error + string set" where
  "collect_ids f [] event_ids = Inr event_ids"
| "collect_ids f (Inl err # items) event_ids = Inl (AnyhowMsg err)"
| "collect_ids f (Inr (key, _) # items) event_ids = collect_ids f items
     (case f key of Some event_id \<Rightarrow> insert event_id event_ids | None \<Rightarrow> event_ids)"

definition collect_from ::
  "'e heed \<Rightarrow> 'e \<Rightarrow> string option \<Rightarrow> (bytes \<Rightarrow> string option) \<Rightarrow> string set \<Rightarrow> anyhow_error + string set" where
  "collect_from H e name f event_ids = (case hd_open H e name of
     Inl err \<Rightarrow> Inl (AnyhowMsg err)
   | Inr False \<Rightarrow> Inr event_ids
   | Inr True \<Rightarrow> (case hd_iter H e name of
       Inl err \<Rightarrow> Inl (AnyhowMsg err)
     | Inr items \<Rightarrow> collect_ids f items event_ids))"

definition get_all_event_ids :: "tool_lib \<Rightarrow> 'e heed \<Rightarrow> 'e \<Rightarrow> anyhow_error + string set" where
  "get_all_event_ids T H e = (case collect_from H e None (plain_event_id T) {} of
     Inl err \<Rightarrow> Inl err
   | Inr event_ids \<Rightarrow> collect_from H e (Some ''events_scoped'') (scoped_event_id T) event_ids)"

section \<open>The check\<close>

fun check_entries ::
  "tool_lib \<Rightarrow> scope_registry \<Rightarrow> string set \<Rightarrow> string \<Rightarrow> (string + bytes \<times> bytes) list \<Rightarrow> corrupted_entry list
     \<Rightarrow> (anyhow_error + corrupted_entry list) option" where
  "check_entries T registry existing db_name [] corrupted = Some (Inr corrupted)"
| "check_entries T registry existing db_name (Inl err # items) corrupted = Some (Inl (AnyhowMsg err))"
| "check_entries T registry existing db_name (Inr (key, _) # items) corrupted =
     (case extract_event_id_from_key T key db_name registry of
        None \<Rightarrow> None
      | Some None \<Rightarrow> check_entries T registry existing db_name items corrupted
      | Some (Some event_id) \<Rightarrow> check_entries T registry existing db_name items
          (if ei_event_id event_id \<notin> existing
           then corrupted @ [\<lparr>ce_database = db_name, ce_key = key, ce_event_id = ei_event_id event_id,
             ce_index_type = ei_index_type event_id, ce_scope = ei_scope event_id\<rparr>]
           else corrupted))"

definition is_event_storage :: "string \<Rightarrow> bool" where
  "is_event_storage db_name \<longleftrightarrow>
     db_name = ''events'' \<or> db_name = ''events_scoped'' \<or> db_name = ''__global_scope_metadata''"

fun check_databases ::
  "tool_lib \<Rightarrow> 'e heed \<Rightarrow> 'e \<Rightarrow> scope_registry \<Rightarrow> string set \<Rightarrow> string list \<Rightarrow> corrupted_entry list
     \<Rightarrow> (anyhow_error + corrupted_entry list) option" where
  "check_databases T H e registry existing [] corrupted = Some (Inr corrupted)"
| "check_databases T H e registry existing (db_name # dbs) corrupted =
     (if is_event_storage db_name then check_databases T H e registry existing dbs corrupted
      else case hd_open H e (db_handle db_name) of
        Inl err \<Rightarrow> Some (Inl (AnyhowMsg err))
      | Inr False \<Rightarrow> check_databases T H e registry existing dbs corrupted
      | Inr True \<Rightarrow> (case hd_iter H e (db_handle db_name) of
          Inl err \<Rightarrow> Some (Inl (AnyhowMsg err))
        | Inr items \<Rightarrow> (case check_entries T registry existing db_name items corrupted of
            None \<Rightarrow> None
          | Some (Inl err) \<Rightarrow> Some (Inl err)
          | Some (Inr corrupted') \<Rightarrow> check_databases T H e registry existing dbs corrupted')))"

definition check_integrity ::
  "tool_lib \<Rightarrow> 'e heed \<Rightarrow> 'e \<Rightarrow> string list \<Rightarrow> (anyhow_error + corrupted_entry list) option" where
  "check_integrity T H e databases = (case discover_scope_registry H e of
     Inl err \<Rightarrow> Some (Inl err)
   | Inr registry \<Rightarrow> (case get_all_event_ids T H e of
       Inl err \<Rightarrow> Some (Inl err)
     | Inr existing \<Rightarrow> check_databases T H e registry existing databases []))"

section \<open>The repair\<close>

text \<open>Deletions in the write transaction; one that fails is only logged. An error before the commit
  drops the transaction.\<close>

fun delete_entries :: "'e heed \<Rightarrow> corrupted_entry list \<Rightarrow> 'e \<Rightarrow> anyhow_error + 'e" where
  "delete_entries H [] txn = Inr txn"
| "delete_entries H (entry # entries) txn = (case hd_open H txn (db_handle (ce_database entry)) of
     Inl err \<Rightarrow> Inl (AnyhowMsg err)
   | Inr False \<Rightarrow> delete_entries H entries txn
   | Inr True \<Rightarrow> delete_entries H entries (snd (hd_delete H txn (db_handle (ce_database entry)) (ce_key entry))))"

definition remove_corrupted_entries :: "'e heed \<Rightarrow> 'e \<Rightarrow> corrupted_entry list \<Rightarrow> (anyhow_error + unit) \<times> 'e" where
  "remove_corrupted_entries H e corrupted = (case hd_write_txn H e of
     Inl err \<Rightarrow> (Inl (AnyhowMsg err), e)
   | Inr _ \<Rightarrow> (case delete_entries H corrupted e of
       Inl err \<Rightarrow> (Inl err, e)
     | Inr txn \<Rightarrow> (case hd_commit H txn of
         Inl err \<Rightarrow> (Inl (AnyhowMsg err), e)
       | Inr e' \<Rightarrow> (Inr (), e'))))"

section \<open>The program\<close>

text \<open>The printed text is a list of lines; a line break inside a \<open>println!\<close> is a character of its line.\<close>

definition sign_warning :: string where
  "sign_warning = [CHR 0xE2, CHR 0x9A, CHR 0xA0, CHR 0xEF, CHR 0xB8, CHR 0x8F]"

definition sign_check :: string where
  "sign_check = [CHR 0xE2, CHR 0x9C, CHR 0x85]"

definition sign_cross :: string where
  "sign_cross = [CHR 0xE2, CHR 0x9D, CHR 0x8C]"

definition sign_chart :: string where
  "sign_chart = [CHR 0xF0, CHR 0x9F, CHR 0x93, CHR 0x8A]"

definition sign_wrench :: string where
  "sign_wrench = [CHR 0xF0, CHR 0x9F, CHR 0x94, CHR 0xA7]"

definition sign_bulb :: string where
  "sign_bulb = [CHR 0xF0, CHR 0x9F, CHR 0x92, CHR 0xA1]"

fun group_by_database ::
  "corrupted_entry list \<Rightarrow> (string, corrupted_entry list) hmap \<Rightarrow> (string, corrupted_entry list) hmap" where
  "group_by_database [] by_database = by_database"
| "group_by_database (entry # entries) by_database = group_by_database entries
     (hm_insert (ce_database entry)
       ((case hm_get by_database (ce_database entry) of Some es \<Rightarrow> es | None \<Rightarrow> []) @ [entry]) by_database)"

definition entry_lines :: "tool_lib \<Rightarrow> corrupted_entry \<Rightarrow> string list" where
  "entry_lines T entry =
     [''   - Event ID: '' @ ce_event_id entry, ''     Index type: '' @ ce_index_type entry] @
     (case ce_scope entry of Some sc \<Rightarrow> [''     Scope: '' @ sc] | None \<Rightarrow> []) @
     [''     Key: '' @ hex_of T (ce_key entry)]"

definition entry_line :: "corrupted_entry \<Rightarrow> string" where
  "entry_line entry = ''   - '' @ ce_event_id entry @ '' ('' @ ce_index_type entry @ '')'' @
     (case ce_scope entry of Some sc \<Rightarrow> '' [scope: '' @ sc @ '']'' | None \<Rightarrow> [])"

definition group_lines :: "tool_lib \<Rightarrow> bool \<Rightarrow> string \<times> corrupted_entry list \<Rightarrow> string list" where
  "group_lines T verbose g = (case g of (db_name, entries) \<Rightarrow>
     (newline # sign_chart @ '' Database '' @ [CHR 0x27] @ db_name @ [CHR 0x27] @ '': '' @ nat_str (length entries) @
       '' corrupted entries'') #
     (if verbose then concat (map (entry_lines T) entries)
      else map entry_line (take 3 entries) @
        (if length entries > 3 then [''   ... and '' @ nat_str (length entries - 3) @ '' more''] else [])))"

definition unexpected_lines :: "string list \<Rightarrow> string list" where
  "unexpected_lines unexpected =
     (if unexpected = [] then []
      else [sign_warning @ ''  Found '' @ nat_str (length unexpected) @ '' unexpected databases:''] @
        map (\<lambda>db_name. ''   - '' @ db_name) unexpected @
        [''   These databases are not part of the nostr-lmdb schema.'',
         ''   To clean up the database completely, use the export_import tool to migrate to a fresh database.'',
         []])"

definition corrupted_lines :: "tool_lib \<Rightarrow> bool \<Rightarrow> corrupted_entry list \<Rightarrow> string list" where
  "corrupted_lines T verbose corrupted =
     [sign_cross @ '' Found '' @ nat_str (length corrupted) @ '' corrupted entries:''] @
     concat (map (group_lines T verbose) (group_by_database corrupted []))"

record integrity_args =
  ia_db_path :: string
  ia_wet_run :: bool
  ia_verbose :: bool

text \<open>The end of \<open>main\<close>: the confirmation and the removal. \<open>stdin\<close> is the line the user types.\<close>

definition repair_phase ::
  "'e heed \<Rightarrow> bool \<Rightarrow> string + string \<Rightarrow> corrupted_entry list \<Rightarrow> 'e \<Rightarrow> string list \<times> (anyhow_error + unit) \<times> 'e" where
  "repair_phase H wet_run stdin corrupted e =
     (if wet_run then
        let ask = [newline # sign_wrench @ '' Wet run mode enabled. The corrupted entries listed above will be removed.'',
                   sign_warning @ ''  This operation cannot be undone!'', ''Do you want to continue? (y/N)'']
        in (case stdin of
            Inl err \<Rightarrow> (ask, Inl (AnyhowMsg err), e)
          | Inr input \<Rightarrow>
              if \<not> eq_ignore_case_y (str_trim input) then (ask @ [''Operation cancelled.''], Inr (), e)
              else (case remove_corrupted_entries H e corrupted of
                  (Inl err, e') \<Rightarrow> (ask, Inl err, e')
                | (Inr _, e') \<Rightarrow> (ask @ [sign_check @ '' Removed '' @ nat_str (length corrupted) @ '' corrupted entries''],
                    Inr (), e')))
      else ([newline # sign_bulb @ '' Run with --wet-run to remove these corrupted entries.'',
             ''   Note: This will only remove corrupted index entries, not unexpected databases.'',
             ''   To get a completely clean database, use the export_import tool.''], Inr (), e))"

definition integrity_main ::
  "tool_lib \<Rightarrow> 'e heed \<Rightarrow> integrity_args \<Rightarrow> string + string \<Rightarrow> string + unit \<Rightarrow> 'e
     \<Rightarrow> string list \<times> (anyhow_error + unit) option \<times> 'e" where
  "integrity_main T H args stdin opened e = (case opened of
     Inl _ \<Rightarrow> ([], Some (Inl (AnyhowMsg (''Failed to open database at '' @ debug_path T (ia_db_path args)))), e)
   | Inr _ \<Rightarrow> (case hd_read_txn H e of
       Inl err \<Rightarrow> ([], Some (Inl (AnyhowMsg err)), e)
     | Inr _ \<Rightarrow> (case discover_databases H e of
         Inl err \<Rightarrow> ([], Some (Inl err), e)
       | Inr all_databases \<Rightarrow>
           let expected = List.filter is_expected_database all_databases;
               out = unexpected_lines (List.filter (Not \<circ> is_expected_database) all_databases)
           in (case check_integrity T H e expected of
               None \<Rightarrow> (out, None, e)
             | Some (Inl err) \<Rightarrow> (out, Some (Inl err), e)
             | Some (Inr corrupted) \<Rightarrow>
                 if corrupted = []
                 then (out @ [sign_check @ '' Database integrity check passed! No corrupted entries found.''],
                   Some (Inr ()), e)
                 else (case repair_phase H (ia_wet_run args) stdin corrupted e of
                     (more_lines, r, e') \<Rightarrow> (out @ corrupted_lines T (ia_verbose args) corrupted @ more_lines, Some r, e'))))))"


end
