(* ===== verification/Lmdb_Dump.thy ===== *)
theory Lmdb_Dump
  imports Lmdb_Integrity
begin

text \<open>
  The dump tool \<open>src/src/bin/nostr-lmdb-dump.rs\<close>: how it interprets the keys of each database as JSON, and the
  text it prints. JSON objects are maps in insertion order; their text is the parameter
  \<open>json_to_string\<close>. Progress bars are left out. Printed text is one string.
\<close>

section \<open>Fields\<close>

definition parse_timestamp_be :: "bytes \<Rightarrow> 64 word" where
  "parse_timestamp_be bs = word_rcat (take 8 bs)"

definition parse_u16_be :: "bytes \<Rightarrow> 16 word" where
  "parse_u16_be bs = word_rcat (take 2 bs)"

definition parse_u32_be :: "bytes \<Rightarrow> 32 word" where
  "parse_u32_be bs = word_rcat (take 4 bs)"

definition format_timestamp_field :: "tool_lib \<Rightarrow> bytes \<Rightarrow> bool \<Rightarrow> json" where
  "format_timestamp_field T bs reversed =
     (let timestamp = parse_timestamp_be bs;
          parsed_value = (if reversed then - 1 - timestamp else timestamp)
      in JObject [(''raw_hex'', JStr (hex_of T bs)), (''parsed_value'', JNum (unat parsed_value))])"

definition trim_end_nul :: "string \<Rightarrow> string" where
  "trim_end_nul s = rev (dropWhile (\<lambda>c. c = CHR 0x00) (rev s))"

definition format_tag_value :: "tool_lib \<Rightarrow> bytes \<Rightarrow> json" where
  "format_tag_value T bs = JObject [(''raw_hex'', JStr (hex_of T bs)),
     (''parsed_value'', JStr (trim_end_nul (from_utf8_lossy bs)))]"

definition format_kind_field :: "tool_lib \<Rightarrow> bytes \<Rightarrow> json" where
  "format_kind_field T bs = JObject [(''raw_hex'', JStr (hex_of T bs)), (''parsed_value'', JNum (unat (parse_u16_be bs)))]"

text \<open>\<open>(byte as char).to_string()\<close> is the UTF-8 of a code point below 256.\<close>

definition latin1_string :: "byte \<Rightarrow> string" where
  "latin1_string b = (if b < 0x80 then [byte_char b]
     else [byte_char (0xC0 OR drop_bit 6 b), byte_char (0x80 OR (b AND 0x3F))])"

definition format_tag_name :: "tool_lib \<Rightarrow> byte \<Rightarrow> json" where
  "format_tag_name T b = JObject [(''raw_hex'', JStr (hex_of T [b])), (''parsed_value'', JStr (latin1_string b))]"

section \<open>Keys\<close>

definition parse_events_key :: "tool_lib \<Rightarrow> bytes \<Rightarrow> json option" where
  "parse_events_key T key = (if length key = 32 then Some (JObject [(''event_id'', JStr (hex_of T key))]) else None)"

definition incomplete :: "string \<times> json" where
  "incomplete = (''incomplete'', JBool True)"

definition parse_ci_key :: "tool_lib \<Rightarrow> bytes \<Rightarrow> json option" where
  "parse_ci_key T key =
     (if length key \<ge> 8 then
        let timestamp = (''timestamp'', format_timestamp_field T (key_slice 0 8 key) True)
        in if length key \<ge> 40
           then Some (JObject [timestamp, (''event_id'', JStr (hex_of T (key_slice 8 40 key)))])
           else Some (JObject [timestamp, incomplete])
      else None)"

definition parse_tci_key :: "tool_lib \<Rightarrow> bytes \<Rightarrow> json option" where
  "parse_tci_key T key =
     (if length key \<ge> 194 then
        let fields = [(''tag_name'', format_tag_name T (key ! 0)),
              (''tag_value'', format_tag_value T (key_slice 1 183 key)),
              (''timestamp'', format_timestamp_field T (key_slice 183 191 key) True)]
        in if length key \<ge> 226
           then Some (JObject (fields @ [(''event_id'', JStr (hex_of T (key_slice 194 226 key)))]))
           else Some (JObject (fields @ [incomplete]))
      else None)"

definition parse_aci_key :: "tool_lib \<Rightarrow> bytes \<Rightarrow> json option" where
  "parse_aci_key T key =
     (if length key \<ge> 40 then
        let fields = [(''pubkey'', JStr (hex_of T (key_slice 0 32 key))),
              (''timestamp'', format_timestamp_field T (key_slice 32 40 key) True)]
        in if length key \<ge> 72
           then Some (JObject (fields @ [(''event_id'', JStr (hex_of T (key_slice 40 72 key)))]))
           else Some (JObject (fields @ [incomplete]))
      else None)"

definition parse_akci_key :: "tool_lib \<Rightarrow> bytes \<Rightarrow> json option" where
  "parse_akci_key T key =
     (if length key \<ge> 42 then
        let fields = [(''pubkey'', JStr (hex_of T (key_slice 0 32 key))),
              (''kind'', format_kind_field T (key_slice 32 34 key)),
              (''timestamp'', format_timestamp_field T (key_slice 34 42 key) True)]
        in if length key \<ge> 74
           then Some (JObject (fields @ [(''event_id'', JStr (hex_of T (key_slice 42 74 key)))]))
           else Some (JObject (fields @ [incomplete]))
      else None)"

definition parse_atci_key :: "tool_lib \<Rightarrow> bytes \<Rightarrow> json option" where
  "parse_atci_key T key =
     (if length key \<ge> 226 then
        let fields = [(''pubkey'', JStr (hex_of T (key_slice 0 32 key))),
              (''tag_name'', format_tag_name T (key ! 32)),
              (''tag_value'', format_tag_value T (key_slice 33 215 key)),
              (''timestamp'', format_timestamp_field T (key_slice 215 223 key) True)]
        in if length key \<ge> 258
           then Some (JObject (fields @ [(''event_id'', JStr (hex_of T (key_slice 226 258 key)))]))
           else Some (JObject (fields @ [incomplete]))
      else None)"

definition parse_ktci_key :: "tool_lib \<Rightarrow> bytes \<Rightarrow> json option" where
  "parse_ktci_key T key =
     (if length key \<ge> 196 then
        let fields = [(''kind'', format_kind_field T (key_slice 0 2 key)),
              (''tag_name'', format_tag_name T (key ! 2)),
              (''tag_value'', format_tag_value T (key_slice 3 185 key)),
              (''timestamp'', format_timestamp_field T (key_slice 185 193 key) True)]
        in if length key \<ge> 228
           then Some (JObject (fields @ [(''event_id'', JStr (hex_of T (key_slice 196 228 key)))]))
           else Some (JObject (fields @ [incomplete]))
      else None)"

definition parse_deleted_ids_key :: "tool_lib \<Rightarrow> bytes \<Rightarrow> json option" where
  "parse_deleted_ids_key T key =
     (if length key = 32 then Some (JObject [(''event_id'', JStr (hex_of T key))]) else None)"

definition parse_deleted_coordinates_key :: "tool_lib \<Rightarrow> bytes \<Rightarrow> json option" where
  "parse_deleted_coordinates_key T key =
     (if length key \<ge> 34 then
        let d_tag_bytes = (if length key > 34 then drop 34 key else []);
            result = [(''kind'', format_kind_field T (key_slice 0 2 key)),
              (''pubkey'', JStr (hex_of T (key_slice 2 34 key)))]
        in Some (JObject (if d_tag_bytes \<noteq> []
             then hm_insert ''d_tag'' (JObject [(''raw_hex'', JStr (hex_of T d_tag_bytes)),
               (''parsed_value'', JStr (from_utf8_lossy d_tag_bytes))]) result
             else result))
      else None)"

definition parse_scope_metadata_key :: "bytes \<Rightarrow> json option" where
  "parse_scope_metadata_key key = (case from_utf8 key of
     Some scope_name \<Rightarrow> Some (JObject [(''scope_name'', JStr scope_name)]) | None \<Rightarrow> None)"

text \<open>The two scope components in front of a scoped key; \<open>{:08x}\<close> of an unknown hash has eight digits.\<close>

definition dump_scoped_key :: "tool_lib \<Rightarrow> bytes \<Rightarrow> scope_registry \<Rightarrow> ((json \<times> json) \<times> bytes) option" where
  "dump_scoped_key T key registry =
     (if length key < 12 then None
      else let scope_hash_bytes = key_slice 0 4 key; scope_hash = parse_u32_be scope_hash_bytes;
               key_len_bytes = key_slice 4 12 key; key_len = parse_timestamp_be key_len_bytes
      in if length key \<noteq> unat (12 + key_len) then None
         else let scope_name = (case hm_get registry scope_hash of
                 Some name \<Rightarrow> name
               | None \<Rightarrow> ''unknown_scope_'' @ concat (map hex_byte (to_be_bytes scope_hash)))
           in Some ((JObject [(''raw_hex'', JStr (hex_of T scope_hash_bytes)), (''lookup_value'', JStr scope_name)],
                JObject [(''raw_hex'', JStr (hex_of T key_len_bytes)), (''parsed_value'', JNum (unat key_len))]),
                drop 12 key))"

definition parse_scoped_inner :: "tool_lib \<Rightarrow> string \<Rightarrow> bytes \<Rightarrow> json option" where
  "parse_scoped_inner T base_db key =
     (if base_db = ''events'' then parse_events_key T key
      else if base_db = ''ci'' then parse_ci_key T key
      else if base_db = ''tci'' then parse_tci_key T key
      else if base_db = ''aci'' then parse_aci_key T key
      else if base_db = ''akci'' then parse_akci_key T key
      else if base_db = ''atci'' then parse_atci_key T key
      else if base_db = ''ktci'' then parse_ktci_key T key
      else if base_db = ''deleted-ids'' then parse_deleted_ids_key T key
      else if base_db = ''deleted-coordinates'' then parse_deleted_coordinates_key T key
      else None)"

definition add_scope_components :: "json \<Rightarrow> json \<Rightarrow> json \<Rightarrow> json option" where
  "add_scope_components scope_hash original_key_length parsed = (case parsed of
     JObject obj \<Rightarrow> Some (JObject (fold (\<lambda>(k, v) new_obj. hm_insert k v new_obj) obj
       (hm_insert ''original_key_length'' original_key_length (hm_insert ''scope_hash'' scope_hash []))))
   | _ \<Rightarrow> None)"

definition parse_key :: "tool_lib \<Rightarrow> bytes \<Rightarrow> string \<Rightarrow> scope_registry \<Rightarrow> json option" where
  "parse_key T key db_name registry =
     (if str_ends_with db_name ''_scoped''
      then (case dump_scoped_key T key registry of
          None \<Rightarrow> None
        | Some ((scope_hash, original_key_length), inner_key) \<Rightarrow>
            (case parse_scoped_inner T (trim_end_str ''_scoped'' db_name) inner_key of
               None \<Rightarrow> None
             | Some parsed \<Rightarrow> add_scope_components scope_hash original_key_length parsed))
      else if db_name = ''__global_scope_metadata'' then parse_scope_metadata_key key
      else parse_scoped_inner T db_name key)"

section \<open>Printing\<close>

definition quoted :: "string \<Rightarrow> string" where
  "quoted s = CHR 0x22 # s @ [CHR 0x22]"

definition println :: "string \<Rightarrow> string" where
  "println s = s @ [newline]"

definition opens_name :: "'e heed \<Rightarrow> 'e \<Rightarrow> string \<Rightarrow> string + bool" where
  "opens_name H e db_name = hd_open H e (db_handle db_name)"

definition value_text :: "tool_lib \<Rightarrow> bytes \<Rightarrow> string" where
  "value_text T value =
     (if length value > 100
      then quoted ''value_hex'' @ '': '' @ quoted (hex_of T (take 50 value)) @ '', '' @
        quoted ''value_truncated'' @ '': true, '' @ quoted ''value_size_bytes'' @ '': '' @ nat_str (length value)
      else quoted ''value_hex'' @ '': '' @ quoted (hex_of T value))"

definition entry_head :: "tool_lib \<Rightarrow> string \<Rightarrow> bytes \<Rightarrow> bytes \<Rightarrow> string" where
  "entry_head T db_name key value =
     ''    {'' @ quoted ''database'' @ '': '' @ quoted db_name @ '', '' @
     quoted ''key_hex'' @ '': '' @ quoted (hex_of T key) @ '', '' @ value_text T value"

definition shows_parsed_key :: "string \<Rightarrow> bool" where
  "shows_parsed_key db_name \<longleftrightarrow> db_name \<noteq> ''events'' \<and> db_name \<noteq> ''events_scoped'' \<and>
     db_name \<noteq> ''deleted-ids'' \<and> db_name \<noteq> ''deleted-ids_scoped''"

text \<open>The text of one entry; an error of the serialiser leaves the object open.\<close>

definition print_entry ::
  "tool_lib \<Rightarrow> string \<Rightarrow> scope_registry \<Rightarrow> bytes \<times> bytes \<Rightarrow> string \<times> (anyhow_error + unit)" where
  "print_entry T db_name registry kv = (case kv of (key, value) \<Rightarrow>
     (case (if shows_parsed_key db_name then parse_key T key db_name registry else None) of
        None \<Rightarrow> (entry_head T db_name key value @ ''}'', Inr ())
      | Some parsed \<Rightarrow> (case json_to_string T parsed of
          Inl err \<Rightarrow> (entry_head T db_name key value, Inl (AnyhowMsg err))
        | Inr s \<Rightarrow> (entry_head T db_name key value @ '', '' @ quoted ''parsed_key'' @ '': '' @ s @ ''}'', Inr ()))))"

text \<open>The loop over the entries of a database: the number of the next entry, the flag \<open>first_entry\<close>, the
  text so far.\<close>

fun dump_loop ::
  "tool_lib \<Rightarrow> string \<Rightarrow> scope_registry \<Rightarrow> nat option \<Rightarrow> nat \<Rightarrow> (string + bytes \<times> bytes) list \<Rightarrow> bool \<Rightarrow> string
     \<Rightarrow> string \<times> bool \<times> (anyhow_error + unit)" where
  "dump_loop T db_name registry limit shown [] first_entry out = (out, first_entry, Inr ())"
| "dump_loop T db_name registry limit shown (Inl err # items) first_entry out = (out, first_entry, Inl (AnyhowMsg err))"
| "dump_loop T db_name registry limit shown (Inr kv # items) first_entry out =
     (if (case limit of Some l \<Rightarrow> shown \<ge> l | None \<Rightarrow> False) then (out, first_entry, Inr ())
      else case print_entry T db_name registry kv of
        (s, r) \<Rightarrow> (let out' = out @ (if first_entry then [] else println '','') @ s in
          case r of
            Inl err \<Rightarrow> (out', False, Inl err)
          | Inr _ \<Rightarrow> dump_loop T db_name registry limit (shown + 1) items False out'))"

definition dump_database_entries ::
  "tool_lib \<Rightarrow> 'e heed \<Rightarrow> 'e \<Rightarrow> string \<Rightarrow> scope_registry \<Rightarrow> nat option \<Rightarrow> bool \<Rightarrow> string
     \<Rightarrow> string \<times> bool \<times> (anyhow_error + unit)" where
  "dump_database_entries T H e db_name registry limit first_entry out = (case opens_name H e db_name of
     Inl err \<Rightarrow> (out, first_entry, Inl (AnyhowMsg err))
   | Inr False \<Rightarrow> (out, first_entry, Inr ())
   | Inr True \<Rightarrow> (case hd_stat H e (db_handle db_name) of
       Inl err \<Rightarrow> (out, first_entry, Inl (AnyhowMsg err))
     | Inr entry_count \<Rightarrow>
         if entry_count = 0 then (out, first_entry, Inr ())
         else (case hd_iter H e (db_handle db_name) of
           Inl err \<Rightarrow> (out, first_entry, Inl (AnyhowMsg err))
         | Inr items \<Rightarrow> dump_loop T db_name registry limit 0 items first_entry out)))"

fun dump_all_entries ::
  "tool_lib \<Rightarrow> 'e heed \<Rightarrow> 'e \<Rightarrow> scope_registry \<Rightarrow> nat option \<Rightarrow> string list \<Rightarrow> bool \<Rightarrow> string
     \<Rightarrow> string \<times> bool \<times> (anyhow_error + unit)" where
  "dump_all_entries T H e registry limit [] first_entry out = (out, first_entry, Inr ())"
| "dump_all_entries T H e registry limit (db_name # dbs) first_entry out =
     (case dump_database_entries T H e db_name registry limit first_entry out of
        (out', first', Inl err) \<Rightarrow> (out', first', Inl err)
      | (out', first', Inr _) \<Rightarrow> dump_all_entries T H e registry limit dbs first' out')"

definition dump_database_count :: "'e heed \<Rightarrow> 'e \<Rightarrow> string \<Rightarrow> string \<Rightarrow> string \<times> (anyhow_error + unit)" where
  "dump_database_count H e db_name out = (case opens_name H e db_name of
     Inl err \<Rightarrow> (out, Inl (AnyhowMsg err))
   | Inr False \<Rightarrow> (out @ ''0'', Inr ())
   | Inr True \<Rightarrow> (case hd_stat H e (db_handle db_name) of
       Inl err \<Rightarrow> (out, Inl (AnyhowMsg err))
     | Inr entries \<Rightarrow> (out @ nat_str entries, Inr ())))"

fun dump_counts :: "'e heed \<Rightarrow> 'e \<Rightarrow> string list \<Rightarrow> bool \<Rightarrow> string \<Rightarrow> string \<times> (anyhow_error + unit)" where
  "dump_counts H e [] first_db out = (out, Inr ())"
| "dump_counts H e (db_name # dbs) first_db out =
     (case dump_database_count H e db_name
        (out @ (if first_db then [] else println '','') @ ''    '' @ quoted db_name @ '': '') of
        (out', Inl err) \<Rightarrow> (out', Inl err)
      | (out', Inr _) \<Rightarrow> dump_counts H e dbs False out')"

definition dump_scope_registry :: "'e heed \<Rightarrow> 'e \<Rightarrow> anyhow_error + scope_registry" where
  "dump_scope_registry H e = (case hd_open H e (Some ''__global_scope_metadata'') of
     Inl err \<Rightarrow> Inl (AnyhowMsg err)
   | Inr False \<Rightarrow> Inr []
   | Inr True \<Rightarrow> (case hd_stat H e (Some ''__global_scope_metadata'') of
       Inl err \<Rightarrow> Inl (AnyhowMsg err)
     | Inr _ \<Rightarrow> (case hd_iter H e (Some ''__global_scope_metadata'') of
         Inl err \<Rightarrow> Inl (AnyhowMsg err)
       | Inr items \<Rightarrow> read_scope_registry items [])))"

record dump_args =
  da_db_path :: string
  da_name :: "string option"
  da_count_only :: bool
  da_limit :: "nat option"

definition dump_main ::
  "tool_lib \<Rightarrow> 'e heed \<Rightarrow> dump_args \<Rightarrow> string + unit \<Rightarrow> 'e \<Rightarrow> string \<times> (anyhow_error + unit)" where
  "dump_main T H args opened e = (case opened of
     Inl _ \<Rightarrow> ([], Inl (AnyhowMsg (''Failed to open database at '' @ debug_path T (da_db_path args))))
   | Inr _ \<Rightarrow> (case hd_read_txn H e of
       Inl err \<Rightarrow> ([], Inl (AnyhowMsg err))
     | Inr _ \<Rightarrow> (case probe_names H e (common_names @ [''(unnamed)'']) [] of
         Inl err \<Rightarrow> ([], Inl err)
       | Inr db_names \<Rightarrow> (case dump_scope_registry H e of
           Inl err \<Rightarrow> ([], Inl err)
         | Inr registry \<Rightarrow>
             let filtered_names = (case da_name args of
                   Some pat \<Rightarrow> List.filter (\<lambda>name. str_contains name pat) db_names | None \<Rightarrow> db_names);
                 start = println ''{'' @ println (''  '' @ quoted ''db_path'' @ '': '' @ debug_path T (da_db_path args) @ '','')
             in if da_count_only args then
                  (case dump_counts H e filtered_names True (start @ println (''  '' @ quoted ''database_counts'' @ '': {'')) of
                     (out, Inl err) \<Rightarrow> (out, Inl err)
                   | (out, Inr _) \<Rightarrow> (out @ println [] @ println ''  }'' @ println ''}'', Inr ()))
                else
                  (case dump_all_entries T H e registry (da_limit args) filtered_names True
                      (start @ println (''  '' @ quoted ''entries'' @ '': ['')) of
                     (out, first_entry, Inl err) \<Rightarrow> (out, Inl err)
                   | (out, first_entry, Inr _) \<Rightarrow>
                       (out @ (if first_entry then [] else println []) @ println ''  ]'' @ println ''}'', Inr ()))))))"

end
