(* ===== verification/Lmdb_Key_Layout.thy ===== *)
theory Lmdb_Key_Layout
  imports Lmdb_Integrity
begin

text \<open>
  The layout of the keys of a nostr database, stated without the tools' parsers: which index names an event id, and
  how many bytes of its keys stand before that id; how the keys of a scope are wrapped. The extraction of
  \<open>src/src/bin/nostr-lmdb-integrity.rs\<close>, with its slice bounds and its dispatch on the name of the database, is
  proved to find exactly the ids of this layout.
\<close>

section \<open>The layout\<close>

text \<open>The indexes: name, the name the tool's report gives them, and the widths of the fields before the event id. A creation time
  has 8 bytes, a public key 32, a kind 2, a tag name 1, a tag value 182, and 3 bytes follow the time in the keys with
  a tag.\<close>

definition index_layout :: "(string \<times> string \<times> nat list) list" where
  "index_layout =
    [(''ci'', ''created_at_index'', [8]),
     (''tci'', ''tag_created_at_index'', [1, 182, 8, 3]),
     (''aci'', ''author_created_at_index'', [32, 8]),
     (''akci'', ''author_kind_created_at_index'', [32, 2, 8]),
     (''atci'', ''author_tag_created_at_index'', [32, 1, 182, 8, 3]),
     (''ktci'', ''kind_tag_created_at_index'', [2, 1, 182, 8, 3])]"

text \<open>\<open>key_names base key i t\<close>: the key of the unscoped database \<open>base\<close> names the event id \<open>i\<close>. The tombstone of a deleted
  event is its id.\<close>

inductive key_names :: "string \<Rightarrow> bytes \<Rightarrow> bytes \<Rightarrow> string \<Rightarrow> bool" where
  index: "(base, t, widths) \<in> set index_layout \<Longrightarrow> length front = sum_list widths \<Longrightarrow> length i = 32 \<Longrightarrow>
    key_names base (front @ i @ rest) i t"
| tombstone: "length i = 32 \<Longrightarrow> key_names ''deleted-ids'' i i ''deleted_ids''"

text \<open>\<open>db_key_names scopes db key i t sc\<close>: the same for any database; that of the scopes holds the keys behind the hash of the
  scope and their length.\<close>

inductive db_key_names ::
  "(scope_hash \<Rightarrow> string option) \<Rightarrow> string \<Rightarrow> bytes \<Rightarrow> bytes \<Rightarrow> string \<Rightarrow> string option \<Rightarrow> bool" for scopes where
  plain: "key_names base key i t \<Longrightarrow> db_key_names scopes base key i t None"
| scoped: "key_names base key i t \<Longrightarrow> scopes h = Some sc \<Longrightarrow> length key < 2 ^ 64 - 12 \<Longrightarrow>
    db_key_names scopes (base @ ''_scoped'') (scoped_key h key) i t (Some sc)"

section \<open>The extraction finds the ids of the layout\<close>

lemmas extract_key_defs = extract_from_ci_key_def extract_from_tci_key_def extract_from_aci_key_def
  extract_from_akci_key_def extract_from_atci_key_def extract_from_ktci_key_def extract_from_deleted_ids_key_def

lemma key_slice_parts: "n + 32 \<le> length key \<and> i = key_slice n (n + 32) key \<longleftrightarrow>
    (\<exists>front rest. key = front @ i @ rest \<and> length front = n \<and> length i = 32)"
proof
  assume n: "n + 32 \<le> length key \<and> i = key_slice n (n + 32) key"
  then have "take n key @ i @ drop (n + 32) key = key"
    using append_take_drop_id [of n "take (n + 32) key"] append_take_drop_id [of "n + 32" key]
    by (simp add: key_slice_def min_def flip: append_assoc)
  then show "\<exists>front rest. key = front @ i @ rest \<and> length front = n \<and> length i = 32"
    using n by (intro exI [of _ "take n key"] exI [of _ "drop (n + 32) key"]) (simp add: key_slice_def)
qed (auto simp: key_slice_def)

text \<open>The slices of the six extractors: where the id begins, and the name of the index.\<close>

definition slice_id :: "nat \<Rightarrow> tool_lib \<Rightarrow> string \<Rightarrow> bytes \<Rightarrow> string option \<Rightarrow> event_id_info option" where
  "slice_id n T t key sc = (if length key \<ge> n + 32
     then Some \<lparr>ei_event_id = hex_of T (key_slice n (n + 32) key), ei_index_type = t, ei_scope = sc\<rparr> else None)"

lemma slice_id_iff: "slice_id n T t key sc = Some x \<longleftrightarrow>
    (\<exists>front i rest. key = front @ i @ rest \<and> length front = n \<and> length i = 32 \<and>
       x = \<lparr>ei_event_id = hex_of T i, ei_index_type = t, ei_scope = sc\<rparr>)"
proof -
  have "slice_id n T t key sc = Some x \<longleftrightarrow> (\<exists>i. (n + 32 \<le> length key \<and> i = key_slice n (n + 32) key) \<and>
      x = \<lparr>ei_event_id = hex_of T i, ei_index_type = t, ei_scope = sc\<rparr>)"
    by (auto simp: slice_id_def)
  then show ?thesis
    unfolding key_slice_parts by blast
qed

lemma extractors_slice:
  "extract_from_ci_key T key sc = slice_id 8 T ''created_at_index'' key sc"
  "extract_from_tci_key T key sc = slice_id 194 T ''tag_created_at_index'' key sc"
  "extract_from_aci_key T key sc = slice_id 40 T ''author_created_at_index'' key sc"
  "extract_from_akci_key T key sc = slice_id 42 T ''author_kind_created_at_index'' key sc"
  "extract_from_atci_key T key sc = slice_id 226 T ''author_tag_created_at_index'' key sc"
  "extract_from_ktci_key T key sc = slice_id 196 T ''kind_tag_created_at_index'' key sc"
  by (simp_all add: extract_key_defs slice_id_def)

lemma index_layout_unique: "(base, t, widths) \<in> set index_layout \<Longrightarrow> (base, t', widths') \<in> set index_layout \<Longrightarrow>
    t' = t \<and> widths' = widths"
  unfolding index_layout_def list.set by (elim insertE emptyE) simp_all

lemma index_layout_no_tombstones: "(''deleted-ids'', t, widths) \<notin> set index_layout"
  by (simp add: index_layout_def)

lemma key_names_index: "(base, t, widths) \<in> set index_layout \<Longrightarrow> key_names base key i t' \<longleftrightarrow>
    t' = t \<and> length i = 32 \<and> (\<exists>front rest. key = front @ i @ rest \<and> length front = sum_list widths)"
  (is "?l \<Longrightarrow> ?k \<longleftrightarrow> ?r")
proof
  assume l: ?l and ?k
  from \<open>?k\<close> show ?r
  proof cases
    case (index widths' front rest)
    then show ?thesis
      using index_layout_unique [OF l] by blast
  next
    case tombstone
    then show ?thesis
      using l by (simp add: index_layout_no_tombstones)
  qed
next
  assume ?l ?r
  then show ?k
    using key_names.index by blast
qed

lemma extract_base_names: "extract_base T base key sc = Some x \<longleftrightarrow>
    (\<exists>i t. key_names base key i t \<and> x = \<lparr>ei_event_id = hex_of T i, ei_index_type = t, ei_scope = sc\<rparr>)"
proof (cases "base \<in> fst ` set index_layout")
  case True
  then obtain t widths where l: "(base, t, widths) \<in> set index_layout"
    by auto
  then have "extract_base T base key sc = slice_id (sum_list widths) T t key sc"
    unfolding index_layout_def list.set
    by (elim insertE emptyE) (simp_all add: extract_base_def extractors_slice)
  then show ?thesis
    using key_names_index [OF l] by (auto simp: slice_id_iff)
next
  case False
  then have "extract_base T base key sc = (if base = ''deleted-ids'' then extract_from_deleted_ids_key T key sc else None)"
    by (simp add: index_layout_def extract_base_def)
  moreover have "key_names base key i t \<longleftrightarrow> base = ''deleted-ids'' \<and> i = key \<and> length key = 32 \<and> t = ''deleted_ids''" for i t
    using False by (force simp: key_names.simps)
  ultimately show ?thesis
    by (auto simp: extract_from_deleted_ids_key_def)
qed

lemma scoped_key_split:
  "length key \<ge> 12 \<and> scoped_len_ok key \<longleftrightarrow>
   (\<exists>h inner. key = scoped_key h inner \<and> length inner < 2 ^ 64 - 12)"
proof
  assume k: "length key \<ge> 12 \<and> scoped_len_ok key"
  then have "length key < 2 ^ 64"
    using unsigned_less [where 'a = nat, of "12 + scoped_key_len key"] by (simp add: scoped_len_ok_def)
  then show "\<exists>h inner. key = scoped_key h inner \<and> length inner < 2 ^ 64 - 12"
    using k scoped_len_ok_is_scoped [of key]
    by (intro exI [of _ "word_rcat (take 4 key)"] exI [of _ "drop 12 key"]) simp
qed (auto simp: scoped_len_ok_scoped)

lemma scoped_key_inject [simp]: "scoped_key h a = scoped_key h' b \<longleftrightarrow> h = h' \<and> a = b"
  by (metis from_to_be_bytes_u32 scoped_key_parts(2,4))

lemma parse_scoped_key_iff:
  "parse_scoped_key key registry = Some (Some (sc, inner)) \<longleftrightarrow>
     (\<exists>h. key = scoped_key h inner \<and> length inner < 2 ^ 64 - 12 \<and> hm_get registry h = Some sc)"
  "parse_scoped_key key registry = None \<longleftrightarrow>
     (\<exists>h inner. key = scoped_key h inner \<and> length inner < 2 ^ 64 - 12 \<and> hm_get registry h = None)"
proof -
  have p: "parse_scoped_key key registry = (if length key \<ge> 12 \<and> scoped_len_ok key
      then (case hm_get registry (word_rcat (take 4 key)) of
        Some scope_name \<Rightarrow> Some (Some (scope_name, drop 12 key)) | None \<Rightarrow> None) else Some None)"
    by (simp add: parse_scoped_key_def)
  show "parse_scoped_key key registry = Some (Some (sc, inner)) \<longleftrightarrow>
     (\<exists>h. key = scoped_key h inner \<and> length inner < 2 ^ 64 - 12 \<and> hm_get registry h = Some sc)"
    unfolding p scoped_key_split by (auto split: option.splits)
  show "parse_scoped_key key registry = None \<longleftrightarrow>
     (\<exists>h inner. key = scoped_key h inner \<and> length inner < 2 ^ 64 - 12 \<and> hm_get registry h = None)"
    unfolding p scoped_key_split by (auto split: option.splits)
qed

text \<open>The databases the tools know by name.\<close>

abbreviation known_names :: "string list" where
  "known_names \<equiv> common_names @ [''(unnamed)'']"

lemma known_names_split:
  assumes "db \<in> set known_names"
  shows "if str_ends_with db ''_scoped'' then db = trim_end_str ''_scoped'' db @ ''_scoped'' else trim_end_str ''_scoped'' db = db"
  using assms unfolding common_names_def set_append list.set
  by (elim UnE insertE emptyE) (simp_all add: trim_end_str.simps [of _ "_ # _"] str_ends_with_def)

lemma key_names_unscoped: "key_names base key i t \<Longrightarrow> \<not> str_ends_with base ''_scoped''"
  by (auto simp: key_names.simps index_layout_def str_ends_with_def)

lemma extraction_finds_layout:
  assumes "db \<in> set known_names"
  shows "extract_event_id_from_key T key db registry = Some (Some x) \<longleftrightarrow>
    (\<exists>i t sc. db_key_names (hm_get registry) db key i t sc \<and>
       x = \<lparr>ei_event_id = hex_of T i, ei_index_type = t, ei_scope = sc\<rparr>)"
proof (cases "str_ends_with db ''_scoped''")
  case False
  then have "trim_end_str ''_scoped'' db = db"
    using known_names_split [OF assms] by simp
  moreover have "db_key_names (hm_get registry) db key i t sc \<longleftrightarrow> key_names db key i t \<and> sc = None" for i t sc
    using False by (auto simp: db_key_names.simps)
  ultimately show ?thesis
    using False by (auto simp: extract_event_id_from_key_def extract_base_names)
next
  case True
  define base where "base = trim_end_str ''_scoped'' db"
  have db: "db = base @ ''_scoped''"
    using known_names_split [OF assms] True by (simp add: base_def)
  have "db_key_names (hm_get registry) db key i t sc \<longleftrightarrow>
      (\<exists>inner s. parse_scoped_key key registry = Some (Some (s, inner)) \<and> key_names base inner i t \<and> sc = Some s)" for i t sc
    unfolding parse_scoped_key_iff db using key_names_unscoped by (fastforce simp: db_key_names.simps)
  moreover have "extract_event_id_from_key T key db registry = Some (Some x) \<longleftrightarrow>
      (\<exists>inner s. parse_scoped_key key registry = Some (Some (s, inner)) \<and> extract_base T base inner (Some s) = Some x)"
    using True by (auto simp: extract_event_id_from_key_def Let_def base_def split: option.splits)
  ultimately show ?thesis
    by (auto simp: extract_base_names)
qed

text \<open>The databases the check looks at under a scope are those of the indexes and of the deletions.\<close>

definition checked_bases :: "string list" where
  "checked_bases = map fst index_layout @ [''deleted-ids'', ''deleted-coordinates'']"

lemma checked_bases_scoped: "db \<in> set known_names \<Longrightarrow>
    \<not> is_event_storage db \<and> str_ends_with db ''_scoped'' \<longleftrightarrow> (\<exists>base \<in> set checked_bases. db = base @ ''_scoped'')"
  unfolding common_names_def set_append list.set
  by (elim UnE insertE emptyE) (simp_all add: is_event_storage_def str_ends_with_def checked_bases_def index_layout_def)

lemma key_names_base: "key_names base key i t \<Longrightarrow> base \<in> set checked_bases"
  by (force simp: key_names.simps checked_bases_def)

lemma db_key_names_checked: "db_key_names scopes db key i t sc \<Longrightarrow> \<not> is_event_storage db \<and> db_handle db = Some db"
  by (auto simp: db_key_names.simps checked_bases_def index_layout_def is_event_storage_def db_handle_def
      dest!: key_names_base)

text \<open>The extraction panics exactly on a wrapped key with an unknown hash.\<close>

lemma extraction_panics: "extract_event_id_from_key T key db registry = None \<longleftrightarrow> str_ends_with db ''_scoped'' \<and>
    (\<exists>h inner. key = scoped_key h inner \<and> length inner < 2 ^ 64 - 12 \<and> hm_get registry h = None)"
  unfolding parse_scoped_key_iff(2) [symmetric]
  by (auto simp: extract_event_id_from_key_def Let_def split: option.splits)

end
