(* ===== verification/Lmdb_Integrity_Properties.thy ===== *)
theory Lmdb_Integrity_Properties
  imports Lmdb_Key_Layout
begin

text \<open>
  What the integrity tool does on a healthy store: the check is the reference \<open>dangling\<close> over the layout of the keys, it panics
  exactly on an unknown scope hash, a repair leaves a store the check accepts and removes nothing
  else, and the reported ids have the form of event ids. A concrete store shows that the tombstone
  of a deleted event counts as corrupted.
\<close>

section \<open>The report as a function of the entries\<close>

type_synonym 'e entries = "'e \<Rightarrow> string option \<Rightarrow> (bytes \<times> bytes) list option"

definition db_entries :: "'e entries \<Rightarrow> 'e \<Rightarrow> string option \<Rightarrow> (bytes \<times> bytes) list" where
  "db_entries ent e n = (case ent e n of Some xs \<Rightarrow> xs | None \<Rightarrow> [])"

definition scope_table :: "(bytes \<times> bytes) list \<Rightarrow> scope_registry" where
  "scope_table xs = fold (\<lambda>(key, value) registry. case from_utf8 key of
     Some scope_name \<Rightarrow> if length value = 4 then hm_insert (word_rcat value) scope_name registry else registry
   | None \<Rightarrow> registry) xs []"

abbreviation scopes_of :: "'e entries \<Rightarrow> 'e \<Rightarrow> scope_registry" where
  "scopes_of ent e \<equiv> scope_table (db_entries ent e (Some ''__global_scope_metadata''))"

definition stored_event_ids :: "tool_lib \<Rightarrow> 'e entries \<Rightarrow> 'e \<Rightarrow> string set" where
  "stored_event_ids T ent e =
     set (List.map_filter (plain_event_id T) (hm_keys (db_entries ent e None))) \<union>
     set (List.map_filter (scoped_event_id T) (hm_keys (db_entries ent e (Some ''events_scoped''))))"

text \<open>The keys the check looks at, and the entry it makes of one.\<close>

definition checked_keys :: "'e entries \<Rightarrow> 'e \<Rightarrow> string list \<Rightarrow> (string \<times> bytes) list" where
  "checked_keys ent e dbs = concat (map (\<lambda>db_name. if is_event_storage db_name then []
     else map (Pair db_name) (hm_keys (db_entries ent e (db_handle db_name)))) dbs)"

definition entry_of :: "tool_lib \<Rightarrow> scope_registry \<Rightarrow> string \<times> bytes \<Rightarrow> corrupted_entry option" where
  "entry_of T registry dk = (case extract_event_id_from_key T (snd dk) (fst dk) registry of
     Some (Some i) \<Rightarrow> Some \<lparr>ce_database = fst dk, ce_key = snd dk, ce_event_id = ei_event_id i,
       ce_index_type = ei_index_type i, ce_scope = ei_scope i\<rparr>
   | _ \<Rightarrow> None)"

definition entry_report :: "tool_lib \<Rightarrow> scope_registry \<Rightarrow> string set \<Rightarrow> string \<times> bytes \<Rightarrow> corrupted_entry option" where
  "entry_report T registry existing dk = (case entry_of T registry dk of
     Some c \<Rightarrow> if ce_event_id c \<notin> existing then Some c else None | None \<Rightarrow> None)"

definition scope_known :: "tool_lib \<Rightarrow> scope_registry \<Rightarrow> string \<times> bytes \<Rightarrow> bool" where
  "scope_known T registry dk \<longleftrightarrow> extract_event_id_from_key T (snd dk) (fst dk) registry \<noteq> None"

lemma read_scope_registry_ok: "read_scope_registry (map Inr xs) registry =
    Inr (fold (\<lambda>(key, value) registry. case from_utf8 key of
     Some scope_name \<Rightarrow> if length value = 4 then hm_insert (word_rcat value) scope_name registry else registry
   | None \<Rightarrow> registry) xs registry)"
  by (induction xs arbitrary: registry) (auto split: prod.splits)

lemma collect_ids_ok: "collect_ids f (map Inr xs) ids = Inr (ids \<union> set (List.map_filter f (hm_keys xs)))"
  by (induction xs arbitrary: ids) (auto simp: List.map_filter_def split: option.splits)

lemma collect_from_ok: "heed_ok H ent \<Longrightarrow>
    collect_from H e n f ids = Inr (ids \<union> set (List.map_filter f (hm_keys (db_entries ent e n))))"
  by (cases "ent e n") (simp_all add: collect_from_def heed_okD db_entries_def collect_ids_ok map_filter_simps)

lemma get_all_event_ids_ok: "heed_ok H ent \<Longrightarrow> get_all_event_ids T H e = Inr (stored_event_ids T ent e)"
  by (simp add: get_all_event_ids_def collect_from_ok stored_event_ids_def)

lemma discover_scope_registry_ok: "heed_ok H ent \<Longrightarrow> discover_scope_registry H e = Inr (scopes_of ent e)"
  by (cases "ent e (Some ''__global_scope_metadata'')")
    (simp_all add: discover_scope_registry_def heed_okD db_entries_def read_scope_registry_ok scope_table_def)

lemma check_entries_ok: "check_entries T registry existing db_name (map Inr xs) cs =
    (if list_all (scope_known T registry) (map (Pair db_name) (hm_keys xs))
     then Some (Inr (cs @ List.map_filter (entry_report T registry existing) (map (Pair db_name) (hm_keys xs))))
     else None)"
  by (induction xs arbitrary: cs)
    (auto simp: scope_known_def entry_report_def entry_of_def List.map_filter_def split: option.splits)

lemma check_databases_ok: "heed_ok H ent \<Longrightarrow> check_databases T H e registry existing dbs cs =
    (if list_all (scope_known T registry) (checked_keys ent e dbs)
     then Some (Inr (cs @ List.map_filter (entry_report T registry existing) (checked_keys ent e dbs)))
     else None)"
proof (induction dbs arbitrary: cs)
  case Nil
  then show ?case
    by (simp add: checked_keys_def map_filter_simps)
next
  case (Cons d dbs)
  then show ?case
    by (cases "ent e (db_handle d)")
      (simp_all add: heed_okD check_entries_ok checked_keys_def db_entries_def List.map_filter_def)
qed

lemma check_integrity_ok: "heed_ok H ent \<Longrightarrow> check_integrity T H e dbs =
    (if list_all (scope_known T (scopes_of ent e)) (checked_keys ent e dbs)
     then Some (Inr (List.map_filter (entry_report T (scopes_of ent e) (stored_event_ids T ent e)) (checked_keys ent e dbs)))
     else None)"
  by (simp add: check_integrity_def discover_scope_registry_ok get_all_event_ids_ok check_databases_ok)

section \<open>Extraction\<close>

lemma trim_scoped_simps [simp]:
  "trim_end_str ''_scoped'' ''(unnamed)'' = ''(unnamed)''"
  "trim_end_str ''_scoped'' ''deleted-ids'' = ''deleted-ids''"
  by (simp_all add: trim_end_str.simps [of _ "_ # _"] str_ends_with_def)

lemma extract_unnamed: "extract_event_id_from_key T key ''(unnamed)'' registry = Some None"
  by (simp add: extract_event_id_from_key_def extract_base_def str_ends_with_def Let_def)

lemma length_key_slice: "b \<le> length key \<Longrightarrow> length (key_slice a b key) = b - a"
  by (simp add: key_slice_def)

lemma extract_base_id: "extract_base T b key sc = Some i \<Longrightarrow>
    ei_scope i = sc \<and> ei_event_id i \<in> hex_of T ` {bs. length bs = 32}"
  by (auto simp: extract_base_def extract_key_defs length_key_slice intro!: imageI split: if_splits)

lemma parse_scoped_key_scope: "parse_scoped_key key registry = Some (Some (sc, inner)) \<Longrightarrow>
    hm_get registry (word_rcat (take 4 key)) = Some sc \<and> inner = drop 12 key"
  by (auto simp: parse_scoped_key_def split: if_splits option.splits)

lemma extract_id: "extract_event_id_from_key T key db registry = Some (Some i) \<Longrightarrow>
    (ei_scope i \<noteq> None \<longleftrightarrow> str_ends_with db ''_scoped'') \<and> ei_event_id i \<in> hex_of T ` {bs. length bs = 32}"
  by (auto simp: extract_event_id_from_key_def Let_def split: if_splits option.splits dest!: extract_base_id)

lemma hex_of_length: "hex_ok T \<Longrightarrow> length (hex_of T bs) = 2 * length bs"
  by (induction bs) (simp_all add: hex_ok_def hex_byte_def)

lemma hex_digits_nth: "n < 16 \<Longrightarrow> hex_digits ! n \<in> set hex_digits"
  by (rule nth_mem) (simp add: hex_digits_def)

lemma byte_div_16: "unat (b :: byte) div 16 < 16"
  using unsigned_less [where 'a = nat, of b] by simp

lemma hex_of_digits: "hex_ok T \<Longrightarrow> set (hex_of T bs) \<subseteq> set hex_digits"
  by (auto simp: hex_ok_def hex_byte_def hex_digits_nth byte_div_16)

lemma entry_report_fields: "entry_report T registry existing (d, k) = Some c \<Longrightarrow>
    ce_database c = d \<and> ce_key c = k \<and> d \<noteq> ''(unnamed)''"
  by (auto simp: entry_report_def entry_of_def extract_unnamed split: option.splits if_splits)

text \<open>The entries with an extracted id that no stored event has.\<close>

definition extracted :: "tool_lib \<Rightarrow> 'e entries \<Rightarrow> 'e \<Rightarrow> string list \<Rightarrow> corrupted_entry \<Rightarrow> bool" where
  "extracted T ent e dbs c \<longleftrightarrow> (ce_database c, ce_key c) \<in> set (checked_keys ent e dbs) \<and>
     entry_of T (scopes_of ent e) (ce_database c, ce_key c) = Some c \<and>
     ce_event_id c \<notin> stored_event_ids T ent e"

lemma entry_report_iff: "entry_report T registry existing dk = Some c \<longleftrightarrow>
    dk = (ce_database c, ce_key c) \<and> entry_of T registry dk = Some c \<and> ce_event_id c \<notin> existing"
  by (auto simp: entry_report_def entry_of_def split: option.splits)

lemma set_map_filter: "set (List.map_filter f xs) = {y. \<exists>x \<in> set xs. f x = Some y}"
  by (force simp: List.map_filter_def)

lemma check_integrity_extracted: "heed_ok H ent \<Longrightarrow> check_integrity T H e dbs = Some r \<Longrightarrow>
    \<exists>cs. r = Inr cs \<and> (\<forall>c. c \<in> set cs \<longleftrightarrow> extracted T ent e dbs c)"
  by (auto simp: check_integrity_ok set_map_filter entry_report_iff extracted_def split: if_splits)

section \<open>Repair\<close>

definition reported :: "corrupted_entry list \<Rightarrow> string \<Rightarrow> bytes \<Rightarrow> bool" where
  "reported cs n k \<longleftrightarrow> (\<exists>c \<in> set cs. ce_database c = n \<and> ce_key c = k)"

definition without_reported :: "corrupted_entry list \<Rightarrow> string \<Rightarrow> (bytes \<times> bytes) list \<Rightarrow> (bytes \<times> bytes) list" where
  "without_reported cs n xs = List.filter (\<lambda>x. \<not> reported cs n (fst x)) xs"

lemma delete_entries_ok:
  assumes "heed_ok H ent" "list_all (\<lambda>c. ce_database c \<noteq> ''(unnamed)'') cs"
  shows "\<exists>e'. delete_entries H cs e = Inr e' \<and>
    (\<forall>n. ent e' (Some n) = map_option (without_reported cs n) (ent e (Some n))) \<and>
    map_option hm_keys (ent e' None) = map_option hm_keys (ent e None)"
  using assms(2)
proof (induction cs arbitrary: e)
  case Nil
  then show ?case
    by (simp add: without_reported_def reported_def option.map_id0 [unfolded id_def])
next
  case (Cons c cs)
  let ?n = "ce_database c"
  have h: "db_handle ?n = Some ?n"
    using Cons.prems by (simp add: db_handle_def)
  have split: "without_reported (c # cs) n xs =
      (if n = ?n then without_reported cs n (hm_remove (ce_key c) xs) else without_reported cs n xs)" for n xs
    by (auto simp: without_reported_def reported_def hm_remove_filter intro!: filter_cong)
  show ?case
  proof (cases "ent e (Some ?n)")
    case None
    then have "map_option (without_reported (c # cs) n) (ent e (Some n)) =
        map_option (without_reported cs n) (ent e (Some n))" for n
      by (cases "n = ?n") (simp_all add: split cong: map_option_cong)
    then show ?thesis
      using Cons.IH [of e] Cons.prems assms(1) h None by (simp add: heed_okD)
  next
    case (Some xs)
    then obtain e1 where e1: "hd_delete H e (Some ?n) (ce_key c) = (Inr (hm_contains xs (ce_key c)), e1)"
      "ent e1 (Some ?n) = Some (hm_remove (ce_key c) xs)" "\<And>m. m \<noteq> ?n \<Longrightarrow> ent e1 (Some m) = ent e (Some m)"
      "map_option hm_keys (ent e1 None) = map_option hm_keys (ent e None)"
      using heed_okD(7) [OF assms(1), of e ?n "ce_key c"] by (auto simp: heed_deletes_def)
    have "map_option (without_reported (c # cs) n) (ent e (Some n)) =
        map_option (without_reported cs n) (ent e1 (Some n))" for n
      using e1 Some by (cases "n = ?n") (simp_all add: split cong: map_option_cong)
    then show ?thesis
      using Cons.IH [of e1] Cons.prems assms(1) h e1 Some by (simp add: heed_okD)
  qed
qed

lemma check_integrity_named: "check_integrity T H e dbs = Some (Inr cs) \<Longrightarrow> heed_ok H ent \<Longrightarrow>
    list_all (\<lambda>c. ce_database c \<noteq> ''(unnamed)'' \<and> \<not> is_event_storage (ce_database c)) cs"
  by (auto simp: check_integrity_ok set_map_filter list_all_iff checked_keys_def dest!: entry_report_fields
      split: if_splits)

lemma repair_effect:
  assumes "heed_ok H ent" "check_integrity T H e dbs = Some (Inr cs)"
  shows "\<exists>e'. remove_corrupted_entries H e cs = (Inr (), e') \<and>
    (\<forall>n. ent e' (Some n) = map_option (without_reported cs n) (ent e (Some n))) \<and>
    map_option hm_keys (ent e' None) = map_option hm_keys (ent e None)"
proof -
  have "list_all (\<lambda>c. ce_database c \<noteq> ''(unnamed)'') cs"
    using check_integrity_named [OF assms(2,1)] by (auto simp: list_all_iff)
  from delete_entries_ok [OF assms(1) this, of e] show ?thesis
    using assms(1) by (auto simp: remove_corrupted_entries_def heed_okD)
qed

lemma unreported_storage: "list_all (\<lambda>c. \<not> is_event_storage (ce_database c)) cs \<Longrightarrow> is_event_storage n \<Longrightarrow>
    without_reported cs n xs = xs"
  by (auto simp: without_reported_def reported_def list_all_iff intro!: filter_True)

lemma filter_keys: "List.filter P (hm_keys xs) = hm_keys (List.filter (\<lambda>x. P (fst x)) xs)"
  by (simp add: filter_map comp_def)

lemma repaired_keys:
  assumes "list_all (\<lambda>c. ce_database c \<noteq> ''(unnamed)'' \<and> \<not> is_event_storage (ce_database c)) cs"
    "\<forall>n. ent e' (Some n) = map_option (without_reported cs n) (ent e (Some n))"
    "map_option hm_keys (ent e' None) = map_option hm_keys (ent e None)"
  shows "checked_keys ent e' dbs = List.filter (\<lambda>dk. \<not> reported cs (fst dk) (snd dk)) (checked_keys ent e dbs)"
    and "scopes_of ent e' = scopes_of ent e"
    and "stored_event_ids T ent e' = stored_event_ids T ent e"
proof -
  have st: "list_all (\<lambda>c. \<not> is_event_storage (ce_database c)) cs"
    using assms(1) by (auto simp: list_all_iff)
  have u: "\<not> reported cs ''(unnamed)'' k" for k
    using assms(1) by (auto simp: reported_def list_all_iff)
  have none: "hm_keys (db_entries ent e' None) = hm_keys (db_entries ent e None)"
    using assms(3) by (cases "ent e' None"; cases "ent e None") (simp_all add: db_entries_def)
  have named: "db_entries ent e' (Some n) = without_reported cs n (db_entries ent e (Some n))" for n
    using assms(2) by (cases "ent e (Some n)") (simp_all add: db_entries_def without_reported_def)
  have keys: "hm_keys (db_entries ent e' (db_handle d)) =
      List.filter (\<lambda>k. \<not> reported cs d k) (hm_keys (db_entries ent e (db_handle d)))" for d
    using u by (auto simp: db_handle_def none named without_reported_def filter_keys)
  show "checked_keys ent e' dbs = List.filter (\<lambda>dk. \<not> reported cs (fst dk) (snd dk)) (checked_keys ent e dbs)"
    by (induction dbs) (simp_all add: checked_keys_def keys filter_map comp_def)
  have storage: "is_event_storage n \<Longrightarrow> db_entries ent e' (Some n) = db_entries ent e (Some n)" for n
    by (simp add: named unreported_storage [OF st])
  show "scopes_of ent e' = scopes_of ent e"
    by (simp add: storage is_event_storage_def)
  show "stored_event_ids T ent e' = stored_event_ids T ent e"
    by (simp add: stored_event_ids_def storage none is_event_storage_def)
qed

section \<open>A store over association lists\<close>

definition list_heed :: "(string option, (bytes \<times> bytes) list) hmap heed" where
  "list_heed = \<lparr>hd_read_txn = (\<lambda>_. Inr ()), hd_open = (\<lambda>e n. Inr (hm_get e n \<noteq> None)),
     hd_stat = (\<lambda>e n. case hm_get e n of Some xs \<Rightarrow> Inr (length xs) | None \<Rightarrow> Inl ''closed''),
     hd_iter = (\<lambda>e n. case hm_get e n of Some xs \<Rightarrow> Inr (map Inr xs) | None \<Rightarrow> Inl ''closed''),
     hd_write_txn = (\<lambda>_. Inr ()),
     hd_delete = (\<lambda>e n k. case hm_get e n of
        Some xs \<Rightarrow> (Inr (hm_contains xs k), hm_insert n (hm_remove k xs) e) | None \<Rightarrow> (Inl ''closed'', e)),
     hd_commit = Inr\<rparr>"

lemma list_heed_ok: "heed_ok list_heed hm_get"
  by (auto simp: heed_ok_def heed_deletes_def list_heed_def hm_get_insert)

definition plain_tool_lib :: tool_lib where
  "plain_tool_lib = \<lparr>hex_of = (\<lambda>bs. concat (map hex_byte bs)), json_to_string = (\<lambda>_. Inr []), debug_path = id\<rparr>"

lemma plain_tool_lib_ok: "hex_ok plain_tool_lib"
  by (simp add: hex_ok_def plain_tool_lib_def)

definition demo_id :: "byte \<Rightarrow> bytes" where
  "demo_id b = replicate 32 b"

text \<open>One stored event (id 1); the creation-time index also names event 2; event 3 has been deleted and
  has a tombstone; a scope \<open>a\<close> with hash 7, whose index names event 1.\<close>

definition demo_store :: "(string option, (bytes \<times> bytes) list) hmap" where
  "demo_store = [(None, [(demo_id 1, [])]),
     (Some ''ci'', [(replicate 8 0 @ demo_id 1, demo_id 1), (replicate 8 0 @ demo_id 2, demo_id 2)]),
     (Some ''ci_scoped'', [(scoped_key 7 (replicate 8 0 @ demo_id 1), demo_id 1)]),
     (Some ''deleted-ids'', [(demo_id 3, [])]),
     (Some ''__global_scope_metadata'', [([0x61], to_be_bytes (7 :: 32 word))])]"

definition demo_dbs :: "string list" where
  "demo_dbs = [''ci'', ''ci_scoped'', ''deleted-ids'', ''__global_scope_metadata'', ''(unnamed)'']"


section \<open>Properties\<close>

text \<open>The reference, over the layout of the keys: the scope a hash stands for, the ids of the stored events (those of the
  default scope are the keys of 32 bytes in the unnamed database, those of the other scopes are in \<open>events_scoped\<close>), the
  entries that name the id of no stored event, and whether some key has a hash that stands for no scope.\<close>

definition scope_names :: "(bytes \<times> bytes) list \<Rightarrow> scope_hash \<Rightarrow> string option" where
  "scope_names xs h = (let ys = List.filter (\<lambda>(k, v). utf8_valid k \<and> v = to_be_bytes h) xs
     in if ys = [] then None else Some (map byte_char (fst (List.last ys))))"

abbreviation scope_by_hash :: "'e entries \<Rightarrow> 'e \<Rightarrow> scope_hash \<Rightarrow> string option" where
  "scope_by_hash ent e \<equiv> scope_names (db_entries ent e (Some ''__global_scope_metadata''))"

definition stored_id :: "'e entries \<Rightarrow> 'e \<Rightarrow> bytes \<Rightarrow> bool" where
  "stored_id ent e i \<longleftrightarrow> length i = 32 \<and> (i \<in> set (hm_keys (db_entries ent e None)) \<or>
     (\<exists>h. scoped_key h i \<in> set (hm_keys (db_entries ent e (Some ''events_scoped'')))))"

definition dangling :: "tool_lib \<Rightarrow> 'e entries \<Rightarrow> 'e \<Rightarrow> string list \<Rightarrow> corrupted_entry \<Rightarrow> bool" where
  "dangling T ent e dbs c \<longleftrightarrow> ce_database c \<in> set dbs \<and>
     ce_key c \<in> set (hm_keys (db_entries ent e (Some (ce_database c)))) \<and>
     (\<exists>i. db_key_names (scope_by_hash ent e) (ce_database c) (ce_key c) i (ce_index_type c) (ce_scope c) \<and>
        ce_event_id c = hex_of T i \<and> hex_of T i \<notin> hex_of T ` {j. stored_id ent e j})"

definition unknown_scope :: "'e entries \<Rightarrow> 'e \<Rightarrow> string list \<Rightarrow> bool" where
  "unknown_scope ent e dbs \<longleftrightarrow> (\<exists>base \<in> set checked_bases. base @ ''_scoped'' \<in> set dbs \<and>
     (\<exists>h inner. scoped_key h inner \<in> set (hm_keys (db_entries ent e (Some (base @ ''_scoped'')))) \<and>
        length inner < 2 ^ 64 - 12 \<and> scope_by_hash ent e h = None))"

lemma hex_byte_inject: "hex_byte a = hex_byte b \<Longrightarrow> a = b"
proof -
  assume "hex_byte a = hex_byte b"
  moreover have "distinct hex_digits" "length hex_digits = 16"
    by (simp_all add: hex_digits_def)
  ultimately have "unat a div 16 = unat b div 16" "unat a mod 16 = unat b mod 16"
    by (simp_all add: hex_byte_def nth_eq_iff_index_eq byte_div_16)
  then show "a = b"
    by (metis div_mult_mod_eq word_unat_eq_iff)
qed

lemma hex_of_inject: "hex_ok T \<Longrightarrow> hex_of T a = hex_of T b \<Longrightarrow> a = b"
proof (induction a arbitrary: b)
  case Nil
  then show ?case
    by (cases b) (simp_all add: hex_ok_def hex_byte_def)
next
  case (Cons x xs)
  obtain y ys where b: "b = y # ys"
    using Cons.prems by (cases b) (simp_all add: hex_ok_def hex_byte_def)
  have "hex_byte x = hex_byte y \<and> hex_of T xs = hex_of T ys"
    using Cons.prems b by (simp add: hex_ok_def hex_byte_def)
  then show ?case
    using Cons.IH [of ys] Cons.prems(1) b by (auto dest: hex_byte_inject)
qed

text \<open>With \<open>hex::encode\<close> as documented, an entry dangles exactly when its id is the id of no stored event.\<close>

lemma dangling_bytes: "hex_ok T \<Longrightarrow> dangling T ent e dbs c \<longleftrightarrow> ce_database c \<in> set dbs \<and>
     ce_key c \<in> set (hm_keys (db_entries ent e (Some (ce_database c)))) \<and>
     (\<exists>i. db_key_names (scope_by_hash ent e) (ce_database c) (ce_key c) i (ce_index_type c) (ce_scope c) \<and>
        ce_event_id c = hex_of T i \<and> \<not> stored_id ent e i)"
  by (auto simp: dangling_def dest: hex_of_inject)

lemma scope_table_snoc: "scope_table (xs @ [(k, v)]) = (case from_utf8 k of
     Some s \<Rightarrow> if length v = 4 then hm_insert (word_rcat v) s (scope_table xs) else scope_table xs
   | None \<Rightarrow> scope_table xs)"
  by (simp add: scope_table_def split: option.split)

lemma u32_bytes: "length v = 4 \<and> word_rcat v = h \<longleftrightarrow> v = to_be_bytes (h :: scope_hash)"
  using to_from_be_bytes [of v, where 'a = 32] by auto

lemma scope_table_names: "hm_get (scope_table xs) = scope_names xs"
proof (induction xs rule: rev_induct)
  case Nil
  then show ?case
    by (simp add: scope_table_def scope_names_def fun_eq_iff)
next
  case (snoc x xs)
  obtain k v where x: "x = (k, v)"
    by (cases x)
  have last: "scope_names (xs @ [x]) h =
      (if utf8_valid k \<and> v = to_be_bytes h then Some (map byte_char k) else scope_names xs h)" for h
    by (simp add: scope_names_def x)
  show ?case
  proof
    fix h
    show "hm_get (scope_table (xs @ [x])) h = scope_names (xs @ [x]) h"
      unfolding last unfolding x scope_table_snoc snoc [symmetric] u32_bytes [symmetric]
      by (auto simp: from_utf8_def hm_get_insert)
  qed
qed

lemma scoped_event_id_iff: "scoped_event_id T key = Some x \<longleftrightarrow>
    (\<exists>h i. key = scoped_key h i \<and> length i = 32 \<and> x = hex_of T i)"
proof -
  have "scoped_key_len (scoped_key h i) = 32 \<longleftrightarrow> length i = 32" if "length i < 2 ^ 64 - 12" for h i
    using that by (simp add: word_unat_eq_iff unat_of_nat)
  moreover have "scoped_event_id T key = Some x \<longleftrightarrow>
      (length key \<ge> 12 \<and> scoped_len_ok key) \<and> scoped_key_len key = 32 \<and> x = hex_of T (drop 12 key)"
    by (auto simp: scoped_event_id_def)
  ultimately show ?thesis
    unfolding scoped_key_split by force
qed

lemma collected_ids: "{y. \<exists>x \<in> A. plain_event_id T x = Some y} \<union> {y. \<exists>x \<in> B. scoped_event_id T x = Some y} =
    hex_of T ` {i. length i = 32 \<and> (i \<in> A \<or> (\<exists>h. scoped_key h i \<in> B))}"
  by (auto simp: plain_event_id_def scoped_event_id_iff)

lemma stored_event_ids_hex: "stored_event_ids T ent e = hex_of T ` {i. stored_id ent e i}"
  unfolding stored_event_ids_def set_map_filter collected_ids stored_id_def ..

lemma in_checked_keys_iff: "(d, k) \<in> set (checked_keys ent e dbs) \<longleftrightarrow>
    d \<in> set dbs \<and> \<not> is_event_storage d \<and> k \<in> set (hm_keys (db_entries ent e (db_handle d)))"
  by (auto simp: checked_keys_def)

lemma dangling_extracted:
  assumes "set dbs \<subseteq> set known_names"
  shows "dangling T ent e dbs c \<longleftrightarrow> extracted T ent e dbs c"
proof (cases "ce_database c \<in> set dbs")
  case True
  then have n: "ce_database c \<in> set known_names"
    using assms by blast
  have "entry_of T (scopes_of ent e) (ce_database c, ce_key c) = Some c \<longleftrightarrow>
      (\<exists>i. db_key_names (scope_by_hash ent e) (ce_database c) (ce_key c) i (ce_index_type c) (ce_scope c) \<and> ce_event_id c = hex_of T i)"
  proof -
    have "entry_of T (scopes_of ent e) (ce_database c, ce_key c) = Some c \<longleftrightarrow>
        extract_event_id_from_key T (ce_key c) (ce_database c) (scopes_of ent e) = Some (Some
          \<lparr>ei_event_id = ce_event_id c, ei_index_type = ce_index_type c, ei_scope = ce_scope c\<rparr>)"
      by (cases c) (auto simp: entry_of_def split: option.splits)
    then show ?thesis
      by (simp only: extraction_finds_layout [OF n] scope_table_names) auto
  qed
  then show ?thesis
    unfolding dangling_def extracted_def in_checked_keys_iff stored_event_ids_hex
    using True db_key_names_checked by metis
qed (simp add: dangling_def extracted_def in_checked_keys_iff)

lemma unknown_scope_checked:
  assumes "set dbs \<subseteq> set known_names"
  shows "list_all (scope_known T (scopes_of ent e)) (checked_keys ent e dbs) \<longleftrightarrow> \<not> unknown_scope ent e dbs"
proof -
  let ?key = "\<lambda>d k. k \<in> set (hm_keys (db_entries ent e (db_handle d)))"
  let ?bad = "\<lambda>k. \<exists>h inner. length inner < 2 ^ 64 - 12 \<and> k = scoped_key h inner \<and> scope_by_hash ent e h = None"
  have h: "db_handle (base @ ''_scoped'') = Some (base @ ''_scoped'')" for base
    by (auto simp: db_handle_def append_eq_Cons_conv)
  have "\<not> list_all (scope_known T (scopes_of ent e)) (checked_keys ent e dbs) \<longleftrightarrow>
      (\<exists>d k. (d, k) \<in> set (checked_keys ent e dbs) \<and> str_ends_with d ''_scoped'' \<and> ?bad k)"
    unfolding list_all_iff scope_known_def by (simp add: extraction_panics scope_table_names Bex_def split_paired_Ex conj_ac)
  also have "\<dots> \<longleftrightarrow> (\<exists>d k. d \<in> set dbs \<and> (\<not> is_event_storage d \<and> str_ends_with d ''_scoped'') \<and> ?key d k \<and> ?bad k)"
    by (auto simp only: in_checked_keys_iff)
  also have "\<dots> \<longleftrightarrow> (\<exists>d k. d \<in> set dbs \<and> (\<exists>base \<in> set checked_bases. d = base @ ''_scoped'') \<and> ?key d k \<and> ?bad k)"
    using checked_bases_scoped assms by (intro ex_cong1 conj_cong refl) blast
  also have "\<dots> \<longleftrightarrow> unknown_scope ent e dbs"
    unfolding unknown_scope_def h [symmetric] by blast
  finally show ?thesis
    by blast
qed

lemma check_integrity_cases: "heed_ok H ent \<Longrightarrow> set dbs \<subseteq> set known_names \<Longrightarrow> (case check_integrity T H e dbs of
    None \<Rightarrow> unknown_scope ent e dbs
  | Some (Inl err) \<Rightarrow> False
  | Some (Inr cs) \<Rightarrow> \<not> unknown_scope ent e dbs \<and> (\<forall>c. c \<in> set cs \<longleftrightarrow> dangling T ent e dbs c))"
  by (auto simp: check_integrity_ok set_map_filter entry_report_iff extracted_def dangling_extracted
      unknown_scope_checked [where T = T])

text \<open>C18. The integrity check of a store whose calls succeed, over any of the databases the tool knows, panics exactly when an
  index or deletion database of a scope holds a key whose hash is not in the table of the scopes; otherwise it reports exactly the dangling
  entries: those whose key, read by the layout of its index, names an id that no stored event has, each with that id, the
  index and the scope.\<close>

theorem integrity_reports_dangling:
  assumes "heed_ok H ent" "set dbs \<subseteq> set known_names"
  shows "case check_integrity T H e dbs of
    None \<Rightarrow> unknown_scope ent e dbs
  | Some (Inl err) \<Rightarrow> False
  | Some (Inr cs) \<Rightarrow> \<not> unknown_scope ent e dbs \<and> (\<forall>c. c \<in> set cs \<longleftrightarrow> dangling T ent e dbs c)"
  by (rule check_integrity_cases [OF assms])

lemma demo_check: "map_option (map_sum id (map (\<lambda>c. (ce_database c, ce_key c))))
    (check_integrity plain_tool_lib list_heed demo_store demo_dbs) =
    Some (Inr [(''ci'', replicate 8 0 @ demo_id 2), (''deleted-ids'', demo_id 3)])"
  by code_simp

lemma demo_check_some: "\<exists>cs. check_integrity plain_tool_lib list_heed demo_store demo_dbs = Some (Inr cs) \<and>
    reported cs ''deleted-ids'' (demo_id 3)"
proof -
  from demo_check obtain r where r: "check_integrity plain_tool_lib list_heed demo_store demo_dbs = Some r"
    "map_sum id (map (\<lambda>c. (ce_database c, ce_key c))) r =
      Inr [(''ci'', replicate 8 0 @ demo_id 2), (''deleted-ids'', demo_id 3)]"
    by auto
  then obtain cs where "r = Inr cs"
    "map (\<lambda>c. (ce_database c, ce_key c)) cs = [(''ci'', replicate 8 0 @ demo_id 2), (''deleted-ids'', demo_id 3)]"
    by (cases r) auto
  with r(1) show ?thesis
    by (auto simp: reported_def)
qed

lemma demo_dbs_known: "set demo_dbs \<subseteq> set known_names"
  by (simp add: demo_dbs_def common_names_def)

theorem integrity_reports_dangling_witness:
  "heed_ok list_heed hm_get \<and> set demo_dbs \<subseteq> set known_names \<and>
   (\<exists>cs. check_integrity plain_tool_lib list_heed demo_store demo_dbs = Some (Inr cs) \<and>
     reported cs ''deleted-ids'' (demo_id 3) \<and> (\<forall>c. c \<in> set cs \<longleftrightarrow> dangling plain_tool_lib hm_get demo_store demo_dbs c))"
  using integrity_reports_dangling [OF list_heed_ok demo_dbs_known, where T = plain_tool_lib and e = demo_store]
    demo_check_some list_heed_ok demo_dbs_known
  by auto

lemma check_entries_from: "check_entries T registry existing db_name items cs = Some (Inr cs') \<Longrightarrow>
    c \<in> set cs' \<Longrightarrow> c \<in> set cs \<or> (\<exists>k. entry_of T registry (db_name, k) = Some c)"
proof (induction items arbitrary: cs)
  case Nil
  then show ?case
    by simp
next
  case (Cons item items)
  show ?case
  proof (cases item)
    case (Inr kv)
    obtain k v where "kv = (k, v)"
      by (cases kv)
    with Inr Cons.prems Cons.IH show ?thesis
      by (fastforce simp: entry_of_def split: option.splits if_splits)
  qed (use Cons.prems in simp)
qed

lemma check_databases_from: "check_databases T H e registry existing dbs cs = Some (Inr cs') \<Longrightarrow> c \<in> set cs' \<Longrightarrow>
    c \<in> set cs \<or> ce_database c \<in> set dbs \<and> \<not> is_event_storage (ce_database c) \<and>
      (\<exists>k. entry_of T registry (ce_database c, k) = Some c)"
proof (induction dbs arbitrary: cs)
  case Nil
  then show ?case
    by simp
next
  case (Cons d dbs)
  have d: "entry_of T registry (d, k) = Some c \<Longrightarrow> ce_database c = d" for k
    by (auto simp: entry_of_def split: option.splits)
  show ?case
    using Cons.prems Cons.IH
    by (auto split: if_splits sum.splits bool.splits option.splits dest!: check_entries_from simp: d)
qed

lemma entry_of_typed: "hex_ok T \<Longrightarrow> entry_of T registry (d, k) = Some c \<Longrightarrow>
    length (ce_event_id c) = 64 \<and> set (ce_event_id c) \<subseteq> set hex_digits \<and>
    (ce_scope c \<noteq> None \<longleftrightarrow> str_ends_with d ''_scoped'')"
  by (auto simp: entry_of_def hex_of_length split: option.splits dest!: extract_id
      intro: hex_of_digits [THEN subsetD])

text \<open>C30. Every entry the check reports, whatever the store returns, is of a checked index database, with an id of
  64 lowercase hexadecimal digits, and names a scope exactly when its database is a scoped one.\<close>

theorem integrity_report_typed:
  assumes "hex_ok T" "check_integrity T H e dbs = Some (Inr cs)" "c \<in> set cs"
  shows "ce_database c \<in> set dbs \<and> \<not> is_event_storage (ce_database c) \<and>
    length (ce_event_id c) = 64 \<and> set (ce_event_id c) \<subseteq> set hex_digits \<and>
    (ce_scope c \<noteq> None \<longleftrightarrow> str_ends_with (ce_database c) ''_scoped'')"
  using assms(2,3) by (auto simp: check_integrity_def split: sum.splits
      dest!: check_databases_from entry_of_typed [OF assms(1)])

theorem integrity_report_typed_witness:
  "hex_ok plain_tool_lib \<and> (\<exists>cs c. check_integrity plain_tool_lib list_heed demo_store demo_dbs = Some (Inr cs) \<and>
     c \<in> set cs \<and> length (ce_event_id c) = 64 \<and> ce_scope c = None)"
proof -
  from demo_check_some obtain cs c where
    cs: "check_integrity plain_tool_lib list_heed demo_store demo_dbs = Some (Inr cs)"
    and c: "c \<in> set cs" "ce_database c = ''deleted-ids''"
    by (auto simp: reported_def)
  then show ?thesis
    using integrity_report_typed [OF plain_tool_lib_ok cs c(1)] plain_tool_lib_ok
    by (intro conjI exI [of _ cs] exI [of _ c]) (auto simp: str_ends_with_def)
qed


lemma extracted_reported: "heed_ok H ent \<Longrightarrow> check_integrity T H e dbs = Some (Inr cs) \<Longrightarrow>
    reported cs n k \<longleftrightarrow> (\<exists>c. extracted T ent e dbs c \<and> ce_database c = n \<and> ce_key c = k)"
  by (auto simp: reported_def dest!: check_integrity_extracted)

lemma in_checked_keys: "d \<in> set dbs \<Longrightarrow> \<not> is_event_storage d \<Longrightarrow>
    k \<in> set (hm_keys (db_entries ent e (db_handle d))) \<Longrightarrow> (d, k) \<in> set (checked_keys ent e dbs)"
  by (induction dbs) (auto simp: checked_keys_def)

text \<open>A tombstone of a deleted event is one of the entries the check reports.\<close>

lemma tombstone_reported:
  assumes "heed_ok H ent" "check_integrity T H e dbs = Some (Inr cs)" "''deleted-ids'' \<in> set dbs"
    "k \<in> set (hm_keys (db_entries ent e (Some ''deleted-ids'')))" "length k = 32"
    "hex_of T k \<notin> stored_event_ids T ent e"
  shows "reported cs ''deleted-ids'' k"
proof -
  let ?c = "\<lparr>ce_database = ''deleted-ids'', ce_key = k, ce_event_id = hex_of T k,
    ce_index_type = ''deleted_ids'', ce_scope = None\<rparr>"
  have "entry_of T registry (''deleted-ids'', k) = Some ?c" for registry
    using assms(5) by (simp add: entry_of_def extract_event_id_from_key_def extract_base_def str_ends_with_def
        extract_from_deleted_ids_key_def Let_def)
  moreover have "(''deleted-ids'', k) \<in> set (checked_keys ent e dbs)"
    using assms(3,4) by (intro in_checked_keys) (simp_all add: is_event_storage_def db_handle_def)
  ultimately have "extracted T ent e dbs ?c"
    using assms(6) by (simp add: extracted_def)
  then show ?thesis
    using extracted_reported [OF assms(1,2)] by force
qed

definition present_dbs :: "'e entries \<Rightarrow> 'e \<Rightarrow> string list" where
  "present_dbs ent e = List.filter (\<lambda>n. ent e (db_handle n) \<noteq> None) probed_names"

lemma discover_databases_ok: "heed_ok H ent \<Longrightarrow> discover_databases H e = Inr (present_dbs ent e)"
  by (simp add: discover_databases_def probe_names_ok present_dbs_def)

definition expected_dbs :: "'e entries \<Rightarrow> 'e \<Rightarrow> string list" where
  "expected_dbs ent e = List.filter is_expected_database (present_dbs ent e)"

text \<open>What \<open>main\<close> does with a store that opens: it changes nothing, or it has been told twice to
  repair.\<close>

definition passed_line :: string where
  "passed_line = sign_check @ '' Database integrity check passed! No corrupted entries found.''"

abbreviation unexpected_out :: "'e entries \<Rightarrow> 'e \<Rightarrow> string list" where
  "unexpected_out ent e \<equiv> unexpected_lines (List.filter (Not \<circ> is_expected_database) (present_dbs ent e))"

lemma integrity_main_ok:
  assumes "heed_ok H ent"
  shows "integrity_main T H args stdin (Inr ()) e =
    (case check_integrity T H e (expected_dbs ent e) of
       None \<Rightarrow> (unexpected_out ent e, None, e)
     | Some (Inl err) \<Rightarrow> (unexpected_out ent e, Some (Inl err), e)
     | Some (Inr corrupted) \<Rightarrow>
         if corrupted = [] then (unexpected_out ent e @ [passed_line], Some (Inr ()), e)
         else (case repair_phase H (ia_wet_run args) stdin corrupted e of
           (more_lines, r, e') \<Rightarrow> (unexpected_out ent e @ corrupted_lines T (ia_verbose args) corrupted @ more_lines, Some r, e')))"
  unfolding passed_line_def
  by (simp add: integrity_main_def heed_okD [OF assms] discover_databases_ok [OF assms] expected_dbs_def
      Let_def)


lemma confirmed_repair_effect:
  assumes "heed_ok H ent" "check_integrity T H e dbs = Some (Inr cs)" "eq_ignore_case_y (str_trim input)"
    "repair_phase H True (Inr input) cs e = (out, r, e')"
  shows "r = Inr () \<and> (\<forall>n. ent e' (Some n) = map_option (without_reported cs n) (ent e (Some n))) \<and>
    map_option hm_keys (ent e' None) = map_option hm_keys (ent e None)"
  using repair_effect [OF assms(1,2)] assms(3,4) by (auto simp: repair_phase_def Let_def)

lemma without_reported_Nil [simp]: "without_reported [] n = id"
  by (simp add: without_reported_def reported_def fun_eq_iff)

text \<open>A confirmed run of \<open>main\<close>, as an effect on the entries.\<close>

lemma main_repair_effect:
  assumes "heed_ok H ent" "eq_ignore_case_y (str_trim input)" "ia_wet_run args"
    "integrity_main T H args (Inr input) (Inr ()) e = (out, Some (Inr ()), e')"
  shows "\<exists>cs. check_integrity T H e (expected_dbs ent e) = Some (Inr cs) \<and>
    (\<forall>n. ent e' (Some n) = map_option (without_reported cs n) (ent e (Some n))) \<and>
    map_option hm_keys (ent e' None) = map_option hm_keys (ent e None)"
proof -
  note main = integrity_main_ok [OF assms(1), of T args "Inr input" e]
  obtain cs where cs: "check_integrity T H e (expected_dbs ent e) = Some (Inr cs)"
    using main assms(4) check_integrity_extracted [OF assms(1)]
    by (cases "check_integrity T H e (expected_dbs ent e)") fastforce+
  show ?thesis
  proof (cases "cs = []")
    case True
    then show ?thesis
      using main assms(4) cs by (simp add: option.map_id)
  next
    case False
    obtain o2 r e2 where rp: "repair_phase H True (Inr input) cs e = (o2, r, e2)"
      by (cases "repair_phase H True (Inr input) cs e")
    with False main assms(3,4) cs have "e2 = e'"
      by auto
    then show ?thesis
      using confirmed_repair_effect [OF assms(1) cs assms(2) rp] cs by blast
  qed
qed

lemma repaired_check:
  assumes "heed_ok H ent" "check_integrity T H e dbs = Some (Inr cs)"
    "\<forall>n. ent e' (Some n) = map_option (without_reported cs n) (ent e (Some n))"
    "map_option hm_keys (ent e' None) = map_option hm_keys (ent e None)"
  shows "check_integrity T H e' dbs = Some (Inr [])"
proof -
  have l: "list_all (\<lambda>c. ce_database c \<noteq> ''(unnamed)'' \<and> \<not> is_event_storage (ce_database c)) cs"
    by (rule check_integrity_named [OF assms(2,1)])
  note keep = repaired_keys [OF l assms(3,4)]
  have "entry_report T (scopes_of ent e) (stored_event_ids T ent e) dk = None"
    if "dk \<in> set (checked_keys ent e dbs)" "\<not> reported cs (fst dk) (snd dk)" for dk
  proof (rule ccontr)
    assume "entry_report T (scopes_of ent e) (stored_event_ids T ent e) dk \<noteq> None"
    then obtain c where c: "dk = (ce_database c, ce_key c)" "entry_of T (scopes_of ent e) dk = Some c"
      "ce_event_id c \<notin> stored_event_ids T ent e"
      by (auto simp: entry_report_iff)
    then have "extracted T ent e dbs c"
      using that(1) by (simp add: extracted_def)
    with c(1)
    show False
      using that(2) check_integrity_extracted [OF assms(1,2)] by (auto simp: reported_def)
  qed
  then have "set (List.map_filter (entry_report T (scopes_of ent e) (stored_event_ids T ent e)) (checked_keys ent e' dbs)) = {}"
    unfolding keep(1) set_map_filter by fastforce
  then show ?thesis
    using assms(1,2) by (auto simp: check_integrity_ok keep list_all_iff split: if_splits)
qed

lemma repaired_present:
  assumes "\<forall>n. ent e' (Some n) = map_option (without_reported cs n) (ent e (Some n))"
    "map_option hm_keys (ent e' None) = map_option hm_keys (ent e None)"
  shows "expected_dbs ent e' = expected_dbs ent e"
proof -
  have "ent e' n = None \<longleftrightarrow> ent e n = None" for n
    using assms by (cases n) auto
  then show ?thesis
    by (simp add: expected_dbs_def present_dbs_def)
qed

lemma expected_dbs_known: "set (expected_dbs ent e) \<subseteq> set known_names"
  by (auto simp: expected_dbs_def is_expected_database_def)

text \<open>C20. A confirmed repair removes exactly the dangling entries of the named databases, keeps the keys of the unnamed
  one, and leaves a store on which the next run of the tool, with any arguments, reports that the check passed
  and changes nothing.\<close>

theorem integrity_repair_converges:
  assumes "heed_ok H ent" "ia_wet_run args" "eq_ignore_case_y (str_trim input)"
    "integrity_main T H args (Inr input) (Inr ()) e = (out, Some (Inr ()), e')"
  shows "(\<forall>n. ent e' (Some n) = map_option (List.filter (\<lambda>x. \<not> (\<exists>c. dangling T ent e (expected_dbs ent e) c \<and>
      ce_database c = n \<and> ce_key c = fst x))) (ent e (Some n))) \<and>
    map_option hm_keys (ent e' None) = map_option hm_keys (ent e None) \<and>
    (\<exists>out'. \<forall>args' stdin'. integrity_main T H args' stdin' (Inr ()) e' = (out' @ [passed_line], Some (Inr ()), e'))"
proof -
  obtain cs where cs: "check_integrity T H e (expected_dbs ent e) = Some (Inr cs)"
    and named: "\<forall>n. ent e' (Some n) = map_option (without_reported cs n) (ent e (Some n))"
    and unnamed: "map_option hm_keys (ent e' None) = map_option hm_keys (ent e None)"
    using main_repair_effect [OF assms(1,3,2,4)] by blast
  have "check_integrity T H e' (expected_dbs ent e') = Some (Inr [])"
    using repaired_check [OF assms(1) cs named unnamed] by (simp add: repaired_present [OF named unnamed])
  then show ?thesis
    using named unnamed
    by (simp add: integrity_main_ok [OF assms(1)] without_reported_def [abs_def] extracted_reported [OF assms(1) cs]
        dangling_extracted [OF expected_dbs_known])
qed

definition demo_args :: integrity_args where
  "demo_args = \<lparr>ia_db_path = ''db'', ia_wet_run = True, ia_verbose = False\<rparr>"

lemma demo_expected: "expected_dbs hm_get demo_store = demo_dbs"
proof -
  have "List.filter (\<lambda>n. hm_get demo_store (db_handle n) \<noteq> None) (map (\<lambda>i. ''unknown_db_'' @ nat_str i) is) = []" for "is"
    by (induction "is") (simp_all add: demo_store_def db_handle_def del: nat_str.simps)
  moreover have "List.filter is_expected_database (List.filter (\<lambda>n. hm_get demo_store (db_handle n) \<noteq> None)
      (common_names @ [''(unnamed)''])) = demo_dbs"
    by code_simp
  ultimately show ?thesis
    unfolding expected_dbs_def present_dbs_def probed_names_def append_assoc [symmetric]
    by (simp only: filter_append filter.simps(1) append_Nil2)
qed

lemma demo_main: "\<exists>out e'. integrity_main plain_tool_lib list_heed demo_args (Inr ''y'') (Inr ()) demo_store =
    (out, Some (Inr ()), e') \<and> hm_get e' (Some ''deleted-ids'') = Some []"
proof -
  obtain cs where cs: "check_integrity plain_tool_lib list_heed demo_store demo_dbs = Some (Inr cs)"
    "reported cs ''deleted-ids'' (demo_id 3)"
    using demo_check_some by blast
  obtain e' where e': "remove_corrupted_entries list_heed demo_store cs = (Inr (), e')"
    "hm_get e' (Some ''deleted-ids'') = map_option (without_reported cs ''deleted-ids'') (hm_get demo_store (Some ''deleted-ids''))"
    using repair_effect [OF list_heed_ok cs(1)] by blast
  have "cs \<noteq> []"
    using cs(2) by (auto simp: reported_def)
  moreover have "eq_ignore_case_y (str_trim ''y'')" "ia_wet_run demo_args"
    by (simp_all add: eq_ignore_case_y_def str_trim_def is_space_def demo_args_def)
  ultimately have "\<exists>o1. repair_phase list_heed (ia_wet_run demo_args) (Inr ''y'') cs demo_store = (o1, Inr (), e')"
    using e'(1) by (simp add: repair_phase_def Let_def)
  moreover have "hm_get e' (Some ''deleted-ids'') = Some []"
    using e'(2) cs(2) by (simp add: demo_store_def without_reported_def)
  ultimately show ?thesis
    using integrity_main_ok [OF list_heed_ok, of plain_tool_lib demo_args "Inr ''y''" demo_store] \<open>cs \<noteq> []\<close>
    by (auto simp: demo_expected cs(1))
qed

theorem integrity_repair_converges_witness:
  "heed_ok list_heed hm_get \<and> ia_wet_run demo_args \<and>
   (\<exists>out out' e'. integrity_main plain_tool_lib list_heed demo_args (Inr ''y'') (Inr ()) demo_store =
      (out, Some (Inr ()), e') \<and> hm_get e' (Some ''deleted-ids'') = Some [] \<and>
      integrity_main plain_tool_lib list_heed demo_args (Inr ''y'') (Inr ()) e' = (out' @ [passed_line], Some (Inr ()), e'))"
proof -
  have y: "ia_wet_run demo_args" "eq_ignore_case_y (str_trim ''y'')"
    by (simp_all add: demo_args_def eq_ignore_case_y_def str_trim_def is_space_def)
  obtain out e' where m: "integrity_main plain_tool_lib list_heed demo_args (Inr ''y'') (Inr ()) demo_store =
      (out, Some (Inr ()), e')" "hm_get e' (Some ''deleted-ids'') = Some []"
    using demo_main by blast
  from integrity_repair_converges [OF list_heed_ok y m(1)] m y(1) show ?thesis
    using list_heed_ok by blast
qed

end
