(* ===== verification/Lmdb_Dump_Properties.thy ===== *)
theory Lmdb_Dump_Properties
  imports Lmdb_Dump Lmdb_Integrity_Properties
begin

text \<open>
  What the dump tool shows: it reads from an index key the same event id as the integrity tool, it shows
  the fields of an index key, and its text is the comma-separated list of the entries within the
  limit.
\<close>

section \<open>Event ids\<close>

definition json_event_id :: "json option \<Rightarrow> string option" where
  "json_event_id j = (case j of
     Some (JObject obj) \<Rightarrow> (case hm_get obj ''event_id'' of Some (JStr s) \<Rightarrow> Some s | _ \<Rightarrow> None)
   | _ \<Rightarrow> None)"

lemmas parse_key_defs = parse_ci_key_def parse_tci_key_def parse_aci_key_def parse_akci_key_def
  parse_atci_key_def parse_ktci_key_def parse_deleted_ids_key_def parse_deleted_coordinates_key_def

lemma json_event_id_simps [simp]:
  "json_event_id None = None"
  "json_event_id (Some (JObject obj)) = (case hm_get obj ''event_id'' of Some (JStr s) \<Rightarrow> Some s | _ \<Rightarrow> None)"
  by (simp_all add: json_event_id_def)





lemma dump_len_test: "length key = unat (12 + parse_timestamp_be (key_slice 4 12 key)) \<longleftrightarrow> scoped_len_ok key"
  by (simp only: scoped_len_ok_def scoped_key_len_def parse_timestamp_be_def key_slice_def drop_take)
    (simp add: take_all)








section \<open>Padded strings\<close>

lemma utf8_needs_byte: "\<not> utf8_cont 0" "\<not> utf8_second3 b 0" "\<not> utf8_second4 b 0"
  by (simp_all add: utf8_cont_def utf8_second3_def utf8_second4_def)

lemma utf8_chunk_append:
  assumes "utf8_chunk bs = (True, n)" "bs \<noteq> []"
  shows "utf8_chunk (bs @ w) = (True, n) \<and> n \<le> length bs"
proof -
  consider a where "bs = [a]" | a b where "bs = [a, b]" | a b c where "bs = [a, b, c]"
    | a b c d ds where "bs = a # b # c # d # ds"
    using assms(2) by (metis list.exhaust)
  then show ?thesis
  proof cases
    case 4
    then show ?thesis
      using assms(1) by (auto simp: utf8_chunk_def Let_def safe_get_def split: if_splits)
  qed (use assms(1) in \<open>auto simp: utf8_chunk_def Let_def safe_get_def utf8_needs_byte split: if_splits\<close>)+
qed

lemma utf8_valid_append: "utf8_valid v \<Longrightarrow> utf8_valid w \<Longrightarrow> utf8_valid (v @ w)"
proof (induction v rule: utf8_valid.induct)
  case (1 v)
  show ?case
  proof (cases "v = []")
    case False
    obtain ok n where n: "utf8_chunk v = (ok, n)"
      by (cases "utf8_chunk v")
    then have ok: "ok" "utf8_valid (drop n v)"
      using "1.prems"(1) False by (simp_all add: utf8_valid.simps [of v])
    then show ?thesis
      using 1(1) [OF False n [symmetric]] "1.prems"(2) utf8_chunk_append [of v n w] n False
      by (simp add: utf8_valid.simps [of "v @ w"])
  qed (use "1.prems" in simp)
qed

lemma utf8_valid_zeros: "utf8_valid (replicate k 0)"
  by (rule utf8_valid_ascii) (simp add: list_all_iff)

lemma byte_char_zero [simp]: "byte_char b = CHR 0x00 \<longleftrightarrow> b = 0"
proof -
  have "unat b < 256"
    using unsigned_less [where 'a = nat, of b] by simp
  then have "of_char (byte_char b) = unat b"
    by (simp add: byte_char_def)
  moreover have "of_char (CHR 0x00) = (0 :: nat)"
    by simp
  ultimately show ?thesis
    by (metis byte_char_def unat_0 unat_eq_zero char_of_nat of_char_eq_iff)
qed

lemma byte_char_0 [simp]: "byte_char 0 = CHR 0x00"
  by simp

lemma dropWhile_zeros: "dropWhile (\<lambda>c. c = x) (replicate k x @ xs) = dropWhile (\<lambda>c. c = x) xs"
  by (induction k) auto

lemma trim_padded: "v = [] \<or> List.last v \<noteq> 0 \<Longrightarrow> utf8_valid v \<Longrightarrow>
    trim_end_nul (from_utf8_lossy (v @ replicate k 0)) = map byte_char v"
  by (cases v rule: rev_cases)
    (simp_all add: utf8_valid_lossy utf8_valid_append utf8_valid_zeros trim_end_nul_def dropWhile_zeros
      flip: append_assoc)


section \<open>Index keys\<close>

text \<open>The fields of an index key as the dump's parsers read it, and the keys they read so: times as their distance from the
  largest one, tag values padded to 182 bytes with zeros, any three bytes \<open>gap\<close> after the time in a key with a tag. The store
  makes its keys in a crate that is not part of this repository; nothing is said here about how it does so.\<close>

datatype index_key =
    CiKey "64 word" bytes
  | TciKey byte bytes "64 word" bytes
  | AciKey bytes "64 word" bytes
  | AkciKey bytes "16 word" "64 word" bytes
  | AtciKey bytes byte bytes "64 word" bytes
  | KtciKey "16 word" byte bytes "64 word" bytes

definition time_bytes :: "64 word \<Rightarrow> bytes" where
  "time_bytes ts = to_be_bytes (- 1 - ts)"

definition padded :: "bytes \<Rightarrow> bytes" where
  "padded v = v @ replicate (182 - length v) 0"

primrec encode_key :: "bytes \<Rightarrow> index_key \<Rightarrow> bytes" where
  "encode_key gap (CiKey ts i) = time_bytes ts @ i"
| "encode_key gap (TciKey tag v ts i) = tag # padded v @ time_bytes ts @ gap @ i"
| "encode_key gap (AciKey pk ts i) = pk @ time_bytes ts @ i"
| "encode_key gap (AkciKey pk kd ts i) = pk @ to_be_bytes kd @ time_bytes ts @ i"
| "encode_key gap (AtciKey pk tag v ts i) = pk @ tag # padded v @ time_bytes ts @ gap @ i"
| "encode_key gap (KtciKey kd tag v ts i) = to_be_bytes kd @ tag # padded v @ time_bytes ts @ gap @ i"

primrec key_database :: "index_key \<Rightarrow> string" where
  "key_database (CiKey _ _) = ''ci''"
| "key_database (TciKey _ _ _ _) = ''tci''"
| "key_database (AciKey _ _ _) = ''aci''"
| "key_database (AkciKey _ _ _ _) = ''akci''"
| "key_database (AtciKey _ _ _ _ _) = ''atci''"
| "key_database (KtciKey _ _ _ _ _) = ''ktci''"

definition tag_value_ok :: "bytes \<Rightarrow> bool" where
  "tag_value_ok v \<longleftrightarrow> length v \<le> 182 \<and> utf8_valid v \<and> (v = [] \<or> List.last v \<noteq> 0)"

primrec key_ok :: "index_key \<Rightarrow> bool" where
  "key_ok (CiKey _ i) \<longleftrightarrow> length i = 32"
| "key_ok (TciKey _ v _ i) \<longleftrightarrow> tag_value_ok v \<and> length i = 32"
| "key_ok (AciKey pk _ i) \<longleftrightarrow> length pk = 32 \<and> length i = 32"
| "key_ok (AkciKey pk _ _ i) \<longleftrightarrow> length pk = 32 \<and> length i = 32"
| "key_ok (AtciKey pk _ v _ i) \<longleftrightarrow> length pk = 32 \<and> tag_value_ok v \<and> length i = 32"
| "key_ok (KtciKey _ _ v _ i) \<longleftrightarrow> tag_value_ok v \<and> length i = 32"

text \<open>The fields of the interpretation, with the values the key was made of.\<close>

definition field :: "tool_lib \<Rightarrow> bytes \<Rightarrow> json \<Rightarrow> json" where
  "field T raw parsed = JObject [(''raw_hex'', JStr (hex_of T raw)), (''parsed_value'', parsed)]"

primrec key_fields :: "tool_lib \<Rightarrow> index_key \<Rightarrow> (string, json) hmap" where
  "key_fields T (CiKey ts i) =
     [(''timestamp'', field T (time_bytes ts) (JNum (unat ts))), (''event_id'', JStr (hex_of T i))]"
| "key_fields T (TciKey tag v ts i) =
     [(''tag_name'', field T [tag] (JStr (latin1_string tag))), (''tag_value'', field T (padded v) (JStr (map byte_char v))),
      (''timestamp'', field T (time_bytes ts) (JNum (unat ts))), (''event_id'', JStr (hex_of T i))]"
| "key_fields T (AciKey pk ts i) =
     [(''pubkey'', JStr (hex_of T pk)), (''timestamp'', field T (time_bytes ts) (JNum (unat ts))),
      (''event_id'', JStr (hex_of T i))]"
| "key_fields T (AkciKey pk kd ts i) =
     [(''pubkey'', JStr (hex_of T pk)), (''kind'', field T (to_be_bytes kd) (JNum (unat kd))),
      (''timestamp'', field T (time_bytes ts) (JNum (unat ts))), (''event_id'', JStr (hex_of T i))]"
| "key_fields T (AtciKey pk tag v ts i) =
     [(''pubkey'', JStr (hex_of T pk)), (''tag_name'', field T [tag] (JStr (latin1_string tag))),
      (''tag_value'', field T (padded v) (JStr (map byte_char v))),
      (''timestamp'', field T (time_bytes ts) (JNum (unat ts))), (''event_id'', JStr (hex_of T i))]"
| "key_fields T (KtciKey kd tag v ts i) =
     [(''kind'', field T (to_be_bytes kd) (JNum (unat kd))), (''tag_name'', field T [tag] (JStr (latin1_string tag))),
      (''tag_value'', field T (padded v) (JStr (map byte_char v))),
      (''timestamp'', field T (time_bytes ts) (JNum (unat ts))), (''event_id'', JStr (hex_of T i))]"

lemma length_time_bytes [simp]: "length (time_bytes ts) = 8"
  by (simp add: time_bytes_def)

lemma length_padded [simp]: "tag_value_ok v \<Longrightarrow> length (padded v) = 182"
  by (simp add: padded_def tag_value_ok_def)

lemma format_timestamp_time: "format_timestamp_field T (time_bytes ts) True = field T (time_bytes ts) (JNum (unat ts))"
  by (simp add: format_timestamp_field_def parse_timestamp_be_def time_bytes_def field_def)

lemma format_kind_be: "format_kind_field T (to_be_bytes kd) = field T (to_be_bytes kd) (JNum (unat kd))" for kd :: "16 word"
proof -
  have "take 2 (to_be_bytes kd) = to_be_bytes kd"
    by (rule take_all) simp
  then show ?thesis
    by (simp add: format_kind_field_def parse_u16_be_def field_def)
qed

lemma format_tag_value_padded: "tag_value_ok v \<Longrightarrow>
    format_tag_value T (padded v) = field T (padded v) (JStr (map byte_char v))"
  by (simp add: format_tag_value_def padded_def field_def trim_padded tag_value_ok_def)

lemma format_tag_name_field: "format_tag_name T b = field T [b] (JStr (latin1_string b))"
  by (simp add: format_tag_name_def field_def)

lemmas format_simps = format_timestamp_time format_kind_be format_tag_value_padded format_tag_name_field

lemma inner_fields: "key_ok k \<Longrightarrow> length gap = 3 \<Longrightarrow>
    parse_scoped_inner T (key_database k) (encode_key gap k) = Some (JObject (key_fields T k))"
  by (cases k) (simp_all add: parse_scoped_inner_def parse_key_defs key_slice_def format_simps Let_def nth_append)


lemma encode_key_length: "key_ok k \<Longrightarrow> length gap = 3 \<Longrightarrow> length (encode_key gap k) \<le> 258"
  by (cases k) simp_all

lemma key_database_plain: "\<not> str_ends_with (key_database k) ''_scoped''" "key_database k \<noteq> ''__global_scope_metadata''"
  by (cases k; simp add: str_ends_with_def)+

lemma str_ends_with_scoped: "str_ends_with (key_database k @ ''_scoped'') ''_scoped''"
  by simp

lemma trim_key_database: "trim_end_str ''_scoped'' (key_database k @ ''_scoped'') = key_database k"
  by (cases k) (simp_all add: trim_end_str.simps [of _ "_ # _"] str_ends_with_def)

definition scope_fields :: "tool_lib \<Rightarrow> scope_hash \<Rightarrow> string \<Rightarrow> bytes \<Rightarrow> (string, json) hmap" where
  "scope_fields T h scope_name key =
     [(''scope_hash'', JObject [(''raw_hex'', JStr (hex_of T (to_be_bytes h))), (''lookup_value'', JStr scope_name)]),
      (''original_key_length'', field T (to_be_bytes (of_nat (length key) :: 64 word)) (JNum (length key)))]"

lemma key_slice_scoped: "key_slice 0 4 (scoped_key h key) = to_be_bytes h"
  "key_slice 4 12 (scoped_key h key) = to_be_bytes (of_nat (length key) :: 64 word)"
  by (simp_all add: key_slice_def scoped_key_def)

lemma parse_u32_be_to [simp]: "parse_u32_be (to_be_bytes h) = h"
proof -
  have "take 4 (to_be_bytes h) = to_be_bytes h"
    by (rule take_all) simp
  then show ?thesis
    by (simp add: parse_u32_be_def)
qed

lemma dump_scoped_key_scoped:
  assumes "length key < 2 ^ 64 - 12" "hm_get registry h = Some scope_name"
  shows "dump_scoped_key T (scoped_key h key) registry =
    Some ((JObject [(''raw_hex'', JStr (hex_of T (to_be_bytes h))), (''lookup_value'', JStr scope_name)],
      field T (to_be_bytes (of_nat (length key) :: 64 word)) (JNum (length key))), key)"
proof -
  have "unat (of_nat (length key) :: 64 word) = length key"
    using assms(1) by (simp add: unat_of_nat)
  then show ?thesis
    unfolding dump_scoped_key_def Let_def dump_len_test
    using assms by (simp add: scoped_len_ok_scoped key_slice_scoped field_def parse_timestamp_be_def)
qed

text \<open>The dump shows every field of such a key: for any of the six indexes, plain or under a
  scope whose hash is in the table, the interpretation holds the scope name and key length, the public key, kind,
  tag and tag value, the time and the event id.\<close>

lemma index_key_fields:
  assumes "key_ok k" "length gap = 3" "hm_get registry h = Some scope_name"
  shows "parse_key T (encode_key gap k) (key_database k) registry = Some (JObject (key_fields T k)) \<and>
    parse_key T (scoped_key h (encode_key gap k)) (key_database k @ ''_scoped'') registry =
      Some (JObject (scope_fields T h scope_name (encode_key gap k) @ key_fields T k))"
proof
  show "parse_key T (encode_key gap k) (key_database k) registry = Some (JObject (key_fields T k))"
    by (simp add: parse_key_def key_database_plain inner_fields [OF assms(1,2)])
  have "length (encode_key gap k) < 2 ^ 64 - 12"
    using encode_key_length [OF assms(1,2)] by simp
  note d = dump_scoped_key_scoped [OF this assms(3), of T]
  show "parse_key T (scoped_key h (encode_key gap k)) (key_database k @ ''_scoped'') registry =
      Some (JObject (scope_fields T h scope_name (encode_key gap k) @ key_fields T k))"
    unfolding parse_key_def str_ends_with_scoped trim_key_database d
    by (simp add: inner_fields [OF assms(1,2)] scope_fields_def add_scope_components_def)
      (cases k; simp)
qed

lemma index_key_fields_example:
  "parse_key plain_tool_lib (scoped_key 7 (encode_key [0, 0, 0] (KtciKey 1 0x65 [0x68, 0x69] 1700000000 (demo_id 1))))
     ''ktci_scoped'' [(7, ''a'')] =
   Some (JObject (scope_fields plain_tool_lib 7 ''a'' (encode_key [0, 0, 0] (KtciKey 1 0x65 [0x68, 0x69] 1700000000 (demo_id 1))) @
     key_fields plain_tool_lib (KtciKey 1 0x65 [0x68, 0x69] 1700000000 (demo_id 1))))"
proof -
  have "key_ok (KtciKey 1 0x65 [0x68, 0x69] 1700000000 (demo_id 1))"
    by (simp add: tag_value_ok_def demo_id_def utf8_valid_ascii)
  from index_key_fields [OF this, of "[0, 0, 0]" "[(7, ''a'')]" 7 "''a''" plain_tool_lib] show ?thesis
    by simp
qed

section \<open>The printed text\<close>

definition dump_entry_text :: "tool_lib \<Rightarrow> scope_registry \<Rightarrow> string \<Rightarrow> bytes \<times> bytes \<Rightarrow> string" where
  "dump_entry_text T registry db_name kv = fst (print_entry T db_name registry kv)"

definition within_limit :: "nat option \<Rightarrow> 'a list \<Rightarrow> 'a list" where
  "within_limit limit xs = (case limit of Some l \<Rightarrow> take l xs | None \<Rightarrow> xs)"

text \<open>The texts after what is there already: a comma and a line break before each but the first.\<close>

definition with_commas :: "bool \<Rightarrow> string list \<Rightarrow> string" where
  "with_commas first ts = (if ts = [] then [] else if first then str_join (println '','') ts
     else println '','' @ str_join (println '','') ts)"

lemma with_commas_Cons: "with_commas first (t # ts) = (if first then [] else println '','') @ t @ with_commas False ts"
  by (cases ts) (simp_all add: with_commas_def)

lemma with_commas_append: "with_commas first (xs @ ys) = with_commas first xs @ with_commas (first \<and> xs = []) ys"
  by (induction xs arbitrary: first) (simp_all add: with_commas_Cons, simp add: with_commas_def)

text \<open>\<open>serde_json::to_string\<close> of a \<open>Value\<close> does not fail.\<close>

definition json_total :: "tool_lib \<Rightarrow> bool" where
  "json_total T \<longleftrightarrow> (\<forall>j. \<exists>s. json_to_string T j = Inr s)"

lemma json_total_not_error: "json_total T \<Longrightarrow> json_to_string T j \<noteq> Inl err"
  by (metis json_total_def sum.distinct(1))

lemma print_entry_ok: "json_total T \<Longrightarrow>
    print_entry T db_name registry kv = (dump_entry_text T registry db_name kv, Inr ())"
  by (cases kv) (auto simp: dump_entry_text_def print_entry_def json_total_not_error split: option.splits sum.splits)

lemma dump_loop_ok: "json_total T \<Longrightarrow> (case limit of Some l \<Rightarrow> shown \<le> l | None \<Rightarrow> True) \<Longrightarrow>
    dump_loop T db_name registry limit shown (map Inr xs) first_entry out =
    (let ts = map (dump_entry_text T registry db_name) (within_limit (map_option (\<lambda>l. l - shown) limit) xs)
     in (out @ with_commas first_entry ts, first_entry \<and> ts = [], Inr ()))"
proof (induction xs arbitrary: shown first_entry out)
  case Nil
  then show ?case
    by (simp add: within_limit_def with_commas_def split: option.split)
next
  case (Cons kv xs)
  show ?case
  proof (cases "case limit of Some l \<Rightarrow> shown \<ge> l | None \<Rightarrow> False")
    case True
    then show ?thesis
      using Cons.prems by (auto simp: within_limit_def with_commas_def split: option.splits)
  next
    case False
    then have "within_limit (map_option (\<lambda>l. l - shown) limit) (kv # xs) =
        kv # within_limit (map_option (\<lambda>l. l - (shown + 1)) limit) xs"
      by (cases limit) (auto simp: within_limit_def take_Cons' Suc_diff_Suc)
    moreover have "case limit of Some l \<Rightarrow> shown + 1 \<le> l | None \<Rightarrow> True"
      using False by (cases limit) auto
    ultimately show ?thesis
      using Cons.IH [of "shown + 1"] Cons.prems(1) False
      by (simp add: print_entry_ok with_commas_Cons Let_def)
  qed
qed


lemma dump_database_entries_ok:
  assumes "heed_ok H ent" "json_total T"
  shows "dump_database_entries T H e db_name registry limit first_entry out =
    (let ts = map (dump_entry_text T registry db_name) (within_limit limit (db_entries ent e (db_handle db_name)))
     in (out @ with_commas first_entry ts, first_entry \<and> ts = [], Inr ()))"
proof (cases "ent e (db_handle db_name)")
  case None
  then show ?thesis
    by (simp add: dump_database_entries_def opens_name_def heed_okD [OF assms(1)] db_entries_def within_limit_def
        with_commas_def split: option.split)
next
  case (Some xs)
  have l: "case limit of Some l \<Rightarrow> 0 \<le> l | None \<Rightarrow> True" "map_option (\<lambda>l. l - 0) limit = limit"
    by (cases limit; simp)+
  note loop = dump_loop_ok [OF assms(2) l(1), unfolded l(2)]
  show ?thesis
  proof (cases "xs = []")
    case True
    then show ?thesis
      using Some heed_okD(4,6) [OF assms(1)]
      by (simp add: dump_database_entries_def opens_name_def db_entries_def within_limit_def with_commas_def
          split: option.split)
  next
    case False
    then show ?thesis
      using Some heed_okD(4-6) [OF assms(1)] loop
      by (simp add: dump_database_entries_def opens_name_def db_entries_def)
  qed
qed

definition shown_entries :: "'e entries \<Rightarrow> 'e \<Rightarrow> nat option \<Rightarrow> string list \<Rightarrow> (string \<times> bytes \<times> bytes) list" where
  "shown_entries ent e limit names =
     concat (map (\<lambda>n. map (Pair n) (within_limit limit (db_entries ent e (db_handle n)))) names)"

lemma dump_all_entries_ok:
  assumes "heed_ok H ent" "json_total T"
  shows "dump_all_entries T H e registry limit names first_entry out =
    (let ts = map (\<lambda>(n, kv). dump_entry_text T registry n kv) (shown_entries ent e limit names)
     in (out @ with_commas first_entry ts, first_entry \<and> ts = [], Inr ()))"
proof (induction names arbitrary: first_entry out)
  case Nil
  then show ?case
    by (simp add: shown_entries_def with_commas_def)
next
  case (Cons n names)
  then show ?case
    by (simp add: dump_database_entries_ok [OF assms] shown_entries_def with_commas_append comp_def Let_def)
qed

lemma dump_scope_registry_ok: "heed_ok H ent \<Longrightarrow> dump_scope_registry H e = Inr (scopes_of ent e)"
  by (cases "ent e (Some ''__global_scope_metadata'')")
    (simp_all add: dump_scope_registry_def heed_okD db_entries_def read_scope_registry_ok scope_table_def)

definition found_names :: "'e entries \<Rightarrow> 'e \<Rightarrow> string list" where
  "found_names ent e = List.filter (\<lambda>n. ent e (db_handle n) \<noteq> None) (common_names @ [''(unnamed)''])"

definition selected_names :: "'e entries \<Rightarrow> 'e \<Rightarrow> string option \<Rightarrow> string list" where
  "selected_names ent e name = (case name of
     Some pat \<Rightarrow> List.filter (\<lambda>n. str_contains n pat) (found_names ent e) | None \<Rightarrow> found_names ent e)"

lemma probe_common: "heed_ok H ent \<Longrightarrow> probe_names H e (common_names @ [''(unnamed)'']) [] = Inr (found_names ent e)"
  by (simp only: probe_names_ok append_Nil found_names_def)

definition dump_head :: "tool_lib \<Rightarrow> dump_args \<Rightarrow> string" where
  "dump_head T args = println ''{'' @ println (''  '' @ quoted ''db_path'' @ '': '' @ debug_path T (da_db_path args) @ '','')"

text \<open>In dump mode the tool succeeds on a healthy store and prints the array of the entries: of every database
  of the store whose name contains the filter, in the tool's order, the first entries up to the limit, each as its
  text, separated by commas.\<close>

lemma dump_prints_entries:
  assumes "heed_ok H ent" "json_total T" "\<not> da_count_only args"
  shows "dump_main T H args (Inr ()) e =
    (let ts = map (\<lambda>(n, kv). dump_entry_text T (scopes_of ent e) n kv)
           (shown_entries ent e (da_limit args) (selected_names ent e (da_name args)))
     in (dump_head T args @ println (''  '' @ quoted ''entries'' @ '': ['') @ str_join (println '','') ts @
         (if ts = [] then [] else println []) @ println ''  ]'' @ println ''}'', Inr ()))"
  using assms(3)
  by (simp add: dump_main_def heed_okD [OF assms(1)] probe_common [OF assms(1)] dump_scope_registry_ok [OF assms(1)]
      dump_all_entries_ok [OF assms(1,2)] dump_head_def with_commas_def Let_def
      flip: selected_names_def)

text \<open>In count mode it prints the number of entries of each of these databases.\<close>

lemma dump_counts_ok: "heed_ok H ent \<Longrightarrow> dump_counts H e names first_db out =
    (out @ with_commas first_db (map (\<lambda>n. ''    '' @ quoted n @ '': '' @
       nat_str (length (db_entries ent e (db_handle n)))) names), Inr ())"
proof (induction names arbitrary: first_db out)
  case Nil
  then show ?case
    by (simp add: with_commas_def)
next
  case (Cons n names)
  have z: "nat_str 0 = ''0''"
    by code_simp
  show ?case
    by (cases "ent e (db_handle n)")
      (use Cons in \<open>simp_all add: dump_database_count_def opens_name_def heed_okD db_entries_def with_commas_Cons z
        del: nat_str.simps\<close>)
qed

lemma dump_prints_counts: "heed_ok H ent \<Longrightarrow> da_count_only args \<Longrightarrow> dump_main T H args (Inr ()) e =
    (dump_head T args @ println (''  '' @ quoted ''database_counts'' @ '': {'') @
      str_join (println '','') (map (\<lambda>n. ''    '' @ quoted n @ '': '' @ nat_str (length (db_entries ent e (db_handle n))))
        (selected_names ent e (da_name args))) @ println [] @ println ''  }'' @ println ''}'', Inr ())"
  by (simp add: dump_main_def heed_okD probe_common dump_scope_registry_ok dump_counts_ok dump_head_def
      with_commas_def Let_def del: nat_str.simps flip: selected_names_def)

lemma dump_prints_entries_example:
  "heed_ok list_heed hm_get \<and> json_total plain_tool_lib \<and>
   snd (dump_main plain_tool_lib list_heed \<lparr>da_db_path = ''db'', da_name = None, da_count_only = False, da_limit = Some 1\<rparr>
     (Inr ()) demo_store) = Inr () \<and>
   length (shown_entries hm_get demo_store (Some 1) (selected_names hm_get demo_store None)) = 5"
proof -
  have j: "json_total plain_tool_lib"
    by (simp add: json_total_def plain_tool_lib_def)
  have "map fst (shown_entries hm_get demo_store (Some 1) (selected_names hm_get demo_store None)) =
      [''ci'', ''ci_scoped'', ''deleted-ids'', ''__global_scope_metadata'', ''(unnamed)'']"
    by code_simp
  then have "length (map fst (shown_entries hm_get demo_store (Some 1) (selected_names hm_get demo_store None))) = 5"
    by simp
  then show ?thesis
    using dump_prints_entries [OF list_heed_ok j, where e = demo_store and
        args = "\<lparr>da_db_path = ''db'', da_name = None, da_count_only = False, da_limit = Some 1\<rparr>"] list_heed_ok j
    by (simp add: Let_def)
qed

end
