(* ===== verification/Negentropy_Sync.thy ===== *)
theory Negentropy_Sync
  imports Export_Import Nostr_Instance "HOL-Library.Word"
begin

text \<open>
  The synchronisation tool \<open>src/src/bin/negentropy_sync.rs\<close>: one run over the configured relays, and the
  periodic loop with its backoff. The client of the crate \<open>nostr-sdk\<close>, which synchronises the local
  database (part of the state \<open>'w\<close>) with a relay, is the parameter record \<open>sync_env\<close>. A panic is
  \<open>None\<close>. Counters and durations (in seconds) are \<open>u64\<close>; the counters wrap around, as in a build without
  overflow checks. Waiting for a connection, the measured duration of a run, the progress bar and the log are left out.
\<close>

datatype sync_mode = Pull | Push | Both
datatype sync_direction = DirDown | DirUp | DirBoth

record sync_output =
  so_received :: "event_id list"
  so_sent :: "event_id list"
  so_send_failures :: "(string, (event_id, string) hmap) hmap"

record ('w, 'k) sync_env =
  se_open :: "'w \<Rightarrow> string \<Rightarrow> string + unit"
  se_filter_from_json :: "string \<Rightarrow> string + filter"
  se_keys_parse :: "string \<Rightarrow> 'k option"
  se_keys_from_hex :: "string \<Rightarrow> 'k option"
  se_add_relay :: "'w \<Rightarrow> string \<Rightarrow> string + unit"
  se_sync :: "'w \<Rightarrow> string \<Rightarrow> 'k option \<Rightarrow> filter \<Rightarrow> sync_direction \<Rightarrow> (string + sync_output) \<times> 'w"

record sync_stats =
  st_events_sent :: "64 word"
  st_events_received :: "64 word"
  st_errors :: "64 word"

record negentropy_sync =
  ns_scope :: scope
  ns_filter :: filter

record sync_args =
  sa_db :: string
  sa_relay :: "string list"
  sa_filter :: "string option"
  sa_interval :: "64 word"
  sa_scope :: "string option"
  sa_auth :: "string option"
  sa_mode :: sync_mode

section \<open>One run\<close>

definition sync_direction_of :: "sync_mode \<Rightarrow> sync_direction" where
  "sync_direction_of mode = (case mode of Pull \<Rightarrow> DirDown | Push \<Rightarrow> DirUp | Both \<Rightarrow> DirBoth)"

definition stats_zero :: sync_stats where
  "stats_zero = \<lparr>st_events_sent = 0, st_events_received = 0, st_errors = 0\<rparr>"

definition stats_of_output :: "sync_mode \<Rightarrow> sync_output \<Rightarrow> sync_stats" where
  "stats_of_output mode out =
     (let received = of_nat (length (so_received out)); sent = of_nat (length (so_sent out));
          stats = (case mode of
              Pull \<Rightarrow> stats_zero\<lparr>st_events_received := received\<rparr>
            | Push \<Rightarrow> stats_zero\<lparr>st_events_sent := sent\<rparr>
            | Both \<Rightarrow> stats_zero\<lparr>st_events_sent := sent, st_events_received := received\<rparr>)
      in fold (\<lambda>(_, failures) s. s\<lparr>st_errors := st_errors s + of_nat (length failures)\<rparr>) (so_send_failures out) stats)"

text \<open>The scope only decides about a warning; the client works on the whole database.\<close>

definition sync_with_relay ::
  "('w, 'k) sync_env \<Rightarrow> negentropy_sync \<Rightarrow> string \<Rightarrow> sync_mode \<Rightarrow> 'k option \<Rightarrow> 'w \<Rightarrow> (anyhow_error + sync_stats) \<times> 'w" where
  "sync_with_relay E s relay_url mode auth_keys w = (case se_add_relay E w relay_url of
     Inl err \<Rightarrow> (Inl (AnyhowMsg err), w)
   | Inr _ \<Rightarrow> (case se_sync E w relay_url auth_keys (ns_filter s) (sync_direction_of mode) of
       (Inl err, w') \<Rightarrow> (Inl (AnyhowMsg err), w')
     | (Inr out, w') \<Rightarrow> (Inr (stats_of_output mode out), w')))"

fun sync_loop ::
  "('w, 'k) sync_env \<Rightarrow> negentropy_sync \<Rightarrow> sync_mode \<Rightarrow> 'k option \<Rightarrow> string list \<Rightarrow> sync_stats \<Rightarrow> 'w
     \<Rightarrow> sync_stats \<times> 'w" where
  "sync_loop E s mode auth_keys [] acc w = (acc, w)"
| "sync_loop E s mode auth_keys (relay_url # urls) acc w =
     (case sync_with_relay E s relay_url mode auth_keys w of
        (Inr stats, w') \<Rightarrow> sync_loop E s mode auth_keys urls
          \<lparr>st_events_sent = st_events_sent acc + st_events_sent stats,
            st_events_received = st_events_received acc + st_events_received stats,
            st_errors = st_errors acc + st_errors stats\<rparr> w'
      | (Inl _, w') \<Rightarrow> sync_loop E s mode auth_keys urls (acc\<lparr>st_errors := st_errors acc + 1\<rparr>) w')"

text \<open>A key that does not parse is a panic, no key is no authentication.\<close>

definition parse_auth_keys :: "('w, 'k) sync_env \<Rightarrow> string option \<Rightarrow> 'k option option" where
  "parse_auth_keys E auth = (case auth of
     None \<Rightarrow> Some None
   | Some key \<Rightarrow> map_option Some
       (if str_starts_with key ''nsec'' then se_keys_parse E key else se_keys_from_hex E key))"

definition parse_scope_arg :: "nostr_lib \<Rightarrow> string option \<Rightarrow> anyhow_error + scope" where
  "parse_scope_arg L arg = (case arg of
     Some name \<Rightarrow> (case scope_named L name of Some sc \<Rightarrow> Inr sc | None \<Rightarrow> Inl (AnyhowMsg ''Invalid scope name''))
   | None \<Rightarrow> Inr ScopeDefault)"

definition parse_filter_arg :: "('w, 'k) sync_env \<Rightarrow> string option \<Rightarrow> anyhow_error + filter" where
  "parse_filter_arg E arg = (case arg of
     Some json \<Rightarrow> map_err AnyhowMsg (se_filter_from_json E json)
   | None \<Rightarrow> Inr filter_new)"

text \<open>The totals are those of the final log line.\<close>

definition run_sync ::
  "nostr_lib \<Rightarrow> ('w, 'k) sync_env \<Rightarrow> sync_args \<Rightarrow> 'w \<Rightarrow> (anyhow_error + sync_stats) option \<times> 'w" where
  "run_sync L E args w = (case se_open E w (sa_db args) of
     Inl _ \<Rightarrow> (Some (Inl (AnyhowMsg (''Failed to open database at '' @ debug_str L (sa_db args)))), w)
   | Inr _ \<Rightarrow> (case parse_scope_arg L (sa_scope args) of
       Inl err \<Rightarrow> (Some (Inl err), w)
     | Inr sc \<Rightarrow> (case parse_filter_arg E (sa_filter args) of
         Inl err \<Rightarrow> (Some (Inl err), w)
       | Inr f \<Rightarrow> (case parse_auth_keys E (sa_auth args) of
           None \<Rightarrow> (None, w)
         | Some auth_keys \<Rightarrow>
             (case sync_loop E \<lparr>ns_scope = sc, ns_filter = f\<rparr> (sa_mode args) auth_keys (sa_relay args) stats_zero w of
                (acc, w') \<Rightarrow> (Some (Inr acc), w'))))))"

section \<open>The periodic loop\<close>

definition max_backoff :: "64 word" where
  "max_backoff = 300"

definition initial_backoff :: "64 word" where
  "initial_backoff = 10"

text \<open>\<open>Duration * 2\<close> panics when the seconds overflow.\<close>

definition double_duration :: "64 word \<Rightarrow> 64 word option" where
  "double_duration d = (if 2 * unat d < 2 ^ 64 then Some (2 * d) else None)"

text \<open>After one run: the new backoff, and how long the loop sleeps because of it.\<close>

definition after_run :: "64 word \<Rightarrow> bool \<Rightarrow> 64 word \<Rightarrow> (64 word \<times> 64 word option) option" where
  "after_run interval ok backoff =
     (if ok then Some (max interval 10, None)
      else case double_duration backoff of
        None \<Rightarrow> None
      | Some d \<Rightarrow> Some (min d max_backoff, Some (min d max_backoff)))"

text \<open>The first \<open>n\<close> rounds of the endless loop: the outcome of each run and the sleep after it. The list ends
  early when the program panics; the last component tells.\<close>

fun run_periodic_sync ::
  "nostr_lib \<Rightarrow> ('w, 'k) sync_env \<Rightarrow> sync_args \<Rightarrow> nat \<Rightarrow> 64 word \<Rightarrow> 'w \<Rightarrow> (bool \<times> 64 word option) list \<times> bool \<times> 'w" where
  "run_periodic_sync L E args 0 backoff w = ([], False, w)"
| "run_periodic_sync L E args (Suc n) backoff w = (case run_sync L E args w of
     (None, w') \<Rightarrow> ([], True, w')
   | (Some r, w') \<Rightarrow> (case after_run (sa_interval args) (is_ok r) backoff of
       None \<Rightarrow> ([], True, w')
     | Some (backoff', pause) \<Rightarrow> (case run_periodic_sync L E args n backoff' w' of
         (rounds, panicked, w'') \<Rightarrow> ((is_ok r, pause) # rounds, panicked, w''))))"

text \<open>\<open>main\<close>: one run, or the loop, watched for \<open>n\<close> rounds.\<close>

definition sync_main ::
  "nostr_lib \<Rightarrow> ('w, 'k) sync_env \<Rightarrow> sync_args \<Rightarrow> nat \<Rightarrow> 'w
     \<Rightarrow> (anyhow_error + sync_stats) option \<times> 'w + (bool \<times> 64 word option) list \<times> bool \<times> 'w" where
  "sync_main L E args n w =
     (if sa_interval args > 0 then Inr (run_periodic_sync L E args n initial_backoff w) else Inl (run_sync L E args w))"

section \<open>Results\<close>

text \<open>The totals of a run: every relay is tried, in the order given; one that fails counts as an error and stops
  nothing.\<close>

fun relay_results ::
  "('w, 'k) sync_env \<Rightarrow> filter \<Rightarrow> sync_mode \<Rightarrow> 'k option \<Rightarrow> string list \<Rightarrow> 'w \<Rightarrow> (anyhow_error + sync_stats) list" where
  "relay_results E f mode auth_keys [] w = []"
| "relay_results E f mode auth_keys (url # urls) w =
     (case sync_with_relay E \<lparr>ns_scope = ScopeDefault, ns_filter = f\<rparr> url mode auth_keys w of
        (r, w') \<Rightarrow> r # relay_results E f mode auth_keys urls w')"

definition totals :: "(anyhow_error + sync_stats) list \<Rightarrow> sync_stats" where
  "totals rs =
     \<lparr>st_events_sent = (\<Sum>r\<leftarrow>rs. case r of Inr s \<Rightarrow> st_events_sent s | Inl _ \<Rightarrow> 0),
      st_events_received = (\<Sum>r\<leftarrow>rs. case r of Inr s \<Rightarrow> st_events_received s | Inl _ \<Rightarrow> 0),
      st_errors = (\<Sum>r\<leftarrow>rs. case r of Inr s \<Rightarrow> st_errors s | Inl _ \<Rightarrow> 1)\<rparr>"

lemma sync_scope_irrelevant: "sync_with_relay E \<lparr>ns_scope = sc, ns_filter = f\<rparr> url mode auth w =
    sync_with_relay E \<lparr>ns_scope = ScopeDefault, ns_filter = f\<rparr> url mode auth w"
  by (simp only: sync_with_relay_def negentropy_sync.select_convs)

lemma sync_loop_totals:
  "fst (sync_loop E \<lparr>ns_scope = sc, ns_filter = f\<rparr> mode auth urls acc w) =
    (let t = totals (relay_results E f mode auth urls w) in
     \<lparr>st_events_sent = st_events_sent acc + st_events_sent t,
      st_events_received = st_events_received acc + st_events_received t, st_errors = st_errors acc + st_errors t\<rparr>)"
proof (induction urls arbitrary: acc w)
  case (Cons url urls)
  obtain r w' where r: "sync_with_relay E \<lparr>ns_scope = ScopeDefault, ns_filter = f\<rparr> url mode auth w = (r, w')"
    by fastforce
  show ?case
    by (cases r) (simp_all add: Cons r sync_scope_irrelevant [of E sc] totals_def Let_def add.assoc)
qed (simp add: totals_def)

lemma length_relay_results: "length (relay_results E f mode auth urls w) = length urls"
  by (induction urls arbitrary: w) (auto split: prod.split)

definition setup_ok :: "nostr_lib \<Rightarrow> ('w, 'k) sync_env \<Rightarrow> sync_args \<Rightarrow> 'w \<Rightarrow> filter \<Rightarrow> 'k option \<Rightarrow> bool" where
  "setup_ok L E args w f auth \<longleftrightarrow> is_ok (se_open E w (sa_db args)) \<and> is_ok (parse_scope_arg L (sa_scope args)) \<and>
     parse_filter_arg E (sa_filter args) = Inr f \<and> parse_auth_keys E (sa_auth args) = Some auth"

text \<open>A run whose database, scope, filter and key are in order succeeds whatever its relays do: it
  tries every relay once, in order, and its totals are the sums over them, a relay that fails counting as one error. The
  scope has no effect.\<close>

lemma sync_run_totals:
  assumes "setup_ok L E args w f auth"
  shows "let rs = relay_results E f (sa_mode args) auth (sa_relay args) w in
    length rs = length (sa_relay args) \<and> (\<exists>w'. run_sync L E args w = (Some (Inr (totals rs)), w'))"
proof -
  obtain sc where sc: "parse_scope_arg L (sa_scope args) = Inr sc"
    using assms by (auto simp: setup_ok_def is_ok_iff)
  obtain acc w' where loop: "sync_loop E \<lparr>ns_scope = sc, ns_filter = f\<rparr> (sa_mode args) auth (sa_relay args) stats_zero w = (acc, w')"
    by fastforce
  have "acc = totals (relay_results E f (sa_mode args) auth (sa_relay args) w)"
    using sync_loop_totals [of E sc f "sa_mode args" auth "sa_relay args" stats_zero w]
    by (simp add: loop Let_def) (simp add: stats_zero_def totals_def)
  then show ?thesis
    using assms sc loop by (auto simp: setup_ok_def is_ok_iff run_sync_def length_relay_results Let_def)
qed

text \<open>A reachable relay that sends two events and an unreachable one.\<close>

definition demo_sync_env :: "(unit, unit) sync_env" where
  "demo_sync_env = \<lparr>se_open = (\<lambda>_ _. Inr ()), se_filter_from_json = (\<lambda>_. Inr filter_new), se_keys_parse = Some \<circ> (\<lambda>_. ()),
     se_keys_from_hex = (\<lambda>_. None), se_add_relay = (\<lambda>_ url. if url = ''bad'' then Inl ''unreachable'' else Inr ()),
     se_sync = (\<lambda>w _ _ _ _. (Inr \<lparr>so_received = [1, 2], so_sent = [3], so_send_failures = []\<rparr>, w))\<rparr>"

definition demo_sync_args :: sync_args where
  "demo_sync_args = \<lparr>sa_db = ''db'', sa_relay = [''bad'', ''good''], sa_filter = None, sa_interval = 0, sa_scope = None,
     sa_auth = None, sa_mode = Pull\<rparr>"

lemma sync_run_totals_example:
  "\<exists>w'. run_sync demo_lib demo_sync_env demo_sync_args () =
     (Some (Inr \<lparr>st_events_sent = 0, st_events_received = 2, st_errors = 1\<rparr>), w')"
proof -
  have "setup_ok demo_lib demo_sync_env demo_sync_args () filter_new None"
    by (simp add: setup_ok_def demo_sync_env_def demo_sync_args_def parse_scope_arg_def parse_filter_arg_def
        parse_auth_keys_def)
  from sync_run_totals [OF this] show ?thesis
    by (simp add: demo_sync_env_def demo_sync_args_def totals_def sync_with_relay_def stats_of_output_def stats_zero_def
        Let_def)
qed

section \<open>Backoff\<close>

lemma double_duration_small: "unat d < 2 ^ 63 \<Longrightarrow> double_duration d = Some (2 * d)"
  by (simp add: double_duration_def)

lemma after_failure:
  assumes "unat b < 2 ^ 63"
  shows "\<exists>d. after_run i False b = Some (d, Some d) \<and> unat d = min (2 * unat b) 300"
proof -
  have "unat (2 * b) = 2 * unat b"
    using assms by (simp add: unat_word_ariths)
  then have "unat (min (2 * b) max_backoff) = min (2 * unat b) 300"
    by (simp add: min_def word_le_nat_alt max_backoff_def)
  then show ?thesis
    using assms by (simp add: after_run_def double_duration_small)
qed

definition backoff_ok :: "64 word \<Rightarrow> bool" where
  "backoff_ok b \<longleftrightarrow> 10 \<le> unat b \<and> unat b < 2 ^ 63"

lemma after_success: "unat i < 2 ^ 63 \<Longrightarrow> \<exists>b'. after_run i True b = Some (b', None) \<and> backoff_ok b'"
  by (simp add: after_run_def backoff_ok_def max_def word_le_nat_alt)

lemma backoff_ok_after_failure: "backoff_ok b \<Longrightarrow>
    \<exists>d. after_run i False b = Some (d, Some d) \<and> unat d = min (2 * unat b) 300 \<and> backoff_ok d"
  using after_failure [of b i] by (auto simp: backoff_ok_def)

lemma run_sync_panics: "fst (run_sync L E args w) = None \<Longrightarrow> parse_auth_keys E (sa_auth args) = None"
  by (auto simp: run_sync_def split: sum.splits option.splits prod.splits)

definition pause_ok :: "bool \<times> 64 word option \<Rightarrow> bool" where
  "pause_ok r \<longleftrightarrow> (case snd r of None \<Rightarrow> fst r | Some d \<Rightarrow> \<not> fst r \<and> 20 \<le> unat d \<and> unat d \<le> 300)"

text \<open>The pauses of the failures before the first success.\<close>

definition first_pauses :: "(bool \<times> 64 word option) list \<Rightarrow> nat option list" where
  "first_pauses rounds = map (\<lambda>r. map_option unat (snd r)) (takeWhile (\<lambda>r. \<not> fst r) rounds)"

lemma min_double_power: "min (min (2 * b) 300 * 2 ^ k) 300 = min (b * 2 ^ Suc k) (300 :: nat)"
proof (cases "2 * b \<le> 300")
  case False
  have "300 \<le> 300 * (2 :: nat) ^ k" "2 * b \<le> 2 * b * 2 ^ k"
    by simp_all
  moreover have "b * 2 ^ Suc k = 2 * b * 2 ^ k"
    by simp
  ultimately have "300 \<le> b * 2 ^ Suc k"
    using False by linarith
  then show ?thesis
    using False \<open>300 \<le> 300 * 2 ^ k\<close> by (simp only: min_absorb2 nat_le_linear)
qed (simp add: mult_ac min_absorb1)

lemma periodic_pauses:
  assumes "unat (sa_interval args) < 2 ^ 63" "backoff_ok b" "run_periodic_sync L E args n b w = (rounds, panicked, w')"
  shows "list_all pause_ok rounds \<and>
    (if panicked then parse_auth_keys E (sa_auth args) = None else length rounds = n) \<and>
    first_pauses rounds = map (\<lambda>k. Some (min (unat b * 2 ^ Suc k) 300)) [0..<length (first_pauses rounds)]"
  using assms(2,3)
proof (induction n arbitrary: b w rounds panicked w')
  case 0
  then show ?case
    by (simp add: first_pauses_def)
next
  case (Suc n)
  obtain o1 w1 where run: "run_sync L E args w = (o1, w1)"
    by fastforce
  show ?case
  proof (cases o1)
    case None
    then show ?thesis
      using Suc.prems run run_sync_panics [of L E args w] by (auto simp: first_pauses_def)
  next
    case (Some r)
    show ?thesis
    proof (cases "is_ok r")
      case True
      obtain b' where b': "after_run (sa_interval args) True b = Some (b', None)" "backoff_ok b'"
        using after_success [OF assms(1)] by blast
      obtain rs p w2 where rs: "run_periodic_sync L E args n b' w1 = (rs, p, w2)"
        by (metis prod_cases3)
      then show ?thesis
        using Suc.IH [OF b'(2) rs] Suc.prems(2) run Some True b'(1)
        by (auto simp: pause_ok_def first_pauses_def)
    next
      case False
      obtain d where d: "after_run (sa_interval args) False b = Some (d, Some d)" "unat d = min (2 * unat b) 300" "backoff_ok d"
        using backoff_ok_after_failure [OF Suc.prems(1)] by blast
      obtain rs p w2 where rs: "run_periodic_sync L E args n d w1 = (rs, p, w2)"
        by (metis prod_cases3)
      then have eq: "rounds = (False, Some d) # rs" "panicked = p"
        using Suc.prems(2) run Some False d(1) by auto
      have "pause_ok (False, Some d)"
        using d(2) Suc.prems(1) by (simp add: pause_ok_def backoff_ok_def)
      moreover have "first_pauses rounds = Some (unat d) # first_pauses rs"
        by (simp add: eq first_pauses_def)
      moreover have "first_pauses rs = map (\<lambda>k. Some (min (unat b * 2 ^ Suc (Suc k)) 300)) [0..<length (first_pauses rs)]"
        using Suc.IH [OF d(3) rs] unfolding d(2) min_double_power by simp
      ultimately show ?thesis
        using Suc.IH [OF d(3) rs] eq d(2)
        by (simp add: map_upt_Suc mult.commute del: upt_Suc)
    qed
  qed
qed

text \<open>C28. The periodic loop, with an interval below \<open>2 ^ 63\<close> seconds: it runs on forever unless the
  authentication key does not parse; a round is followed by a pause exactly when its run failed, and the pause is between 20 and
  300 seconds; the pauses of the failures before the first success are 20, 40, 80, 160 and then 300 seconds.\<close>

theorem sync_backoff_bounded:
  assumes "unat (sa_interval args) < 2 ^ 63" "run_periodic_sync L E args n initial_backoff w = (rounds, panicked, w')"
  shows "list_all pause_ok rounds \<and>
    (if panicked then parse_auth_keys E (sa_auth args) = None else length rounds = n) \<and>
    first_pauses rounds = map (\<lambda>k. Some (min (10 * 2 ^ Suc k) 300)) [0..<length (first_pauses rounds)]"
  using periodic_pauses [OF assms(1) _ assms(2)] by (simp add: backoff_ok_def initial_backoff_def)

text \<open>A database that does not open: three rounds, three pauses.\<close>

theorem sync_backoff_bounded_witness:
  "let E = demo_sync_env\<lparr>se_open := \<lambda>_ _. Inl ''locked''\<rparr>; args = demo_sync_args\<lparr>sa_interval := 60\<rparr>
   in run_periodic_sync demo_lib E args 3 initial_backoff () =
       ([(False, Some 20), (False, Some 40), (False, Some 80)], False, ()) \<and>
      first_pauses [(False, Some 20), (False, Some 40), (False, Some 80)] = [Some 20, Some 40, Some 80]"
proof -
  let ?E = "demo_sync_env\<lparr>se_open := \<lambda>_ _. Inl ''locked''\<rparr>"
  let ?args = "demo_sync_args\<lparr>sa_interval := 60\<rparr>"
  have "run_sync demo_lib ?E ?args () =
      (Some (Inl (AnyhowMsg (''Failed to open database at '' @ debug_str demo_lib ''db''))), ())"
    by (simp add: run_sync_def demo_sync_env_def demo_sync_args_def)
  then have run: "run_periodic_sync demo_lib ?E ?args 3 initial_backoff () =
      ([(False, Some 20), (False, Some 40), (False, Some 80)], False, ())"
    by (simp add: numeral_3_eq_3 after_run_def double_duration_def initial_backoff_def max_backoff_def)
  have "unat (sa_interval ?args) < 2 ^ 63"
    by simp
  from sync_backoff_bounded [OF this run] run show ?thesis
    by (simp add: first_pauses_def Let_def)
qed

end
