(* ===== verification/Http_Service.thy ===== *)
theory Http_Service
  imports Scope_Config Websocket_Connection
begin

text \<open>
  The HTTP side: the connection counter and the relay service of \<open>src/src/handlers.rs\<close>, and the
  connection limit of \<open>src/src/websocket/axum_integration.rs\<close>. The semaphore of the crate \<open>tokio\<close>
  is the parameter record \<open>semaphore\<close>; a permit is given back when the task of its connection ends.
  The HTML page is in \<open>Relay_Page\<close>.
\<close>

section \<open>The connection counter\<close>

text \<open>\<open>fetch_add\<close> and \<open>fetch_sub\<close> on an \<open>AtomicUsize\<close>, which wrap.\<close>

definition connection_counter_new :: "nat option \<Rightarrow> nat option" where
  "connection_counter_new c = map_option (\<lambda>n. (n + 1) mod 2 ^ 64) c"

definition connection_counter_drop :: "nat option \<Rightarrow> nat option" where
  "connection_counter_drop c = map_option (\<lambda>n. (n + 2 ^ 64 - 1) mod 2 ^ 64) c"

section \<open>The relay service\<close>

record relay_info =
  ri_name :: string
  ri_description :: string
  ri_pubkey :: string
  ri_contact :: string
  ri_supported_nips :: "nat list"
  ri_software :: string
  ri_version :: string
  ri_icon :: "string option"

record relay_service =
  rs_relay_info :: relay_info
  rs_connection_counter :: "nat option"
  rs_scope_config :: scope_config

datatype response = ResponseJson relay_info | ResponseStatus nat string

definition service_new :: "relay_info \<Rightarrow> nat option \<Rightarrow> scope_config \<Rightarrow> relay_service" where
  "service_new info counter sc = \<lparr>rs_relay_info = info, rs_connection_counter = counter, rs_scope_config = sc\<rparr>"

definition wants_nostr_json :: "string \<Rightarrow> bool" where
  "wants_nostr_json accept_header \<longleftrightarrow> accept_header = ''application/nostr+json''"

definition connection_count :: "relay_service \<Rightarrow> nat option" where
  "connection_count s = rs_connection_counter s"

text \<open>The address and subdomain are only logged; the guard of the counter lives until the response is
  made.\<close>

definition handle_websocket_upgrade :: "relay_service \<Rightarrow> response \<times> relay_service" where
  "handle_websocket_upgrade s =
     (let s1 = s\<lparr>rs_connection_counter := connection_counter_new (rs_connection_counter s)\<rparr>;
          r = ResponseStatus 501 (''WebSocket upgrade not available through this endpoint. '' @
            ''This is a known limitation of the type-erased handler.'')
      in (r, s1\<lparr>rs_connection_counter := connection_counter_drop (rs_connection_counter s1)\<rparr>))"

text \<open>The request: whether it asks for an upgrade, and its Accept header (\<open>Some None\<close> when it is not
  readable text).\<close>

definition root_handler :: "bool \<Rightarrow> string option option \<Rightarrow> relay_service \<Rightarrow> response \<times> relay_service" where
  "root_handler upgrade accept s =
     (if upgrade then handle_websocket_upgrade s
      else case accept of
        Some (Some v) \<Rightarrow> if wants_nostr_json v then (ResponseJson (rs_relay_info s), s) else (ResponseStatus 404 [], s)
      | _ \<Rightarrow> (ResponseStatus 404 [], s))"

section \<open>The connection limit\<close>

record 'm semaphore =
  sem_new :: "nat \<Rightarrow> 'm"
  sem_try_acquire :: "'m \<Rightarrow> 'm option"
  sem_release :: "'m \<Rightarrow> 'm"

definition connection_limiter :: "'m semaphore \<Rightarrow> connection_config \<Rightarrow> 'm option" where
  "connection_limiter S cfg = map_option (sem_new S) (cc_max_connections cfg)"

record 'm route_state =
  ro_limiter :: "'m option"
  ro_connections :: "string list"

text \<open>A socket that was upgraded: its task takes a permit, or ends at once. When the task of a connection
  ends, the permit is dropped.\<close>

definition ws_upgraded :: "'m semaphore \<Rightarrow> string \<Rightarrow> 'm route_state \<Rightarrow> 'm route_state" where
  "ws_upgraded S addr r = (case ro_limiter r of
     None \<Rightarrow> r\<lparr>ro_connections := addr # ro_connections r\<rparr>
   | Some m \<Rightarrow> (case sem_try_acquire S m of
       Some m' \<Rightarrow> r\<lparr>ro_limiter := Some m', ro_connections := addr # ro_connections r\<rparr>
     | None \<Rightarrow> r))"

definition ws_ended :: "'m semaphore \<Rightarrow> string \<Rightarrow> 'm route_state \<Rightarrow> 'm route_state" where
  "ws_ended S addr r =
     (if addr \<in> set (ro_connections r)
      then r\<lparr>ro_limiter := map_option (sem_release S) (ro_limiter r), ro_connections := remove1 addr (ro_connections r)\<rparr>
      else r)"

inductive route_step :: "'m semaphore \<Rightarrow> 'm route_state \<Rightarrow> 'm route_state \<Rightarrow> bool" for S where
  upgraded: "route_step S r (ws_upgraded S addr r)"
| ended: "route_step S r (ws_ended S addr r)"

definition websocket_route_with_config :: "'m semaphore \<Rightarrow> connection_config \<Rightarrow> 'm route_state" where
  "websocket_route_with_config S cfg = \<lparr>ro_limiter = connection_limiter S cfg, ro_connections = []\<rparr>"

section \<open>Upgrade requests\<close>

text \<open>The extractor of the framework \<open>axum\<close>: an upgrade made of the parts of a request, or a rejection, which is a response.\<close>

record ('p, 'u, 'rej) axum_upgrade =
  ax_from_request_parts :: "'p \<Rightarrow> 'rej + 'u"
  ax_into_response :: "'rej \<Rightarrow> response"

definition upgrade_from_request_parts :: "('p, 'u, 'rej) axum_upgrade \<Rightarrow> 'p \<Rightarrow> response + 'u" where
  "upgrade_from_request_parts A parts = (case ax_from_request_parts A parts of
     Inl rejection \<Rightarrow> Inl (ax_into_response A rejection)
   | Inr inner \<Rightarrow> Inr inner)"

definition optional_upgrade_from_request_parts :: "('p, 'u, 'rej) axum_upgrade \<Rightarrow> 'p \<Rightarrow> response + 'u option" where
  "optional_upgrade_from_request_parts A parts = (case ax_from_request_parts A parts of
     Inr inner \<Rightarrow> Inr (Some inner)
   | Inl _ \<Rightarrow> Inr None)"

text \<open>The task of an upgraded socket: without a permit it ends at once, and no handler is made; with one the factory makes
  the handler, the handler runs the socket, and the permit is dropped at the end.\<close>

definition ws_handler_task ::
  "'m semaphore \<Rightarrow> ('h \<Rightarrow> 's ws_handler \<times> 's) \<Rightarrow> connection_config \<Rightarrow> 'h \<Rightarrow> nat \<Rightarrow> (nat \<times> ws_item \<times> nat) list
     \<Rightarrow> 'm option \<Rightarrow> (socket_end \<times> nat \<times> 's) option \<times> 'm option" where
  "ws_handler_task S create config headers now items limiter =
     (let run = (let (H, s) = create headers in handle_socket config H now items s)
      in case limiter of
           None \<Rightarrow> (Some run, None)
         | Some m \<Rightarrow> (case sem_try_acquire S m of
             Some permit \<Rightarrow> (Some run, Some (sem_release S permit))
           | None \<Rightarrow> (None, Some m)))"

section \<open>Results\<close>

text \<open>What \<open>tokio\<close> documents of a semaphore: \<open>free\<close> is the number of available permits.\<close>

definition semaphore_counts :: "'m semaphore \<Rightarrow> ('m \<Rightarrow> nat) \<Rightarrow> bool" where
  "semaphore_counts S free \<longleftrightarrow> (\<forall>n. free (sem_new S n) = n) \<and> (\<forall>m. free (sem_release S m) = free m + 1) \<and>
     (\<forall>m. case sem_try_acquire S m of None \<Rightarrow> free m = 0 | Some m' \<Rightarrow> free m = free m' + 1)"

definition permits_ok :: "('m \<Rightarrow> nat) \<Rightarrow> nat option \<Rightarrow> 'm route_state \<Rightarrow> bool" where
  "permits_ok free limit r \<longleftrightarrow> (case (limit, ro_limiter r) of
     (None, None) \<Rightarrow> True
   | (Some n, Some m) \<Rightarrow> free m + length (ro_connections r) = n
   | _ \<Rightarrow> False)"

lemma route_step_permits:
  assumes "semaphore_counts S free" "route_step S r r'" "permits_ok free limit r"
  shows "permits_ok free limit r'"
  using assms(2)
proof cases
  case (upgraded addr)
  show ?thesis
  proof (cases "ro_limiter r")
    case (Some m)
    have "case sem_try_acquire S m of None \<Rightarrow> free m = 0 | Some m' \<Rightarrow> free m = free m' + 1"
      using assms(1) by (simp add: semaphore_counts_def)
    then show ?thesis
      using assms(3) Some by (auto simp: upgraded ws_upgraded_def permits_ok_def split: option.splits)
  qed (use assms(3) upgraded in \<open>auto simp: ws_upgraded_def permits_ok_def split: option.splits\<close>)
next
  case (ended addr)
  then show ?thesis
    using assms(1,3) by (auto simp: ws_ended_def permits_ok_def semaphore_counts_def length_remove1 neq_Nil_conv
        split: option.splits dest: length_pos_if_in_set)
qed

lemma route_reachable_permits:
  assumes "semaphore_counts S free" "(route_step S)\<^sup>*\<^sup>* (websocket_route_with_config S cfg) r"
  shows "permits_ok free (cc_max_connections cfg) r"
  using assms(2)
proof (induction rule: rtranclp_induct)
  case base
  show ?case
    using assms(1) by (simp add: websocket_route_with_config_def connection_limiter_def permits_ok_def semaphore_counts_def
        split: option.split)
next
  case (step r1 r2)
  show ?case
    by (rule route_step_permits [OF assms(1) step(2,3)])
qed

text \<open>C40. The connection limit. In every reachable state of a route with a limit, the number of
  connections is at most the limit, and the next socket is served exactly when it is below it; a
  connection that ends makes room again. Without a limit every socket is served.\<close>

theorem connection_limit_respected:
  assumes "semaphore_counts S free" "(route_step S)\<^sup>*\<^sup>* (websocket_route_with_config S cfg) r"
  shows "(\<forall>n. cc_max_connections cfg = Some n \<longrightarrow> length (ro_connections r) \<le> n) \<and>
    ro_connections (ws_upgraded S addr r) =
      (if \<forall>n. cc_max_connections cfg = Some n \<longrightarrow> length (ro_connections r) < n
       then addr # ro_connections r else ro_connections r)"
proof -
  have ok: "permits_ok free (cc_max_connections cfg) r"
    by (rule route_reachable_permits [OF assms])
  have acquire: "case sem_try_acquire S m of None \<Rightarrow> free m = 0 | Some m' \<Rightarrow> free m = free m' + 1" for m
    using assms(1) by (simp add: semaphore_counts_def)
  show ?thesis
  proof (cases "ro_limiter r")
    case None
    then show ?thesis
      using ok by (auto simp: permits_ok_def ws_upgraded_def split: option.splits)
  next
    case (Some m)
    then obtain n where "cc_max_connections cfg = Some n" "free m + length (ro_connections r) = n"
      using ok by (auto simp: permits_ok_def split: option.splits)
    then show ?thesis
      using acquire [of m] Some by (auto simp: ws_upgraded_def split: option.splits)
  qed
qed

text \<open>The optional extractor takes any request; the plain one refuses exactly those it turns into \<open>None\<close>.\<close>

lemma optional_upgrade:
  "optional_upgrade_from_request_parts A parts =
     Inr (case upgrade_from_request_parts A parts of Inl _ \<Rightarrow> None | Inr inner \<Rightarrow> Some inner)"
  by (simp add: optional_upgrade_from_request_parts_def upgrade_from_request_parts_def split: sum.split)

text \<open>A task gives back the permit it took; it serves its socket exactly when there is one, or no limit.\<close>

lemma ws_handler_task_permits:
  assumes "semaphore_counts S free" "ws_handler_task S create config headers now items limiter = (res, limiter')"
  shows "map_option free limiter' = map_option free limiter" "(res = None) = (\<exists>m. limiter = Some m \<and> free m = 0)"
proof -
  have "map_option free limiter' = map_option free limiter \<and> (res = None) = (\<exists>m. limiter = Some m \<and> free m = 0)"
  proof (cases limiter)
    case None
    then show ?thesis
      using assms(2) by (auto simp: ws_handler_task_def Let_def)
  next
    case (Some m)
    have acquire: "case sem_try_acquire S m of None \<Rightarrow> free m = 0 | Some m' \<Rightarrow> free m = free m' + 1"
      and release: "free (sem_release S m') = free m' + 1" for m'
      using assms(1) by (simp_all add: semaphore_counts_def)
    show ?thesis
      using assms(2) acquire release Some by (cases "sem_try_acquire S m") (auto simp: ws_handler_task_def Let_def)
  qed
  then show "map_option free limiter' = map_option free limiter" "(res = None) = (\<exists>m. limiter = Some m \<and> free m = 0)"
    by simp_all
qed

definition counting_semaphore :: "nat semaphore" where
  "counting_semaphore = \<lparr>sem_new = (\<lambda>n. n), sem_try_acquire = (\<lambda>n. if n = 0 then None else Some (n - 1)),
     sem_release = (\<lambda>n. n + 1)\<rparr>"

theorem connection_limit_respected_witness:
  "let S = counting_semaphore; cfg = \<lparr>cc_max_connections = Some 1, cc_max_connection_duration = None, cc_idle_timeout = None\<rparr>;
       r = ws_upgraded S ''a'' (websocket_route_with_config S cfg)
   in ro_connections r = [''a''] \<and> ro_connections (ws_upgraded S ''b'' r) = [''a'']"
proof -
  let ?cfg = "\<lparr>cc_max_connections = Some 1, cc_max_connection_duration = None, cc_idle_timeout = None\<rparr>"
  let ?r = "ws_upgraded counting_semaphore ''a'' (websocket_route_with_config counting_semaphore ?cfg)"
  have counts: "semaphore_counts counting_semaphore id"
    by (simp add: semaphore_counts_def counting_semaphore_def)
  have first: "ro_connections ?r = [''a'']"
    by (simp add: ws_upgraded_def websocket_route_with_config_def connection_limiter_def counting_semaphore_def)
  have "(route_step counting_semaphore)\<^sup>*\<^sup>* (websocket_route_with_config counting_semaphore ?cfg) ?r"
    by (rule r_into_rtranclp) (rule route_step.upgraded)
  from connection_limit_respected [OF counts this, of "''b''"] show ?thesis
    by (simp add: first [unfolded One_nat_def] Let_def)
qed

text \<open>The type-erased service serves no WebSocket at all: every upgrade is answered with status 501, and
  its connection counter is as before.\<close>

lemma service_never_upgrades:
  assumes "\<forall>n. rs_connection_counter s = Some n \<longrightarrow> n < 2 ^ 64"
  shows "\<exists>body. root_handler True accept s = (ResponseStatus 501 body, s)"
proof -
  have "connection_counter_drop (connection_counter_new (rs_connection_counter s)) = rs_connection_counter s"
  proof (cases "rs_connection_counter s")
    case (Some n)
    have "((n + 1) mod 2 ^ 64 + 2 ^ 64 - 1) mod 2 ^ 64 = n" if "n < 2 ^ 64" for n :: nat
    proof (cases "n + 1 < 2 ^ 64")
      case False
      then have "n = 2 ^ 64 - 1" using that by simp
      then show ?thesis by simp
    qed simp
    then show ?thesis
      using assms Some by (simp add: connection_counter_drop_def connection_counter_new_def)
  qed (simp add: connection_counter_drop_def connection_counter_new_def)
  then show ?thesis
    by (simp add: root_handler_def handle_websocket_upgrade_def Let_def)
qed


end
