(* ===== verification/Relay_Page.thy ===== *)
theory Relay_Page
  imports Http_Service Connection_State
begin

text \<open>
  The HTML page of a relay, \<open>default_relay_html\<close> of \<open>src/src/handlers.rs\<close>, line by line. Values are put into
  the page as they are.
\<close>

definition html_icon :: "relay_info \<Rightarrow> string" where
  "html_icon i = (case ri_icon i of
     Some url \<Rightarrow> ''<img src=\"'' @ url @ ''\" alt=\"'' @ ri_name i @ '' icon\" class=\"icon\">''
   | None \<Rightarrow> [])"

definition html_nips :: "relay_info \<Rightarrow> string" where
  "html_nips i = concat (map (\<lambda>nip. ''<span class=\"nip-badge\">NIP-'' @ nat_str nip @ ''</span>'') (ri_supported_nips i))"

definition html_style :: "string list" where
  "html_style = [
     ''    <style>'',
     ''        body {'',
     ''            font-family: -apple-system, BlinkMacSystemFont, '' @ [CHR 0x27] @ ''Segoe UI'' @ [CHR 0x27] @ '', Roboto, Oxygen, Ubuntu, sans-serif;'',
     ''            max-width: 800px;'',
     ''            margin: 0 auto;'',
     ''            padding: 20px;'',
     ''            background-color: #f5f5f5;'',
     ''            color: #333;'',
     ''        }'',
     ''        .container {'',
     ''            background-color: white;'',
     ''            padding: 30px;'',
     ''            border-radius: 10px;'',
     ''            box-shadow: 0 2px 4px rgba(0,0,0,0.1);'',
     ''        }'',
     ''        h1 {'',
     ''            color: #6200ea;'',
     ''            margin-bottom: 10px;'',
     ''        }'',
     ''        .description {'',
     ''            font-size: 1.1em;'',
     ''            color: #666;'',
     ''            margin-bottom: 30px;'',
     ''        }'',
     ''        .info-section {'',
     ''            margin: 20px 0;'',
     ''        }'',
     ''        .info-section h2 {'',
     ''            color: #444;'',
     ''            font-size: 1.2em;'',
     ''            margin-bottom: 10px;'',
     ''        }'',
     ''        .info-item {'',
     ''            display: flex;'',
     ''            padding: 8px 0;'',
     ''            border-bottom: 1px solid #eee;'',
     ''        }'',
     ''        .info-label {'',
     ''            font-weight: 600;'',
     ''            width: 150px;'',
     ''            color: #555;'',
     ''        }'',
     ''        .info-value {'',
     ''            flex: 1;'',
     ''            color: #666;'',
     ''            word-break: break-all;'',
     ''        }'',
     ''        .nip-list {'',
     ''            display: flex;'',
     ''            flex-wrap: wrap;'',
     ''            gap: 8px;'',
     ''            margin-top: 5px;'',
     ''        }'',
     ''        .nip-badge {'',
     ''            background-color: #6200ea;'',
     ''            color: white;'',
     ''            padding: 4px 8px;'',
     ''            border-radius: 4px;'',
     ''            font-size: 0.85em;'',
     ''        }'',
     ''        .endpoint {'',
     ''            background-color: #f5f5f5;'',
     ''            padding: 10px;'',
     ''            border-radius: 4px;'',
     ''            font-family: monospace;'',
     ''            margin: 10px 0;'',
     ''        }'',
     ''        .icon {'',
     ''            width: 64px;'',
     ''            height: 64px;'',
     ''            border-radius: 8px;'',
     ''            margin-bottom: 20px;'',
     ''        }'',
     ''        a {'',
     ''            color: #6200ea;'',
     ''            text-decoration: none;'',
     ''        }'',
     ''        a:hover {'',
     ''            text-decoration: underline;'',
     ''        }'',
     ''    </style>'',
     ''</head>'']"

definition html_body :: "relay_info \<Rightarrow> string list" where
  "html_body i = [
     ''<body>'',
     ''    <div class=\"container\">'',
     ''        '' @ html_icon i,
     ''        <h1>'' @ ri_name i @ ''</h1>'',
     ''        <p class=\"description\">'' @ ri_description i @ ''</p>'',
     [],
     ''        <div class=\"info-section\">'',
     ''            <h2>Connection Info</h2>'',
     ''            <div class=\"endpoint\">'',
     ''                WebSocket Endpoint: <strong id=\"websocket-url\"></strong>'',
     ''            </div>'',
     ''        </div>'',
     [],
     ''        <div class=\"info-section\">'',
     ''            <h2>Relay Details</h2>'',
     ''            <div class=\"info-item\">'',
     ''                <span class=\"info-label\">Public Key:</span>'',
     ''                <span class=\"info-value\">'' @ ri_pubkey i @ ''</span>'',
     ''            </div>'',
     ''            <div class=\"info-item\">'',
     ''                <span class=\"info-label\">Contact:</span>'',
     ''                <span class=\"info-value\">'' @ ri_contact i @ ''</span>'',
     ''            </div>'',
     ''            <div class=\"info-item\">'',
     ''                <span class=\"info-label\">Software:</span>'',
     ''                <span class=\"info-value\">'' @ ri_software i @ '' v'' @ ri_version i @ ''</span>'',
     ''            </div>'',
     ''        </div>'',
     [],
     ''        <div class=\"info-section\">'',
     ''            <h2>Supported NIPs</h2>'',
     ''            <div class=\"nip-list\">'',
     ''                '' @ html_nips i,
     ''            </div>'',
     ''        </div>'',
     [],
     ''        <div class=\"info-section\">'',
     ''            <h2>Usage</h2>'',
     ''            <p>Connect to this relay using any Nostr client that supports the WebSocket protocol.</p>'',
     ''            <p>For relay information in JSON format, send a request with <code>Accept: application/nostr+json</code></p>'',
     ''        </div>'',
     ''    </div>'',
     []]"

definition html_script :: "string list" where
  "html_script = [
     ''    <script>'',
     ''        // Dynamically set the WebSocket URL based on current protocol and hostname'',
     ''        document.addEventListener('' @ [CHR 0x27] @ ''DOMContentLoaded'' @ [CHR 0x27] @ '', function() {'',
     ''            const protocol = window.location.protocol === '' @ [CHR 0x27] @ ''https:'' @ [CHR 0x27] @ '' ? '' @ [CHR 0x27] @ ''wss:'' @ [CHR 0x27] @ '' : '' @ [CHR 0x27] @ ''ws:'' @ [CHR 0x27] @ '';'',
     ''            const host = window.location.host; // includes hostname and port if present'',
     ''            const websocketUrl = protocol + '' @ [CHR 0x27] @ ''//'' @ [CHR 0x27] @ '' + host;'',
     ''            document.getElementById('' @ [CHR 0x27] @ ''websocket-url'' @ [CHR 0x27] @ '').textContent = websocketUrl;'',
     ''        });'',
     ''    </script>'',
     ''</body>'',
     ''</html>'']"

definition default_relay_html :: "relay_info \<Rightarrow> string" where
  "default_relay_html i = str_join [CHR 0x0A] ([
     ''<!DOCTYPE html>'',
     ''<html lang=\"en\">'',
     ''<head>'',
     ''    <meta charset=\"UTF-8\">'',
     ''    <meta name=\"viewport\" content=\"width=device-width, initial-scale=1.0\">'',
     ''    <title>'' @ ri_name i @ '' - Nostr Relay</title>''] @ html_style @ html_body i @ html_script)"

text \<open>A value is not escaped: the page holds the name as it is, in the title and in the heading.\<close>

lemma str_join_prefix: "xs \<noteq> [] \<Longrightarrow> str_join sep (xs @ ys) = str_join sep xs @ (if ys = [] then [] else sep @ str_join sep ys)"
  by (cases "ys = []") (simp_all add: str_join_append)

lemma page_shows_line: "l \<in> set ls \<Longrightarrow> \<exists>a b. str_join sep ls = a @ l @ b"
proof -
  assume "l \<in> set ls"
  then obtain xs ys where ls: "ls = xs @ l # ys"
    by (meson split_list)
  have "\<exists>b. str_join sep (l # ys) = l @ b"
    by (cases ys) auto
  then obtain b where b: "str_join sep (l # ys) = l @ b"
    by blast
  show ?thesis
  proof (cases "xs = []")
    case True
    then show ?thesis
      using ls b by (intro exI [of _ "[]"] exI [of _ b]) simp
  next
    case False
    then have "str_join sep ls = (str_join sep xs @ sep) @ l @ b"
      using ls b by (simp add: str_join_prefix)
    then show ?thesis
      by blast
  qed
qed

lemma page_not_escaped: "\<exists>a b. default_relay_html i = a @ (''        <h1>'' @ ri_name i @ ''</h1>'') @ b"
proof -
  have "''        <h1>'' @ ri_name i @ ''</h1>'' \<in> set (html_body i)"
    by (simp only: html_body_def list.set insert_iff simp_thms)
  then show ?thesis
    unfolding default_relay_html_def by (intro page_shows_line) simp
qed

end
