(* ===== verification/Relay_Binary.thy ===== *)
theory Relay_Binary
  imports Relay_Page Relay_Properties
begin

text \<open>
  The shipped relay, \<open>src/src/bin/relay.rs\<close>: its settings from the environment, the configuration and
  middleware chain it builds, the root route and the health route. The environment is a function from
  variable names to values; a value that is not Unicode counts as absent there. Parsing and binding the
  socket address, generating the keys, and the limiter of the crate \<open>governor\<close> made from two quotas are parameters.
  The direct upgrade functions of \<open>src/src/websocket/axum_integration.rs\<close> are here as well. Tracing, the signal handler and the graceful
  shutdown are left out.
\<close>

section \<open>Settings\<close>

type_synonym environment = "string \<Rightarrow> string option"

definition env_or :: "environment \<Rightarrow> string \<Rightarrow> string \<Rightarrow> string" where
  "env_or env key dflt = (case env key of Some v \<Rightarrow> v | None \<Rightarrow> dflt)"

text \<open>\<open>env_parse\<close> at an unsigned type of \<open>w\<close> bits, at most 64.\<close>

definition parse_unsigned :: "nat \<Rightarrow> string \<Rightarrow> nat option" where
  "parse_unsigned w s = (case parse_u64 s of Some n \<Rightarrow> if n < 2 ^ w then Some n else None | None \<Rightarrow> None)"

definition env_parse :: "environment \<Rightarrow> nat \<Rightarrow> string \<Rightarrow> nat \<Rightarrow> nat" where
  "env_parse env w key dflt = (case Option.bind (env key) (parse_unsigned w) of Some n \<Rightarrow> n | None \<Rightarrow> dflt)"

record relay_settings =
  se_port :: nat
  se_bind :: string
  se_data_dir :: string
  se_relay_url :: string
  se_relay_name :: string
  se_relay_description :: string
  se_relay_contact :: string
  se_relay_icon :: "string option"
  se_max_connections :: nat
  se_max_subscriptions :: nat
  se_max_subscription_limit :: nat
  se_max_connection_duration :: nat
  se_idle_timeout :: nat
  se_rate_limit_per_second :: nat
  se_rate_limit_global :: nat

definition read_settings :: "environment \<Rightarrow> relay_settings" where
  "read_settings env = (let port = env_parse env 16 ''RELAY_PORT'' 8080 in
     \<lparr>se_port = port, se_bind = env_or env ''RELAY_BIND'' ''0.0.0.0'',
       se_data_dir = env_or env ''RELAY_DATA_DIR'' ''./data'',
       se_relay_url = env_or env ''RELAY_URL'' (''ws://localhost:'' @ nat_str port),
       se_relay_name = env_or env ''RELAY_NAME'' ''Nostr Relay'',
       se_relay_description = env_or env ''RELAY_DESCRIPTION'' ''A relay built with relay_builder'',
       se_relay_contact = env_or env ''RELAY_CONTACT'' [],
       se_relay_icon = (case env ''RELAY_ICON'' of Some s \<Rightarrow> if s = [] then None else Some s | None \<Rightarrow> None),
       se_max_connections = env_parse env 64 ''MAX_CONNECTIONS'' 1000,
       se_max_subscriptions = env_parse env 64 ''MAX_SUBSCRIPTIONS'' 100,
       se_max_subscription_limit = env_parse env 64 ''MAX_SUBSCRIPTION_LIMIT'' 5000,
       se_max_connection_duration = env_parse env 64 ''MAX_CONNECTION_DURATION'' 3600,
       se_idle_timeout = env_parse env 64 ''IDLE_TIMEOUT'' 300,
       se_rate_limit_per_second = env_parse env 32 ''RATE_LIMIT_PER_SECOND'' 10,
       se_rate_limit_global = env_parse env 32 ''RATE_LIMIT_GLOBAL'' 0\<rparr>)"

text \<open>Zero means no limit.\<close>

definition positive :: "nat \<Rightarrow> nat option" where
  "positive n = (if n > 0 then Some n else None)"

definition binary_ws_config :: "relay_settings \<Rightarrow> websocket_config" where
  "binary_ws_config s = \<lparr>wc_max_connections = Some (se_max_connections s),
     wc_max_connection_duration = positive (se_max_connection_duration s),
     wc_idle_timeout = positive (se_idle_timeout s)\<rparr>"

definition binary_config :: "relay_settings \<Rightarrow> pubkey \<Rightarrow> 'd relay_config" where
  "binary_config s keys = with_subscription_limits (se_max_subscriptions s) (se_max_subscription_limit s)
     (with_websocket_config (binary_ws_config s)
       ((relay_config_new (se_relay_url s) (DbPath (se_data_dir s)) keys)\<lparr>rc_enable_auth := True\<rparr>))"

text \<open>\<open>hex\<close> prints the public key, \<open>version\<close> is that of the package.\<close>

definition binary_info :: "(pubkey \<Rightarrow> string) \<Rightarrow> string \<Rightarrow> relay_settings \<Rightarrow> pubkey \<Rightarrow> relay_info" where
  "binary_info hex version s keys = \<lparr>ri_name = se_relay_name s, ri_description = se_relay_description s,
     ri_pubkey = hex keys, ri_contact = se_relay_contact s, ri_supported_nips = [1, 9, 11, 40, 42, 70],
     ri_software = ''relay_builder'', ri_version = version, ri_icon = se_relay_icon s\<rparr>"

text \<open>\<open>governor q g\<close> is the limiter with the quota \<open>q\<close> per second and connection, and \<open>g\<close> for all.\<close>

definition binary_rate_limiter :: "(nat \<Rightarrow> nat option \<Rightarrow> 'l rate_limiter) \<Rightarrow> relay_settings \<Rightarrow> 'l rate_limiter" where
  "binary_rate_limiter governor s = (let effective_rate =
       (if se_rate_limit_per_second s > 0 then se_rate_limit_per_second s else 2 ^ 32 - 1)
     in governor effective_rate (positive (se_rate_limit_global s)))"

definition binary_connection_config :: "relay_settings \<Rightarrow> connection_config" where
  "binary_connection_config s = (let ws_config = binary_ws_config s in
     \<lparr>cc_max_connections = wc_max_connections ws_config, cc_max_connection_duration = wc_max_connection_duration ws_config,
       cc_idle_timeout = wc_idle_timeout ws_config\<rparr>)"

section \<open>Starting\<close>

definition binary_middlewares ::
  "nostr_lib \<Rightarrow> 'db lmdb \<Rightarrow> 'l rate_limiter \<Rightarrow> ('t, 'n, 'db, 'l) env middleware list" where
  "binary_middlewares L D G = [nip40_middleware L D, nip70_middleware L, rate_limit_middleware G]"

text \<open>The handles it makes (the first of their kind) and shares with the builder.\<close>

definition binary_builder :: "relay_settings \<Rightarrow> pubkey \<Rightarrow> (unit, 'd, unit) relay_builder" where
  "binary_builder s keys =
     connection_counter 0 (cancellation_token 0 (task_tracker 0 (relay_builder_new (binary_config s keys))))"

record ('m, 'db) running_relay =
  rr_factory :: "'m handler_factory"
  rr_world :: "'db world"
  rr_connection_config :: connection_config
  rr_info :: relay_info
  rr_addr :: string

definition relay_binary ::
  "nostr_lib \<Rightarrow> 'db lmdb \<Rightarrow> ('n, 's) negentropy_lib \<Rightarrow> 'db db_opener \<Rightarrow> (string \<Rightarrow> bool)
     \<Rightarrow> (nat \<Rightarrow> nat option \<Rightarrow> 'l rate_limiter) \<Rightarrow> (pubkey \<Rightarrow> string) \<Rightarrow> string \<Rightarrow> (string \<Rightarrow> string + string) \<Rightarrow> (string \<Rightarrow> string + unit)
     \<Rightarrow> environment \<Rightarrow> pubkey
     \<Rightarrow> (anyhow_error + ((unit, 'n, 'db, 'l) env middleware, 'db) running_relay) option" where
  "relay_binary L D N opener url_ok governor hex version parse_addr tcp_bind env keys =
     (let s = read_settings env
      in case build_with L D N opener url_ok False
             (fold builder_with (binary_middlewares L D (binary_rate_limiter governor s))) (binary_builder s keys) of
           None \<Rightarrow> None
         | Some (Inl err) \<Rightarrow> Some (Inl (FromError err))
         | Some (Inr (F, w, _)) \<Rightarrow> (case parse_addr (se_bind s @ '':'' @ nat_str (se_port s)) of
             Inl err \<Rightarrow> Some (Inl (AnyhowMsg err))
           | Inr addr \<Rightarrow> (case tcp_bind addr of
               Inl err \<Rightarrow> Some (Inl (AnyhowMsg err))
             | Inr _ \<Rightarrow> Some (Inr \<lparr>rr_factory = F, rr_world = w, rr_connection_config = binary_connection_config s,
                 rr_info = binary_info hex version s keys, rr_addr = addr\<rparr>))))"

section \<open>Routes\<close>

definition connection_config_default :: connection_config where
  "connection_config_default = \<lparr>cc_max_connections = None, cc_max_connection_duration = None, cc_idle_timeout = None\<rparr>"

text \<open>A direct upgrade runs the socket with the configuration; there is no limiter on this way.\<close>

definition handle_upgrade_with_config ::
  "'s ws_handler \<Rightarrow> connection_config \<Rightarrow> nat \<Rightarrow> (nat \<times> ws_item \<times> nat) list \<Rightarrow> 's \<Rightarrow> socket_end \<times> nat \<times> 's" where
  "handle_upgrade_with_config H cfg now items s = handle_socket cfg H now items s"

definition handle_upgrade ::
  "'s ws_handler \<Rightarrow> nat \<Rightarrow> (nat \<times> ws_item \<times> nat) list \<Rightarrow> 's \<Rightarrow> socket_end \<times> nat \<times> 's" where
  "handle_upgrade H now items s = handle_upgrade_with_config H connection_config_default now items s"

definition websocket_route :: "'m semaphore \<Rightarrow> 'm route_state" where
  "websocket_route S = websocket_route_with_config S connection_config_default"

datatype 'm root_reply = RootUpgrade "'m nostr_connection" connection_config | RootJson relay_info | RootHtml string

text \<open>The root route. The request: the channel of the new connection if it asks for an upgrade, the host, and
  the Accept header (\<open>Some None\<close> when it is not readable text).\<close>

definition binary_root ::
  "nostr_lib \<Rightarrow> ('m, 'db) running_relay \<Rightarrow> channel option \<Rightarrow> string option \<Rightarrow> string option option \<Rightarrow> 'm root_reply" where
  "binary_root L R ws host accept = (case ws of
     Some ch \<Rightarrow> RootUpgrade (create L (rr_factory R) ch host) (rr_connection_config R)
   | None \<Rightarrow>
       if accept = Some (Some ''application/nostr+json'') then RootJson (rr_info R)
       else RootHtml (default_relay_html (rr_info R)))"

text \<open>The counter of the health route is shared with the builder, which keeps it for the handlers of the relay service;
  the sockets of this binary do not touch it.\<close>

record binary_http =
  bh_counter :: nat
  bh_connections :: "string list"

definition binary_http_init :: binary_http where
  "binary_http_init = \<lparr>bh_counter = 0, bh_connections = []\<rparr>"

definition health :: "binary_http \<Rightarrow> string \<times> nat" where
  "health h = (''ok'', bh_counter h)"

definition binary_upgraded :: "connection_config \<Rightarrow> string \<Rightarrow> binary_http \<Rightarrow> binary_http" where
  "binary_upgraded cfg addr h = h\<lparr>bh_connections := addr # bh_connections h\<rparr>"

definition binary_ended :: "string \<Rightarrow> binary_http \<Rightarrow> binary_http" where
  "binary_ended addr h = h\<lparr>bh_connections := remove1 addr (bh_connections h)\<rparr>"

inductive binary_http_step :: "connection_config \<Rightarrow> binary_http \<Rightarrow> binary_http \<Rightarrow> bool" for cfg where
  upgraded: "binary_http_step cfg h (binary_upgraded cfg addr h)"
| ended: "binary_http_step cfg h (binary_ended addr h)"

section \<open>Results\<close>

text \<open>Whatever MAX_CONNECTIONS says, any number of sockets is served.\<close>

lemma binary_unlimited_connections:
  "\<exists>h. (binary_http_step cfg)\<^sup>*\<^sup>* binary_http_init h \<and> bh_connections h = addrs"
proof (induction addrs)
  case Nil
  show ?case
    by (intro exI [of _ binary_http_init]) (simp add: binary_http_init_def)
next
  case (Cons a addrs)
  then obtain h where "(binary_http_step cfg)\<^sup>*\<^sup>* binary_http_init h" "bh_connections h = addrs"
    by blast
  then show ?case
    using rtranclp.rtrancl_into_rtrancl [of "binary_http_step cfg" binary_http_init h "binary_upgraded cfg a h"]
      binary_http_step.upgraded [of cfg h a]
    by (intro exI [of _ "binary_upgraded cfg a h"]) (simp add: binary_upgraded_def)
qed

text \<open>The health route always reports no connection.\<close>

lemma health_always_zero:
  assumes "(binary_http_step cfg)\<^sup>*\<^sup>* binary_http_init h"
  shows "health h = (''ok'', 0)"
  using assms
proof (induction rule: rtranclp_induct)
  case (step h1 h2)
  from step(2,3) show ?case
    by cases (simp_all add: binary_upgraded_def binary_ended_def health_def)
qed (simp add: health_def binary_http_init_def)

section \<open>The chain of the shipped relay\<close>

lemma relay_binary_build:
  assumes "relay_binary L D N opener url_ok governor hex version parse_addr tcp_bind env keys = Some (Inr R)"
  shows "\<exists>diag. build_with L D N opener url_ok False
      (fold builder_with (binary_middlewares L D (binary_rate_limiter governor (read_settings env))))
      (binary_builder (read_settings env) keys) =
    Some (Inr (rr_factory R, rr_world R, diag))"
  using assms by (auto simp: relay_binary_def Let_def split: option.splits sum.splits)

lemmas binary_builder_defs = binary_builder_def relay_builder_new_def connection_counter_def cancellation_token_def task_tracker_def

text \<open>Its buffer task listens to the token of the shutdown.\<close>

lemma binary_background_tasks: "BufferTask (Some 0) \<in> set (background_tasks (binary_builder s keys))"
  by (simp add: background_tasks_def binary_builder_defs)

lemma binary_builder_fields:
  "\<not> rb_without_defaults (binary_builder s keys)" "\<not> rb_enable_metrics (binary_builder s keys)"
  "rb_config (binary_builder s keys) = binary_config s keys"
  by (simp_all add: binary_builder_defs)

lemma binary_config_fields:
  "rc_enable_auth (binary_config s keys)" "rc_max_subscriptions (binary_config s keys) = se_max_subscriptions s"
  "rc_max_limit (binary_config s keys) = se_max_subscription_limit s" "rc_relay_url (binary_config s keys) = se_relay_url s"
  "rc_scope_config (binary_config s keys) = Disabled"
  by (simp_all add: binary_config_def with_subscription_limits_def with_websocket_config_def relay_config_new_def)

definition binary_relay_middleware :: "relay_settings \<Rightarrow> unit relay_middleware" where
  "binary_relay_middleware s = \<lparr>rm_processor = default_processor, rm_max_limit = se_max_subscription_limit s,
     rm_max_subscriptions = positive (se_max_subscriptions s)\<rparr>"

lemma binary_relay_middleware_of: "relay_middleware_of (binary_builder s keys) = binary_relay_middleware s"
  by (simp add: relay_middleware_of_def binary_builder_fields binary_config_fields relay_max_subscriptions_def
      binary_relay_middleware_def positive_def) (simp add: binary_builder_defs)

lemma binary_blind: "\<forall>mw \<in> set (binary_middlewares L D G). registry_blind mw"
  by (simp add: binary_middlewares_def nip40_blind.registry_blind_axioms nip70_blind.registry_blind_axioms
      rate_limit_blind.registry_blind_axioms)

text \<open>What the relay runs on every connection, whatever the environment: NIP-40, NIP-70 and the rate limiter around the
  relay middleware, NIP-42 around them, then error handling and the logger.\<close>

lemma binary_chain:
  assumes "relay_binary L D N opener url_ok governor hex version parse_addr tcp_bind env keys = Some (Inr R)"
  shows "hf_chain (rr_factory R) = cb_chain (fold builder_with
    [relay_mw L D N (binary_relay_middleware (read_settings env)),
     nip40_middleware L D, nip70_middleware L, rate_limit_middleware (binary_rate_limiter governor (read_settings env)),
     either_middleware (RightM identity_middleware),
     either_middleware (LeftM (nip42_middleware L (auth_with_url (se_relay_url (read_settings env))))),
     either_middleware (LeftM (error_handling_middleware L)), either_middleware (LeftM logger_middleware)] builder_new)"
proof -
  obtain diag where b: "build_with L D N opener url_ok False
      (fold builder_with (binary_middlewares L D (binary_rate_limiter governor (read_settings env))))
      (binary_builder (read_settings env) keys) =
    Some (Inr (rr_factory R, rr_world R, diag))"
    using relay_binary_build [OF assms] by blast
  then show ?thesis
    by (auto simp: build_with_def Let_def final_chain_def binary_builder_fields binary_config_fields metrics_layer_def
        binary_middlewares_def binary_relay_middleware_of split: if_splits sum.splits dest!: sym [of _ "rr_factory R"])
qed

lemma inbound_link_eta: "process_inbound_chain (CLink mw nxt pos ms) = mw_process_inbound mw ms (process_inbound_chain nxt)"
  by (intro ext) simp

lemma passing_layers_inbound:
  "mw_process_inbound (either_middleware (LeftM (nip42_middleware L ac))) ms nxt = nip42_inbound L ac ms nxt"
  "mw_process_inbound (either_middleware (LeftM (error_handling_middleware L))) ms nxt = error_handling_inbound L ms nxt"
  "mw_process_inbound (either_middleware (LeftM logger_middleware)) ms nxt = nxt"
  "mw_process_inbound (either_middleware (RightM identity_middleware)) ms nxt = nxt"
  by (intro ext; simp add: either_middleware_def middleware_defs identity_middleware_def)+

lemma binary_event_inbound:
  assumes "relay_binary L D N opener url_ok governor hex version parse_addr tcp_bind env keys = Some (Inr R)"
  shows "process_inbound_chain (build_connected ch (hf_chain (rr_factory R))) (Some (CM_Event ev)) e =
    error_handling_inbound L \<lparr>ms_channel = ch, ms_position = 6\<rparr>
      (rate_limit_inbound (binary_rate_limiter governor (read_settings env)) \<lparr>ms_channel = ch, ms_position = 3\<rparr>
        (nip70_inbound L \<lparr>ms_channel = ch, ms_position = 2\<rparr>
          (nip40_inbound L D \<lparr>ms_channel = ch, ms_position = 1\<rparr>
            (relay_inbound L D N (binary_relay_middleware (read_settings env))
              \<lparr>ms_channel = ch, ms_position = 0\<rparr> (process_inbound_chain CEnd)))))
      (Some (CM_Event ev)) e"
  unfolding binary_chain [OF assms]
  by (simp add: builder_with_def builder_new_def inbound_link_eta passing_layers_inbound relay_mw_def rate_limit_middleware_def
      nip70_middleware_def nip40_middleware_def default_middleware_def del: process_inbound_chain.simps)
    (simp add: error_handling_inbound_def nip42_inbound_def eval_nat_numeral)

lemma rate_limit_cases:
  obtains (limited) msg l where
    "\<And>nxt. rate_limit_inbound G ms nxt m e = (Inl (FromError (Restricted msg)), m, e\<lparr>en_limiter := l\<rparr>)"
  | (within) l where "\<And>nxt. rate_limit_inbound G ms nxt m e = nxt m (e\<lparr>en_limiter := l\<rparr>)"
proof -
  obtain ok l where g: "(case rl_global G of None \<Rightarrow> (True, en_limiter e) | Some check \<Rightarrow> check (en_instant e) (en_limiter e)) = (ok, l)"
    by fastforce
  obtain ok' l' where k: "rl_check_key G (en_instant e) (en_connection_id e) l = (ok', l')"
    by fastforce
  show thesis
    by (cases ok; cases ok') (use g k that in \<open>simp_all add: rate_limit_inbound_def\<close>)
qed

text \<open>C9. In the shipped relay, whatever its environment, a protected event from anyone but its
  authenticated author is not stored, not broadcast and not queued: the message changes nothing of the shared state and of
  the connection, and is answered by exactly one OK message with status false, from the rate limiter or from NIP-70.\<close>

theorem shipped_relay_refuses_protected:
  assumes "relay_binary L D N opener url_ok governor hex version parse_addr tcp_bind env keys = Some (Inr R)"
    "connected_to (rr_factory R) c" "try_send L = (\<lambda>_ _. Sent)"
    "inp \<noteq> []" "from_json L inp = Inr (CM_Event ev)" "event_verify L ev = Inr ()"
    "find_standardized L (ev_tags ev) TagProtected \<noteq> None" "ct_authed_pubkey (en_state e) \<noteq> Some (ev_pubkey ev)"
  shows "\<exists>e' msg pos. on_message L inp c e = Some (Inr (), e') \<and> en_state e' = en_state e \<and>
    en_world e' = (en_world e)\<lparr>w_outbox := env_outbox e @ [(nc_channel c, RM_Ok (ev_id ev) False msg, pos, None)]\<rparr>"
proof -
  have m: "process_single_message L inp = Inr (CM_Event ev)"
    using assms(4-6) by (simp add: process_single_message_def)
  obtain y where y: "find_standardized L (ev_tags ev) TagProtected = Some y"
    using assms(7) by blast
  note simps = on_message_def m error_handling_inbound_def env_send_ok [OF assms(3)] downcast_error_def
    message_id_of_def handle_inbound_error_def inbound_error_message_def reject_def Let_def
  obtain a where c: "nc_addr c = Some a" "nc_connected_chain c = Some (build_connected (nc_channel c) (hf_chain (rr_factory R)))"
    using assms(2) by (auto simp: connected_to_def)
  note inbound = binary_event_inbound [OF assms(1), of "nc_channel c" ev e]
  show ?thesis
  proof (cases rule: rate_limit_cases [of "binary_rate_limiter governor (read_settings env)"
        "\<lparr>ms_channel = nc_channel c, ms_position = 3\<rparr>" "Some (CM_Event ev)" e])
    case (limited msg l)
    then show ?thesis
      by (simp add: simps c inbound) (intro exI, rule refl)
  next
    case (within l)
    then show ?thesis
      using assms(8) by (cases "ct_authed_pubkey (en_state e)")
        (simp_all add: simps c inbound nip70_inbound_def y, (intro exI, rule refl)+)
  qed
qed

text \<open>The invariant of the whole system holds of the shipped relay, whatever its environment: in every
  reachable state the index used for distribution is the table of subscriptions the connections hold, every registered connection is
  alive, and the subscription metric, when it is on, is the number of subscriptions.\<close>

lemma shipped_relay_consistent:
  assumes "relay_binary L D N opener url_ok governor hex version parse_addr tcp_bind env keys = Some (Inr R)"
    "match_event_sound L" "(system_step L D (rr_factory R) url custom)\<^sup>*\<^sup>* (system_init (rr_world R)) s"
  shows "(\<forall>sc. index_table (w_registry (sy_world s)) sc = conn_table (w_registry (sy_world s)) sc) \<and>
    (\<forall>cid. has_connection (w_registry (sy_world s)) cid \<longrightarrow> hm_get (sy_live s) cid \<noteq> None) \<and>
    hf_channel_size (rr_factory R) = (se_max_subscriptions (read_settings env) *
      ((se_max_subscription_limit (read_settings env) + 5) mod 2 ^ 64)) mod 2 ^ 64"
proof -
  obtain diag where b: "build_with L D N opener url_ok False
      (fold builder_with (binary_middlewares L D (binary_rate_limiter governor (read_settings env))))
      (binary_builder (read_settings env) keys) = Some (Inr (rr_factory R, rr_world R, diag))"
    using relay_binary_build [OF assms(1)] by blast
  have "hf_channel_size (rr_factory R) = (se_max_subscriptions (read_settings env) *
      ((se_max_subscription_limit (read_settings env) + 5) mod 2 ^ 64)) mod 2 ^ 64"
    using b by (auto simp: build_with_def Let_def binary_builder_fields binary_config_fields calculate_channel_size_def
        split: if_splits sum.splits dest!: sym [of _ "rr_factory R"])
  then show ?thesis
    using system_reachable_ok [OF assms(3,2) build_with_ok [OF b binary_blind, unfolded binary_relay_middleware_of]]
    by (auto simp: system_ok_def reg_ok_def reg_wf_def)
qed

section \<open>A relay with an empty environment\<close>

definition demo_governor :: "nat \<Rightarrow> nat option \<Rightarrow> unit rate_limiter" where
  "demo_governor q g = \<lparr>rl_global = None, rl_check_key = (\<lambda>_ _ l. (True, l))\<rparr>"

definition demo_relay_binary ::
  "nostr_lib \<Rightarrow> (anyhow_error + ((unit, unit, event list, unit) env middleware, event list) running_relay) option" where
  "demo_relay_binary L = relay_binary L demo_lmdb demo_negentropy (\<lambda>_ _ _. Inr demo_stored) (\<lambda>_. True) demo_governor
     (\<lambda>_. ''1'') ''0.1.0'' Inr (\<lambda>_. Inr ()) (\<lambda>_. None) 1"

lemma demo_relay_binary_runs: "\<exists>R. demo_relay_binary L = Some (Inr R)"
  by (simp add: demo_relay_binary_def relay_binary_def build_with_def build_database_def binary_builder_fields
      binary_config_def with_subscription_limits_def with_websocket_config_def relay_config_new_def Let_def
      create_database_from_config_def)

definition protected_event :: event where
  "protected_event = (demo_event 5 7 1)\<lparr>ev_tags := [tag_of StdProtected]\<rparr>"

theorem shipped_relay_refuses_protected_witness:
  "\<exists>R c e' msg pos. demo_relay_binary (reading (CM_Event protected_event)) = Some (Inr R) \<and>
     on_message (reading (CM_Event protected_event)) ''x'' c demo_env = Some (Inr (), e') \<and>
     w_db (en_world e') = demo_stored \<and> env_outbox e' = [(1, RM_Ok 5 False msg, pos, None)]"
proof -
  let ?L = "reading (CM_Event protected_event)"
  obtain R where R: "demo_relay_binary ?L = Some (Inr R)"
    using demo_relay_binary_runs by blast
  let ?c = "(create ?L (rr_factory R) 1 None)\<lparr>nc_addr := Some ''c1'',
    nc_connected_chain := Some (build_connected 1 (hf_chain (rr_factory R)))\<rparr>"
  have c: "connected_to (rr_factory R) ?c" "nc_channel ?c = 1"
    by (simp_all add: connected_to_def create_def)
  have p: "find_standardized ?L (ev_tags protected_event) TagProtected \<noteq> None"
    by (simp add: reading_def demo_lib_def tag_of_def protected_event_def)
  have a: "ct_authed_pubkey (en_state demo_env) \<noteq> Some (ev_pubkey protected_event)"
    by (simp add: demo_env_def state_with_custom_def)
  obtain e' msg pos where "on_message ?L ''x'' ?c demo_env = Some (Inr (), e')"
    "en_world e' = (en_world demo_env)\<lparr>w_outbox := env_outbox demo_env @ [(nc_channel ?c, RM_Ok (ev_id protected_event) False msg, pos, None)]\<rparr>"
    using shipped_relay_refuses_protected [OF R [unfolded demo_relay_binary_def] c(1) reading_simps(2) _ reading_simps(1,3) p a,
      of "''x''"] by blast
  then show ?thesis
    using R c(2) by (intro exI [of _ R] exI [of _ ?c] exI [of _ e'] exI [of _ msg] exI [of _ pos])
      (simp add: protected_event_def demo_event_def)
qed

end
