(* ===== verification/Relay_Shutdown.thy ===== *)
theory Relay_Shutdown
  imports Relay_Binary
begin

text \<open>
  The end of the shipped relay, the last part of \<open>main\<close> in \<open>src/src/bin/relay.rs\<close>, beside the buffer task of
  \<open>src/src/subscription_coordinator.rs\<close>. An interrupt cancels the token; then the server stops, the buffer task flushes when
  it gets its turn, and \<open>main\<close> waits for the tasks of the tracker before it returns, which ends all other tasks.
  No task of the relay is spawned on the tracker (the builder passes it to \<open>create_database_from_config\<close>, which ignores
  it), so the number of tracked tasks is zero from the start.
\<close>

record 'db shutdown_state =
  sh_cancelled :: bool
  sh_serving :: bool
  sh_tracked :: nat
  sh_exited :: bool
  sh_buffer :: "replaceable_buffer option"
  sh_world :: "'db world"

definition shutdown_init :: "replaceable_buffer \<Rightarrow> 'db world \<Rightarrow> 'db shutdown_state" where
  "shutdown_init b w = \<lparr>sh_cancelled = False, sh_serving = True, sh_tracked = 0, sh_exited = False,
     sh_buffer = Some b, sh_world = w\<rparr>"

inductive shutdown_step :: "nostr_lib \<Rightarrow> 'db lmdb \<Rightarrow> 'db shutdown_state \<Rightarrow> 'db shutdown_state \<Rightarrow> bool" for L D where
  interrupt: "\<not> sh_exited s \<Longrightarrow> shutdown_step L D s (s\<lparr>sh_cancelled := True\<rparr>)"
| buffer: "\<not> sh_exited s \<Longrightarrow> buffer_step L D (sh_buffer s, sh_world s) (b', w') \<Longrightarrow> b' = None \<longrightarrow> sh_cancelled s \<Longrightarrow>
    shutdown_step L D s (s\<lparr>sh_buffer := b', sh_world := w'\<rparr>)"
| server: "\<not> sh_exited s \<Longrightarrow> sh_cancelled s \<Longrightarrow> shutdown_step L D s (s\<lparr>sh_serving := False\<rparr>)"
| exit: "\<not> sh_exited s \<Longrightarrow> \<not> sh_serving s \<Longrightarrow> sh_tracked s = 0 \<Longrightarrow> shutdown_step L D s (s\<lparr>sh_exited := True\<rparr>)"

text \<open>The relay ends only after an interrupt.\<close>

lemma exit_after_interrupt:
  assumes "(shutdown_step L D)\<^sup>*\<^sup>* (shutdown_init b w) s" "sh_exited s"
  shows "sh_cancelled s \<and> \<not> sh_serving s"
proof -
  have "(\<not> sh_serving s \<longrightarrow> sh_cancelled s) \<and> (sh_exited s \<longrightarrow> \<not> sh_serving s)"
    using assms(1)
  proof (induction rule: rtranclp_induct)
    case (step s1 s2)
    from step(2,3) show ?case
      by cases auto
  qed (simp add: shutdown_init_def)
  then show ?thesis
    using assms(2) by blast
qed

text \<open>Nothing makes it wait for the buffer: it can end with whatever the buffer holds and with whatever is queued for it, which
  is then neither stored nor sent.\<close>

lemma shutdown_can_lose_events:
  "\<exists>s. (shutdown_step L D)\<^sup>*\<^sup>* (shutdown_init b w) s \<and> sh_exited s \<and> sh_buffer s = Some b \<and> sh_world s = w"
proof -
  let ?s1 = "(shutdown_init b w)\<lparr>sh_cancelled := True\<rparr>"
  let ?s2 = "?s1\<lparr>sh_serving := False\<rparr>"
  let ?s3 = "?s2\<lparr>sh_exited := True\<rparr>"
  have "shutdown_step L D (shutdown_init b w) ?s1"
    by (rule shutdown_step.interrupt) (simp add: shutdown_init_def)
  moreover have "shutdown_step L D ?s1 ?s2"
    by (rule shutdown_step.server) (simp_all add: shutdown_init_def)
  moreover have "shutdown_step L D ?s2 ?s3"
    by (rule shutdown_step.exit) (simp_all add: shutdown_init_def)
  ultimately have "(shutdown_step L D)\<^sup>*\<^sup>* (shutdown_init b w) ?s3"
    by (blast intro: rtranclp.rtrancl_into_rtrancl)
  then show ?thesis
    by (intro exI [of _ ?s3]) (simp add: shutdown_init_def)
qed

text \<open>If the buffer task gets its turn first, its buffer is flushed.\<close>

lemma shutdown_flushes:
  assumes "buffer_flush L D b w = (b', w')"
  shows "\<exists>s. (shutdown_step L D)\<^sup>*\<^sup>* (shutdown_init b w) s \<and> sh_buffer s = None \<and> sh_world s = w'\<lparr>w_queue_open := False\<rparr>"
proof -
  let ?s1 = "(shutdown_init b w)\<lparr>sh_cancelled := True\<rparr>"
  let ?s2 = "?s1\<lparr>sh_buffer := None, sh_world := w'\<lparr>w_queue_open := False\<rparr>\<rparr>"
  have "shutdown_step L D (shutdown_init b w) ?s1"
    by (rule shutdown_step.interrupt) (simp add: shutdown_init_def)
  moreover have "shutdown_step L D ?s1 ?s2"
    using buffer_step.cancel [OF assms] by (intro shutdown_step.buffer) (simp_all add: shutdown_init_def)
  ultimately have "(shutdown_step L D)\<^sup>*\<^sup>* (shutdown_init b w) ?s2"
    by (blast intro: rtranclp.rtrancl_into_rtrancl)
  then show ?thesis
    by (intro exI [of _ ?s2]) simp
qed

end
