(* ===== verification/Replaceable_Timing.thy ===== *)
theory Replaceable_Timing
  imports Subscription_Coordinator_Properties
begin

text \<open>
  The buffer task of \<open>src/src/subscription_coordinator.rs\<close> with its clock. The step relation \<open>buffer_step\<close> lets the timer
  fire at any time; here is when it does: every turn of the loop makes a new sleep of one second and waits for that or for the
  next event, whichever is first, so every event that arrives puts the flush off. Instants are milliseconds; receiving and
  flushing take no time; if an event arrives at the very instant the sleep ends, the sleep wins (the source leaves this open).
\<close>

definition flush_interval :: nat where
  "flush_interval = 1000"

lemma flush_interval_pos [simp]: "0 < flush_interval"
  by (simp add: flush_interval_def)

record 'db buffer_run =
  br_buffer :: replaceable_buffer
  br_world :: "'db world"
  br_flushes :: "nat list"

definition run_insert :: "nostr_lib \<Rightarrow> unsigned_event \<times> scope \<Rightarrow> 'db buffer_run \<Rightarrow> 'db buffer_run" where
  "run_insert L p r = r\<lparr>br_buffer := buffer_insert L p (br_buffer r)\<rparr>"

definition run_flush :: "nostr_lib \<Rightarrow> 'db lmdb \<Rightarrow> nat \<Rightarrow> 'db buffer_run \<Rightarrow> 'db buffer_run" where
  "run_flush L D t r = (case buffer_flush L D (br_buffer r) (br_world r) of (b', w') \<Rightarrow>
     \<lparr>br_buffer = b', br_world = w', br_flushes = br_flushes r @ [t]\<rparr>)"

text \<open>The task from the instant \<open>t\<close>, at which a turn begins, up to the instant \<open>h\<close>: the events arrive at the given instants.\<close>

function buffer_timeline ::
  "nostr_lib \<Rightarrow> 'db lmdb \<Rightarrow> nat \<Rightarrow> nat \<Rightarrow> (nat \<times> unsigned_event \<times> scope) list \<Rightarrow> 'db buffer_run \<Rightarrow> 'db buffer_run" where
  "buffer_timeline L D h t arrivals r = (case arrivals of
     (a, p) # rest \<Rightarrow>
       if a < t + flush_interval then
         (if h < a then r else buffer_timeline L D h (max a t) rest (run_insert L p r))
       else if h < t + flush_interval then r
       else buffer_timeline L D h (t + flush_interval) arrivals (run_flush L D (t + flush_interval) r)
   | [] \<Rightarrow>
       if h < t + flush_interval then r
       else buffer_timeline L D h (t + flush_interval) [] (run_flush L D (t + flush_interval) r))"
  by pat_completeness auto
termination
  by (relation "measures [\<lambda>(L, D, h, t, arrivals, r). length arrivals, \<lambda>(L, D, h, t, arrivals, r). h - t]")
    (auto simp: flush_interval_def)

declare buffer_timeline.simps [simp del]

lemma timeline_event: "a < t + flush_interval \<Longrightarrow> a \<le> h \<Longrightarrow>
    buffer_timeline L D h t ((a, p) # rest) r = buffer_timeline L D h (max a t) rest (run_insert L p r)"
  by (subst buffer_timeline.simps) simp

lemma timeline_end: "h < t + flush_interval \<Longrightarrow> buffer_timeline L D h t [] r = r"
  by (subst buffer_timeline.simps) simp

lemma timeline_quiet: "t + flush_interval \<le> h \<Longrightarrow>
    buffer_timeline L D h t [] r = buffer_timeline L D h (t + flush_interval) [] (run_flush L D (t + flush_interval) r)"
  by (subst buffer_timeline.simps) simp

section \<open>Steady events\<close>

text \<open>Every event arrives less than a second after the turn before it began.\<close>

fun steady :: "nat \<Rightarrow> (nat \<times> 'a) list \<Rightarrow> bool" where
  "steady t [] \<longleftrightarrow> True"
| "steady t ((a, p) # rest) \<longleftrightarrow> t \<le> a \<and> a < t + flush_interval \<and> steady a rest"

definition last_arrival :: "nat \<Rightarrow> (nat \<times> 'a) list \<Rightarrow> nat" where
  "last_arrival t xs = (if xs = [] then t else fst (last xs))"

lemma last_arrival_Cons [simp]: "last_arrival t ((a, p) # rest) = last_arrival a rest"
  by (simp add: last_arrival_def)

lemma last_arrival_Nil [simp]: "last_arrival t [] = t"
  by (simp add: last_arrival_def)

lemma steady_last: "steady t xs \<Longrightarrow> t \<le> last_arrival t xs"
  by (induction t xs rule: steady.induct) auto

lemma timeline_steady:
  "steady t xs \<Longrightarrow> last_arrival t xs \<le> h \<Longrightarrow>
     buffer_timeline L D h t xs r = buffer_timeline L D h (last_arrival t xs) [] (fold (\<lambda>x. run_insert L (snd x)) xs r)"
proof (induction t xs arbitrary: r rule: steady.induct)
  case (2 t a p rest)
  then have "a \<le> h" "max a t = a"
    using steady_last [of a rest] by simp_all
  then show ?case
    using 2 by (simp add: timeline_event)
qed simp

lemma fold_run_insert:
  "fold (\<lambda>x. run_insert L (snd x)) xs r = r\<lparr>br_buffer := fold (buffer_insert L) (map snd xs) (br_buffer r)\<rparr>"
  by (induction xs arbitrary: r) (simp_all add: run_insert_def)

text \<open>Each part of a run is a move of the task's step relation.\<close>

lemma run_flush_is_tick:
  "buffer_step L D (Some (br_buffer r), br_world r) (Some (br_buffer (run_flush L D t r)), br_world (run_flush L D t r))"
  by (auto simp: run_flush_def split: prod.split intro: buffer_step.tick)

lemma run_insert_is_recv:
  "w_queue w = p # q \<Longrightarrow>
     buffer_step L D (Some (br_buffer r), w) (Some (br_buffer (run_insert L p r)), w\<lparr>w_queue := q\<rparr>)"
  by (simp add: run_insert_def buffer_step.recv)

lemma run_flush_empties: "br_buffer (run_flush L D t r) = []"
  using buffer_flush_empty [of L D "br_buffer r" "br_world r"] by (simp add: run_flush_def split_beta)

text \<open>C34. When the buffer is flushed. While events keep arriving less than a second apart, however long, nothing is flushed:
  the world is as it was and of every author, kind and scope only the last event is left in the buffer. One second after the
  last of them the whole buffer is flushed at once, and is empty.\<close>

theorem buffer_flush_waits_for_quiet:
  assumes "steady t xs" "k \<le> flush_interval"
  shows "buffer_timeline L D (last_arrival t xs + k) t xs r =
    (let r' = r\<lparr>br_buffer := fold (buffer_insert L) (map snd xs) (br_buffer r)\<rparr>
     in if k < flush_interval then r' else run_flush L D (last_arrival t xs + flush_interval) r') \<and>
    br_buffer (buffer_timeline L D (last_arrival t xs + flush_interval) t xs r) = []"
  using timeline_steady [OF assms(1), of "last_arrival t xs + k" L D r]
    timeline_steady [OF assms(1), of "last_arrival t xs + flush_interval" L D r] assms(2)
  by (simp add: timeline_quiet timeline_end fold_run_insert run_flush_empties Let_def)

text \<open>Two events of one key, 1.5 seconds apart with a third between them: only the last is stored, 2.5 seconds after the
  first arrived.\<close>

theorem buffer_flush_waits_for_quiet_witness:
  "let xs = [(0, demo_unsigned 30000 ''a'', ScopeDefault), (800, demo_unsigned 30001 ''b'', ScopeDefault),
             (1500, demo_unsigned 30000 ''c'', ScopeDefault)];
       r = \<lparr>br_buffer = [], br_world = demo_world, br_flushes = []\<rparr>
   in br_flushes (buffer_timeline demo_lib demo_lmdb 2499 0 xs r) = [] \<and>
      hm_get (br_buffer (buffer_timeline demo_lib demo_lmdb 2499 0 xs r)) (7, 30000, ScopeDefault) =
        Some (demo_unsigned 30000 ''c'') \<and>
      br_flushes (buffer_timeline demo_lib demo_lmdb 2500 0 xs r) = [2500] \<and>
      br_buffer (buffer_timeline demo_lib demo_lmdb 2500 0 xs r) = []"
proof -
  let ?xs = "[(0, demo_unsigned 30000 ''a'', ScopeDefault), (800, demo_unsigned 30001 ''b'', ScopeDefault),
    (1500, demo_unsigned 30000 ''c'', ScopeDefault)]"
  let ?r = "\<lparr>br_buffer = [], br_world = demo_world, br_flushes = []\<rparr>"
  have run: "steady 0 ?xs" "last_arrival 0 ?xs = 1500" "(1000::nat) \<le> flush_interval"
    by (simp_all add: flush_interval_def)
  note full = run(3)
  note now = buffer_flush_waits_for_quiet [OF run(1), where L = demo_lib and D = demo_lmdb and r = ?r, unfolded run(2)]
  have "buffer_timeline demo_lib demo_lmdb 2499 0 ?xs ?r = ?r\<lparr>br_buffer := fold (buffer_insert demo_lib) (map snd ?xs) []\<rparr>"
    using now [of 999] by (simp add: flush_interval_def)
  moreover have "br_flushes (buffer_timeline demo_lib demo_lmdb 2500 0 ?xs ?r) = [2500]"
    using now [OF full, THEN conjunct1] by (simp add: flush_interval_def run_flush_def split_beta)
  moreover have "br_buffer (buffer_timeline demo_lib demo_lmdb 2500 0 ?xs ?r) = []"
    using now [OF full, THEN conjunct2] by (simp add: flush_interval_def)
  moreover have "hm_get (fold (buffer_insert demo_lib) (map snd ?xs) []) (7, 30000, ScopeDefault) =
      Some (demo_unsigned 30000 ''c'')"
    by (simp add: buffer_insert_def demo_unsigned_def demo_lib_def hm_simps)
  ultimately show ?thesis
    by (simp add: Let_def)
qed

end
