(* ===== verification/Database_Open.thy ===== *)
theory Database_Open
  imports Scope_Config Relay_Database
begin

text \<open>
  Opening the database, the constructors of \<open>RelayDatabase\<close> in \<open>src/src/database.rs\<close>. The file system and the builder
  of the crate \<open>nostr_lmdb\<close> are the parameter record \<open>db_os\<close> over the state \<open>'o\<close> of the operating system; \<open>os_parent\<close> is
  \<open>Path::parent\<close>, and a path is printed as it is. The function to run on the ingester thread is given by the CPU it pins.
\<close>

record ('o, 'db) db_os =
  os_parent :: "string \<Rightarrow> string option"
  os_exists :: "'o \<Rightarrow> string \<Rightarrow> bool"
  os_create_dir_all :: "'o \<Rightarrow> string \<Rightarrow> string + 'o"
  os_open_lmdb :: "'o \<Rightarrow> string \<Rightarrow> nat option \<Rightarrow> nat option \<Rightarrow> string + 'db"

definition ensure_dir :: "('o, 'db) db_os \<Rightarrow> string \<Rightarrow> string \<Rightarrow> 'o \<Rightarrow> (error + unit) \<times> 'o" where
  "ensure_dir S what dir s =
     (if os_exists S s dir then (Inr (), s)
      else case os_create_dir_all S s dir of
        Inl e \<Rightarrow> (Inl (Database (''Failed to create database directory '' @ what @ [CHR 0x27] @ dir @ [CHR 0x27] @ '': '' @ e)), s)
      | Inr s' \<Rightarrow> (Inr (), s'))"

definition db_with_config ::
  "('o, 'db) db_os \<Rightarrow> string \<Rightarrow> nat option \<Rightarrow> nat option \<Rightarrow> 'o \<Rightarrow> (error + 'db) \<times> 'o" where
  "db_with_config S db_path max_readers ingester_cpu s =
     (case (case os_parent S db_path of None \<Rightarrow> (Inr (), s) | Some parent \<Rightarrow> ensure_dir S ''parent '' parent s) of
        (Inl err, s1) \<Rightarrow> (Inl err, s1)
      | (Inr _, s1) \<Rightarrow> (case ensure_dir S [] db_path s1 of
          (Inl err, s2) \<Rightarrow> (Inl err, s2)
        | (Inr _, s2) \<Rightarrow> (case os_open_lmdb S s2 db_path max_readers ingester_cpu of
            Inl e \<Rightarrow> (Inl (Database (''Failed to open NostrLmdb at path '' @ [CHR 0x27] @ db_path @ [CHR 0x27] @ '': '' @ e)), s2)
          | Inr lmdb \<Rightarrow> (Inr lmdb, s2))))"

definition db_with_max_readers :: "('o, 'db) db_os \<Rightarrow> string \<Rightarrow> nat option \<Rightarrow> 'o \<Rightarrow> (error + 'db) \<times> 'o" where
  "db_with_max_readers S db_path max_readers s = db_with_config S db_path max_readers None s"

definition db_new :: "('o, 'db) db_os \<Rightarrow> string \<Rightarrow> 'o \<Rightarrow> (error + 'db) \<times> 'o" where
  "db_new S db_path s = db_with_config S db_path None None s"

text \<open>The opener that the configuration and the builder take as a parameter.\<close>

definition opener_of :: "('o, 'db) db_os \<Rightarrow> 'o \<Rightarrow> 'db db_opener" where
  "opener_of S s = (\<lambda>path max_readers cpu. fst (db_with_config S path max_readers cpu s))"

section \<open>Results\<close>

text \<open>What the standard library documents: after \<open>create_dir_all\<close> the directory exists (the empty path, the parent of a
  relative name, is passed over), and what existed still does.\<close>

definition dirs_ok :: "('o, 'db) db_os \<Rightarrow> bool" where
  "dirs_ok S \<longleftrightarrow> (\<forall>s d s'. os_create_dir_all S s d = Inr s' \<longrightarrow>
     (d \<noteq> [] \<longrightarrow> os_exists S s' d) \<and> (\<forall>d'. os_exists S s d' \<longrightarrow> os_exists S s' d'))"

lemma ensure_dir_cases:
  assumes "dirs_ok S"
  obtains (failed) msg where "ensure_dir S what dir s = (Inl (Database msg), s)"
  | (there) s' where "ensure_dir S what dir s = (Inr (), s')" "dir \<noteq> [] \<longrightarrow> os_exists S s' dir"
      "\<forall>d. os_exists S s d \<longrightarrow> os_exists S s' d"
proof (cases "os_exists S s dir")
  case True
  then show ?thesis
    by (intro that(2) [of s]) (simp_all add: ensure_dir_def)
next
  case False
  then show ?thesis
    using assms that by (cases "os_create_dir_all S s dir") (auto simp: ensure_dir_def dirs_ok_def)
qed

text \<open>A database is only ever opened in a directory that exists; every failure is a database error, and none removes a
  directory.\<close>

lemma with_config_opens:
  assumes "dirs_ok S" "path \<noteq> []" "db_with_config S path readers cpu s = (r, s')"
  shows "(\<forall>d. os_exists S s d \<longrightarrow> os_exists S s' d) \<and>
    (case r of Inr db \<Rightarrow> os_exists S s' path \<and> os_open_lmdb S s' path readers cpu = Inr db
     | Inl err \<Rightarrow> \<exists>msg. err = Database msg)"
proof -
  obtain r1 s1 where p: "(case os_parent S path of None \<Rightarrow> (Inr (), s) | Some parent \<Rightarrow> ensure_dir S ''parent '' parent s) = (r1, s1)"
    by fastforce
  have 1: "(\<forall>d. os_exists S s d \<longrightarrow> os_exists S s1 d) \<and> (\<forall>err. r1 = Inl err \<longrightarrow> (\<exists>msg. err = Database msg))"
  proof (cases "os_parent S path")
    case (Some parent)
    then show ?thesis
      using p by (cases rule: ensure_dir_cases [OF assms(1), of "''parent ''" parent s]) auto
  qed (use p in auto)
  show ?thesis
  proof (cases r1)
    case (Inl err)
    then show ?thesis
      using 1 p assms(2,3) by (auto simp: db_with_config_def)
  next
    case (Inr u)
    then show ?thesis
      using 1 p assms(2,3) by (cases rule: ensure_dir_cases [OF assms(1), of "[]" path s1])
        (auto simp: db_with_config_def split: sum.splits)
  qed
qed

end
