(* ===== verification/Cpu_Affinity.thy ===== *)
theory Cpu_Affinity
  imports Main
begin

text \<open>
  Thread affinity, \<open>src/src/cpu_affinity.rs\<close>. The \<open>cpu_set_t\<close> of the crate \<open>libc\<close> and the system call are the
  parameter record \<open>cpu_os\<close>; the platform is the flag \<open>co_linux\<close>. An \<open>io::Error\<close> is its number.
\<close>

record ('w, 'c) cpu_os =
  co_linux :: bool
  co_num_cpus :: nat
  co_cpu_zero :: 'c
  co_cpu_set :: "nat \<Rightarrow> 'c \<Rightarrow> 'c"
  co_setaffinity :: "'w \<Rightarrow> 'c \<Rightarrow> (int + unit) \<times> 'w"

definition pin_current_thread_to :: "('w, 'c) cpu_os \<Rightarrow> nat \<Rightarrow> 'w \<Rightarrow> (int + unit) \<times> 'w" where
  "pin_current_thread_to S cpu w =
     (if co_linux S then co_setaffinity S w (co_cpu_set S cpu (co_cpu_zero S)) else (Inr (), w))"

definition allow_all_but_current_thread :: "('w, 'c) cpu_os \<Rightarrow> nat list \<Rightarrow> 'w \<Rightarrow> (int + unit) \<times> 'w" where
  "allow_all_but_current_thread S excluded w =
     (if co_linux S then
        co_setaffinity S w (fold (\<lambda>cpu s. if cpu \<in> set excluded then s else co_cpu_set S cpu s) [0..<co_num_cpus S]
          (co_cpu_zero S))
      else (Inr (), w))"

text \<open>With sets of numbers for \<open>cpu_set_t\<close>: the mask has one processor, or those of the machine that are not
  excluded.\<close>

lemma fold_cpu_set: "fold (\<lambda>cpu s. if P cpu then s else insert cpu s) xs s = s \<union> {cpu \<in> set xs. \<not> P cpu}"
  by (induction xs arbitrary: s) auto

lemma affinity_masks:
  assumes "co_linux S" "co_cpu_zero S = {}" "co_cpu_set S = insert"
  shows "pin_current_thread_to S cpu w = co_setaffinity S w {cpu}"
    and "allow_all_but_current_thread S excluded w = co_setaffinity S w ({..<co_num_cpus S} - set excluded)"
proof -
  have "{cpu \<in> set [0..<co_num_cpus S]. \<not> cpu \<in> set excluded} = {..<co_num_cpus S} - set excluded"
    by auto
  then show "pin_current_thread_to S cpu w = co_setaffinity S w {cpu}"
    and "allow_all_but_current_thread S excluded w = co_setaffinity S w ({..<co_num_cpus S} - set excluded)"
    unfolding pin_current_thread_to_def allow_all_but_current_thread_def assms(2,3) fold_cpu_set
    by (simp_all add: assms(1))
qed

end
