(* ===== verification/Example_Common.thy ===== *)
theory Example_Common
  imports Relay_Binary Cpu_Affinity
begin

text \<open>
  What the example relays share, \<open>src/examples/common/mod.rs\<close>: the relay document, the root handler, the listeners
  on one shared port, and the distribution of work over the processors. Socket calls are the parameter record
  \<open>tcp_os\<close> over the state \<open>'o\<close> of the operating system; \<open>served\<close> gives the end of each server task. Lines printed to the
  console are left out. \<open>num_cpus::get()\<close> is at least one, so \<open>cpu_count - 1\<close> does not underflow.
\<close>

section \<open>The relay document and the root handler\<close>

text \<open>\<open>lower\<close> is \<open>str::to_lowercase\<close>, which reads the tables of Unicode.\<close>

definition create_relay_info ::
  "(string \<Rightarrow> string) \<Rightarrow> (pubkey \<Rightarrow> string) \<Rightarrow> string \<Rightarrow> string \<Rightarrow> string \<Rightarrow> pubkey \<Rightarrow> nat list \<Rightarrow> relay_info" where
  "create_relay_info lower hex version name description public_key supported_nips =
     \<lparr>ri_name = name, ri_description = description, ri_pubkey = hex public_key,
      ri_contact = ''admin@'' @ map (\<lambda>c. if c = CHR '' '' then CHR ''-'' else c) (lower name) @ ''.relay'',
      ri_supported_nips = supported_nips, ri_software = ''relay_builder'', ri_version = version, ri_icon = None\<rparr>"

definition connection_config_of :: "websocket_config \<Rightarrow> connection_config" where
  "connection_config_of ws_config = \<lparr>cc_max_connections = wc_max_connections ws_config,
     cc_max_connection_duration = wc_max_connection_duration ws_config, cc_idle_timeout = wc_idle_timeout ws_config\<rparr>"

definition create_root_handler_with_config ::
  "nostr_lib \<Rightarrow> 'm handler_factory \<Rightarrow> relay_info \<Rightarrow> websocket_config
     \<Rightarrow> channel option \<Rightarrow> string option \<Rightarrow> string option option \<Rightarrow> 'm root_reply" where
  "create_root_handler_with_config L F info ws_config =
     (let cfg = connection_config_of ws_config
      in (\<lambda>ws host accept. case ws of
            Some ch \<Rightarrow> RootUpgrade (create L F ch host) cfg
          | None \<Rightarrow>
              if accept = Some (Some ''application/nostr+json'') then RootJson info
              else RootHtml (default_relay_html info)))"

definition websocket_config_default :: websocket_config where
  "websocket_config_default = \<lparr>wc_max_connections = None, wc_max_connection_duration = None, wc_idle_timeout = None\<rparr>"

definition create_root_handler ::
  "nostr_lib \<Rightarrow> 'm handler_factory \<Rightarrow> relay_info
     \<Rightarrow> channel option \<Rightarrow> string option \<Rightarrow> string option option \<Rightarrow> 'm root_reply" where
  "create_root_handler L F info = create_root_handler_with_config L F info websocket_config_default"

section \<open>Listeners\<close>

record 'o tcp_os =
  tc_is_ipv4 :: "string \<Rightarrow> bool"
  tc_can_reuseport :: bool
  tc_new_v4 :: "'o \<Rightarrow> string + 'o"
  tc_new_v6 :: "'o \<Rightarrow> string + 'o"
  tc_set_reuseaddr :: "'o \<Rightarrow> string + 'o"
  tc_set_reuseport :: "'o \<Rightarrow> string + 'o"
  tc_bind :: "string \<Rightarrow> 'o \<Rightarrow> string + 'o"
  tc_listen :: "nat \<Rightarrow> 'o \<Rightarrow> string + 'o"

fun io_steps :: "('o \<Rightarrow> string + 'o) list \<Rightarrow> 'o \<Rightarrow> string + 'o" where
  "io_steps [] s = Inr s"
| "io_steps (f # fs) s = (case f s of Inl err \<Rightarrow> Inl err | Inr s' \<Rightarrow> io_steps fs s')"

definition make_reuseport_listener :: "'o tcp_os \<Rightarrow> string \<Rightarrow> 'o \<Rightarrow> string + 'o" where
  "make_reuseport_listener T addr = io_steps
     ([if tc_is_ipv4 T addr then tc_new_v4 T else tc_new_v6 T, tc_set_reuseaddr T] @
      (if tc_can_reuseport T then [tc_set_reuseport T] else []) @ [tc_bind T addr, tc_listen T 1024])"

text \<open>\<open>TcpListener::bind\<close> of \<open>tokio\<close> is the parameter \<open>bind_single\<close>; \<open>served i\<close> is how the server on the \<open>i\<close>-th listener
  ended. \<open>join_next\<close> gives the ends in some order \<open>ends\<close>; the first error is returned.\<close>

fun join_listeners :: "(string + unit) list \<Rightarrow> string + unit" where
  "join_listeners [] = Inr ()"
| "join_listeners (r # rs) = (case r of Inl err \<Rightarrow> Inl err | Inr _ \<Rightarrow> join_listeners rs)"

definition run_relay_server ::
  "(string \<Rightarrow> 'o \<Rightarrow> string + 'o) \<Rightarrow> string \<Rightarrow> (string + unit) \<Rightarrow> 'o \<Rightarrow> string + unit" where
  "run_relay_server bind_single addr served s = (case bind_single addr s of Inl err \<Rightarrow> Inl err | Inr _ \<Rightarrow> served)"

section \<open>Processors\<close>

record server_config =
  sv_writer_cpu :: "nat option"
  sv_worker_threads :: "nat option"
  sv_enable_reuseport :: bool
  sv_enable_cpu_affinity :: bool

definition server_config_default :: server_config where
  "server_config_default = \<lparr>sv_writer_cpu = None, sv_worker_threads = None, sv_enable_reuseport = True,
     sv_enable_cpu_affinity = True\<rparr>"

definition writer_cpu_of :: "server_config \<Rightarrow> nat \<Rightarrow> nat" where
  "writer_cpu_of c cpu_count = (case sv_writer_cpu c of Some w \<Rightarrow> w | None \<Rightarrow> cpu_count - 1)"

definition worker_threads_of :: "server_config \<Rightarrow> nat \<Rightarrow> nat" where
  "worker_threads_of c cpu_count = (case sv_worker_threads c of
     Some n \<Rightarrow> n
   | None \<Rightarrow> if sv_enable_cpu_affinity c then max (cpu_count - 1) 1 else cpu_count)"

definition run_relay_server_optimized ::
  "'o tcp_os \<Rightarrow> (string \<Rightarrow> 'o \<Rightarrow> string + 'o) \<Rightarrow> nat \<Rightarrow> string \<Rightarrow> server_config \<Rightarrow> (string + unit) list \<Rightarrow> 'o
     \<Rightarrow> string + unit" where
  "run_relay_server_optimized T bind_single cpu_count addr c ends s =
     (let worker_threads = worker_threads_of c cpu_count
      in if sv_enable_reuseport c then
           (let listener_count = max worker_threads 1
            in case io_steps (replicate listener_count (make_reuseport_listener T addr)) s of
                 Inl err \<Rightarrow> Inl err
               | Inr _ \<Rightarrow> join_listeners (take listener_count ends))
         else run_relay_server bind_single addr (case ends of r # _ \<Rightarrow> r | [] \<Rightarrow> Inr ()) s)"

text \<open>What a worker thread of the runtime does when it starts. Its error is only printed.\<close>

definition on_worker_start :: "('w, 'c) cpu_os \<Rightarrow> server_config \<Rightarrow> 'w \<Rightarrow> 'w" where
  "on_worker_start S c w =
     (if sv_enable_cpu_affinity c
      then snd (allow_all_but_current_thread S [writer_cpu_of c (co_num_cpus S)] w) else w)"

text \<open>\<open>build\<close> starts a runtime of so many worker threads, or fails; \<open>f\<close> runs in it.\<close>

definition run_with_optimized_runtime ::
  "('w, 'c) cpu_os \<Rightarrow> (nat \<Rightarrow> ('w \<Rightarrow> 'w) \<Rightarrow> 'w \<Rightarrow> string + 'w) \<Rightarrow> server_config \<Rightarrow> ('w \<Rightarrow> (string + unit) \<times> 'w) \<Rightarrow> 'w
     \<Rightarrow> (string + unit) \<times> 'w" where
  "run_with_optimized_runtime S build c f w =
     (case build (worker_threads_of c (co_num_cpus S)) (on_worker_start S c) w of
        Inl err \<Rightarrow> (Inl err, w)
      | Inr w' \<Rightarrow> f w')"

section \<open>Results\<close>

text \<open>The shipped binary and the examples have the same root route.\<close>

lemma binary_root_shared:
  "binary_root L R = create_root_handler_with_config L (rr_factory R) (rr_info R)
     \<lparr>wc_max_connections = cc_max_connections (rr_connection_config R),
      wc_max_connection_duration = cc_max_connection_duration (rr_connection_config R),
      wc_idle_timeout = cc_idle_timeout (rr_connection_config R)\<rparr>"
  by (intro ext) (auto simp: binary_root_def create_root_handler_with_config_def connection_config_of_def Let_def split: option.split)

lemma create_root_handler_upgrade: "create_root_handler L F info (Some ch) host accept =
    RootUpgrade (create L F ch host) connection_config_default"
  by (simp add: create_root_handler_def create_root_handler_with_config_def connection_config_of_def
      websocket_config_default_def connection_config_default_def Let_def)

text \<open>By default the workers run on every processor but the last, one listener for each of them; on a machine
  with a single processor the mask they ask for is empty, so that the system call cannot succeed.\<close>

lemma worker_masks:
  assumes "co_linux S" "co_cpu_zero S = {}" "co_cpu_set S = insert"
  shows "on_worker_start S server_config_default w = snd (co_setaffinity S w {..<co_num_cpus S - 1})"
    and "1 < co_num_cpus S \<Longrightarrow> card {..<co_num_cpus S - 1} = worker_threads_of server_config_default (co_num_cpus S)"
    and "co_num_cpus S = 1 \<Longrightarrow> on_worker_start S server_config_default w = snd (co_setaffinity S w {})"
proof -
  have "{..<n} - {n - Suc 0} = {..<n - Suc 0}" for n :: nat
    by (cases n) auto
  then show 1: "on_worker_start S server_config_default w = snd (co_setaffinity S w {..<co_num_cpus S - 1})"
    by (simp add: on_worker_start_def server_config_default_def writer_cpu_of_def affinity_masks(2) [OF assms])
  show "co_num_cpus S = 1 \<Longrightarrow> on_worker_start S server_config_default w = snd (co_setaffinity S w {})"
    by (simp add: 1)
  show "1 < co_num_cpus S \<Longrightarrow> card {..<co_num_cpus S - 1} = worker_threads_of server_config_default (co_num_cpus S)"
    by (simp add: worker_threads_of_def server_config_default_def)
qed

text \<open>The run ends with the error of the socket calls when the first listener cannot be made.\<close>

lemma io_steps_replicate_fails: "f s = Inl err \<Longrightarrow> 0 < n \<Longrightarrow> io_steps (replicate n f) s = Inl err"
  by (cases n) simp_all

lemma first_listener_fails:
  assumes "sv_enable_reuseport c" "make_reuseport_listener T addr s = Inl err"
  shows "run_relay_server_optimized T bind_single cpu_count addr c ends s = Inl err"
  using assms by (simp add: run_relay_server_optimized_def io_steps_replicate_fails Let_def)

lemma join_listeners_ok: "join_listeners ends = Inr () \<longleftrightarrow> (\<forall>r \<in> set ends. r = Inr ())"
  by (induction ends) (auto split: sum.splits)

end
