(* ===== verification/Example_Processors.thy ===== *)
theory Example_Processors
  imports Example_Common "HOL-Library.Word"
begin

text \<open>
  The event processors of the example relays, \<open>src/examples/02_event_processing.rs\<close>, \<open>03_protocol_features.rs\<close>,
  \<open>04_advanced_state.rs\<close>, \<open>05_custom_middleware.rs\<close>, \<open>07_rate_limiting.rs\<close> and \<open>07_with_diagnostics.rs\<close>: business logic
  written against the interface \<open>event_processor\<close>. Counters are \<open>u32\<close> and wrap as in a release build. The
  clocks are arguments: \<open>now\<close> of an \<open>Instant\<close> in nanoseconds, or of \<open>Timestamp::now()\<close> in seconds. The processor of
  02 keeps a table of its own behind a lock, shared by all connections; it is passed and returned.
\<close>

section \<open>Processors that accept everything (05, 07)\<close>

definition simple_processor :: "'t event_processor" where
  "simple_processor = default_processor\<lparr>ep_handle_event := (\<lambda>ev t cx. (Inr [command_from (ev, cx_subdomain cx)], t))\<rparr>"

definition accept_all_processor :: "'t event_processor" where
  "accept_all_processor = default_processor\<lparr>ep_handle_event := (\<lambda>ev t cx. (Inr [SaveSignedEvent ev (cx_subdomain cx) None], t))\<rparr>"

section \<open>Filtering and limiting (02)\<close>

record rate_limit_info =
  rl_events_received :: "32 word"
  rl_window_start :: nat

type_synonym rate_limits = "(string, rate_limit_info) hmap"

record smart_processor =
  sp_blocked_words :: "string list"
  sp_max_events_per_minute :: "32 word"

definition window_length :: nat where
  "window_length = 60 * 1000000000"

text \<open>\<open>duration_since\<close> is zero for an earlier instant, as the subtraction on \<open>nat\<close> is.\<close>

definition count_event :: "nat \<Rightarrow> rate_limit_info option \<Rightarrow> rate_limit_info" where
  "count_event now entry =
     (let info = (case entry of Some i \<Rightarrow> i | None \<Rightarrow> \<lparr>rl_events_received = 0, rl_window_start = now\<rparr>);
          info1 = (if now - rl_window_start info > window_length
                   then info\<lparr>rl_events_received := 0, rl_window_start := now\<rparr> else info)
      in info1\<lparr>rl_events_received := rl_events_received info1 + 1\<rparr>)"

definition mention_count :: "event \<Rightarrow> nat" where
  "mention_count ev = length (List.filter (\<lambda>t. tag_kind t = TagOther ''p'') (ev_tags ev))"

definition check_content :: "(string \<Rightarrow> string) \<Rightarrow> smart_processor \<Rightarrow> event \<Rightarrow> error + unit" where
  "check_content lower P ev =
     (let content_lower = lower (ev_content ev)
      in case List.find (\<lambda>word. str_contains content_lower word) (sp_blocked_words P) of
           Some word \<Rightarrow> Inl (Restricted (''content contains blocked word: '' @ [CHR 0x27] @ word @ [CHR 0x27]))
         | None \<Rightarrow>
             if mention_count ev > 20 then Inl (Restricted ''too many mentions - potential spam'')
             else Inr ())"

text \<open>\<open>show_key\<close> prints a public key, \<open>lower\<close> is \<open>str::to_lowercase\<close>.\<close>

definition smart_handle_event ::
  "(pubkey \<Rightarrow> string) \<Rightarrow> (string \<Rightarrow> string) \<Rightarrow> smart_processor \<Rightarrow> nat \<Rightarrow> event \<Rightarrow> event_context \<Rightarrow> rate_limits
     \<Rightarrow> (error + store_command list) \<times> rate_limits" where
  "smart_handle_event show_key lower P now ev cx limits =
     (let key = show_key (ev_pubkey ev);
          info = count_event now (hm_get limits key);
          limits' = hm_insert key info limits
      in if rl_events_received info > sp_max_events_per_minute P
         then (Inl (Restricted ''rate limit exceeded - slow down!''), limits')
         else case check_content lower P ev of
           Inl err \<Rightarrow> (Inl err, limits')
         | Inr _ \<Rightarrow> (Inr [command_from (ev, cx_subdomain cx)], limits'))"

section \<open>Protocol rules (03)\<close>

text \<open>\<open>matches!(tag.kind(), TagKind::Custom(name) if name == n)\<close>. The kinds of the crate \<open>nostr\<close> for the tags
  \<open>expiration\<close> and \<open>-\<close> are constructors of their own.\<close>

definition is_custom_tag :: "string \<Rightarrow> tag \<Rightarrow> bool" where
  "is_custom_tag n t = (case tag_kind t of TagOther name \<Rightarrow> name = n | _ \<Rightarrow> False)"

definition protocol_handle_event ::
  "bool \<Rightarrow> timestamp \<Rightarrow> event \<Rightarrow> 't \<Rightarrow> event_context \<Rightarrow> (error + store_command list) \<times> 't" where
  "protocol_handle_event require_auth_to_post now ev t cx =
     (if require_auth_to_post \<and> cx_authed_pubkey cx = None
      then (Inl (Restricted ''authentication required: please AUTH first''), t)
      else case Option.bind (Option.bind (List.find (is_custom_tag ''expiration'') (ev_tags ev)) tag_content) parse_u64 of
          Some expiration \<Rightarrow>
            if expiration < now then (Inl (Restricted ''event has expired''), t)
            else (Inr [command_from (ev, cx_subdomain cx)], t)
        | None \<Rightarrow> (Inr [command_from (ev, cx_subdomain cx)], t))"

definition protocol_processor :: "bool \<Rightarrow> timestamp \<Rightarrow> 't event_processor" where
  "protocol_processor require_auth_to_post now =
     default_processor\<lparr>ep_handle_event := protocol_handle_event require_auth_to_post now\<rparr>"

section \<open>Sessions (04)\<close>

record user_session =
  us_messages_sent :: "32 word"
  us_first_event_time :: "nat option"
  us_subdomain_info :: "string option"

definition user_session_default :: user_session where
  "user_session_default = \<lparr>us_messages_sent = 0, us_first_event_time = None, us_subdomain_info = None\<rparr>"

definition message_limit :: "string list \<Rightarrow> scope \<Rightarrow> nat" where
  "message_limit premium_subdomains sc = (case sc of
     ScopeNamed name \<Rightarrow> if name \<in> set premium_subdomains then 500 else 100
   | ScopeDefault \<Rightarrow> 50)"

text \<open>The length of the content is in bytes; \<open>utf8_len\<close> gives it.\<close>

definition session_handle_event ::
  "(string \<Rightarrow> nat) \<Rightarrow> string list \<Rightarrow> nat \<Rightarrow> event \<Rightarrow> user_session \<Rightarrow> event_context
     \<Rightarrow> (error + store_command list) \<times> user_session" where
  "session_handle_event utf8_len premium_subdomains now ev s cx =
     (let sc = cx_subdomain cx;
          s1 = (if us_first_event_time s = None
                then s\<lparr>us_first_event_time := Some now,
                       us_subdomain_info := (case sc of ScopeNamed name \<Rightarrow> Some name | ScopeDefault \<Rightarrow> None)\<rparr>
                else s);
          s2 = s1\<lparr>us_messages_sent := us_messages_sent s1 + 1\<rparr>;
          limit = message_limit premium_subdomains sc
      in if us_messages_sent s2 > of_nat limit
         then (Inl (Restricted (''message limit '' @ nat_str limit @ '' exceeded for this session'')), s2)
         else if sc = ScopeNamed ''test'' \<and> utf8_len (ev_content ev) > 1000
         then (Inl (Restricted ''test subdomain has 1000 char limit''), s2)
         else (Inr [command_from (ev, sc)], s2))"

definition advanced_state_processor :: "(string \<Rightarrow> nat) \<Rightarrow> string list \<Rightarrow> nat \<Rightarrow> user_session event_processor" where
  "advanced_state_processor utf8_len premium_subdomains now =
     default_processor\<lparr>ep_handle_event := session_handle_event utf8_len premium_subdomains now\<rparr>"


section \<open>Results\<close>

lemma accepting_processors: "simple_processor = default_processor" "accept_all_processor = default_processor"
  by (simp_all add: simple_processor_def accept_all_processor_def default_processor_def command_from_def)

subsection \<open>The limit of 02\<close>

text \<open>The run of the processor over the events of all connections, in the order in which they take the lock.\<close>

type_synonym timed_event = "nat \<times> event \<times> event_context"

primrec smart_run ::
  "(pubkey \<Rightarrow> string) \<Rightarrow> (string \<Rightarrow> string) \<Rightarrow> smart_processor \<Rightarrow> timed_event list \<Rightarrow> rate_limits
     \<Rightarrow> (timed_event \<times> (error + store_command list)) list \<times> rate_limits" where
  "smart_run show_key lower P [] limits = ([], limits)"
| "smart_run show_key lower P (x # xs) limits =
     (let h = smart_handle_event show_key lower P (fst x) (fst (snd x)) (snd (snd x)) limits;
          rest = smart_run show_key lower P xs (snd h)
      in ((x, fst h) # fst rest, snd rest))"

definition event_key :: "(pubkey \<Rightarrow> string) \<Rightarrow> timed_event \<Rightarrow> string" where
  "event_key show_key x = show_key (ev_pubkey (fst (snd x)))"

definition accepted_from :: "(pubkey \<Rightarrow> string) \<Rightarrow> string \<Rightarrow> (timed_event \<times> (error + 'c)) list \<Rightarrow> nat" where
  "accepted_from show_key k rs = length (List.filter (\<lambda>(x, r). event_key show_key x = k \<and> is_ok r) rs)"

text \<open>How many events of one author are within the limit, given the times at which they come.\<close>

primrec within_quota :: "32 word \<Rightarrow> rate_limit_info option \<Rightarrow> nat list \<Rightarrow> nat" where
  "within_quota m entry [] = 0"
| "within_quota m entry (t # ts) = (let i = count_event t entry
     in (if rl_events_received i > m then 0 else 1) + within_quota m (Some i) ts)"

definition received :: "rate_limit_info option \<Rightarrow> nat" where
  "received entry = (case entry of Some i \<Rightarrow> unat (rl_events_received i) | None \<Rightarrow> 0)"

lemma smart_handle_event_limits:
  "snd (smart_handle_event show_key lower P now ev cx limits) =
     hm_insert (show_key (ev_pubkey ev)) (count_event now (hm_get limits (show_key (ev_pubkey ev)))) limits"
  by (simp add: smart_handle_event_def Let_def split: sum.split)

lemma smart_handle_event_over:
  "is_ok (fst (smart_handle_event show_key lower P now ev cx limits)) \<Longrightarrow>
     rl_events_received (count_event now (hm_get limits (show_key (ev_pubkey ev)))) \<le> sp_max_events_per_minute P"
  by (auto simp: smart_handle_event_def Let_def split: if_splits)

lemma accepted_within_quota:
  "accepted_from show_key k (fst (smart_run show_key lower P xs limits)) \<le>
     within_quota (sp_max_events_per_minute P) (hm_get limits k)
       (map fst (List.filter (\<lambda>x. event_key show_key x = k) xs))"
proof (induction xs arbitrary: limits)
  case (Cons x xs)
  show ?case
    using Cons.IH [of "snd (smart_handle_event show_key lower P (fst x) (fst (snd x)) (snd (snd x)) limits)"]
      smart_handle_event_over [of show_key lower P "fst x" "fst (snd x)" "snd (snd x)" limits]
    by (auto simp: accepted_from_def event_key_def Let_def smart_handle_event_limits hm_simps not_less)
qed (simp add: accepted_from_def)

lemma count_event_received: "received entry + 1 < 2 ^ 32 \<Longrightarrow> received (Some (count_event t entry)) \<le> received entry + 1"
  by (auto simp: received_def count_event_def Let_def unat_word_ariths split: option.split)


lemma unat_succ: "unat (x :: 32 word) + 1 < 2 ^ 32 \<Longrightarrow> unat (x + 1) = unat x + 1"
  by (simp add: unat_word_ariths)

lemma within_one_window:
  assumes "\<forall>t \<in> set ts. t - rl_window_start i \<le> window_length"
    "unat (rl_events_received i) + length ts < 2 ^ 32"
  shows "within_quota m (Some i) ts \<le> unat m - unat (rl_events_received i)"
  using assms
proof (induction ts arbitrary: i)
  case (Cons t ts)
  let ?j = "i\<lparr>rl_events_received := rl_events_received i + 1\<rparr>"
  have j: "count_event t (Some i) = ?j"
    using Cons.prems(1) by (simp add: count_event_def Let_def)
  have n: "unat (rl_events_received ?j) = unat (rl_events_received i) + 1"
    using Cons.prems(2) by (simp add: unat_succ)
  show ?case
    using Cons.IH [of ?j] Cons.prems n by (auto simp: j Let_def word_less_nat_alt split: if_splits)
qed simp

lemma within_two_windows:
  assumes "\<forall>t \<in> set ts. a \<le> t \<and> t \<le> a + window_length" "received entry + length ts < 2 ^ 32"
  shows "within_quota m entry ts \<le> unat m + (unat m - received entry)"
  using assms
proof (induction ts arbitrary: entry)
  case (Cons t ts)
  let ?i = "count_event t entry"
  have fits: "\<forall>u \<in> set ts. u - t \<le> window_length"
    using Cons.prems(1) by force
  show ?case
  proof (cases "rl_window_start ?i = t \<and> rl_events_received ?i = 1")
    case True
    then show ?thesis
      using within_one_window [of ts ?i m] fits Cons.prems(2) by (auto simp: Let_def word_less_nat_alt)
  next
    case False
    then obtain i where i: "entry = Some i" "?i = i\<lparr>rl_events_received := rl_events_received i + 1\<rparr>"
      by (cases entry) (auto simp: count_event_def Let_def split: if_splits)
    have "unat (rl_events_received i + 1) = unat (rl_events_received i) + 1"
      using Cons.prems(2) i(1) by (intro unat_succ) (simp add: received_def)
    then show ?thesis
      using Cons.IH [of "Some ?i"] Cons.prems i by (auto simp: Let_def received_def word_less_nat_alt split: if_splits)
  qed
qed simp

lemma smart_run_append:
  "smart_run show_key lower P (xs @ ys) limits =
     (fst (smart_run show_key lower P xs limits) @ fst (smart_run show_key lower P ys (snd (smart_run show_key lower P xs limits))),
      snd (smart_run show_key lower P ys (snd (smart_run show_key lower P xs limits))))"
  by (induction xs arbitrary: limits) (simp_all add: Let_def)

lemma smart_run_received:
  "received (hm_get limits k) + length xs < 2 ^ 32 \<Longrightarrow>
     received (hm_get (snd (smart_run show_key lower P xs limits)) k) \<le> received (hm_get limits k) + length xs"
proof (induction xs arbitrary: limits)
  case (Cons x xs)
  let ?l = "snd (smart_handle_event show_key lower P (fst x) (fst (snd x)) (snd (snd x)) limits)"
  have "received (hm_get ?l k) \<le> received (hm_get limits k) + 1"
    using Cons.prems count_event_received [of "hm_get limits k" "fst x"]
    by (auto simp: smart_handle_event_limits hm_simps)
  then show ?case
    using Cons.IH [of ?l] Cons.prems by (simp add: Let_def)
qed simp

text \<open>In any minute, whatever came before, at most twice the configured number of events of one author is accepted: two
  windows of the fixed kind can meet in it. The lemma after it shows that more than the configured number can be.\<close>

lemma smart_rate_bounded:
  assumes "length (before @ during) < 2 ^ 32" "\<forall>x \<in> set during. a \<le> fst x \<and> fst x \<le> a + window_length"
  shows "accepted_from show_key k (drop (length before) (fst (smart_run show_key lower P (before @ during) []))) \<le>
    2 * unat (sp_max_events_per_minute P)"
proof -
  let ?l = "snd (smart_run show_key lower P before [])"
  let ?ts = "map fst (List.filter (\<lambda>x. event_key show_key x = k) during)"
  have len: "length (fst (smart_run show_key lower P before limits)) = length before" for limits
    by (induction before arbitrary: limits) (simp_all add: Let_def)
  have "received (hm_get ?l k) \<le> length before"
    using smart_run_received [of "[]" k before show_key lower P] assms(1) by (simp add: received_def)
  moreover have "length ?ts \<le> length during"
    by simp
  ultimately have "received (hm_get ?l k) + length ?ts < 2 ^ 32"
    using assms(1) unfolding length_append by linarith
  then have "within_quota (sp_max_events_per_minute P) (hm_get ?l k) ?ts \<le>
      unat (sp_max_events_per_minute P) + (unat (sp_max_events_per_minute P) - received (hm_get ?l k))"
    using assms by (intro within_two_windows [where a = a]) auto
  then show ?thesis
    using accepted_within_quota [of show_key k lower P during ?l] by (simp add: smart_run_append len)
qed


definition demo_smart :: smart_processor where
  "demo_smart = \<lparr>sp_blocked_words = [], sp_max_events_per_minute = 2\<rparr>"

definition demo_note :: "nat \<Rightarrow> timed_event" where
  "demo_note t = (t, \<lparr>ev_id = t, ev_pubkey = 7, ev_created_at = 0, ev_kind = 1, ev_tags = [], ev_content = []\<rparr>,
     \<lparr>cx_authed_pubkey = None, cx_subdomain = ScopeDefault, cx_relay_pubkey = 0\<rparr>)"

lemma demo_note_handled:
  "smart_handle_event (\<lambda>_. ''k'') id demo_smart (fst (demo_note t)) (fst (snd (demo_note t))) (snd (snd (demo_note t))) limits =
     (let info = count_event t (hm_get limits ''k'')
      in (if rl_events_received info > 2 then Inl (Restricted ''rate limit exceeded - slow down!'')
          else Inr [command_from (fst (snd (demo_note t)), ScopeDefault)], hm_insert ''k'' info limits))"
  by (simp add: smart_handle_event_def check_content_def demo_note_def demo_smart_def mention_count_def Let_def)

text \<open>With a limit of two, three events of one author are accepted within a nanosecond.\<close>

lemma fixed_windows_double:
  "let w = window_length; during = [demo_note w, demo_note (w + 1), demo_note (w + 1)]
   in map (\<lambda>(x, r). is_ok r) (fst (smart_run (\<lambda>_. ''k'') id demo_smart (demo_note 0 # during) [])) =
     [True, True, True, True]"
  by (simp add: Let_def demo_note_handled count_event_def hm_simps)

subsection \<open>The session limit of 04\<close>

primrec session_run ::
  "(string \<Rightarrow> nat) \<Rightarrow> string list \<Rightarrow> event_context \<Rightarrow> (nat \<times> event) list \<Rightarrow> user_session
     \<Rightarrow> (error + store_command list) list" where
  "session_run utf8_len premium cx [] s = []"
| "session_run utf8_len premium cx (x # xs) s =
     (let h = session_handle_event utf8_len premium (fst x) (snd x) s cx
      in fst h # session_run utf8_len premium cx xs (snd h))"

lemma message_limit_word: "unat (of_nat (message_limit premium sc) :: 32 word) = message_limit premium sc"
  by (auto simp: message_limit_def split: scope.split)

lemma session_sent:
  "us_messages_sent (snd (session_handle_event utf8_len premium now ev s cx)) = us_messages_sent s + 1"
  by (simp add: session_handle_event_def Let_def)

lemma session_accepts:
  assumes "unat (us_messages_sent s) + 1 < 2 ^ 32"
  shows "is_ok (fst (session_handle_event utf8_len premium now ev s cx)) \<longleftrightarrow>
    unat (us_messages_sent s) < message_limit premium (cx_subdomain cx) \<and>
    \<not> (cx_subdomain cx = ScopeNamed ''test'' \<and> utf8_len (ev_content ev) > 1000)"
proof -
  have "us_messages_sent s + 1 > of_nat (message_limit premium (cx_subdomain cx)) \<longleftrightarrow>
      \<not> unat (us_messages_sent s) < message_limit premium (cx_subdomain cx)"
    using unat_succ [OF assms] by (auto simp: word_less_nat_alt message_limit_word)
  then show ?thesis
    by (simp add: session_handle_event_def Let_def not_le)
qed

text \<open>The session: of the events that come, exactly the first ones up to the limit of the connection's scope are
  accepted, less those that are too long on the subdomain \<open>test\<close>; these use the limit up all the same.\<close>

lemma session_run_accepts:
  "unat (us_messages_sent s) + length xs < 2 ^ 32 \<Longrightarrow>
     map is_ok (session_run utf8_len premium cx xs s) =
     map (\<lambda>(i, x). i < message_limit premium (cx_subdomain cx) \<and>
         \<not> (cx_subdomain cx = ScopeNamed ''test'' \<and> utf8_len (ev_content (snd x)) > 1000))
       (enumerate (unat (us_messages_sent s)) xs)"
proof (induction xs arbitrary: s)
  case (Cons x xs)
  let ?s = "snd (session_handle_event utf8_len premium (fst x) (snd x) s cx)"
  have "unat (us_messages_sent ?s) = unat (us_messages_sent s) + 1"
    unfolding session_sent using Cons.prems by (intro unat_succ) simp
  then show ?case
    using Cons.IH [of ?s] Cons.prems session_accepts [of s utf8_len premium "fst x" "snd x" cx] by (simp add: Let_def)
qed simp

lemma session_limit:
  assumes "length xs < 2 ^ 32"
  shows "length (List.filter is_ok (session_run utf8_len premium cx xs user_session_default)) \<le>
    message_limit premium (cx_subdomain cx)"
proof -
  let ?rs = "session_run utf8_len premium cx xs user_session_default"
  let ?n = "message_limit premium (cx_subdomain cx)"
  have map: "map is_ok ?rs = map (\<lambda>(i, x). i < ?n \<and>
      \<not> (cx_subdomain cx = ScopeNamed ''test'' \<and> utf8_len (ev_content (snd x)) > 1000)) (enumerate 0 xs)"
    using session_run_accepts [of user_session_default xs utf8_len premium cx] assms
    by (simp add: user_session_default_def)
  have "{i. i < length ?rs \<and> is_ok (?rs ! i)} \<subseteq> {..<?n}"
  proof
    fix i assume i: "i \<in> {i. i < length ?rs \<and> is_ok (?rs ! i)}"
    then have "i < length xs"
      using arg_cong [OF map, of length] by simp
    then show "i \<in> {..<?n}"
      using i arg_cong [OF map, of "\<lambda>l. l ! i"] by (simp add: nth_enumerate_eq)
  qed
  from card_mono [OF _ this] show ?thesis
    by (simp add: length_filter_conv_card)
qed

subsection \<open>The rules of 03\<close>

lemma protocol_refuses_unauthenticated:
  "cx_authed_pubkey cx = None \<Longrightarrow> ep_handle_event (protocol_processor True now) ev t cx =
     (Inl (Restricted ''authentication required: please AUTH first''), t)"
  by (simp add: protocol_processor_def protocol_handle_event_def)

text \<open>The tag \<open>expiration\<close> has a kind of its own in the crate \<open>nostr\<close>, so that the check of this processor, which looks for
  a custom kind of that name, never applies: an expired event is accepted.\<close>

lemma protocol_accepts_expired:
  assumes "cx_authed_pubkey cx \<noteq> None" "\<forall>t \<in> set (ev_tags ev). tag_kind t \<noteq> TagOther ''expiration''"
  shows "ep_handle_event (protocol_processor require now) ev t cx = (Inr [command_from (ev, cx_subdomain cx)], t)"
proof -
  have "List.find (is_custom_tag ''expiration'') (ev_tags ev) = None"
    using assms(2) by (auto simp: find_None_iff is_custom_tag_def split: tag_kind.splits)
  then show ?thesis
    using assms(1) by (simp add: protocol_processor_def protocol_handle_event_def)
qed

end
