(* ===== verification/Example_Relays.thy ===== *)
theory Example_Relays
  imports Example_Processors
begin

text \<open>
  The example relays of \<open>src/examples/\<close> put together: the two middlewares of \<open>05_custom_middleware.rs\<close>, and the \<open>main\<close> of
  the examples: their configuration, relay document, builder, chain and root route. A processor that reads the clock
  is the processor at that moment, so the relay of \<open>03\<close> and \<open>04\<close> takes \<open>now\<close>. Lines printed to the console, the
  task tracker and the graceful shutdown of \<open>06\<close> are left out.
\<close>

section \<open>Custom middlewares (05)\<close>

text \<open>The timing middleware measures and logs what the rest of the chain takes.\<close>

definition timing_middleware :: "('t, 'n, 'db, 'l) env middleware" where
  "timing_middleware = default_middleware\<lparr>mw_process_inbound := (\<lambda>ms next m e. case next m e of (result, m', e') \<Rightarrow> (result, m', e'))\<rparr>"

definition welcome_on_connect :: "nostr_lib \<Rightarrow> string \<Rightarrow> message_sender \<Rightarrow> ('t, 'n, 'db, 'l) env hook" where
  "welcome_on_connect L message ms e = (case env_send L ms (RM_Notice message) e of
     (Inl err, e') \<Rightarrow> (Inl err, e')
   | (Inr _, e') \<Rightarrow> (Inr (), e'))"

definition welcome_middleware :: "nostr_lib \<Rightarrow> string \<Rightarrow> ('t, 'n, 'db, 'l) env middleware" where
  "welcome_middleware L message = default_middleware\<lparr>mw_on_connect := welcome_on_connect L message\<rparr>"

section \<open>Relays\<close>

record ('m, 'db) example_app =
  ea_factory :: "'m handler_factory"
  ea_world :: "'db world"
  ea_diagnostics :: bool
  ea_root :: "channel option \<Rightarrow> string option \<Rightarrow> string option option \<Rightarrow> 'm root_reply"
  ea_addr :: string

text \<open>The end of every \<open>main\<close>: the errors of the builder and of binding the address are returned.\<close>

definition serve_example ::
  "(error + 'm handler_factory \<times> 'db world \<times> bool) option
     \<Rightarrow> ('m handler_factory \<Rightarrow> channel option \<Rightarrow> string option \<Rightarrow> string option option \<Rightarrow> 'm root_reply)
     \<Rightarrow> (string \<Rightarrow> string + unit) \<Rightarrow> string \<Rightarrow> (anyhow_error + ('m, 'db) example_app) option" where
  "serve_example built root tcp_bind addr = (case built of
     None \<Rightarrow> None
   | Some (Inl err) \<Rightarrow> Some (Inl (FromError err))
   | Some (Inr (F, w, diag)) \<Rightarrow> (case tcp_bind addr of
       Inl err \<Rightarrow> Some (Inl (AnyhowMsg err))
     | Inr _ \<Rightarrow> Some (Inr \<lparr>ea_factory = F, ea_world = w, ea_diagnostics = diag, ea_root = root F, ea_addr = addr\<rparr>)))"

definition plain_info :: "string \<Rightarrow> string \<Rightarrow> string \<Rightarrow> string \<Rightarrow> string \<Rightarrow> string \<Rightarrow> nat list \<Rightarrow> relay_info" where
  "plain_info version name description hex_key contact software nips =
     \<lparr>ri_name = name, ri_description = description, ri_pubkey = hex_key, ri_contact = contact,
      ri_supported_nips = nips, ri_software = software, ri_version = version, ri_icon = None\<rparr>"

definition local_addr :: string where
  "local_addr = ''127.0.0.1:8080''"

definition minimal_config :: "environment \<Rightarrow> pubkey \<Rightarrow> 'd relay_config" where
  "minimal_config env keys = with_diagnostics (with_subdomains 2
     (relay_config_new ''ws://example.local:8080'' (DbPath (env_or env ''RELAY_DATA_DIR'' ''./minimal_relay_db'')) keys))"

definition minimal_relay ::
  "nostr_lib \<Rightarrow> 'db lmdb \<Rightarrow> ('n, 's) negentropy_lib \<Rightarrow> 'db db_opener \<Rightarrow> (string \<Rightarrow> bool) \<Rightarrow> (string \<Rightarrow> string + unit)
     \<Rightarrow> (string \<Rightarrow> string) \<Rightarrow> (pubkey \<Rightarrow> string) \<Rightarrow> string \<Rightarrow> environment \<Rightarrow> pubkey
     \<Rightarrow> (anyhow_error + ((unit, 'n, 'db, 'l) env middleware, 'db) example_app) option" where
  "minimal_relay L D N opener url_ok tcp_bind lower hex version env keys =
     serve_example
       (build_with L D N opener url_ok False (\<lambda>chain. chain)
          (relay_builder_new (minimal_config env keys) :: (unit, 'db, unit) relay_builder))
       (\<lambda>F. create_root_handler L F (create_relay_info lower hex version ''Minimal Relay''
          ''A minimal Nostr relay implementation'' keys [1, 9, 50]))
       tcp_bind ''0.0.0.0:8080''"

definition smart_config :: "pubkey \<Rightarrow> 'd relay_config" where
  "smart_config keys = with_max_connections 100 (relay_config_new ''ws://localhost:8080'' (DbPath ''./data/event_processing'') keys)"

definition smart_info :: "(string \<Rightarrow> string) \<Rightarrow> (pubkey \<Rightarrow> string) \<Rightarrow> string \<Rightarrow> pubkey \<Rightarrow> relay_info" where
  "smart_info lower hex version keys = create_relay_info lower hex version ''Smart Event Processing Relay''
     ''A relay with spam filtering and rate limiting'' keys [1, 9, 11, 50]"

definition smart_processor_of_main :: smart_processor where
  "smart_processor_of_main = \<lparr>sp_blocked_words = [''spam'', ''viagra'', ''casino'', ''forex''], sp_max_events_per_minute = 10\<rparr>"

definition protocol_config :: "pubkey \<Rightarrow> 'd relay_config" where
  "protocol_config keys =
     (relay_config_new ''ws://localhost:8081'' (DbPath ''./data/protocol_features'') keys)\<lparr>rc_enable_auth := True\<rparr>"

definition protocol_builder :: "timestamp \<Rightarrow> pubkey \<Rightarrow> (unit, 'd, unit) relay_builder" where
  "protocol_builder now keys = set_event_processor (protocol_processor True now) (relay_builder_new (protocol_config keys))"

definition protocol_relay ::
  "nostr_lib \<Rightarrow> 'db lmdb \<Rightarrow> ('n, 's) negentropy_lib \<Rightarrow> 'db db_opener \<Rightarrow> (string \<Rightarrow> bool) \<Rightarrow> (string \<Rightarrow> string + unit)
     \<Rightarrow> (string \<Rightarrow> string) \<Rightarrow> (pubkey \<Rightarrow> string) \<Rightarrow> string \<Rightarrow> timestamp \<Rightarrow> pubkey
     \<Rightarrow> (anyhow_error + ((unit, 'n, 'db, 'l) env middleware, 'db) example_app) option" where
  "protocol_relay L D N opener url_ok tcp_bind lower hex version now keys =
     serve_example (build_with L D N opener url_ok False (\<lambda>chain. chain) (protocol_builder now keys))
       (\<lambda>F. create_root_handler L F (create_relay_info lower hex version ''Protocol Features Relay''
          ''Demonstrates authentication, expiration, and protected events'' keys [1, 9, 11, 40, 42, 50, 70]))
       tcp_bind ''127.0.0.1:8081''"

definition advanced_config :: "nostr_lib \<Rightarrow> pubkey \<Rightarrow> 'd relay_config" where
  "advanced_config L keys = with_max_connections 1000 (with_subdomains_from_url L ''ws://example.local:8080''
     (relay_config_new ''ws://example.local:8080'' (DbPath ''./data/advanced_state'') keys))"

definition advanced_builder :: "nostr_lib \<Rightarrow> (string \<Rightarrow> nat) \<Rightarrow> nat \<Rightarrow> pubkey \<Rightarrow> (user_session, 'd, unit) relay_builder" where
  "advanced_builder L utf8_len now keys =
     set_event_processor (advanced_state_processor utf8_len [''vip'', ''premium''] now)
       (custom_state (relay_builder_new (advanced_config L keys) :: (user_session, 'd, unit) relay_builder))"

definition advanced_relay ::
  "nostr_lib \<Rightarrow> 'db lmdb \<Rightarrow> ('n, 's) negentropy_lib \<Rightarrow> 'db db_opener \<Rightarrow> (string \<Rightarrow> bool) \<Rightarrow> (string \<Rightarrow> string + unit)
     \<Rightarrow> (pubkey \<Rightarrow> string) \<Rightarrow> string \<Rightarrow> (string \<Rightarrow> nat) \<Rightarrow> nat \<Rightarrow> pubkey
     \<Rightarrow> (anyhow_error + ((user_session, 'n, 'db, 'l) env middleware, 'db) example_app) option" where
  "advanced_relay L D N opener url_ok tcp_bind hex version utf8_len now keys =
     serve_example (build_with L D N opener url_ok False (\<lambda>chain. chain) (advanced_builder L utf8_len now keys))
       (\<lambda>F. create_root_handler L F (plain_info version ''Advanced State Relay'' ''Multi-tenant relay with session tracking''
          (hex keys) ''admin@example.local'' ''relay_builder'' [1, 9, 11, 50]))
       tcp_bind local_addr"

definition custom_builder :: "pubkey \<Rightarrow> (unit, 'd, unit) relay_builder" where
  "custom_builder keys = set_event_processor simple_processor
     (relay_builder_new (relay_config_new ''ws://localhost:8080'' (DbPath ''./data/custom_middleware'') keys))"

definition custom_middlewares :: "nostr_lib \<Rightarrow> ('t, 'n, 'db, 'l) env middleware list" where
  "custom_middlewares L = [welcome_middleware L ''Welcome to the custom middleware relay!'', timing_middleware]"

definition custom_relay ::
  "nostr_lib \<Rightarrow> 'db lmdb \<Rightarrow> ('n, 's) negentropy_lib \<Rightarrow> 'db db_opener \<Rightarrow> (string \<Rightarrow> bool) \<Rightarrow> (string \<Rightarrow> string + unit)
     \<Rightarrow> (pubkey \<Rightarrow> string) \<Rightarrow> string \<Rightarrow> pubkey
     \<Rightarrow> (anyhow_error + ((unit, 'n, 'db, 'l) env middleware, 'db) example_app) option" where
  "custom_relay L D N opener url_ok tcp_bind hex version keys =
     serve_example (build_with L D N opener url_ok False (fold builder_with (custom_middlewares L)) (custom_builder keys))
       (\<lambda>F. create_root_handler L F (plain_info version ''Custom Middleware Relay''
          ''Demonstrates custom middleware implementation'' (hex keys) ''admin@custom.relay''
          ''relay_builder/custom_middleware'' [1, 9, 11]))
       tcp_bind local_addr"

definition production_ws_config :: websocket_config where
  "production_ws_config = \<lparr>wc_max_connections = Some 1000, wc_max_connection_duration = Some 3600, wc_idle_timeout = Some 300\<rparr>"

definition production_config :: "pubkey \<Rightarrow> 'd relay_config" where
  "production_config keys = with_websocket_config production_ws_config (with_subscription_limits 100 1000
     (relay_config_new ''ws://localhost:8080'' (DbPath ''./production.db'') keys))"

definition production_relay ::
  "nostr_lib \<Rightarrow> 'db lmdb \<Rightarrow> ('n, 's) negentropy_lib \<Rightarrow> 'db db_opener \<Rightarrow> (string \<Rightarrow> bool) \<Rightarrow> (string \<Rightarrow> string + unit)
     \<Rightarrow> (pubkey \<Rightarrow> string) \<Rightarrow> string \<Rightarrow> pubkey
     \<Rightarrow> (anyhow_error + ((unit, 'n, 'db, 'l) env middleware, 'db) example_app) option" where
  "production_relay L D N opener url_ok tcp_bind hex version keys =
     serve_example
       (build_with L D N opener url_ok False (\<lambda>chain. chain)
          (relay_builder_new (production_config keys) :: (unit, 'db, unit) relay_builder))
       (\<lambda>F. create_root_handler_with_config L F (plain_info version ''Production Relay''
          ''Production-ready relay with monitoring'' (hex keys) ''ops@example.com'' ''relay_builder'' [1, 9, 50])
          production_ws_config)
       tcp_bind local_addr"

text \<open>The health route of this example and its counter, which the sockets do not touch either.\<close>

definition production_health :: "binary_http \<Rightarrow> string" where
  "production_health h = (let q = [CHR 0x22] in
     ''{'' @ q @ ''status'' @ q @ '':'' @ q @ ''ok'' @ q @ '','' @ q @ ''active_connections'' @ q @ '':'' @
       nat_str (bh_counter h) @ ''}'')"

definition rate_limited_builder :: "pubkey \<Rightarrow> (unit, 'd, unit) relay_builder" where
  "rate_limited_builder keys = set_event_processor simple_processor
     (relay_builder_new (relay_config_new ''ws://localhost:8080'' (DbPath ''./data/rate_limiting'') keys))"

text \<open>\<open>home\<close> is the fixed text of its page; this root route answers no relay document.\<close>

definition rate_limited_relay ::
  "nostr_lib \<Rightarrow> 'db lmdb \<Rightarrow> ('n, 's) negentropy_lib \<Rightarrow> 'db db_opener \<Rightarrow> (string \<Rightarrow> bool) \<Rightarrow> (string \<Rightarrow> string + unit)
     \<Rightarrow> (nat \<Rightarrow> nat option \<Rightarrow> 'l rate_limiter) \<Rightarrow> string \<Rightarrow> pubkey
     \<Rightarrow> (anyhow_error + ((unit, 'n, 'db, 'l) env middleware, 'db) example_app) option" where
  "rate_limited_relay L D N opener url_ok tcp_bind governor home keys =
     serve_example
       (build_with L D N opener url_ok False (builder_with (rate_limit_middleware (governor 10 None)))
          (rate_limited_builder keys))
       (\<lambda>F ws host accept. case ws of Some ch \<Rightarrow> RootUpgrade (create L F ch host) connection_config_default | None \<Rightarrow> RootHtml home)
       tcp_bind local_addr"

definition diagnostics_builder :: "pubkey \<Rightarrow> (unit, 'd, unit) relay_builder" where
  "diagnostics_builder keys = set_event_processor accept_all_processor (relay_builder_new (with_diagnostics
     (relay_config_new ''ws://localhost:8080'' (DbPath ''./data/relay_with_diagnostics'') keys)))"

definition diagnostics_relay ::
  "nostr_lib \<Rightarrow> 'db lmdb \<Rightarrow> ('n, 's) negentropy_lib \<Rightarrow> 'db db_opener \<Rightarrow> (string \<Rightarrow> bool) \<Rightarrow> (string \<Rightarrow> string + unit)
     \<Rightarrow> 'm semaphore \<Rightarrow> pubkey
     \<Rightarrow> (anyhow_error + (unit, 'n, 'db, 'l) env middleware handler_factory \<times> 'db world \<times> bool \<times> 'm route_state) option" where
  "diagnostics_relay L D N opener url_ok tcp_bind S keys =
     (case build_with L D N opener url_ok False (\<lambda>chain. chain) (diagnostics_builder keys) of
        None \<Rightarrow> None
      | Some (Inl err) \<Rightarrow> Some (Inl (FromError err))
      | Some (Inr (F, w, diag)) \<Rightarrow> (case tcp_bind local_addr of
          Inl err \<Rightarrow> Some (Inl (AnyhowMsg err))
        | Inr _ \<Rightarrow> Some (Inr (F, w, diag, websocket_route S))))"


section \<open>Results\<close>

lemma serve_example_built:
  "serve_example built root tcp_bind addr = Some (Inr A) \<Longrightarrow>
     built = Some (Inr (ea_factory A, ea_world A, ea_diagnostics A)) \<and> ea_root A = root (ea_factory A)"
  by (auto simp: serve_example_def split: option.splits sum.splits)

subsection \<open>The custom middlewares\<close>

text \<open>Both leave the registry alone; the timing middleware changes nothing at all, and the welcome middleware
  nothing of what passes through it.\<close>

interpretation timing: transparent "timing_middleware :: ('t, 'n, 'db, 'l) env middleware"
  by unfold_locales (simp_all add: timing_middleware_def default_middleware_def)

interpretation timing_blind: registry_blind "timing_middleware :: ('t, 'n, 'db, 'l) env middleware"
  by (rule registry_blindI) (simp_all add: timing_middleware_def default_middleware_def passes)

interpretation welcome_outbound: outbound_transparent "welcome_middleware L message :: ('t, 'n, 'db, 'l) env middleware"
  for L message
  by unfold_locales (simp add: welcome_middleware_def default_middleware_def)

lemma welcome_on_connect_is_send: "welcome_on_connect L message ms e = env_send L ms (RM_Notice message) e"
  by (auto simp: welcome_on_connect_def split: prod.split sum.split)

interpretation welcome_blind: registry_blind "welcome_middleware L message :: ('t, 'n, 'db, 'l) env middleware"
  for L message
  by (rule registry_blindI)
    (simp_all add: welcome_middleware_def default_middleware_def passes welcome_on_connect_is_send)

lemma custom_blind: "\<forall>mw \<in> set (custom_middlewares L). registry_blind mw"
  by (simp add: custom_middlewares_def timing_blind.registry_blind_axioms welcome_blind.registry_blind_axioms)

text \<open>So the invariant of the whole system holds of this relay as it does of the default one.\<close>

lemma custom_relay_consistent:
  assumes "custom_relay L D N opener url_ok tcp_bind hex version keys = Some (Inr A)" "match_event_sound L"
    "(system_step L D (ea_factory A) url custom)\<^sup>*\<^sup>* (system_init (ea_world A)) s"
  shows "(\<forall>sc. index_table (w_registry (sy_world s)) sc = conn_table (w_registry (sy_world s)) sc) \<and>
    (\<forall>cid. has_connection (w_registry (sy_world s)) cid \<longrightarrow> hm_get (sy_live s) cid \<noteq> None)"
proof -
  have b: "build_with L D N opener url_ok False (fold builder_with (custom_middlewares L)) (custom_builder keys) =
      Some (Inr (ea_factory A, ea_world A, ea_diagnostics A))"
    using serve_example_built [OF assms(1) [unfolded custom_relay_def]] by blast
  show ?thesis
    using system_reachable_ok [OF assms(3,2) build_with_ok [OF b custom_blind]]
    by (auto simp: system_ok_def reg_ok_def reg_wf_def)
qed

definition custom_relay_middleware :: "unit relay_middleware" where
  "custom_relay_middleware = \<lparr>rm_processor = simple_processor, rm_max_limit = 5000, rm_max_subscriptions = Some 50\<rparr>"

lemma custom_builder_fields:
  "\<not> rb_without_defaults (custom_builder keys)" "\<not> rb_enable_metrics (custom_builder keys)"
  "\<not> rc_enable_auth (rb_config (custom_builder keys))" "relay_middleware_of (custom_builder keys) = custom_relay_middleware"
  by (simp_all add: custom_builder_def set_event_processor_def relay_builder_new_def relay_config_new_def
      relay_middleware_of_def relay_max_subscriptions_def custom_relay_middleware_def)

text \<open>The order of the chain: the timing middleware is added after the welcome middleware and so is outside it.\<close>

lemma custom_chain:
  assumes "custom_relay L D N opener url_ok tcp_bind hex version keys = Some (Inr A)"
  shows "map fst (links (build_connected ch (hf_chain (ea_factory A)))) =
    [either_middleware (LeftM logger_middleware), either_middleware (LeftM (error_handling_middleware L)),
     either_middleware (RightM identity_middleware), either_middleware (RightM identity_middleware),
     timing_middleware, welcome_middleware L ''Welcome to the custom middleware relay!'',
     relay_mw L D N custom_relay_middleware]"
proof -
  have b: "build_with L D N opener url_ok False (fold builder_with (custom_middlewares L)) (custom_builder keys) =
      Some (Inr (ea_factory A, ea_world A, ea_diagnostics A))"
    using serve_example_built [OF assms [unfolded custom_relay_def]] by blast
  then show ?thesis
    by (auto simp: build_with_def custom_builder_fields final_chain_def metrics_layer_def custom_middlewares_def
        builder_with_def builder_new_def Let_def split: if_splits sum.splits dest!: sym [of _ "ea_factory A"])
qed

subsection \<open>Processors in a relay\<close>

text \<open>What a client sees of an event that the processor refuses, in a relay of the default chain: exactly one OK message
  with status false, and nothing shared is changed but the log of what was sent.\<close>

lemma refused_event_answered:
  assumes "build_with L D N opener url_ok global_set (\<lambda>cb. cb) b = Some (Inr (F, w0, diag))"
    "\<not> rb_without_defaults b" "\<not> rb_enable_metrics b" "connected_to F c" "try_send L = (\<lambda>_ _. Sent)"
    "inp \<noteq> []" "from_json L inp = Inr (CM_Event ev)" "event_verify L ev = Inr ()"
    "ep_handle_event (rb_event_processor b) ev (ct_custom (en_state e)) (en_context e) = (Inl (Restricted msg), t')"
  shows "on_message L inp c e = Some (Inr (), e\<lparr>en_state := (en_state e)\<lparr>ct_custom := t'\<rparr>,
    en_world := (en_world e)\<lparr>w_outbox := env_outbox e @
      [(nc_channel c, RM_Ok (ev_id ev) False (''restricted: '' @ msg), 3, None)]\<rparr>\<rparr>)"
proof -
  have m: "process_single_message L inp = Inr (CM_Event ev)"
    using assms(6-8) by (simp add: process_single_message_def)
  show ?thesis
    by (simp add: on_message_default [OF assms(1-4) m no_auth_message_simps(1)] error_handling_inbound_def
        relay_inbound_def propagate_def handle_event_def relay_middleware_of_def assms(9) downcast_error_def
        message_id_of_def handle_inbound_error_def inbound_error_message_def reject_def env_send_ok [OF assms(5)] Let_def)
qed

lemma protocol_builder_fields:
  "\<not> rb_without_defaults (protocol_builder now keys)" "\<not> rb_enable_metrics (protocol_builder now keys)"
  "rb_event_processor (protocol_builder now keys) = protocol_processor True now"
  by (simp_all add: protocol_builder_def set_event_processor_def relay_builder_new_def)

text \<open>The relay of 03 stores nothing for a client that has not authenticated.\<close>

lemma protocol_relay_requires_auth:
  assumes "protocol_relay L D N opener url_ok tcp_bind lower hex version now keys = Some (Inr A)"
    "connected_to (ea_factory A) c" "try_send L = (\<lambda>_ _. Sent)"
    "inp \<noteq> []" "from_json L inp = Inr (CM_Event ev)" "event_verify L ev = Inr ()" "cx_authed_pubkey (en_context e) = None"
  shows "on_message L inp c e = Some (Inr (), e\<lparr>en_world := (en_world e)\<lparr>w_outbox := env_outbox e @
      [(nc_channel c, RM_Ok (ev_id ev) False ''restricted: authentication required: please AUTH first'', 3, None)]\<rparr>\<rparr>)"
proof -
  have b: "build_with L D N opener url_ok False (\<lambda>chain. chain) (protocol_builder now keys) =
      Some (Inr (ea_factory A, ea_world A, ea_diagnostics A))"
    using serve_example_built [OF assms(1) [unfolded protocol_relay_def]] by blast
  have p: "ep_handle_event (rb_event_processor (protocol_builder now keys)) ev (ct_custom (en_state e)) (en_context e) =
      (Inl (Restricted ''authentication required: please AUTH first''), ct_custom (en_state e))"
    by (simp add: protocol_builder_fields protocol_refuses_unauthenticated [OF assms(7)])
  show ?thesis
    using refused_event_answered [OF b protocol_builder_fields(1,2) assms(2-6) p] by simp
qed

end
