(* ===== verification/Registry_Threads.thy ===== *)
theory Registry_Threads
  imports Subscription_Registry_Properties
begin

text \<open>
  The registry of \<open>src/src/subscription_registry.rs\<close> as its tasks really run: the operations are
  \<open>async\<close> functions of many tasks, and give way between one access to shared memory and the next. The map of connections holds
  references (\<open>Arc\<close>) to objects that outlive their entry; an object is named by its connection and a
  number. The lock of an object's subscriptions (a \<open>tokio\<close> \<open>RwLock\<close>) is held from the moment it is taken to
  the end of the operation, as the guard of the source is. A single step is one access: a call on a \<open>DashMap\<close>, the work done under a lock,
  one call on an index (whose own locks are not looked into), one attempt to send.
\<close>

type_synonym conn_ref = "connection_id \<times> nat"

record shared =
  sh_objects :: "(conn_ref, connection_subscriptions) hmap"
  sh_connections :: "(connection_id, nat) hmap"
  sh_indexes :: "(scope, subscription_index) hmap"
  sh_metrics_handler :: bool
  sh_metrics_log :: "subscription_metric list"
  sh_locked :: "conn_ref list"
  sh_next :: nat
  sh_outbox :: outbox

definition shared_new :: "bool \<Rightarrow> shared" where
  "shared_new metrics_handler = \<lparr>sh_objects = [], sh_connections = [], sh_indexes = [], sh_metrics_handler = metrics_handler,
     sh_metrics_log = [], sh_locked = [], sh_next = 0, sh_outbox = []\<rparr>"

text \<open>Where a task stands in its operation.\<close>

datatype pc =
    RegStart connection_id message_sender "pubkey option" scope
  | AddStart connection_id subscription_id "filter list"
  | AddLock conn_ref subscription_id "filter list"
  | AddIndex conn_ref subscription_id "filter list" bool
  | AddMetric conn_ref bool
  | RemStart connection_id subscription_id
  | RemLock conn_ref subscription_id
  | RemIndex conn_ref subscription_id
  | RemMetric conn_ref subscription_id
  | ClnStart connection_id
  | ClnRead conn_ref
  | ClnRemove connection_id "(subscription_id list \<times> scope) option"
  | ClnIndex connection_id "subscription_id list" scope
  | ClnDrop connection_id "subscription_id list" scope nat
  | ClnMetric nat
  | DistStart event scope
  | DistSend event "(connection_id \<times> subscription_id) list" "connection_id list"

definition shared_log :: "subscription_metric \<Rightarrow> shared \<Rightarrow> shared" where
  "shared_log m s = (if sh_metrics_handler s then s\<lparr>sh_metrics_log := sh_metrics_log s @ [m]\<rparr> else s)"

definition shared_lock :: "conn_ref \<Rightarrow> shared \<Rightarrow> shared" where
  "shared_lock ref s = s\<lparr>sh_locked := ref # sh_locked s\<rparr>"

definition shared_unlock :: "conn_ref \<Rightarrow> shared \<Rightarrow> shared" where
  "shared_unlock ref s = s\<lparr>sh_locked := removeAll ref (sh_locked s)\<rparr>"

definition set_subscriptions :: "conn_ref \<Rightarrow> connection_subscriptions \<Rightarrow> (subscription_id, filter list) hmap \<Rightarrow> shared \<Rightarrow> shared" where
  "set_subscriptions ref conn subs s = s\<lparr>sh_objects := hm_insert ref (conn\<lparr>cs_subscriptions := subs\<rparr>) (sh_objects s)\<rparr>"

definition shared_index :: "scope \<Rightarrow> (subscription_index \<Rightarrow> subscription_index) \<Rightarrow> shared \<Rightarrow> shared" where
  "shared_index sc f s = (case hm_get (sh_indexes s) sc of
     None \<Rightarrow> s
   | Some ix \<Rightarrow> s\<lparr>sh_indexes := hm_insert sc (f ix) (sh_indexes s)\<rparr>)"

definition object_scope :: "conn_ref \<Rightarrow> shared \<Rightarrow> scope" where
  "object_scope ref s = (case hm_get (sh_objects s) ref of Some conn \<Rightarrow> cs_subdomain conn | None \<Rightarrow> ScopeDefault)"

text \<open>A distribution asks the index of the scope, then tries to send, one match at a time; the connections that could not
  take a message are cleaned up afterwards.\<close>

definition dist_start :: "nostr_lib \<Rightarrow> event \<Rightarrow> scope \<Rightarrow> shared \<Rightarrow> pc list \<times> shared" where
  "dist_start L e sc s = (case hm_get (sh_indexes s) sc of
     None \<Rightarrow> ([], s)
   | Some ix \<Rightarrow> ([DistSend e (fst (si_distribute_event L e ix)) []],
       s\<lparr>sh_indexes := hm_insert sc (snd (si_distribute_event L e ix)) (sh_indexes s)\<rparr>))"

definition dist_send :: "nostr_lib \<Rightarrow> event \<Rightarrow> (connection_id \<times> subscription_id) list \<Rightarrow> connection_id list
  \<Rightarrow> shared \<Rightarrow> pc list \<times> shared" where
  "dist_send L e matches dead s = (case matches of
     [] \<Rightarrow> (map ClnStart dead, s)
   | (cid, sid) # rest \<Rightarrow> (case hm_get (sh_connections s) cid of
       None \<Rightarrow> ([DistSend e rest dead], s)
     | Some n \<Rightarrow> (case hm_get (sh_objects s) (cid, n) of
         None \<Rightarrow> ([DistSend e rest dead], s)
       | Some conn \<Rightarrow>
           (case send_with_json L (cs_sender conn) (RM_Event sid e)
                   (event_message_json sid (event_as_json L e)) (sh_outbox s) of
              (Inl _, out') \<Rightarrow> ([DistSend e rest (dead @ [cid])], s\<lparr>sh_outbox := out'\<rparr>)
            | (Inr _, out') \<Rightarrow> ([DistSend e rest dead], s\<lparr>sh_outbox := out'\<rparr>)))))"

declare dist_start_def [simp] dist_send_def [simp]

text \<open>One step: \<open>None\<close> when the task waits for a lock, else what is left of the operation and the new memory. A
  reference always leads to its object; the branch without one is there for totality.\<close>

fun pc_step :: "nostr_lib \<Rightarrow> pc \<Rightarrow> shared \<Rightarrow> (pc list \<times> shared) option" where
  "pc_step L (RegStart cid ms auth_pubkey subdomain) s =
     Some ([], s\<lparr>sh_objects := hm_insert (cid, sh_next s)
         \<lparr>cs_subscriptions = [], cs_sender = ms, cs_auth_pubkey = auth_pubkey, cs_subdomain = subdomain\<rparr> (sh_objects s),
       sh_connections := hm_insert cid (sh_next s) (sh_connections s), sh_next := sh_next s + 1\<rparr>)"
| "pc_step L (AddStart cid sid fs) s = Some (case hm_get (sh_connections s) cid of
     None \<Rightarrow> ([], s)
   | Some n \<Rightarrow> ([AddLock (cid, n) sid fs], s))"
| "pc_step L (AddLock ref sid fs) s =
     (if ref \<in> set (sh_locked s) then None
      else Some (case hm_get (sh_objects s) ref of
        None \<Rightarrow> ([], s)
      | Some conn \<Rightarrow> ([AddIndex ref sid fs (hm_get (cs_subscriptions conn) sid = None)],
          shared_lock ref (set_subscriptions ref conn (hm_insert sid fs (cs_subscriptions conn)) s))))"
| "pc_step L (AddIndex ref sid fs is_new) s =
     (let sc = object_scope ref s;
          ix = (case hm_get (sh_indexes s) sc of None \<Rightarrow> si_new | Some ix \<Rightarrow> ix)
      in Some ([AddMetric ref is_new],
           s\<lparr>sh_indexes := hm_insert sc (si_add_subscription L (fst ref) sid fs ix) (sh_indexes s)\<rparr>))"
| "pc_step L (AddMetric ref is_new) s =
     Some ([], shared_unlock ref (if is_new then shared_log IncrementActive s else s))"
| "pc_step L (RemStart cid sid) s = Some (case hm_get (sh_connections s) cid of
     None \<Rightarrow> ([], s)
   | Some n \<Rightarrow> ([RemLock (cid, n) sid], s))"
| "pc_step L (RemLock ref sid) s =
     (if ref \<in> set (sh_locked s) then None
      else Some (case hm_get (sh_objects s) ref of
        None \<Rightarrow> ([], s)
      | Some conn \<Rightarrow>
          if hm_get (cs_subscriptions conn) sid \<noteq> None then
            ([RemIndex ref sid], shared_lock ref (set_subscriptions ref conn (hm_remove sid (cs_subscriptions conn)) s))
          else ([], s)))"
| "pc_step L (RemIndex ref sid) s =
     Some ([RemMetric ref sid], shared_index (object_scope ref s) (si_remove_subscription L (fst ref) sid) s)"
| "pc_step L (RemMetric ref sid) s = Some ([], shared_unlock ref (shared_log (DecrementActive 1) s))"
| "pc_step L (ClnStart cid) s = Some (case hm_get (sh_connections s) cid of
     None \<Rightarrow> ([ClnRemove cid None], s)
   | Some n \<Rightarrow> ([ClnRead (cid, n)], s))"
| "pc_step L (ClnRead ref) s =
     (if ref \<in> set (sh_locked s) then None
      else Some (case hm_get (sh_objects s) ref of
        None \<Rightarrow> ([], s)
      | Some conn \<Rightarrow> ([ClnRemove (fst ref) (Some (hm_keys (cs_subscriptions conn), cs_subdomain conn))], s)))"
| "pc_step L (ClnRemove cid info) s =
     Some (case info of None \<Rightarrow> [] | Some (ids, sc) \<Rightarrow> [ClnIndex cid ids sc],
       s\<lparr>sh_connections := hm_remove cid (sh_connections s)\<rparr>)"
| "pc_step L (ClnIndex cid ids sc) s =
     Some (case hm_get (sh_indexes s) sc of
         None \<Rightarrow> [ClnMetric (length ids)]
       | Some _ \<Rightarrow> [ClnDrop cid ids sc (length ids)], s)"
| "pc_step L (ClnDrop cid ids sc count_ids) s = Some (case ids of
       [] \<Rightarrow> ([ClnMetric count_ids], s)
     | sid # rest \<Rightarrow> ([ClnDrop cid rest sc count_ids], shared_index sc (si_remove_subscription L cid sid) s))"
| "pc_step L (ClnMetric n) s = Some ([], if n > 0 then shared_log (DecrementActive n) s else s)"
| "pc_step L (DistStart e sc) s = Some (dist_start L e sc s)"
| "pc_step L (DistSend e matches dead) s = Some (dist_send L e matches dead s)"

section \<open>Tasks\<close>

text \<open>What a task calls. \<open>CallReplace\<close> is \<open>add_subscription\<close> of the coordinator, which removes the subscription first.\<close>

datatype reg_call =
    CallRegister connection_id message_sender "pubkey option" scope
  | CallReplace connection_id subscription_id "filter list"
  | CallRemove connection_id subscription_id
  | CallCleanup connection_id
  | CallDistribute event scope

primrec program :: "reg_call \<Rightarrow> pc list" where
  "program (CallRegister cid ms ap sc) = [RegStart cid ms ap sc]"
| "program (CallReplace cid sid fs) = [RemStart cid sid, AddStart cid sid fs]"
| "program (CallRemove cid sid) = [RemStart cid sid]"
| "program (CallCleanup cid) = [ClnStart cid]"
| "program (CallDistribute e sc) = [DistStart e sc]"

record threads =
  th_shared :: shared
  th_tasks :: "pc list list"

text \<open>The step of the \<open>i\<close>-th task.\<close>

definition task_step :: "nostr_lib \<Rightarrow> nat \<Rightarrow> threads \<Rightarrow> threads option" where
  "task_step L i t = (if i < length (th_tasks t) then (case th_tasks t ! i of
       [] \<Rightarrow> None
     | pc # rest \<Rightarrow> (case pc_step L pc (th_shared t) of
         None \<Rightarrow> None
       | Some (pcs, s) \<Rightarrow> Some \<lparr>th_shared = s, th_tasks = (th_tasks t)[i := pcs @ rest]\<rparr>))
     else None)"

definition spawn :: "reg_call \<Rightarrow> threads \<Rightarrow> threads" where
  "spawn c t = t\<lparr>th_tasks := th_tasks t @ [program c]\<rparr>"

inductive thread_step :: "nostr_lib \<Rightarrow> threads \<Rightarrow> threads \<Rightarrow> bool" for L where
  spawned: "thread_step L t (spawn c t)"
| run: "task_step L i t = Some t' \<Longrightarrow> thread_step L t t'"

definition threads_init :: "bool \<Rightarrow> threads" where
  "threads_init mh = \<lparr>th_shared = shared_new mh, th_tasks = []\<rparr>"

text \<open>Running by a given schedule, for concrete runs.\<close>

primrec run_schedule :: "nostr_lib \<Rightarrow> nat list \<Rightarrow> threads \<Rightarrow> threads option" where
  "run_schedule L [] t = Some t"
| "run_schedule L (i # idxs) t = Option.bind (task_step L i t) (run_schedule L idxs)"

lemma run_schedule_steps: "run_schedule L idxs t = Some t' \<Longrightarrow> (thread_step L)\<^sup>*\<^sup>* t t'"
proof (induction idxs arbitrary: t)
  case (Cons i idxs)
  then obtain t1 where "task_step L i t = Some t1" "run_schedule L idxs t1 = Some t'"
    by (auto simp: bind_eq_Some_conv)
  then show ?case
    using Cons.IH [of t1] by (meson thread_step.run converse_rtranclp_into_rtranclp)
qed simp

section \<open>The registry a memory stands for\<close>

definition no_object :: connection_subscriptions where
  "no_object = \<lparr>cs_subscriptions = [], cs_sender = \<lparr>ms_channel = 0, ms_position = 0\<rparr>, cs_auth_pubkey = None,
     cs_subdomain = ScopeDefault\<rparr>"

definition deref :: "shared \<Rightarrow> conn_ref \<Rightarrow> connection_subscriptions" where
  "deref s ref = (case hm_get (sh_objects s) ref of Some conn \<Rightarrow> conn | None \<Rightarrow> no_object)"

definition to_registry :: "shared \<Rightarrow> registry" where
  "to_registry s = \<lparr>rg_connections = map (\<lambda>(c, n). (c, deref s (c, n))) (sh_connections s), rg_indexes = sh_indexes s,
     rg_metrics_handler = sh_metrics_handler s, rg_metrics_log = sh_metrics_log s\<rparr>"

end
