(* ===== verification/Registry_Threads_Progress.thy ===== *)
theory Registry_Threads_Progress
  imports Registry_Threads
begin

text \<open>
  Locks and progress of the registry's tasks: a lock has one holder, a task that waits waits for a task that can run, and no
  run goes on for ever without new calls. So every call ends, however the tasks interleave.
\<close>

section \<open>Locks\<close>

text \<open>The lock a task holds between the steps of its operation.\<close>

fun held :: "pc list \<Rightarrow> conn_ref option" where
  "held (AddIndex ref sid fs is_new # rest) = Some ref"
| "held (AddMetric ref is_new # rest) = Some ref"
| "held (RemIndex ref sid # rest) = Some ref"
| "held (RemMetric ref sid # rest) = Some ref"
| "held pcs = None"

definition locks_ok :: "threads \<Rightarrow> bool" where
  "locks_ok t \<longleftrightarrow>
     (\<forall>ref. ref \<in> set (sh_locked (th_shared t)) \<longleftrightarrow> (\<exists>i < length (th_tasks t). held (th_tasks t ! i) = Some ref)) \<and>
     (\<forall>i < length (th_tasks t). \<forall>j < length (th_tasks t).
        held (th_tasks t ! i) \<noteq> None \<longrightarrow> held (th_tasks t ! i) = held (th_tasks t ! j) \<longrightarrow> i = j)"

text \<open>What may follow the operation a task is in: the rest of a replacement, or the clean-ups that follow a distribution. No
  lock is held when it begins.\<close>

definition starts :: "pc \<Rightarrow> bool" where
  "starts pc \<longleftrightarrow> (case pc of AddStart _ _ _ \<Rightarrow> True | RemStart _ _ \<Rightarrow> True | ClnStart _ \<Rightarrow> True
     | RegStart _ _ _ _ \<Rightarrow> True | DistStart _ _ \<Rightarrow> True | _ \<Rightarrow> False)"

definition tails_ok :: "threads \<Rightarrow> bool" where
  "tails_ok t \<longleftrightarrow> (\<forall>pcs \<in> set (th_tasks t). list_all starts (tl pcs))"

lemma held_starts [simp]: "list_all starts pcs \<Longrightarrow> held pcs = None"
  by (cases pcs rule: held.cases) (auto simp: starts_def)

lemma shared_locked [simp]:
  "sh_locked (shared_log m s) = sh_locked s"
  "sh_locked (shared_lock ref s) = ref # sh_locked s"
  "sh_locked (shared_unlock ref s) = removeAll ref (sh_locked s)"
  "sh_locked (set_subscriptions ref conn subs s) = sh_locked s"
  "sh_locked (shared_index sc f s) = sh_locked s"
  by (simp_all add: shared_log_def shared_lock_def shared_unlock_def set_subscriptions_def shared_index_def split: option.split)

text \<open>The lock a step takes or gives back.\<close>

lemma pc_step_locks:
  assumes "pc_step L pc s = Some (pcs, s')" "list_all starts rest"
  shows "(sh_locked s' = sh_locked s \<and> held (pcs @ rest) = held (pc # rest)) \<or>
    (\<exists>ref. ref \<notin> set (sh_locked s) \<and> sh_locked s' = ref # sh_locked s \<and> held (pc # rest) = None \<and> held (pcs @ rest) = Some ref) \<or>
    (\<exists>ref. sh_locked s' = removeAll ref (sh_locked s) \<and> held (pc # rest) = Some ref \<and> held (pcs @ rest) = None)"
proof -
  have clean: "held (map ClnStart dead @ rest) = None" for dead
    using assms(2) by (cases dead) auto
  show ?thesis
    using assms clean
    by (cases pc) (auto simp: Let_def split_beta split: option.splits if_splits list.splits prod.splits sum.splits)
qed

lemma starts_tl: "list_all starts pcs \<Longrightarrow> list_all starts (tl pcs)"
  by (cases pcs) auto

lemma starts_cleanups [simp]: "list_all starts (map ClnStart dead)"
  by (simp add: list_all_iff starts_def)

lemma pc_step_tail: "pc_step L pc s = Some (pcs, s') \<Longrightarrow> list_all starts (tl pcs)"
  by (cases pc) (auto simp: Let_def split_beta starts_tl split: option.splits if_splits list.splits prod.splits sum.splits)

lemma task_step_cases:
  assumes "task_step L i t = Some t'"
  obtains pc rest pcs s' where "i < length (th_tasks t)" "th_tasks t ! i = pc # rest"
    "pc_step L pc (th_shared t) = Some (pcs, s')" "t' = \<lparr>th_shared = s', th_tasks = (th_tasks t)[i := pcs @ rest]\<rparr>"
  using assms by (auto simp: task_step_def split: if_splits list.splits option.splits)

lemma task_step_tails:
  assumes "tails_ok t" "task_step L i t = Some t'"
  shows "tails_ok t'"
proof -
  obtain pc rest pcs s' where step: "i < length (th_tasks t)" "th_tasks t ! i = pc # rest"
    "pc_step L pc (th_shared t) = Some (pcs, s')" "t' = \<lparr>th_shared = s', th_tasks = (th_tasks t)[i := pcs @ rest]\<rparr>"
    using assms(2) by (rule task_step_cases)
  have "list_all starts rest"
    using assms(1) nth_mem [OF step(1)] by (auto simp: tails_ok_def step(2))
  then have "list_all starts (tl (pcs @ rest))"
    using pc_step_tail [OF step(3)] by (cases pcs) (auto simp: starts_tl)
  then show ?thesis
    using assms(1) set_update_subset_insert [of "th_tasks t" i "pcs @ rest"] by (auto simp: tails_ok_def step(4))
qed

lemma task_step_locks:
  assumes "locks_ok t" "tails_ok t" "task_step L i t = Some t'"
  shows "locks_ok t'"
proof -
  obtain pc rest pcs s' where step: "i < length (th_tasks t)" "th_tasks t ! i = pc # rest"
    "pc_step L pc (th_shared t) = Some (pcs, s')" "t' = \<lparr>th_shared = s', th_tasks = (th_tasks t)[i := pcs @ rest]\<rparr>"
    using assms(3) by (rule task_step_cases)
  have rest: "list_all starts rest"
    using assms(2) nth_mem [OF step(1)] by (auto simp: tails_ok_def step(2))
  note locked = assms(1) [unfolded locks_ok_def, THEN conjunct1, rule_format]
  note one = assms(1) [unfolded locks_ok_def, THEN conjunct2, rule_format]
  from pc_step_locks [OF step(3) rest] show ?thesis
  proof (elim disjE exE conjE)
    assume "sh_locked s' = sh_locked (th_shared t)" "held (pcs @ rest) = held (pc # rest)"
    moreover from this have "held (th_tasks t' ! j) = held (th_tasks t ! j)" for j
      using step by (cases "j = i") auto
    ultimately show ?thesis
      using assms(1) step(4) by (simp add: locks_ok_def) blast
  next
    fix ref
    assume new: "ref \<notin> set (sh_locked (th_shared t))" "sh_locked s' = ref # sh_locked (th_shared t)"
      "held (pc # rest) = None" "held (pcs @ rest) = Some ref"
    have other: "held (th_tasks t ! j) \<noteq> Some ref" if "j < length (th_tasks t)" for j
      using new(1) locked that by auto
    have upd: "held (th_tasks t' ! j) = (if j = i then Some ref else held (th_tasks t ! j))" if "j < length (th_tasks t)" for j
      using that step new(4) by simp
    have "r \<in> set (sh_locked s') \<longleftrightarrow> (\<exists>j < length (th_tasks t). held (th_tasks t' ! j) = Some r)" for r
    proof -
      have "held (th_tasks t ! i) = None"
        using step(2) new(3) by simp
      then show ?thesis
        unfolding new(2) set_simps insert_iff locked [of r] using upd step(1) by (metis option.distinct(1) option.inject)
    qed
    then show ?thesis
      using one other upd step(4) by (auto simp: locks_ok_def) metis+
  next
    fix ref
    assume gone: "sh_locked s' = removeAll ref (sh_locked (th_shared t))" "held (pc # rest) = Some ref" "held (pcs @ rest) = None"
    have other: "held (th_tasks t ! j) \<noteq> Some ref" if "j < length (th_tasks t)" "j \<noteq> i" for j
      using one [of i j] that step(1,2) gone(2) by auto
    have upd: "held (th_tasks t' ! j) = (if j = i then None else held (th_tasks t ! j))" if "j < length (th_tasks t)" for j
      using that step gone(3) by simp
    have "r \<in> set (sh_locked s') \<longleftrightarrow> (\<exists>j < length (th_tasks t). held (th_tasks t' ! j) = Some r)" for r
    proof -
      have "held (th_tasks t ! i) = Some ref"
        using step(2) gone(2) by simp
      then show ?thesis
        unfolding gone(1) set_removeAll Diff_iff locked [of r] using upd other by (metis option.distinct(1) option.inject singleton_iff)
    qed
    then show ?thesis
      using one upd step(4) by (auto simp: locks_ok_def split: if_splits)
  qed
qed

lemma program_starts [simp]: "list_all starts (program c)"
  by (cases c) (simp_all add: starts_def)

lemma spawn_tails: "tails_ok t \<Longrightarrow> tails_ok (spawn c t)"
  by (auto simp: tails_ok_def spawn_def starts_tl)

lemma spawn_locks: "locks_ok t \<Longrightarrow> locks_ok (spawn c t)"
  unfolding locks_ok_def spawn_def
  by (auto simp: nth_append less_Suc_eq split: if_splits intro: less_SucI)

lemma reachable_locks:
  assumes "(thread_step L)\<^sup>*\<^sup>* (threads_init mh) t"
  shows "locks_ok t \<and> tails_ok t"
  using assms
proof (induction rule: rtranclp_induct)
  case (step t t')
  then show ?case
    by (auto elim!: thread_step.cases simp: spawn_tails spawn_locks task_step_tails task_step_locks)
qed (simp add: locks_ok_def tails_ok_def threads_init_def shared_new_def)

section \<open>Progress\<close>

lemma waiting:
  assumes "pc_step L pc s = None"
  obtains ref where "ref \<in> set (sh_locked s)" "held [pc] = None"
  using assms by (cases pc) (auto simp: Let_def split_beta split: option.splits if_splits list.splits prod.splits sum.splits)

lemma holder_runs:
  assumes "held pcs = Some ref"
  shows "\<exists>pc rest. pcs = pc # rest \<and> pc_step L pc s \<noteq> None"
  using assms by (cases pcs rule: held.cases) (auto simp: Let_def)

lemma some_task_runs:
  assumes "locks_ok t" "i < length (th_tasks t)" "th_tasks t ! i \<noteq> []"
  shows "\<exists>j t'. task_step L j t = Some t'"
proof (cases "pc_step L (hd (th_tasks t ! i)) (th_shared t)")
  case (Some r)
  then show ?thesis
    using assms by (intro exI [of _ i]) (auto simp: task_step_def split: list.split prod.split)
next
  case None
  then obtain ref where "ref \<in> set (sh_locked (th_shared t))"
    by (rule waiting)
  then obtain j where j: "j < length (th_tasks t)" "held (th_tasks t ! j) = Some ref"
    using assms(1) by (auto simp: locks_ok_def)
  obtain pc rest where "th_tasks t ! j = pc # rest" "pc_step L pc (th_shared t) \<noteq> None"
    using holder_runs [OF j(2)] by blast
  then show ?thesis
    using j by (intro exI [of _ j]) (auto simp: task_step_def split: prod.split)
qed

section \<open>Termination\<close>

text \<open>How far an operation has got: each step leaves only what ranks lower.\<close>

fun pc_rank :: "pc \<Rightarrow> nat \<times> nat" where
  "pc_rank (DistStart e sc) = (4, 0)"
| "pc_rank (DistSend e matches dead) = (3, length matches)"
| "pc_rank (ClnStart c) = (2, 2)"
| "pc_rank (ClnRead ref) = (2, 1)"
| "pc_rank (ClnRemove c info) = (2, 0)"
| "pc_rank (ClnIndex c ids sc) = (1, length ids + 2)"
| "pc_rank (ClnDrop c ids sc n) = (1, length ids + 1)"
| "pc_rank (ClnMetric n) = (1, 0)"
| "pc_rank (AddStart c sid fs) = (0, 3)"
| "pc_rank (AddLock ref sid fs) = (0, 2)"
| "pc_rank (AddIndex ref sid fs is_new) = (0, 1)"
| "pc_rank (AddMetric ref is_new) = (0, 0)"
| "pc_rank (RemStart c sid) = (0, 3)"
| "pc_rank (RemLock ref sid) = (0, 2)"
| "pc_rank (RemIndex ref sid) = (0, 1)"
| "pc_rank (RemMetric ref sid) = (0, 0)"
| "pc_rank (RegStart c ms ap sc) = (0, 0)"

abbreviation rank_less :: "((nat \<times> nat) \<times> (nat \<times> nat)) set" where
  "rank_less \<equiv> less_than <*lex*> less_than"

lemma pc_step_rank: "pc_step L pc s = Some (pcs, s') \<Longrightarrow> pc' \<in> set pcs \<Longrightarrow> (pc_rank pc', pc_rank pc) \<in> rank_less"
  by (cases pc) (auto simp: Let_def split_beta split: option.splits if_splits list.splits prod.splits sum.splits)

definition work_left :: "threads \<Rightarrow> (nat \<times> nat) multiset" where
  "work_left t = image_mset pc_rank (mset (concat (th_tasks t)))"

lemma task_step_work:
  assumes "task_step L i t = Some t'"
  shows "(work_left t', work_left t) \<in> mult rank_less"
proof -
  obtain pc rest pcs s' where step: "i < length (th_tasks t)" "th_tasks t ! i = pc # rest"
    "pc_step L pc (th_shared t) = Some (pcs, s')" "t' = \<lparr>th_shared = s', th_tasks = (th_tasks t)[i := pcs @ rest]\<rparr>"
    using assms by (rule task_step_cases)
  define K where "K = image_mset pc_rank (mset (concat (take i (th_tasks t)) @ rest @ concat (drop (Suc i) (th_tasks t))))"
  have "work_left t = K + {#pc_rank pc#}"
    unfolding work_left_def K_def by (subst id_take_nth_drop [OF step(1)]) (simp add: step(2))
  moreover have "work_left t' = K + image_mset pc_rank (mset pcs)"
    by (simp add: work_left_def K_def step(4) upd_conv_take_nth_drop [OF step(1)])
  ultimately show ?thesis
    using pc_step_rank [OF step(3)] one_step_implies_mult [of "{#pc_rank pc#}" "image_mset pc_rank (mset pcs)" rank_less K]
    by simp
qed

lemma task_runs_end: "wf {(t', t). \<exists>i. task_step L i t = Some t'}"
proof (rule wf_subset)
  show "wf (inv_image (mult rank_less) work_left)"
    by (intro wf_inv_image wf_mult wf_lex_prod wf_less_than)
  show "{(t', t). \<exists>i. task_step L i t = Some t'} \<subseteq> inv_image (mult rank_less) work_left"
    using task_step_work by (auto simp: inv_image_def)
qed

section \<open>Every call ends\<close>

lemma no_endless_run: "\<not> (\<forall>n. \<exists>i. task_step L i (f n) = Some (f (Suc n)))"
  using task_runs_end [of L] by (auto simp: wf_iff_no_infinite_down_chain)

text \<open>Two tasks that want the same object: a replacement has taken its lock when a removal arrives.\<close>

definition demo_threads :: threads where
  "demo_threads = spawn (CallRemove ''c1'' ''a'') (spawn (CallReplace ''c1'' ''a'' [kind_filter 1])
     (spawn (CallRegister ''c1'' (demo_sender 1) None ScopeDefault) (threads_init True)))"

lemma demo_threads_reachable: "(thread_step L)\<^sup>*\<^sup>* (threads_init True) demo_threads"
  unfolding demo_threads_def by (meson thread_step.spawned rtranclp.rtrancl_refl rtranclp.rtrancl_into_rtrancl)

lemmas threads_eval = task_step_def spawn_def threads_init_def shared_new_def shared_log_def shared_lock_def
  shared_unlock_def set_subscriptions_def shared_index_def object_scope_def

definition demo_contended :: threads where
  "demo_contended = the (run_schedule demo_lib [0, 1, 1, 1, 1, 2] demo_threads)"

lemma demo_contended_eval:
  "run_schedule demo_lib [0, 1, 1, 1, 1, 2] demo_threads = Some demo_contended"
  "th_tasks demo_contended = [[], [AddIndex (''c1'', 0) ''a'' [kind_filter 1] True], [RemLock (''c1'', 0) ''a'']]"
  "sh_locked (th_shared demo_contended) = [(''c1'', 0)]"
  by (simp_all add: demo_contended_def demo_threads_def threads_eval)

lemma demo_contended_reachable: "(thread_step demo_lib)\<^sup>*\<^sup>* (threads_init True) demo_contended"
  using demo_threads_reachable run_schedule_steps [OF demo_contended_eval(1)] by (rule rtranclp_trans)

text \<open>C5. Progress. However the tasks have interleaved, a lock that is taken has exactly one holder; as long as some call has not
  ended, some task can take its next step; and without new calls no run goes on for ever. So all calls
  end: there is neither a deadlock nor a livelock.\<close>

theorem registry_calls_end:
  assumes "(thread_step L)\<^sup>*\<^sup>* (threads_init mh) t"
  shows "(\<exists>i < length (th_tasks t). th_tasks t ! i \<noteq> []) = (\<exists>i t'. task_step L i t = Some t') \<and>
    \<not> (\<exists>f. f 0 = t \<and> (\<forall>n. \<exists>i. task_step L i (f n) = Some (f (Suc n)))) \<and>
    (\<forall>ref \<in> set (sh_locked (th_shared t)). \<exists>!i. i < length (th_tasks t) \<and> held (th_tasks t ! i) = Some ref)"
proof (intro conjI)
  have inv: "locks_ok t"
    using reachable_locks [OF assms] by simp
  show "(\<exists>i < length (th_tasks t). th_tasks t ! i \<noteq> []) = (\<exists>i t'. task_step L i t = Some t')"
    using some_task_runs [OF inv] by (fastforce elim: task_step_cases)
  show "\<not> (\<exists>f. f 0 = t \<and> (\<forall>n. \<exists>i. task_step L i (f n) = Some (f (Suc n))))"
    using no_endless_run by blast
  show "\<forall>ref \<in> set (sh_locked (th_shared t)). \<exists>!i. i < length (th_tasks t) \<and> held (th_tasks t ! i) = Some ref"
    using inv unfolding locks_ok_def by (metis option.distinct(1))
qed

theorem registry_calls_end_witness:
  "(\<exists>i t'. task_step demo_lib i demo_contended = Some t') \<and> task_step demo_lib 2 demo_contended = None"
proof
  show "\<exists>i t'. task_step demo_lib i demo_contended = Some t'"
    using registry_calls_end [OF demo_contended_reachable, THEN conjunct1] demo_contended_eval(2) by auto
  show "task_step demo_lib 2 demo_contended = None"
    by (simp add: task_step_def demo_contended_eval)
qed

end
