(* ===== verification/Registry_Threads_Properties.thy ===== *)
theory Registry_Threads_Properties
  imports Registry_Threads_Progress
begin

text \<open>
  What survives of the registry's contract when its operations interleave. A step of a task touches the memory of one
  connection only (the frame), so a connection stays consistent as long as no two operations on it overlap, whatever happens to
  the others. When they do overlap, it does not: two runs show what goes wrong. No interleaving ends in a deadlock.
\<close>

section \<open>The memory of one connection\<close>

definition ix_entry :: "shared \<Rightarrow> scope \<Rightarrow> sub_key \<Rightarrow> filter multiset option" where
  "ix_entry s sc key = (case hm_get (sh_indexes s) sc of None \<Rightarrow> None | Some ix \<Rightarrow> index_abs ix key)"

definition own_entry :: "shared \<Rightarrow> connection_id \<Rightarrow> scope \<Rightarrow> subscription_id \<Rightarrow> filter multiset option" where
  "own_entry s c sc sid = (case hm_get (sh_connections s) c of
     None \<Rightarrow> None
   | Some n \<Rightarrow> if cs_subdomain (deref s (c, n)) = sc
       then map_option mset (hm_get (cs_subscriptions (deref s (c, n))) sid) else None)"

lemma hm_get_map_key: "hm_get (map (\<lambda>(k, v). (k, g (k, v))) m) k = map_option (\<lambda>v. g (k, v)) (hm_get m k)"
  by (induction m) auto

lemma registry_entries:
  "index_table (to_registry s) sc key = ix_entry s sc key"
  "conn_table (to_registry s) sc (c, sid) = own_entry s c sc sid"
  by (simp_all add: index_table_def to_registry_def ix_entry_def conn_table_def own_entry_def hm_get_map_key split: option.split)

definition mem_ok :: "nostr_lib \<Rightarrow> shared \<Rightarrow> bool" where
  "mem_ok L s \<longleftrightarrow> (\<forall>sc ix. hm_get (sh_indexes s) sc = Some ix \<longrightarrow> index_wf L ix) \<and>
     (\<forall>c n. hm_get (sh_connections s) c = Some n \<longrightarrow> hm_get (sh_objects s) (c, n) \<noteq> None)"

definition scope_index :: "scope \<Rightarrow> shared \<Rightarrow> subscription_index" where
  "scope_index sc s = (case hm_get (sh_indexes s) sc of None \<Rightarrow> si_new | Some ix \<Rightarrow> ix)"

text \<open>What an operation asks of its arguments: filters as they are parsed, and room for their ids.\<close>

definition pc_ok :: "pc \<Rightarrow> shared \<Rightarrow> bool" where
  "pc_ok pc s \<longleftrightarrow> (case pc of
     AddIndex ref sid fs is_new \<Rightarrow> list_all filter_wf fs \<and> index_room (length fs) (scope_index (object_scope ref s) s)
   | _ \<Rightarrow> True)"

primrec pc_conn :: "pc \<Rightarrow> connection_id option" where
  "pc_conn (RegStart c ms ap sc) = Some c"
| "pc_conn (AddStart c sid fs) = Some c"
| "pc_conn (AddLock ref sid fs) = Some (fst ref)"
| "pc_conn (AddIndex ref sid fs is_new) = Some (fst ref)"
| "pc_conn (AddMetric ref is_new) = Some (fst ref)"
| "pc_conn (RemStart c sid) = Some c"
| "pc_conn (RemLock ref sid) = Some (fst ref)"
| "pc_conn (RemIndex ref sid) = Some (fst ref)"
| "pc_conn (RemMetric ref sid) = Some (fst ref)"
| "pc_conn (ClnStart c) = Some c"
| "pc_conn (ClnRead ref) = Some (fst ref)"
| "pc_conn (ClnRemove c info) = Some c"
| "pc_conn (ClnIndex c ids sc) = Some c"
| "pc_conn (ClnDrop c ids sc n) = Some c"
| "pc_conn (ClnMetric n) = None"
| "pc_conn (DistStart e sc) = None"
| "pc_conn (DistSend e ms dead) = None"

lemma shared_fields [simp]:
  "sh_objects (shared_log m s) = sh_objects s" "sh_connections (shared_log m s) = sh_connections s"
  "sh_indexes (shared_log m s) = sh_indexes s" "sh_locked (shared_log m s) = sh_locked s"
  "sh_objects (shared_lock ref s) = sh_objects s" "sh_connections (shared_lock ref s) = sh_connections s"
  "sh_indexes (shared_lock ref s) = sh_indexes s" "sh_locked (shared_lock ref s) = ref # sh_locked s"
  "sh_objects (shared_unlock ref s) = sh_objects s" "sh_connections (shared_unlock ref s) = sh_connections s"
  "sh_indexes (shared_unlock ref s) = sh_indexes s" "sh_locked (shared_unlock ref s) = removeAll ref (sh_locked s)"
  "sh_objects (set_subscriptions ref conn subs s) = hm_insert ref (conn\<lparr>cs_subscriptions := subs\<rparr>) (sh_objects s)"
  "sh_connections (set_subscriptions ref conn subs s) = sh_connections s"
  "sh_indexes (set_subscriptions ref conn subs s) = sh_indexes s"
  "sh_locked (set_subscriptions ref conn subs s) = sh_locked s"
  "sh_objects (shared_index sc f s) = sh_objects s" "sh_connections (shared_index sc f s) = sh_connections s"
  "sh_locked (shared_index sc f s) = sh_locked s"
  by (simp_all add: shared_log_def shared_lock_def shared_unlock_def set_subscriptions_def shared_index_def split: option.split)

lemma mem_index_wf: "mem_ok L s \<Longrightarrow> index_wf L (scope_index sc s)"
  by (simp add: mem_ok_def scope_index_def si_new_wf split: option.split)

lemma scope_index_abs: "index_abs (scope_index sc s) key = ix_entry s sc key"
  by (simp add: scope_index_def ix_entry_def index_abs_new split: option.split)

lemma entry_removed:
  assumes "mem_ok L s"
  shows "ix_entry (shared_index sc (si_remove_subscription L c sid) s) sc' key =
    (if sc' = sc \<and> key = (c, sid) then None else ix_entry s sc' key)"
  using assms store.remove_abs [of L _ "(c, sid)"]
  by (auto simp: ix_entry_def shared_index_def mem_ok_def hm_simps split: option.split)

lemma entry_added:
  assumes "mem_ok L s" "list_all filter_wf fs" "index_room (length fs) (scope_index sc s)"
  shows "ix_entry (s\<lparr>sh_indexes := hm_insert sc (si_add_subscription L c sid fs (scope_index sc s)) (sh_indexes s)\<rparr>) sc' key =
    (if sc' = sc \<and> key = (c, sid) then Some ((case ix_entry s sc (c, sid) of None \<Rightarrow> {#} | Some old \<Rightarrow> old) + mset fs)
     else ix_entry s sc' key)"
  using store.add_abs [OF mem_index_wf [OF assms(1)] assms(2,3), of "(c, sid)"]
  by (simp add: ix_entry_def hm_simps table_add_def scope_index_abs [unfolded ix_entry_def])

lemma entry_distributed:
  assumes "mem_ok L s" "hm_get (sh_indexes s) sc = Some ix"
  shows "ix_entry (s\<lparr>sh_indexes := hm_insert sc (snd (si_distribute_event L e ix)) (sh_indexes s)\<rparr>) sc' key = ix_entry s sc' key"
  using assms store.distribute_abs [of L ix e] by (simp add: ix_entry_def hm_simps mem_ok_def)

lemma same_entry: "sh_indexes s' = sh_indexes s \<Longrightarrow> ix_entry s' = ix_entry s"
  by (simp add: fun_eq_iff ix_entry_def)

lemma same_entry_simps [simp]:
  "ix_entry (shared_log m s) = ix_entry s" "ix_entry (shared_lock ref s) = ix_entry s"
  "ix_entry (shared_unlock ref s) = ix_entry s" "ix_entry (set_subscriptions ref conn subs s) = ix_entry s"
  "ix_entry (s\<lparr>sh_objects := objs\<rparr>) = ix_entry s" "ix_entry (s\<lparr>sh_connections := conns\<rparr>) = ix_entry s"
  "ix_entry (s\<lparr>sh_next := n\<rparr>) = ix_entry s" "ix_entry (s\<lparr>sh_outbox := out\<rparr>) = ix_entry s"
  by (rule same_entry, simp)+

section \<open>Which steps touch the memory of a connection\<close>

text \<open>All that the assertions below read of a memory.\<close>

definition conn_view :: "connection_id \<Rightarrow> shared \<Rightarrow>
    nat option \<times> (nat \<Rightarrow> connection_subscriptions option) \<times> (scope \<Rightarrow> subscription_id \<Rightarrow> filter multiset option)" where
  "conn_view c s = (hm_get (sh_connections s) c, \<lambda>n. hm_get (sh_objects s) (c, n), \<lambda>sc sid. ix_entry s sc (c, sid))"

lemma conn_view_eq:
  "conn_view c s' = conn_view c s \<longleftrightarrow> hm_get (sh_connections s') c = hm_get (sh_connections s) c \<and>
     (\<forall>n. hm_get (sh_objects s') (c, n) = hm_get (sh_objects s) (c, n)) \<and>
     (\<forall>sc sid. ix_entry s' sc (c, sid) = ix_entry s sc (c, sid))"
  by (simp add: conn_view_def fun_eq_iff)

lemma add_entry_other:
  assumes "mem_ok L s" "list_all filter_wf fs" "index_room (length fs) (scope_index sc s)"
  shows "ix_entry (s\<lparr>sh_indexes := hm_insert sc (si_add_subscription L c sid fs
      (case hm_get (sh_indexes s) sc of None \<Rightarrow> si_new | Some ix \<Rightarrow> ix)) (sh_indexes s)\<rparr>) sc' key =
    (if sc' = sc \<and> key = (c, sid) then Some ((case ix_entry s sc (c, sid) of None \<Rightarrow> {#} | Some old \<Rightarrow> old) + mset fs)
     else ix_entry s sc' key)"
  using entry_added [OF assms, of c sid sc' key] by (simp add: scope_index_def)

text \<open>The frame of a step.\<close>

lemma pc_step_connections:
  "pc_step L pc s = Some (pcs, s') \<Longrightarrow> pc_conn pc \<noteq> Some c \<Longrightarrow> hm_get (sh_connections s') c = hm_get (sh_connections s) c"
  by (cases pc) (auto simp: Let_def split_beta hm_simps split: option.splits if_splits list.splits prod.splits sum.splits)

lemma pc_step_objects:
  "pc_step L pc s = Some (pcs, s') \<Longrightarrow> pc_conn pc \<noteq> Some c \<Longrightarrow> hm_get (sh_objects s') (c, n) = hm_get (sh_objects s) (c, n)"
  by (cases pc) (auto simp: Let_def split_beta hm_simps split: option.splits if_splits list.splits prod.splits sum.splits)

lemma pc_step_entries:
  assumes "mem_ok L s" "pc_ok pc s" "pc_step L pc s = Some (pcs, s')" "pc_conn pc \<noteq> Some c"
  shows "ix_entry s' sc (c, sid) = ix_entry s sc (c, sid)"
proof (cases pc)
  case (AddIndex ref sid' fs is_new)
  then show ?thesis
    using assms add_entry_other [OF assms(1), of fs "object_scope ref s" "fst ref" sid']
    by (auto simp: pc_ok_def Let_def)
next
  case (DistStart e sc')
  then show ?thesis
    using assms by (auto simp: entry_distributed split: option.splits)
qed (use assms in \<open>auto simp: entry_removed split: option.splits if_splits list.splits prod.splits sum.splits\<close>)

lemma pc_step_frame:
  assumes "mem_ok L s" "pc_ok pc s" "pc_step L pc s = Some (pcs, s')" "pc_conn pc \<noteq> Some c"
  shows "conn_view c s' = conn_view c s"
  using pc_step_connections [OF assms(3,4)] pc_step_objects [OF assms(3,4)] pc_step_entries [OF assms]
  by (simp add: conn_view_eq)

lemma pc_step_indexes_wf:
  assumes "mem_ok L s" "pc_ok pc s" "pc_step L pc s = Some (pcs, s')" "hm_get (sh_indexes s') sc = Some ix"
  shows "index_wf L ix"
proof -
  have wf: "index_wf L ix'" if "hm_get (sh_indexes s) sc' = Some ix'" for sc' ix'
    using assms(1) that by (simp add: mem_ok_def)
  have removed: "index_wf L ix'" if "hm_get (sh_indexes (shared_index sc' (si_remove_subscription L c sid) s)) sc'' = Some ix'"
    for sc' c sid sc'' ix'
    using that wf store.remove_invar [of L _ "(c, sid)"]
    by (auto simp: shared_index_def hm_simps split: option.splits if_splits)
  have same: "sh_indexes (shared_unlock ref (shared_log m s)) = sh_indexes s" "sh_indexes (shared_unlock ref s) = sh_indexes s" for ref m
    by simp_all
  show ?thesis
  proof (cases pc)
    case (AddIndex ref sid fs is_new)
    then show ?thesis
      using assms(2-4) wf store.add_invar [OF mem_index_wf [OF assms(1)], of fs "object_scope ref s" "(fst ref, sid)"]
      by (auto simp: pc_ok_def Let_def scope_index_def hm_simps split: if_splits)
  next
    case (DistStart e sc')
    then show ?thesis
      using assms(3,4) wf store.distribute_invar [of L _ e] by (auto simp: hm_simps split: option.splits if_splits)
  qed (use assms(3,4) wf removed in \<open>auto split: option.splits if_splits list.splits prod.splits sum.splits\<close>)
qed

lemma pc_step_mem:
  assumes "mem_ok L s" "pc_ok pc s" "pc_step L pc s = Some (pcs, s')"
  shows "mem_ok L s'"
proof -
  have "hm_get (sh_objects s') (c, n) \<noteq> None" if "hm_get (sh_connections s') c = Some n" for c n
    using assms(1,3) that
    by (cases pc) (auto simp: mem_ok_def Let_def split_beta hm_simps
      split: option.splits if_splits list.splits prod.splits sum.splits)
  then show ?thesis
    using pc_step_indexes_wf [OF assms] by (simp add: mem_ok_def)
qed

section \<open>Assertions\<close>

text \<open>The connection is consistent: the indexes hold what the connection has.\<close>

definition settled :: "connection_id \<Rightarrow> shared \<Rightarrow> bool" where
  "settled c s \<longleftrightarrow> (\<forall>sc sid. ix_entry s sc (c, sid) = own_entry s c sc sid)"

text \<open>It is, but for one subscription whose filters are not in the index.\<close>

definition settled_but :: "connection_id \<Rightarrow> nat \<Rightarrow> subscription_id \<Rightarrow> shared \<Rightarrow> bool" where
  "settled_but c n sid s \<longleftrightarrow> (\<forall>sc sid'. sc \<noteq> cs_subdomain (deref s (c, n)) \<or> sid' \<noteq> sid \<longrightarrow>
     ix_entry s sc (c, sid') = own_entry s c sc sid')"

definition unused :: "connection_id \<Rightarrow> subscription_id \<Rightarrow> shared \<Rightarrow> bool" where
  "unused c sid s \<longleftrightarrow> (\<forall>n. hm_get (sh_connections s) c = Some n \<longrightarrow> hm_get (cs_subscriptions (deref s (c, n))) sid = None)"

text \<open>The connection is gone, and of its entries at most these are left.\<close>

definition leftover :: "connection_id \<Rightarrow> subscription_id list \<Rightarrow> scope \<Rightarrow> shared \<Rightarrow> bool" where
  "leftover c ids sc s \<longleftrightarrow> hm_get (sh_connections s) c = None \<and>
     (\<forall>sc' sid. ix_entry s sc' (c, sid) \<noteq> None \<longrightarrow> sc' = sc \<and> sid \<in> set ids)"

text \<open>What holds of the connection \<open>c\<close> before a task takes the step.\<close>

fun assertion :: "connection_id \<Rightarrow> pc \<Rightarrow> shared \<Rightarrow> bool" where
  "assertion c (AddStart d sid fs) s = (settled c s \<and> (d = c \<longrightarrow> unused c sid s))"
| "assertion c (AddLock ref sid fs) s = (settled c s \<and>
     (fst ref = c \<longrightarrow> hm_get (sh_connections s) c = Some (snd ref) \<and> unused c sid s))"
| "assertion c (AddIndex ref sid fs is_new) s = (if fst ref = c
     then hm_get (sh_connections s) c = Some (snd ref) \<and> settled_but c (snd ref) sid s \<and>
       hm_get (cs_subscriptions (deref s ref)) sid = Some fs \<and> ix_entry s (cs_subdomain (deref s ref)) (c, sid) = None
     else settled c s)"
| "assertion c (RemLock ref sid) s = (settled c s \<and> (fst ref = c \<longrightarrow> hm_get (sh_connections s) c = Some (snd ref)))"
| "assertion c (RemIndex ref sid) s = (if fst ref = c
     then hm_get (sh_connections s) c = Some (snd ref) \<and> settled_but c (snd ref) sid s \<and> unused c sid s
     else settled c s)"
| "assertion c (RemMetric ref sid) s = (settled c s \<and> (fst ref = c \<longrightarrow> unused c sid s))"
| "assertion c (ClnRead ref) s = (settled c s \<and> (fst ref = c \<longrightarrow> hm_get (sh_connections s) c = Some (snd ref)))"
| "assertion c (ClnRemove d info) s = (settled c s \<and> (d = c \<longrightarrow> (case info of
       None \<Rightarrow> hm_get (sh_connections s) c = None
     | Some (ids, sc) \<Rightarrow> (\<exists>n. hm_get (sh_connections s) c = Some n \<and> ids = hm_keys (cs_subscriptions (deref s (c, n))) \<and>
         sc = cs_subdomain (deref s (c, n))))))"
| "assertion c (ClnIndex d ids sc) s = (if d = c then leftover c ids sc s else settled c s)"
| "assertion c (ClnDrop d ids sc n) s = (if d = c then leftover c ids sc s else settled c s)"
| "assertion c pc s = settled c s"

text \<open>The assertions read the memory of the connection only.\<close>

lemma assertion_view:
  assumes "conn_view c s' = conn_view c s"
  shows "assertion c pc s' = assertion c pc s"
proof -
  note view = assms [unfolded conn_view_eq, THEN conjunct1]
    assms [unfolded conn_view_eq, THEN conjunct2, THEN conjunct1, rule_format]
    assms [unfolded conn_view_eq, THEN conjunct2, THEN conjunct2, rule_format]
  have deref: "deref s' (c, n) = deref s (c, n)" for n
    by (simp add: deref_def view)
  have "own_entry s' c sc sid = own_entry s c sc sid" for sc sid
    by (simp add: own_entry_def view deref split: option.split)
  then have parts: "settled c s' = settled c s" "settled_but c n sid s' = settled_but c n sid s" "unused c sid s' = unused c sid s"
    "leftover c ids sc s' = leftover c ids sc s" for n sid ids sc
    by (simp_all add: settled_def settled_but_def unused_def leftover_def view deref)
  show ?thesis
    by (cases "(c, pc, s)" rule: assertion.cases) (auto simp: parts view deref split: option.splits)
qed

text \<open>The subscription a removal is about.\<close>

fun removes :: "pc \<Rightarrow> subscription_id option" where
  "removes (RemStart c sid) = Some sid"
| "removes (RemLock ref sid) = Some sid"
| "removes (RemIndex ref sid) = Some sid"
| "removes (RemMetric ref sid) = Some sid"
| "removes pc = None"

definition next_assertion :: "connection_id \<Rightarrow> pc \<Rightarrow> pc list \<Rightarrow> shared \<Rightarrow> bool" where
  "next_assertion c pc pcs s \<longleftrightarrow> (case pcs of
     [] \<Rightarrow> settled c s \<and> (\<forall>sid. removes pc = Some sid \<longrightarrow> unused c sid s)
   | pc' # rest \<Rightarrow> rest = [] \<and> assertion c pc' s \<and> pc_conn pc' \<in> {None, Some c} \<and> removes pc' = removes pc)"

lemmas assertion_defs = settled_def settled_but_def unused_def leftover_def own_entry_def

lemma deref_simps:
  "deref (shared_log m s) ref = deref s ref" "deref (shared_lock k s) ref = deref s ref"
  "deref (shared_unlock k s) ref = deref s ref" "deref (shared_index sc f s) ref = deref s ref"
  "deref (s\<lparr>sh_indexes := ixs\<rparr>) ref = deref s ref" "deref (s\<lparr>sh_connections := conns\<rparr>) ref = deref s ref"
  "deref (set_subscriptions k conn subs s) ref = (if ref = k then conn\<lparr>cs_subscriptions := subs\<rparr> else deref s ref)"
  by (simp_all add: deref_def hm_simps)

lemma settled_same [simp]:
  "settled c (shared_log m s) = settled c s" "settled c (shared_unlock k s) = settled c s"
  "unused c sid (shared_log m s) = unused c sid s" "unused c sid (shared_unlock k s) = unused c sid s"
  by (simp_all add: settled_def unused_def own_entry_def deref_simps split: option.split)

lemma object_scope_deref: "object_scope ref s = cs_subdomain (deref s ref)"
  by (simp add: object_scope_def deref_def no_object_def split: option.split)

lemma settled_object:
  assumes "mem_ok L s" "settled c s" "hm_get (sh_connections s) c = Some n"
  obtains conn where "hm_get (sh_objects s) (c, n) = Some conn" "deref s (c, n) = conn"
    "\<And>sc sid. ix_entry s sc (c, sid) = (if cs_subdomain conn = sc
      then map_option mset (hm_get (cs_subscriptions conn) sid) else None)"
proof -
  obtain conn where "hm_get (sh_objects s) (c, n) = Some conn"
    using assms(1,3) unfolding mem_ok_def by fastforce
  then show ?thesis
    using that assms(2,3) by (simp add: settled_def own_entry_def deref_def)
qed

lemma pc_step_next:
  assumes "mem_ok L s" "pc_ok pc s" "pc_step L pc s = Some (pcs, s')" "pc_conn pc = Some c" "assertion c pc s"
    "\<And>ms ap sc. pc = RegStart c ms ap sc \<Longrightarrow> hm_get (sh_connections s) c = None"
  shows "next_assertion c pc pcs s'"
proof (cases pc)
  case (RegStart d ms ap sc)
  then show ?thesis
    using assms by (auto simp: next_assertion_def settled_def own_entry_def deref_def hm_simps)
next
  case (AddStart d sid fs)
  then show ?thesis
    using assms by (auto simp: next_assertion_def split: option.splits)
next
  case (AddLock ref sid fs)
  then obtain n where ref: "ref = (c, n)"
    using assms(4) by (cases ref) auto
  then have before: "settled c s" "hm_get (sh_connections s) c = Some n" "unused c sid s"
    using assms(5) AddLock by auto
  obtain conn where conn: "hm_get (sh_objects s) (c, n) = Some conn" "deref s (c, n) = conn"
    "\<And>sc sid. ix_entry s sc (c, sid) = (if cs_subdomain conn = sc
      then map_option mset (hm_get (cs_subscriptions conn) sid) else None)"
    by (rule settled_object [OF assms(1) before(1,2)]) blast
  have "hm_get (cs_subscriptions conn) sid = None"
    using before(2,3) conn(2) by (simp add: unused_def)
  then show ?thesis
    using assms(3) AddLock ref before(2) conn
    by (auto simp: next_assertion_def settled_but_def own_entry_def deref_simps hm_simps split: if_splits)
next
  case (AddIndex ref sid fs is_new)
  then show ?thesis
    using assms by (auto simp: next_assertion_def Let_def add_entry_other pc_ok_def object_scope_deref assertion_defs deref_simps)
next
  case (RemLock ref sid)
  then obtain n where ref: "ref = (c, n)"
    using assms(4) by (cases ref) auto
  then have before: "settled c s" "hm_get (sh_connections s) c = Some n"
    using assms(5) RemLock by auto
  obtain conn where conn: "hm_get (sh_objects s) (c, n) = Some conn" "deref s (c, n) = conn"
    "\<And>sc sid. ix_entry s sc (c, sid) = (if cs_subdomain conn = sc
      then map_option mset (hm_get (cs_subscriptions conn) sid) else None)"
    by (rule settled_object [OF assms(1) before]) blast
  show ?thesis
  proof (cases "hm_get (cs_subscriptions conn) sid")
    case None
    then show ?thesis
      using assms(3) RemLock ref before conn by (auto simp: next_assertion_def unused_def split: if_splits)
  next
    case (Some fs)
    then show ?thesis
      using assms(3) RemLock ref before(2) conn
      by (auto simp: next_assertion_def settled_but_def unused_def own_entry_def deref_simps hm_simps split: if_splits)
  qed
next
  case (RemIndex ref sid)
  then show ?thesis
    using assms by (auto simp: next_assertion_def entry_removed object_scope_deref assertion_defs deref_simps)
next
  case (ClnRemove d info)
  then show ?thesis
    using assms by (auto simp: next_assertion_def assertion_defs deref_simps hm_simps split: option.splits
      intro: hm_get_in_keys [unfolded set_map])
next
  case (ClnIndex d ids sc)
  then have left: "leftover c ids sc s" and d: "d = c"
    using assms(4,5) by auto
  have "settled c s" if "hm_get (sh_indexes s) sc = None"
  proof -
    have "ix_entry s sc key = None" for key
      using that by (simp add: ix_entry_def)
    then have "ix_entry s sc' (c, sid) = None" for sc' sid
      using left unfolding leftover_def by metis
    then show ?thesis
      using left by (simp add: settled_def own_entry_def leftover_def)
  qed
  then show ?thesis
    using assms(3) ClnIndex left d by (auto simp: next_assertion_def split: option.splits)
next
  case (ClnDrop d ids sc n)
  then have left: "leftover c ids sc s" and d: "d = c"
    using assms(4,5) by auto
  show ?thesis
  proof (cases ids)
    case Nil
    have "ix_entry s sc' (c, sid) = None" for sc' sid
      using left unfolding leftover_def Nil by (metis list.set(1) empty_iff)
    then show ?thesis
      using assms(3) ClnDrop left Nil by (auto simp: next_assertion_def settled_def own_entry_def leftover_def)
  next
    case (Cons sid rest)
    have "leftover c rest sc (shared_index sc (si_remove_subscription L c sid) s)"
      using left unfolding leftover_def Cons entry_removed [OF assms(1)] by (metis prod.inject set_ConsD shared_fields(18))
    then show ?thesis
      using assms(3) ClnDrop Cons d by (auto simp: next_assertion_def)
  qed
qed (use assms in \<open>auto simp: next_assertion_def deref_def unused_def split: option.splits if_splits\<close>)

section \<open>Runs in which the operations on a connection do not overlap\<close>

definition working_on :: "connection_id \<Rightarrow> pc list \<Rightarrow> bool" where
  "working_on c pcs \<longleftrightarrow> (case pcs of [] \<Rightarrow> False | pc # _ \<Rightarrow> pc_conn pc = Some c)"

text \<open>What the relay owes a connection: one operation on it at a time, its id registered when it is not in use.\<close>

definition calm :: "connection_id \<Rightarrow> threads \<Rightarrow> bool" where
  "calm c t \<longleftrightarrow>
     (\<forall>i < length (th_tasks t). \<forall>j < length (th_tasks t).
        working_on c (th_tasks t ! i) \<longrightarrow> working_on c (th_tasks t ! j) \<longrightarrow> i = j) \<and>
     (\<forall>pcs \<in> set (th_tasks t). case pcs of
        RegStart d _ _ _ # _ \<Rightarrow> d = c \<longrightarrow> hm_get (sh_connections (th_shared t)) c = None
      | _ \<Rightarrow> True)"

definition calls_ok :: "threads \<Rightarrow> bool" where
  "calls_ok t \<longleftrightarrow> (\<forall>pcs \<in> set (th_tasks t). pcs \<noteq> [] \<longrightarrow> pc_ok (hd pcs) (th_shared t))"

definition calm_step :: "nostr_lib \<Rightarrow> connection_id \<Rightarrow> threads \<Rightarrow> threads \<Rightarrow> bool" where
  "calm_step L c t t' \<longleftrightarrow> thread_step L t t' \<and> calm c t \<and> calm c t' \<and> calls_ok t"

text \<open>What is left of a task after the operation it is in.\<close>

definition follows :: "pc \<Rightarrow> pc list \<Rightarrow> bool" where
  "follows pc rest \<longleftrightarrow> (\<forall>p \<in> set rest. \<exists>d. p = ClnStart d) \<or>
     (\<exists>d sid fs. rest = [AddStart d sid fs] \<and> removes pc = Some sid \<and> pc_conn pc = Some d)"

definition shape :: "pc list \<Rightarrow> bool" where
  "shape pcs \<longleftrightarrow> (case pcs of [] \<Rightarrow> True | pc # rest \<Rightarrow> follows pc rest)"

lemma shape_cleanups: "\<forall>p \<in> set pcs. \<exists>d. p = ClnStart d \<Longrightarrow> shape pcs"
  by (cases pcs) (auto simp: shape_def follows_def)

lemma pc_step_removes:
  "pc_step L pc s = Some (pcs, s') \<Longrightarrow> removes pc \<noteq> None \<Longrightarrow>
     pcs = [] \<or> (\<exists>p. pcs = [p] \<and> removes p = removes pc \<and> pc_conn p = pc_conn pc)"
  by (cases pc) (auto split: option.splits if_splits)

lemma pc_step_cleanups:
  "pc_step L pc s = Some (pcs, s') \<Longrightarrow> \<forall>p \<in> set (tl pcs). \<exists>d. p = ClnStart d"
proof -
  have "\<forall>p \<in> set (tl (map ClnStart dead)). \<exists>d. p = ClnStart d" for dead
    by (cases dead) auto
  then show "pc_step L pc s = Some (pcs, s') \<Longrightarrow> ?thesis"
    by (cases pc) (auto simp: Let_def split_beta split: option.splits if_splits list.splits prod.splits sum.splits)
qed

lemma shape_step:
  assumes "pc_step L pc s = Some (pcs, s')" "shape (pc # rest)"
  shows "shape (pcs @ rest)"
proof (cases "\<forall>p \<in> set rest. \<exists>d. p = ClnStart d")
  case True
  then show ?thesis
    using pc_step_cleanups [OF assms(1)] shape_cleanups [of rest] by (cases pcs) (auto simp: shape_def follows_def)
next
  case False
  then obtain d sid fs where "rest = [AddStart d sid fs]" "removes pc = Some sid" "pc_conn pc = Some d"
    using assms(2) by (auto simp: shape_def follows_def)
  then show ?thesis
    using pc_step_removes [OF assms(1)] by (auto simp: shape_def follows_def)
qed

text \<open>The assertion of the task after a step of its own that leaves \<open>c\<close> settled or hands on an assertion.\<close>

definition task_assertion :: "connection_id \<Rightarrow> pc list \<Rightarrow> shared \<Rightarrow> bool" where
  "task_assertion c pcs s \<longleftrightarrow> (if working_on c pcs then assertion c (hd pcs) s else settled c s)"

lemma next_task_assertion:
  assumes "next_assertion c pc pcs s" "shape (pc # rest)" "pc_conn pc = Some c"
  shows "task_assertion c (pcs @ rest) s"
proof (cases pcs)
  case Nil
  then show ?thesis
    using assms
    by (cases rest) (auto simp: next_assertion_def task_assertion_def working_on_def shape_def follows_def)
next
  case (Cons p ps)
  then have p: "assertion c p s" "pc_conn p \<in> {None, Some c}"
    using assms(1) by (auto simp: next_assertion_def)
  show ?thesis
  proof (cases "pc_conn p")
    case None
    then have "settled c s"
      using p(1) by (cases p) auto
    then show ?thesis
      using None Cons by (simp add: task_assertion_def working_on_def)
  next
    case (Some d)
    then show ?thesis
      using p Cons by (simp add: task_assertion_def working_on_def)
  qed
qed

definition conn_inv :: "nostr_lib \<Rightarrow> connection_id \<Rightarrow> threads \<Rightarrow> bool" where
  "conn_inv L c t \<longleftrightarrow> mem_ok L (th_shared t) \<and> (\<forall>pcs \<in> set (th_tasks t). shape pcs) \<and>
     (\<forall>pcs \<in> set (th_tasks t). working_on c pcs \<longrightarrow> assertion c (hd pcs) (th_shared t)) \<and>
     ((\<forall>pcs \<in> set (th_tasks t). \<not> working_on c pcs) \<longrightarrow> settled c (th_shared t))"

lemma becomes_working:
  assumes "pc_step L pc s = Some (pcs, s')" "pc_conn pc \<noteq> Some c" "shape (pc # rest)" "working_on c (pcs @ rest)"
  shows "hd (pcs @ rest) = ClnStart c"
proof (cases pcs)
  case Nil
  then show ?thesis
    using assms(2-4) by (cases rest) (auto simp: shape_def follows_def working_on_def)
next
  case (Cons p ps)
  have "p = ClnStart c \<or> pc_conn p \<noteq> Some c"
    using assms(1,2) Cons
    by (cases pc) (auto simp: Let_def split_beta split: option.splits if_splits list.splits prod.splits sum.splits)
  then show ?thesis
    using assms(4) Cons by (auto simp: working_on_def)
qed

lemma set_update_cases: "x \<in> set (xs[i := y]) \<Longrightarrow> x = y \<or> (\<exists>j < length xs. j \<noteq> i \<and> x = xs ! j)"
  unfolding in_set_conv_nth by (metis length_list_update nth_list_update_eq nth_list_update_neq)

lemma run_conn_inv:
  assumes inv: "conn_inv L c t" and calm: "calm c t" "calm c t'" and ok: "calls_ok t" and run: "task_step L i t = Some t'"
  shows "conn_inv L c t'"
proof -
  let ?T = "th_tasks t"
  obtain pc rest pcs s' where step: "i < length ?T" "?T ! i = pc # rest"
    "pc_step L pc (th_shared t) = Some (pcs, s')" "t' = \<lparr>th_shared = s', th_tasks = ?T[i := pcs @ rest]\<rparr>"
    using run by (auto simp: task_step_def split: if_splits list.splits option.splits)
  have here: "pc # rest \<in> set ?T"
    using nth_mem [OF step(1)] step(2) by simp
  have mem: "mem_ok L (th_shared t)" and pc_ok: "pc_ok pc (th_shared t)" and shape: "shape (pc # rest)"
    using inv ok here by (auto simp: conn_inv_def calls_ok_def)
  have new: "pcs @ rest \<in> set (?T[i := pcs @ rest])"
    using step(1) by (simp add: set_update_memI)
  have mem': "mem_ok L s'"
    by (rule pc_step_mem [OF mem pc_ok step(3)])
  have shapes': "\<forall>q \<in> set (th_tasks t'). shape q"
    using inv shape_step [OF step(3) shape] set_update_subset_insert [of ?T i "pcs @ rest"]
    by (auto simp: conn_inv_def step(4))
  show ?thesis
  proof (cases "pc_conn pc = Some c")
    case True
    have "task_assertion c (pcs @ rest) s'"
    proof (rule next_task_assertion [OF pc_step_next [OF mem pc_ok step(3) True] shape True])
      show "assertion c pc (th_shared t)"
        using inv here True by (fastforce simp: conn_inv_def working_on_def)
      show "hm_get (sh_connections (th_shared t)) c = None" if "pc = RegStart c ms ap sc" for ms ap sc
        using calm(1) here that by (fastforce simp: calm_def)
    qed
    moreover have "\<not> working_on c (?T ! j)" if "j < length ?T" "j \<noteq> i" for j
      using calm(1) that step(1,2) True by (auto simp: calm_def working_on_def)
    ultimately show ?thesis
      using mem' shapes' new by (auto simp: conn_inv_def step(4) task_assertion_def dest!: set_update_cases)
  next
    case False
    have same: "assertion c p s' = assertion c p (th_shared t)" for p
      by (rule assertion_view [OF pc_step_frame [OF mem pc_ok step(3) False]])
    have settled: "settled c s' = settled c (th_shared t)"
      using same [of "ClnStart c"] by simp
    have idle: "\<not> working_on c (?T ! i)"
      using False step(2) by (simp add: working_on_def)
    have "settled c s'" if "\<forall>j < length ?T. j \<noteq> i \<longrightarrow> \<not> working_on c (?T ! j)"
    proof -
      have "\<not> working_on c q" if "q \<in> set ?T" for q
        using that idle \<open>\<forall>j < length ?T. j \<noteq> i \<longrightarrow> \<not> working_on c (?T ! j)\<close> by (metis in_set_conv_nth)
      then show ?thesis
        using inv by (simp add: settled conn_inv_def)
    qed
    moreover have "\<not> working_on c (?T ! j)" if "working_on c (pcs @ rest)" "j < length ?T" "j \<noteq> i" for j
      using calm(2) that step(1,4) by (auto simp: calm_def)
    moreover have "assertion c (hd (?T ! j)) s'" if "j < length ?T" "working_on c (?T ! j)" for j
      using inv that nth_mem [of j ?T] by (auto simp: conn_inv_def same)
    ultimately show ?thesis
      using mem' shapes' becomes_working [OF step(3) False shape] new
      by (auto simp: conn_inv_def step(4) dest!: set_update_cases)
        (metis length_list_update nth_list_update_neq nth_mem)+
  qed
qed

lemma spawn_conn_inv:
  assumes "conn_inv L c t" "calm c (spawn cl t)"
  shows "conn_inv L c (spawn cl t)"
proof -
  have idle: "\<not> working_on c pcs" if "working_on c (program cl)" "pcs \<in> set (th_tasks t)" for pcs
  proof -
    obtain j where j: "j < length (th_tasks t)" "pcs = th_tasks t ! j"
      using \<open>pcs \<in> set (th_tasks t)\<close> by (auto simp: in_set_conv_nth)
    have "working_on c (th_tasks (spawn cl t) ! j) \<Longrightarrow> working_on c (th_tasks (spawn cl t) ! length (th_tasks t)) \<Longrightarrow>
        j = length (th_tasks t)"
      using assms(2) j(1) unfolding calm_def by (simp add: spawn_def)
    then show ?thesis
      using j that(1) by (auto simp: spawn_def nth_append)
  qed
  have "shape (program cl)"
    by (cases cl) (auto simp: shape_def follows_def)
  moreover have "assertion c (hd (program cl)) s = settled c s" for s
    by (cases cl) auto
  ultimately show ?thesis
    using assms(1) idle by (auto simp: conn_inv_def spawn_def)
qed

lemma calm_conn_inv:
  assumes "(calm_step L c)\<^sup>*\<^sup>* (threads_init mh) t"
  shows "conn_inv L c t"
  using assms
proof (induction rule: rtranclp_induct)
  case base
  show ?case
    by (simp add: conn_inv_def threads_init_def shared_new_def mem_ok_def settled_def own_entry_def ix_entry_def)
next
  case (step t t')
  then show ?case
    by (auto simp: calm_step_def elim!: thread_step.cases intro: spawn_conn_inv run_conn_inv)
qed

text \<open>Such runs, by a given order of calls (\<open>Inl\<close>) and steps (\<open>Inr\<close>).\<close>

primrec calm_run :: "nostr_lib \<Rightarrow> connection_id \<Rightarrow> (reg_call + nat) list \<Rightarrow> threads \<Rightarrow> threads option" where
  "calm_run L c [] t = Some t"
| "calm_run L c (a # as) t = Option.bind (case a of Inl cl \<Rightarrow> Some (spawn cl t) | Inr i \<Rightarrow> task_step L i t)
     (\<lambda>t'. if calm c t \<and> calls_ok t \<and> calm c t' then calm_run L c as t' else None)"

lemma calm_run_steps: "calm_run L c as t = Some t' \<Longrightarrow> (calm_step L c)\<^sup>*\<^sup>* t t'"
proof (induction as arbitrary: t)
  case (Cons a as)
  then obtain t1 where t1: "(case a of Inl cl \<Rightarrow> Some (spawn cl t) | Inr i \<Rightarrow> task_step L i t) = Some t1"
    "calm c t" "calls_ok t" "calm c t1" "calm_run L c as t1 = Some t'"
    by (auto simp: bind_eq_Some_conv split: if_splits)
  then have "calm_step L c t t1"
    by (auto simp: calm_step_def split: sum.splits intro: thread_step.intros)
  then show ?case
    using Cons.IH [OF t1(5)] by (rule converse_rtranclp_into_rtranclp)
qed simp

text \<open>A connection subscribes while another is registered, subscribed and cleaned up by two tasks at once.\<close>

definition demo_actions :: "(reg_call + nat) list" where
  "demo_actions = [Inl (CallRegister ''c1'' (demo_sender 1) None ScopeDefault), Inr 0,
     Inl (CallReplace ''c1'' ''a'' [kind_filter 1]), Inl (CallRegister ''c2'' (demo_sender 2) None ScopeDefault),
     Inr 1, Inr 2, Inl (CallCleanup ''c2''), Inr 1, Inl (CallCleanup ''c2''), Inr 3, Inr 4, Inr 1, Inr 3, Inr 1,
     Inr 4, Inr 1, Inr 3, Inr 1]"

definition demo_calm :: threads where
  "demo_calm = the (calm_run demo_lib ''c1'' demo_actions (threads_init True))"

lemmas calm_eval = threads_eval calm_def calls_ok_def working_on_def pc_ok_def scope_index_def index_room_def

lemma demo_calm_eval:
  "calm_run demo_lib ''c1'' demo_actions (threads_init True) = Some demo_calm"
  "th_tasks demo_calm = [[], [], [], [ClnIndex ''c2'' [] ScopeDefault], [ClnRemove ''c2'' (Some ([], ScopeDefault))]]"
  "sh_connections (th_shared demo_calm) = [(''c1'', 0)]"
  "hm_get (sh_objects (th_shared demo_calm)) (''c1'', 0) = Some (demo_conn 1 [(''a'', [kind_filter 1])] ScopeDefault)"
proof -
  have fs: "filter_wf (kind_filter (Suc 0))"
    by (simp add: filter_wf_def demo_filter_defs)
  show "calm_run demo_lib ''c1'' demo_actions (threads_init True) = Some demo_calm"
    "th_tasks demo_calm = [[], [], [], [ClnIndex ''c2'' [] ScopeDefault], [ClnRemove ''c2'' (Some ([], ScopeDefault))]]"
    "sh_connections (th_shared demo_calm) = [(''c1'', 0)]"
    "hm_get (sh_objects (th_shared demo_calm)) (''c1'', 0) = Some (demo_conn 1 [(''a'', [kind_filter 1])] ScopeDefault)"
    by (simp_all add: demo_calm_def demo_actions_def calm_eval fs All_less_Suc less_Suc_eq nth_append si_new_def demo_conn_def)
qed

text \<open>C4. Isolation of interleaved operations. As long as no two operations on the connection itself overlap, and whatever the
  tasks of all other connections do at the same time, step by step: when no operation on the connection is under way, the
  indexes of all scopes hold exactly its subscriptions with their filters.\<close>

theorem registry_no_overlap_consistent:
  assumes "(calm_step L c)\<^sup>*\<^sup>* (threads_init mh) t" "\<not> list_ex (working_on c) (th_tasks t)"
  shows "index_table (to_registry (th_shared t)) sc (c, sid) = conn_table (to_registry (th_shared t)) sc (c, sid)"
  using calm_conn_inv [OF assms(1)] assms(2)
  by (auto simp: conn_inv_def list_ex_iff registry_entries settled_def)

theorem registry_no_overlap_consistent_witness:
  "index_table (to_registry (th_shared demo_calm)) ScopeDefault (''c1'', ''a'') = Some {#kind_filter 1#}"
proof -
  have "\<not> list_ex (working_on ''c1'') (th_tasks demo_calm)"
    by (simp add: demo_calm_eval working_on_def)
  from registry_no_overlap_consistent [OF calm_run_steps [OF demo_calm_eval(1)] this, of ScopeDefault "''a''"]
  show ?thesis
    by (simp add: registry_entries own_entry_def deref_def demo_calm_eval demo_conn_def)
qed

section \<open>What overlapping operations do\<close>

text \<open>A clean-up (of a connection whose channel was found full) runs while a subscription is added to it. The task that
  adds has already fetched the connection, so it goes on: the connection is gone, its entry stays in the index and nothing will
  take it out, and the gauge counts a subscription that no connection has.\<close>

definition demo_orphan :: "threads option" where
  "demo_orphan = run_schedule demo_lib [0, 1, 1, 1, 2, 2, 2, 2, 2, 1, 1, 1]
     (spawn (CallCleanup ''c1'') (spawn (CallReplace ''c1'' ''a'' [kind_filter 1])
       (spawn (CallRegister ''c1'' (demo_sender 1) None ScopeDefault) (threads_init True))))"

lemma cleanup_during_add_leaks:
  "\<exists>t. demo_orphan = Some t \<and> (thread_step demo_lib)\<^sup>*\<^sup>* (threads_init True) t \<and> list_all (\<lambda>pcs. pcs = []) (th_tasks t) \<and>
     (let r = to_registry (th_shared t) in \<not> has_connection r ''c1'' \<and>
       index_table r ScopeDefault (''c1'', ''a'') = Some {#kind_filter 1#} \<and>
       active_subscriptions r = 1 \<and> total_subscriptions r = 0)"
proof -
  let ?t0 = "spawn (CallCleanup ''c1'') (spawn (CallReplace ''c1'' ''a'' [kind_filter 1])
    (spawn (CallRegister ''c1'' (demo_sender 1) None ScopeDefault) (threads_init True)))"
  have start: "(thread_step demo_lib)\<^sup>*\<^sup>* (threads_init True) ?t0"
    by (meson thread_step.spawned rtranclp.rtrancl_refl rtranclp.rtrancl_into_rtrancl)
  have "index_abs (si_add_subscription demo_lib ''c1'' ''a'' [kind_filter (Suc 0)] si_new) (''c1'', ''a'') =
      Some {#kind_filter (Suc 0)#}"
  proof -
    have "list_all filter_wf [kind_filter (Suc 0)]" "index_room (length [kind_filter (Suc 0)]) si_new"
      by (simp_all add: filter_wf_def demo_filter_defs index_room_def si_new_def)
    from store.add_abs [OF si_new_wf [of demo_lib] this, of "(''c1'', ''a'')"] show ?thesis
      by (simp add: table_add_def index_abs_new)
  qed
  then obtain t where t: "demo_orphan = Some t" "list_all (\<lambda>pcs. pcs = []) (th_tasks t)"
    "let r = to_registry (th_shared t) in \<not> has_connection r ''c1'' \<and>
       index_table r ScopeDefault (''c1'', ''a'') = Some {#kind_filter 1#} \<and>
       active_subscriptions r = 1 \<and> total_subscriptions r = 0"
    by (simp add: demo_orphan_def threads_eval to_registry_def has_connection_def hm_contains_def index_table_def
        active_subscriptions_def total_subscriptions_def)
  then show ?thesis
    using rtranclp_trans [OF start run_schedule_steps [OF t(1) [unfolded demo_orphan_def]]] by blast
qed

text \<open>Two clean-ups of one connection (two distributions that both found its channel full) both read its
  subscriptions before either removes it: each takes them off the gauge, which falls below zero.\<close>

definition demo_double :: "threads option" where
  "demo_double = run_schedule demo_lib [0, 1, 1, 1, 1, 1, 1, 2, 2, 3, 3, 2, 2, 2, 2, 2, 3, 3, 3, 3, 3]
     (spawn (CallCleanup ''c1'') (spawn (CallCleanup ''c1'') (spawn (CallReplace ''c1'' ''a'' [kind_filter 1])
       (spawn (CallRegister ''c1'' (demo_sender 1) None ScopeDefault) (threads_init True)))))"

lemma overlapping_cleanups_undercount:
  "\<exists>t. demo_double = Some t \<and> list_all (\<lambda>pcs. pcs = []) (th_tasks t) \<and>
     active_subscriptions (to_registry (th_shared t)) = - 1 \<and> total_subscriptions (to_registry (th_shared t)) = 0"
  by (simp add: demo_double_def threads_eval to_registry_def active_subscriptions_def total_subscriptions_def)

end
