(* ===== verification/Registry_Threads_Atomic.thy ===== *)
theory Registry_Threads_Atomic
  imports Registry_Threads_Progress
begin

text \<open>
  A task that runs without interruption computes the atomic operation of \<open>Subscription_Registry\<close>: the operations the rest of the
  development uses are the step-by-step operations of \<open>src/src/subscription_registry.rs\<close>, run alone.
\<close>

primrec run_alone :: "nostr_lib \<Rightarrow> nat \<Rightarrow> pc list \<Rightarrow> shared \<Rightarrow> shared option" where
  "run_alone L 0 pcs s = (if pcs = [] then Some s else None)"
| "run_alone L (Suc n) pcs s = (case pcs of
     [] \<Rightarrow> Some s
   | pc # rest \<Rightarrow> Option.bind (pc_step L pc s) (\<lambda>(pcs', s'). run_alone L n (pcs' @ rest) s'))"

definition ends :: "nostr_lib \<Rightarrow> pc list \<Rightarrow> shared \<Rightarrow> shared \<Rightarrow> bool" where
  "ends L pcs s s' \<longleftrightarrow> (\<exists>n. run_alone L n pcs s = Some s')"

lemma ends_nil [simp]: "ends L [] s s' = (s' = s)"
proof -
  have "run_alone L n [] s = Some s" for n
    by (cases n) auto
  then show ?thesis
    by (auto simp: ends_def)
qed

lemma ends_cons: "pc_step L pc s = Some (pcs, s1) \<Longrightarrow> ends L (pc # rest) s s' = ends L (pcs @ rest) s1 s'"
proof
  assume step: "pc_step L pc s = Some (pcs, s1)"
  show "ends L (pcs @ rest) s1 s'" if "ends L (pc # rest) s s'"
  proof -
    from that obtain n where "run_alone L n (pc # rest) s = Some s'"
      by (auto simp: ends_def)
    then show ?thesis
      using step by (cases n) (auto simp: ends_def)
  qed
  show "ends L (pc # rest) s s'" if "ends L (pcs @ rest) s1 s'"
    using that step unfolding ends_def by (metis bind.bind_lunit case_prod_conv list.case(2) run_alone.simps(2))
qed

text \<open>A memory in which nobody is at work.\<close>

definition at_rest :: "shared \<Rightarrow> bool" where
  "at_rest s \<longleftrightarrow> sh_locked s = [] \<and> hm_wf (sh_connections s) \<and>
     (\<forall>c n. hm_get (sh_connections s) c = Some n \<longrightarrow> hm_get (sh_objects s) (c, n) \<noteq> None)"

definition atomic_call :: "nostr_lib \<Rightarrow> reg_call \<Rightarrow> registry \<times> outbox \<Rightarrow> registry \<times> outbox" where
  "atomic_call L call st = (let (r, out) = st in case call of
     CallRegister cid ms ap sc \<Rightarrow> (register_connection cid ms ap sc r, out)
   | CallReplace cid sid fs \<Rightarrow> (snd (reg_add_subscription L cid sid fs (snd (reg_remove_subscription L cid sid r))), out)
   | CallRemove cid sid \<Rightarrow> (snd (reg_remove_subscription L cid sid r), out)
   | CallCleanup cid \<Rightarrow> (cleanup_connection L cid r, out)
   | CallDistribute e sc \<Rightarrow> distribute_event L e sc r out)"

section \<open>Reading the memory as a registry\<close>

lemma to_registry_simps [simp]:
  "rg_indexes (to_registry s) = sh_indexes s" "rg_metrics_handler (to_registry s) = sh_metrics_handler s"
  "rg_metrics_log (to_registry s) = sh_metrics_log s"
  by (simp_all add: to_registry_def)

lemma hm_get_registry: "hm_get (rg_connections (to_registry s)) c = map_option (\<lambda>n. deref s (c, n)) (hm_get (sh_connections s) c)"
proof -
  have "hm_get (map (\<lambda>(k, v). (k, g (k, v))) m) k = map_option (\<lambda>v. g (k, v)) (hm_get m k)"
    for g :: "conn_ref \<Rightarrow> connection_subscriptions" and m :: "(connection_id, nat) hmap" and k
    by (induction m) auto
  then show ?thesis
    by (simp add: to_registry_def)
qed

lemma registry_insert_object:
  assumes "hm_wf conns" "hm_get conns c = Some n"
  shows "map (\<lambda>(c', n'). (c', if c' = c \<and> n' = n then obj else g c' n')) conns =
    hm_insert c obj (map (\<lambda>(c', n'). (c', g c' n')) conns)"
  using assms
proof (induction conns)
  case (Cons p conns)
  obtain c' n' where p: "p = (c', n')"
    by (cases p)
  show ?case
  proof (cases "c' = c")
    case True
    then have "c \<notin> fst ` set conns"
      using Cons.prems p by auto
    then have "map (\<lambda>(c', n'). (c', if c' = c \<and> n' = n then obj else g c' n')) conns = map (\<lambda>(c', n'). (c', g c' n')) conns"
      by (force intro!: map_cong)
    then show ?thesis
      using Cons.prems True p by simp
  next
    case False
    then show ?thesis
      using Cons p by simp
  qed
qed simp

lemma registry_new_object:
  "map (\<lambda>(c', n'). (c', if c' = c then obj else g c' n')) (hm_insert c n conns) =
    hm_insert c obj (map (\<lambda>(c', n'). (c', g c' n')) conns)"
  if "hm_wf conns"
  using that
proof (induction conns)
  case (Cons p conns)
  obtain c' n' where p: "p = (c', n')"
    by (cases p)
  show ?case
  proof (cases "c' = c")
    case True
    then have "c \<notin> fst ` set conns"
      using Cons.prems p by auto
    then have "map (\<lambda>(c', n'). (c', if c' = c then obj else g c' n')) conns = map (\<lambda>(c', n'). (c', g c' n')) conns"
      by (force intro!: map_cong)
    then show ?thesis
      using True p by simp
  next
    case False
    then show ?thesis
      using Cons p by simp
  qed
qed simp

lemma registry_drop_object:
  "map (\<lambda>(c', n'). (c', g c' n')) (hm_remove c conns) = hm_remove c (map (\<lambda>(c', n'). (c', g c' n')) conns)"
  by (induction conns) (auto simp: AList.delete_eq)

text \<open>A task that begins with \<open>pcs\<close> in memory \<open>s\<close> gets to memory \<open>s'\<close>, where the rest of it goes on.\<close>

definition computes :: "nostr_lib \<Rightarrow> pc list \<Rightarrow> shared \<Rightarrow> shared \<Rightarrow> bool" where
  "computes L pcs s s' \<longleftrightarrow> (\<forall>rest s''. ends L (pcs @ rest) s s'' = ends L rest s' s'')"

lemma computes_nil [simp]: "computes L [] s s"
  by (simp add: computes_def)

lemma computes_step: "pc_step L pc s = Some (pcs, s1) \<Longrightarrow> computes L pcs s1 s' \<Longrightarrow> computes L [pc] s s'"
  by (simp add: computes_def ends_cons)

lemma computes_append: "computes L pcs s s1 \<Longrightarrow> computes L pcs' s1 s' \<Longrightarrow> computes L (pcs @ pcs') s s'"
  by (simp add: computes_def)

lemma computes_ends: "computes L pcs s s' \<Longrightarrow> ends L pcs s s'"
  unfolding computes_def by (metis append_Nil2 ends_nil)

lemma shared_other [simp]:
  "sh_connections (shared_log m s) = sh_connections s" "sh_connections (shared_lock ref s) = sh_connections s"
  "sh_connections (shared_unlock ref s) = sh_connections s" "sh_connections (set_subscriptions ref conn subs s) = sh_connections s"
  "sh_connections (shared_index sc f s) = sh_connections s"
  "sh_objects (shared_log m s) = sh_objects s" "sh_objects (shared_lock ref s) = sh_objects s"
  "sh_objects (shared_unlock ref s) = sh_objects s" "sh_objects (shared_index sc f s) = sh_objects s"
  "sh_objects (set_subscriptions ref conn subs s) = hm_insert ref (conn\<lparr>cs_subscriptions := subs\<rparr>) (sh_objects s)"
  "sh_outbox (shared_log m s) = sh_outbox s" "sh_outbox (shared_lock ref s) = sh_outbox s"
  "sh_outbox (shared_unlock ref s) = sh_outbox s" "sh_outbox (set_subscriptions ref conn subs s) = sh_outbox s"
  "sh_outbox (shared_index sc f s) = sh_outbox s"
  "sh_indexes (shared_log m s) = sh_indexes s" "sh_indexes (shared_lock ref s) = sh_indexes s"
  "sh_indexes (shared_unlock ref s) = sh_indexes s" "sh_indexes (set_subscriptions ref conn subs s) = sh_indexes s"
  by (simp_all add: shared_log_def shared_lock_def shared_unlock_def set_subscriptions_def shared_index_def split: option.split)

lemma to_registry_updates:
  "to_registry (shared_log m s) = log_metric m (to_registry s)"
  "to_registry (shared_lock ref s) = to_registry s" "to_registry (shared_unlock ref s) = to_registry s"
  "to_registry (s\<lparr>sh_indexes := ixs\<rparr>) = (to_registry s)\<lparr>rg_indexes := ixs\<rparr>"
  "to_registry (s\<lparr>sh_outbox := out\<rparr>) = to_registry s"
  by (simp_all add: to_registry_def shared_log_def log_metric_def shared_lock_def shared_unlock_def deref_def)

lemma to_registry_set:
  assumes "hm_wf (sh_connections s)" "hm_get (sh_connections s) c = Some n"
  shows "to_registry (set_subscriptions (c, n) conn subs s) =
    (to_registry s)\<lparr>rg_connections := hm_insert c (conn\<lparr>cs_subscriptions := subs\<rparr>) (rg_connections (to_registry s))\<rparr>"
  using registry_insert_object [OF assms, of "conn\<lparr>cs_subscriptions := subs\<rparr>" "\<lambda>c' n'. deref s (c', n')"]
  by (simp add: to_registry_def set_subscriptions_def deref_def hm_simps if_distrib cong: if_cong)

lemma to_registry_remove:
  "to_registry (s\<lparr>sh_connections := hm_remove c (sh_connections s)\<rparr>) =
    (to_registry s)\<lparr>rg_connections := hm_remove c (rg_connections (to_registry s))\<rparr>"
  using registry_drop_object [of "\<lambda>c' n'. deref s (c', n')" c "sh_connections s"]
  by (simp add: to_registry_def deref_def)

lemma at_rest_object:
  assumes "at_rest s" "hm_get (sh_connections s) c = Some n"
  obtains conn where "hm_get (sh_objects s) (c, n) = Some conn" "hm_get (rg_connections (to_registry s)) c = Some conn"
proof -
  obtain conn where "hm_get (sh_objects s) (c, n) = Some conn"
    using assms unfolding at_rest_def by fastforce
  then show ?thesis
    using that assms(2) by (simp add: hm_get_registry deref_def)
qed

text \<open>The operation a task performs when it is not disturbed.\<close>

definition performs :: "nostr_lib \<Rightarrow> pc list \<Rightarrow> shared \<Rightarrow> registry \<times> outbox \<Rightarrow> bool" where
  "performs L pcs s st \<longleftrightarrow> (\<exists>s'. computes L pcs s s' \<and> at_rest s' \<and> (to_registry s', sh_outbox s') = st)"

lemma performs_I: "computes L pcs s s' \<Longrightarrow> at_rest s' \<Longrightarrow> to_registry s' = r \<Longrightarrow> sh_outbox s' = out \<Longrightarrow> performs L pcs s (r, out)"
  by (auto simp: performs_def)

lemma performs_append:
  assumes "performs L pcs s st" "\<And>s'. at_rest s' \<Longrightarrow> (to_registry s', sh_outbox s') = st \<Longrightarrow> performs L pcs' s' st'"
  shows "performs L (pcs @ pcs') s st'"
proof -
  obtain s' where s': "computes L pcs s s'" "at_rest s'" "(to_registry s', sh_outbox s') = st"
    using assms(1) by (auto simp: performs_def)
  then obtain s'' where "computes L pcs' s' s''" "at_rest s''" "(to_registry s'', sh_outbox s'') = st'"
    using assms(2) by (auto simp: performs_def)
  then show ?thesis
    using computes_append [OF s'(1)] by (auto simp: performs_def)
qed

lemma register_alone:
  assumes "at_rest s"
  shows "performs L [RegStart c ms ap sc] s (register_connection c ms ap sc (to_registry s), sh_outbox s)"
proof (rule performs_I)
  let ?obj = "\<lparr>cs_subscriptions = [], cs_sender = ms, cs_auth_pubkey = ap, cs_subdomain = sc\<rparr>"
  let ?conns = "hm_insert c (sh_next s) (sh_connections s)"
  define s' where "s' = s\<lparr>sh_objects := hm_insert (c, sh_next s) ?obj (sh_objects s),
    sh_connections := ?conns, sh_next := sh_next s + 1\<rparr>"
  have wf: "hm_wf (sh_connections s)"
    using assms by (simp add: at_rest_def)
  show "computes L [RegStart c ms ap sc] s s'"
    by (rule computes_step, simp add: s'_def, simp add: s'_def)
  show "at_rest s'" "sh_outbox s' = sh_outbox s"
    using assms by (auto simp: at_rest_def hm_simps hm_wf_insert s'_def)
  have obj: "deref s' (c', n') = (if c' = c then ?obj else deref s (c', n'))" if "(c', n') \<in> set ?conns" for c' n'
  proof -
    have "hm_get ?conns c' = Some n'"
      using that hm_in_set_iff [OF hm_wf_insert [OF wf]] by blast
    then show ?thesis
      by (auto simp: s'_def deref_def hm_simps split: if_splits)
  qed
  have "map (\<lambda>(c', n'). (c', deref s' (c', n'))) ?conns =
      hm_insert c ?obj (map (\<lambda>(c', n'). (c', deref s (c', n'))) (sh_connections s))"
    unfolding registry_new_object [OF wf, of c ?obj "\<lambda>c' n'. deref s (c', n')" "sh_next s", symmetric]
    by (rule map_cong) (auto simp: obj)
  moreover have "sh_connections s' = ?conns" "sh_indexes s' = sh_indexes s"
    "sh_metrics_handler s' = sh_metrics_handler s" "sh_metrics_log s' = sh_metrics_log s"
    by (simp_all add: s'_def)
  ultimately show "to_registry s' = register_connection c ms ap sc (to_registry s)"
    by (simp add: to_registry_def register_connection_def)
qed

lemma add_alone:
  assumes "at_rest s"
  shows "performs L [AddStart c sid fs] s (snd (reg_add_subscription L c sid fs (to_registry s)), sh_outbox s)"
proof (cases "hm_get (sh_connections s) c")
  case None
  then show ?thesis
    using assms
    by (intro performs_I [of _ _ _ s] computes_step [of L "AddStart c sid fs" s "[]" s])
      (auto simp: reg_add_subscription_def hm_get_registry)
next
  case (Some n)
  obtain conn where conn: "hm_get (sh_objects s) (c, n) = Some conn" "hm_get (rg_connections (to_registry s)) c = Some conn"
    using at_rest_object [OF assms Some] .
  define is_new where "is_new \<longleftrightarrow> hm_get (cs_subscriptions conn) sid = None"
  define s1 where "s1 = shared_lock (c, n) (set_subscriptions (c, n) conn (hm_insert sid fs (cs_subscriptions conn)) s)"
  define ixs where "ixs = hm_insert (cs_subdomain conn) (si_add_subscription L c sid fs
    (case hm_get (sh_indexes s) (cs_subdomain conn) of None \<Rightarrow> si_new | Some ix \<Rightarrow> ix)) (sh_indexes s)"
  define s2 where "s2 = s1\<lparr>sh_indexes := ixs\<rparr>"
  define s3 where "s3 = shared_unlock (c, n) (if is_new then shared_log IncrementActive s2 else s2)"
  have "object_scope (c, n) s1 = cs_subdomain conn" "sh_indexes s1 = sh_indexes s"
    by (simp_all add: s1_def object_scope_def hm_simps)
  then have steps: "pc_step L (AddStart c sid fs) s = Some ([AddLock (c, n) sid fs], s)"
    "pc_step L (AddLock (c, n) sid fs) s = Some ([AddIndex (c, n) sid fs is_new], s1)"
    "pc_step L (AddIndex (c, n) sid fs is_new) s1 = Some ([AddMetric (c, n) is_new], s2)"
    "pc_step L (AddMetric (c, n) is_new) s2 = Some ([], s3)"
    using Some conn assms by (simp_all add: at_rest_def is_new_def s1_def s2_def s3_def ixs_def Let_def)
  show ?thesis
  proof (rule performs_I)
    show "computes L [AddStart c sid fs] s s3"
      by (rule computes_step [OF steps(1)], rule computes_step [OF steps(2)], rule computes_step [OF steps(3)],
          rule computes_step [OF steps(4)], simp)
    show "at_rest s3"
      using assms by (auto simp: at_rest_def s3_def s2_def s1_def hm_simps)
    have "to_registry s1 = (to_registry s)\<lparr>rg_connections :=
        hm_insert c (conn\<lparr>cs_subscriptions := hm_insert sid fs (cs_subscriptions conn)\<rparr>) (rg_connections (to_registry s))\<rparr>"
      using to_registry_set [of s c n] assms Some by (simp add: s1_def to_registry_updates at_rest_def)
    then show "to_registry s3 = snd (reg_add_subscription L c sid fs (to_registry s))"
      using conn by (auto simp: s3_def s2_def ixs_def to_registry_updates reg_add_subscription_def Let_def is_new_def)
    show "sh_outbox s3 = sh_outbox s"
      by (simp add: s3_def s2_def s1_def)
  qed
qed

lemma shared_index_registry:
  "to_registry (shared_index sc (si_remove_subscription L c sid) s) = index_remove L sc c [sid] (to_registry s)"
  by (simp add: shared_index_def index_remove_def to_registry_updates split: option.split)

lemma remove_alone:
  assumes "at_rest s"
  shows "performs L [RemStart c sid] s (snd (reg_remove_subscription L c sid (to_registry s)), sh_outbox s)"
proof (cases "hm_get (sh_connections s) c")
  case None
  then show ?thesis
    using assms
    by (intro performs_I [of _ _ _ s] computes_step [of L "RemStart c sid" s "[]" s])
      (auto simp: reg_remove_subscription_def hm_get_registry)
next
  case (Some n)
  obtain conn where conn: "hm_get (sh_objects s) (c, n) = Some conn" "hm_get (rg_connections (to_registry s)) c = Some conn"
    using at_rest_object [OF assms Some] .
  have start: "pc_step L (RemStart c sid) s = Some ([RemLock (c, n) sid], s)"
    using Some by simp
  show ?thesis
  proof (cases "hm_get (cs_subscriptions conn) sid")
    case None
    then have "pc_step L (RemLock (c, n) sid) s = Some ([], s)"
      using conn assms by (simp add: at_rest_def)
    then have "computes L [RemStart c sid] s s"
      by (rule computes_step [OF start, OF computes_step [OF _ computes_nil]])
    then show ?thesis
      using assms conn None by (intro performs_I) (auto simp: reg_remove_subscription_def)
  next
    case (Some fs)
    define s1 where "s1 = shared_lock (c, n) (set_subscriptions (c, n) conn (hm_remove sid (cs_subscriptions conn)) s)"
    define s2 where "s2 = shared_index (cs_subdomain conn) (si_remove_subscription L c sid) s1"
    define s3 where "s3 = shared_unlock (c, n) (shared_log (DecrementActive 1) s2)"
    have "object_scope (c, n) s1 = cs_subdomain conn"
      by (simp add: s1_def object_scope_def hm_simps)
    then have steps: "pc_step L (RemLock (c, n) sid) s = Some ([RemIndex (c, n) sid], s1)"
      "pc_step L (RemIndex (c, n) sid) s1 = Some ([RemMetric (c, n) sid], s2)"
      "pc_step L (RemMetric (c, n) sid) s2 = Some ([], s3)"
      using Some conn assms by (simp_all add: at_rest_def s1_def s2_def s3_def)
    show ?thesis
    proof (rule performs_I)
      show "computes L [RemStart c sid] s s3"
        by (rule computes_step [OF start], rule computes_step [OF steps(1)], rule computes_step [OF steps(2)],
            rule computes_step [OF steps(3)], simp)
      show "at_rest s3"
        using assms by (auto simp: at_rest_def s3_def s2_def s1_def hm_simps)
      have "to_registry s1 = (to_registry s)\<lparr>rg_connections :=
          hm_insert c (conn\<lparr>cs_subscriptions := hm_remove sid (cs_subscriptions conn)\<rparr>) (rg_connections (to_registry s))\<rparr>"
        using to_registry_set [of s c n] assms \<open>hm_get (sh_connections s) c = Some n\<close>
        by (simp add: s1_def to_registry_updates at_rest_def)
      then show "to_registry s3 = snd (reg_remove_subscription L c sid (to_registry s))"
        using conn Some
        by (simp add: s3_def s2_def to_registry_updates shared_index_registry reg_remove_subscription_def Let_def)
      show "sh_outbox s3 = sh_outbox s"
        by (simp add: s3_def s2_def s1_def)
    qed
  qed
qed

lemma index_remove_nil: "index_remove L sc c [] r = r"
  by (cases "hm_get (rg_indexes r) sc") (simp_all add: index_remove_def update_triv)

lemma index_remove_cons: "index_remove L sc c (sid # ids) r = index_remove L sc c ids (index_remove L sc c [sid] r)"
  by (simp add: index_remove_def hm_simps update_last split: option.split)

lemma drop_alone:
  "computes L [ClnDrop c ids sc k] s (if k > 0
     then shared_log (DecrementActive k) (fold (\<lambda>sid. shared_index sc (si_remove_subscription L c sid)) ids s)
     else fold (\<lambda>sid. shared_index sc (si_remove_subscription L c sid)) ids s)"
proof (induction ids arbitrary: s)
  case Nil
  show ?case
    by (rule computes_step [of _ _ _ "[ClnMetric k]" s], simp, rule computes_step, simp, simp)
next
  case (Cons sid ids)
  have "pc_step L (ClnDrop c (sid # ids) sc k) s =
      Some ([ClnDrop c ids sc k], shared_index sc (si_remove_subscription L c sid) s)"
    by simp
  from computes_step [OF this Cons.IH] show ?case
    by (simp only: fold_Cons comp_apply)
qed

lemma fold_shared_index:
  "to_registry (fold (\<lambda>sid. shared_index sc (si_remove_subscription L c sid)) ids s) = index_remove L sc c ids (to_registry s)"
  "sh_connections (fold (\<lambda>sid. shared_index sc (si_remove_subscription L c sid)) ids s) = sh_connections s"
  "sh_objects (fold (\<lambda>sid. shared_index sc (si_remove_subscription L c sid)) ids s) = sh_objects s"
  "sh_locked (fold (\<lambda>sid. shared_index sc (si_remove_subscription L c sid)) ids s) = sh_locked s"
  "sh_outbox (fold (\<lambda>sid. shared_index sc (si_remove_subscription L c sid)) ids s) = sh_outbox s"
  by (induction ids arbitrary: s)
    (simp_all add: index_remove_nil shared_index_registry index_remove_cons [of L sc c _ "_ # _"] index_remove_cons [symmetric])

lemma cleanup_alone:
  assumes "at_rest s"
  shows "performs L [ClnStart c] s (cleanup_connection L c (to_registry s), sh_outbox s)"
proof (cases "hm_get (sh_connections s) c")
  case None
  define s' where "s' = s\<lparr>sh_connections := hm_remove c (sh_connections s)\<rparr>"
  have steps: "pc_step L (ClnStart c) s = Some ([ClnRemove c None], s)" "pc_step L (ClnRemove c None) s = Some ([], s')"
    using None by (simp_all add: s'_def)
  show ?thesis
  proof (rule performs_I)
    show "computes L [ClnStart c] s s'"
      by (rule computes_step [OF steps(1)], rule computes_step [OF steps(2)], simp)
    show "at_rest s'"
      using assms by (auto simp: at_rest_def s'_def hm_simps hm_wf_remove)
    show "to_registry s' = cleanup_connection L c (to_registry s)"
      by (simp add: s'_def to_registry_remove cleanup_connection_def hm_get_registry None)
    show "sh_outbox s' = sh_outbox s"
      by (simp add: s'_def)
  qed
next
  case (Some n)
  obtain conn where conn: "hm_get (sh_objects s) (c, n) = Some conn" "hm_get (rg_connections (to_registry s)) c = Some conn"
    using at_rest_object [OF assms Some] .
  let ?ids = "hm_keys (cs_subscriptions conn)" and ?sc = "cs_subdomain conn"
  define s1 where "s1 = s\<lparr>sh_connections := hm_remove c (sh_connections s)\<rparr>"
  define s2 where "s2 = fold (\<lambda>sid. shared_index ?sc (si_remove_subscription L c sid)) ?ids s1"
  define s3 where "s3 = (if length ?ids > 0 then shared_log (DecrementActive (length ?ids)) s2 else s2)"
  have steps: "pc_step L (ClnStart c) s = Some ([ClnRead (c, n)], s)"
    "pc_step L (ClnRead (c, n)) s = Some ([ClnRemove c (Some (?ids, ?sc))], s)"
    "pc_step L (ClnRemove c (Some (?ids, ?sc))) s = Some ([ClnIndex c ?ids ?sc], s1)"
    using Some conn assms by (simp_all add: at_rest_def s1_def)
  have last: "computes L [ClnIndex c ?ids ?sc] s1 s3"
  proof (cases "hm_get (sh_indexes s1) ?sc")
    case None
    then have "shared_index ?sc f s1 = s1" for f
      by (simp add: shared_index_def)
    then have "fold (\<lambda>sid. shared_index ?sc (si_remove_subscription L c sid)) ids s1 = s1" for ids
      by (induction ids) simp_all
    then have "s2 = s1"
      by (simp add: s2_def)
    then have "pc_step L (ClnIndex c ?ids ?sc) s1 = Some ([ClnMetric (length ?ids)], s1)"
      "pc_step L (ClnMetric (length ?ids)) s1 = Some ([], s3)"
      using None by (simp_all add: s3_def)
    then show ?thesis
      by (metis computes_nil computes_step)
  next
    case (Some ix)
    then have "pc_step L (ClnIndex c ?ids ?sc) s1 = Some ([ClnDrop c ?ids ?sc (length ?ids)], s1)"
      by simp
    then show ?thesis
      unfolding s3_def s2_def by (rule computes_step [OF _ drop_alone])
  qed
  show ?thesis
  proof (rule performs_I)
    show "computes L [ClnStart c] s s3"
      by (rule computes_step [OF steps(1)], rule computes_step [OF steps(2)], rule computes_step [OF steps(3)], rule last)
    show "at_rest s3"
      using assms by (auto simp: at_rest_def s3_def s2_def s1_def fold_shared_index hm_simps hm_wf_remove)
    have "to_registry s2 = index_remove L ?sc c ?ids
        ((to_registry s)\<lparr>rg_connections := hm_remove c (rg_connections (to_registry s))\<rparr>)"
      by (simp add: s2_def fold_shared_index s1_def to_registry_remove)
    then show "to_registry s3 = cleanup_connection L c (to_registry s)"
      using conn by (simp add: s3_def to_registry_updates cleanup_connection_def Let_def)
    show "sh_outbox s3 = sh_outbox s"
      by (simp add: s3_def s2_def s1_def fold_shared_index)
  qed
qed

section \<open>Distribution\<close>

lemma cleanups_alone:
  assumes "at_rest s"
  shows "performs L (map ClnStart dead) s (fold (cleanup_connection L) dead (to_registry s), sh_outbox s)"
  using assms
proof (induction dead arbitrary: s)
  case Nil
  then show ?case
    by (auto intro: performs_I [of _ _ _ s])
next
  case (Cons c dead)
  have "performs L ([ClnStart c] @ map ClnStart dead) s
      (fold (cleanup_connection L) dead (cleanup_connection L c (to_registry s)), sh_outbox s)"
    by (rule performs_append [OF cleanup_alone [OF Cons.prems]]) (use Cons.IH in fastforce)
  then show ?case
    by simp
qed

lemma performs_step: "pc_step L pc s = Some (pcs, s1) \<Longrightarrow> performs L pcs s1 st \<Longrightarrow> performs L [pc] s st"
  unfolding performs_def using computes_step by blast

lemma at_rest_outbox: "at_rest (s\<lparr>sh_outbox := out\<rparr>) = at_rest s"
  by (simp add: at_rest_def)

lemma sends_alone:
  assumes "at_rest s"
  shows "performs L [DistSend e matches dead] s
    (let (dead', out') = send_matches L e (to_registry s) matches dead (sh_outbox s)
     in (fold (cleanup_connection L) dead' (to_registry s), out'))"
  using assms
proof (induction matches arbitrary: s dead)
  case Nil
  show ?case
    by (rule performs_step [of _ _ _ "map ClnStart dead" s]) (use cleanups_alone [OF Nil.prems] in simp_all)
next
  case (Cons p matches)
  obtain c sid where p: "p = (c, sid)"
    by (cases p)
  show ?case
  proof (cases "hm_get (sh_connections s) c")
    case None
    then have "pc_step L (DistSend e (p # matches) dead) s = Some ([DistSend e matches dead], s)"
      by (simp add: p)
    from performs_step [OF this Cons.IH [OF Cons.prems]] show ?thesis
      using None by (simp add: p hm_get_registry)
  next
    case (Some n)
    obtain conn where conn: "hm_get (sh_objects s) (c, n) = Some conn" "hm_get (rg_connections (to_registry s)) c = Some conn"
      using at_rest_object [OF Cons.prems Some] .
    obtain res out' where send: "send_with_json L (cs_sender conn) (RM_Event sid e)
        (event_message_json sid (event_as_json L e)) (sh_outbox s) = (res, out')"
      by (cases "send_with_json L (cs_sender conn) (RM_Event sid e)
        (event_message_json sid (event_as_json L e)) (sh_outbox s)")
    define dead' where "dead' = (case res of Inl _ \<Rightarrow> dead @ [c] | Inr _ \<Rightarrow> dead)"
    have "pc_step L (DistSend e (p # matches) dead) s = Some ([DistSend e matches dead'], s\<lparr>sh_outbox := out'\<rparr>)"
      using Some conn send by (simp add: p dead'_def split: sum.split)
    moreover have "performs L [DistSend e matches dead'] (s\<lparr>sh_outbox := out'\<rparr>)
        (let (dead'', out'') = send_matches L e (to_registry s) matches dead' out'
         in (fold (cleanup_connection L) dead'' (to_registry s), out''))"
      using Cons.IH [of "s\<lparr>sh_outbox := out'\<rparr>" dead'] Cons.prems by (simp add: at_rest_outbox to_registry_updates)
    moreover have "send_matches L e (to_registry s) (p # matches) dead (sh_outbox s) =
        send_matches L e (to_registry s) matches dead' out'"
      using conn send by (simp add: p dead'_def split: sum.split)
    ultimately show ?thesis
      by (metis performs_step)
  qed
qed

lemma distribute_alone:
  assumes "at_rest s"
  shows "performs L [DistStart e sc] s (distribute_event L e sc (to_registry s) (sh_outbox s))"
proof (cases "hm_get (sh_indexes s) sc")
  case None
  have "pc_step L (DistStart e sc) s = Some ([], s)"
    using None by simp
  from performs_step [OF this] show ?thesis
    using assms None by (simp add: distribute_event_def performs_I [of _ "[]" s s])
next
  case (Some ix)
  define s1 where "s1 = s\<lparr>sh_indexes := hm_insert sc (snd (si_distribute_event L e ix)) (sh_indexes s)\<rparr>"
  have "pc_step L (DistStart e sc) s = Some ([DistSend e (fst (si_distribute_event L e ix)) []], s1)"
    using Some by (simp add: s1_def)
  from performs_step [OF this sends_alone] show ?thesis
    using assms Some
    by (simp add: distribute_event_def s1_def to_registry_updates at_rest_def Let_def split_beta)
qed

section \<open>Every call\<close>

text \<open>C6. Refinement. A call whose steps are not interrupted ends, whatever the memory it finds (as long as no lock is taken), and does to
  the registry and the outgoing channels exactly what the atomic operation does; so the atomic operations, on which the
  rest of the development rests, are the step-by-step ones run without overlap.\<close>

theorem registry_call_atomic:
  assumes "at_rest s"
  shows "\<exists>n s'. run_alone L n (program call) s = Some s' \<and> at_rest s' \<and>
    (to_registry s', sh_outbox s') = atomic_call L call (to_registry s, sh_outbox s)"
proof -
  have "performs L (program call) s (atomic_call L call (to_registry s, sh_outbox s))"
  proof (cases call)
    case (CallReplace c sid fs)
    have "performs L ([RemStart c sid] @ [AddStart c sid fs]) s (snd (reg_add_subscription L c sid fs
        (snd (reg_remove_subscription L c sid (to_registry s)))), sh_outbox s)"
      by (rule performs_append [OF remove_alone [OF assms]]) (use add_alone in fastforce)
    then show ?thesis
      by (simp add: CallReplace atomic_call_def)
  qed (use assms in \<open>simp_all add: atomic_call_def register_alone remove_alone cleanup_alone distribute_alone\<close>)
  then show ?thesis
    unfolding performs_def by (metis computes_ends ends_def)
qed

definition demo_memory :: shared where
  "demo_memory = the (Option.bind (run_alone demo_lib 1 (program (CallRegister ''c1'' (demo_sender 1) None ScopeDefault)) (shared_new True))
     (run_alone demo_lib 9 (program (CallReplace ''c1'' ''a'' [kind_filter 1]))))"

lemma demo_memory_eval:
  "at_rest demo_memory" "hm_get (sh_connections demo_memory) ''c1'' = Some 0"
  "hm_get (sh_objects demo_memory) (''c1'', 0) = Some (demo_conn 1 [(''a'', [kind_filter 1])] ScopeDefault)"
  by (simp_all add: demo_memory_def eval_nat_numeral threads_eval at_rest_def demo_conn_def)

theorem registry_call_atomic_witness:
  "\<exists>n s'. run_alone demo_lib n (program (CallCleanup ''c1'')) demo_memory = Some s' \<and>
     to_registry s' = cleanup_connection demo_lib ''c1'' (to_registry demo_memory)"
  using registry_call_atomic [OF demo_memory_eval(1), of demo_lib "CallCleanup ''c1''"] by (auto simp: atomic_call_def)

end
