(* ===== verification/Index_Threads.thy ===== *)
theory Index_Threads
  imports Subscription_Index_Distribution
begin

text \<open>
  The index of \<open>src/src/subscription_index.rs\<close> as its tasks really run: each of its maps has a lock of its own, held for one
  access only, so additions, removals and distributions interleave between accesses. A filter group is shared (\<open>Arc\<close>) between
  the map of groups and the tasks that have fetched it, and outlives its entry; it is named by a number. Filters are immutable but for
  their cell \<open>last_seen_event_id\<close>, addressed by the filter's id.
\<close>

text \<open>\<open>xs_ix\<close> is the index but for its groups: the field \<open>si_filter_groups\<close> is not used here.\<close>

record index_shared =
  xs_ix :: subscription_index
  xs_groups :: "(connection_id \<times> subscription_id, nat) hmap"
  xs_group_objects :: "(nat, filter_group) hmap"
  xs_next_group :: nat

definition index_shared_new :: index_shared where
  "index_shared_new = \<lparr>xs_ix = si_new, xs_groups = [], xs_group_objects = [], xs_next_group = 0\<rparr>"

text \<open>Where a task stands. \<open>n\<close> is how many authors are filed before the lock is given up: 1001 the first time (the source
  tests the position), then 1000.\<close>

datatype index_pc =
    IxAddStart "connection_id \<times> subscription_id" "filter list"
  | IxAddFilter "connection_id \<times> subscription_id" nat "filter list"
  | IxAddAll "connection_id \<times> subscription_id" nat tracked_filter "filter list"
  | IxAddGroup "connection_id \<times> subscription_id" nat tracked_filter "filter list"
  | IxAddIndex "connection_id \<times> subscription_id" nat tracked_filter "filter list"
  | IxAddAuthors "connection_id \<times> subscription_id" nat tracked_filter "pubkey list" nat "filter list"
  | IxRemStart "connection_id \<times> subscription_id"
  | IxRemIds "connection_id \<times> subscription_id" nat
  | IxRemFilter "connection_id \<times> subscription_id" "filter_id list"
  | IxRemIndex "connection_id \<times> subscription_id" tracked_filter "filter_id list"
  | IxRemAuthors "connection_id \<times> subscription_id" tracked_filter "pubkey list" nat "filter_id list"
  | IxDistStart event
  | IxDistIds event "filter_id list \<times> tracked_filter list"
  | IxDistAuthors event "filter_id list \<times> tracked_filter list"
  | IxDistKinds event "filter_id list \<times> tracked_filter list"
  | IxDistTags event "filter_id list \<times> tracked_filter list"
  | IxDistLoop event "tracked_filter list" "filter_id list" "(connection_id \<times> subscription_id) list"
      "(connection_id \<times> subscription_id) list"
  | IxDistMark event tracked_filter "tracked_filter list" "filter_id list" "(connection_id \<times> subscription_id) list"
      "(connection_id \<times> subscription_id) list"
  | IxDistGroup event "connection_id \<times> subscription_id" "tracked_filter list" "filter_id list"
      "(connection_id \<times> subscription_id) list" "(connection_id \<times> subscription_id) list"
  | IxDistSeen event "connection_id \<times> subscription_id" nat "tracked_filter list" "filter_id list"
      "(connection_id \<times> subscription_id) list" "(connection_id \<times> subscription_id) list"
  | IxDistPush event "connection_id \<times> subscription_id" nat "tracked_filter list" "filter_id list"
      "(connection_id \<times> subscription_id) list" "(connection_id \<times> subscription_id) list"
  | IxDistDone event "(connection_id \<times> subscription_id) list"
  | IxDone

abbreviation ix_update :: "(subscription_index \<Rightarrow> subscription_index) \<Rightarrow> index_shared \<Rightarrow> index_shared" where
  "ix_update f s \<equiv> s\<lparr>xs_ix := f (xs_ix s)\<rparr>"

definition file_pc :: "connection_id \<times> subscription_id \<Rightarrow> nat \<Rightarrow> tracked_filter \<Rightarrow> filter list \<Rightarrow> index_pc" where
  "file_pc key g tf fs = (if tf_indexed_field tf = Some AuthorField
     then IxAddAuthors key g tf (case f_authors (tf_filter tf) of None \<Rightarrow> [] | Some as \<Rightarrow> as) 1001 fs
     else IxAddIndex key g tf fs)"

definition drop_pc :: "connection_id \<times> subscription_id \<Rightarrow> tracked_filter \<Rightarrow> filter_id list \<Rightarrow> index_pc" where
  "drop_pc key tf ids = (if tf_indexed_field tf = Some AuthorField
     then IxRemAuthors key tf (case f_authors (tf_filter tf) of None \<Rightarrow> [] | Some as \<Rightarrow> as) 1001 ids
     else IxRemIndex key tf ids)"

definition add_pc_step :: "nostr_lib \<Rightarrow> index_pc \<Rightarrow> index_shared \<Rightarrow> index_pc \<times> index_shared" where
  "add_pc_step L pc s = (case pc of
     IxAddStart key fs \<Rightarrow> (case hm_get (xs_groups s) key of
       Some g \<Rightarrow> (IxAddFilter key g fs, s)
     | None \<Rightarrow> (IxAddFilter key (xs_next_group s) fs,
         s\<lparr>xs_groups := hm_insert key (xs_next_group s) (xs_groups s),
           xs_group_objects := hm_insert (xs_next_group s) (filter_group_new (fst key) (snd key)) (xs_group_objects s),
           xs_next_group := xs_next_group s + 1\<rparr>))
   | IxAddFilter key g fs \<Rightarrow> (case fs of
       [] \<Rightarrow> (IxDone, s)
     | f # rest \<Rightarrow>
         let fid = si_next_filter_id (xs_ix s);
             tf = tracked_filter_new f key (choose_index_field f) fid
         in (IxAddAll key g tf rest, ix_update (\<lambda>ix. ix\<lparr>si_next_filter_id := fetch_add_u64 fid,
              si_filter_last_seen := (si_filter_last_seen ix)(fid := None)\<rparr>) s))
   | IxAddAll key g tf fs \<Rightarrow> (IxAddGroup key g tf fs,
       ix_update (\<lambda>ix. ix\<lparr>si_all_filters := hm_insert (tf_id tf) tf (si_all_filters ix)\<rparr>) s)
   | IxAddGroup key g tf fs \<Rightarrow> (file_pc key g tf fs, (case hm_get (xs_group_objects s) g of
         None \<Rightarrow> s
       | Some grp \<Rightarrow> s\<lparr>xs_group_objects := hm_insert g (group_insert_id (tf_id tf) grp) (xs_group_objects s)\<rparr>))
   | IxAddIndex key g tf fs \<Rightarrow> (IxAddFilter key g fs, ix_update (add_filter_to_indexes L tf) s)
   | IxAddAuthors key g tf as n fs \<Rightarrow>
       (if drop n as = [] then IxAddFilter key g fs else IxAddAuthors key g tf (drop n as) 1000 fs,
        ix_update (\<lambda>ix. ix\<lparr>si_authors := bucket_push_all (take n as) tf (si_authors ix)\<rparr>) s)
   | _ \<Rightarrow> (pc, s))"

definition rem_pc_step :: "nostr_lib \<Rightarrow> index_pc \<Rightarrow> index_shared \<Rightarrow> index_pc \<times> index_shared" where
  "rem_pc_step L pc s = (case pc of
     IxRemStart key \<Rightarrow> (case hm_get (xs_groups s) key of
       None \<Rightarrow> (IxDone, s)
     | Some g \<Rightarrow> (IxRemIds key g, s\<lparr>xs_groups := hm_remove key (xs_groups s)\<rparr>))
   | IxRemIds key g \<Rightarrow> (case hm_get (xs_group_objects s) g of
       None \<Rightarrow> (IxDone, s)
     | Some grp \<Rightarrow> (IxRemFilter key (fg_filter_ids grp), s))
   | IxRemFilter key ids \<Rightarrow> (case ids of
       [] \<Rightarrow> (IxDone, s)
     | fid # rest \<Rightarrow> (case hm_get (si_all_filters (xs_ix s)) fid of
         None \<Rightarrow> (IxRemFilter key rest, s)
       | Some tf \<Rightarrow> (drop_pc key tf rest,
           ix_update (\<lambda>ix. ix\<lparr>si_all_filters := hm_remove fid (si_all_filters ix)\<rparr>) s)))
   | IxRemIndex key tf ids \<Rightarrow> (IxRemFilter key ids, ix_update (remove_filter_from_indexes L tf) s)
   | IxRemAuthors key tf as n ids \<Rightarrow>
       (if drop n as = [] then IxRemFilter key ids else IxRemAuthors key tf (drop n as) 1000 ids,
        ix_update (\<lambda>ix. ix\<lparr>si_authors := bucket_drop_all (take n as) (tf_id tf) (si_authors ix)\<rparr>) s)
   | _ \<Rightarrow> (pc, s))"

text \<open>The candidates are read one index after the other; then the loop takes them one by one.\<close>

definition candidates_pc_step :: "nostr_lib \<Rightarrow> index_pc \<Rightarrow> index_shared \<Rightarrow> index_pc \<times> index_shared" where
  "candidates_pc_step L pc s = (case pc of
     IxDistStart e \<Rightarrow> (IxDistIds e (collect_filters (si_match_all (xs_ix s)) ([], [])), s)
   | IxDistIds e acc \<Rightarrow> (IxDistAuthors e (collect_filters (bucket_get (si_event_ids (xs_ix s)) (ev_id e)) acc), s)
   | IxDistAuthors e acc \<Rightarrow> (IxDistKinds e (collect_filters (bucket_get (si_authors (xs_ix s)) (ev_pubkey e)) acc), s)
   | IxDistKinds e acc \<Rightarrow> (IxDistTags e (collect_filters (bucket_get (si_kinds (xs_ix s)) (ev_kind e)) acc), s)
   | IxDistTags e acc \<Rightarrow> (IxDistLoop e
       (snd (collect_filters (concat (map (tag_candidates L (si_tags (xs_ix s))) (ev_tags e))) acc)) [] [] [], s)
   | _ \<Rightarrow> (pc, s))"

definition loop_pc_step :: "nostr_lib \<Rightarrow> index_pc \<Rightarrow> index_shared \<Rightarrow> index_pc \<times> index_shared" where
  "loop_pc_step L pc s = (case pc of
     IxDistLoop e fs cf cg acc \<Rightarrow> (case fs of
       [] \<Rightarrow> (IxDistDone e acc, s)
     | f # rest \<Rightarrow>
         if tf_id f \<in> set cf then (IxDistLoop e rest cf cg acc, s)
         else if filter_has_seen (xs_ix s) f (ev_id e) \<or> \<not> match_event L (tf_filter f) e
           then (IxDistLoop e rest (tf_id f # cf) cg acc, s)
         else (IxDistMark e f rest (tf_id f # cf) cg acc, s))
   | IxDistMark e f fs cf cg acc \<Rightarrow>
       (if tf_parent f \<in> set cg then IxDistLoop e fs cf cg acc
        else IxDistGroup e (tf_parent f) fs cf (tf_parent f # cg) acc,
        ix_update (filter_mark_seen f (ev_id e)) s)
   | IxDistGroup e key fs cf cg acc \<Rightarrow> (case hm_get (xs_groups s) key of
       None \<Rightarrow> (IxDistLoop e fs cf cg acc, s)
     | Some g \<Rightarrow> (IxDistSeen e key g fs cf cg acc, s))
   | IxDistSeen e key g fs cf cg acc \<Rightarrow> (case hm_get (xs_group_objects s) g of
       None \<Rightarrow> (IxDistLoop e fs cf cg acc, s)
     | Some grp \<Rightarrow> if group_has_seen grp (ev_id e) then (IxDistLoop e fs cf cg acc, s)
         else (IxDistPush e key g fs cf cg acc, s))
   | IxDistPush e key g fs cf cg acc \<Rightarrow> (IxDistLoop e fs cf cg (acc @ [key]), (case hm_get (xs_group_objects s) g of
         None \<Rightarrow> s
       | Some grp \<Rightarrow> s\<lparr>xs_group_objects := hm_insert g (group_mark_seen (ev_id e) grp) (xs_group_objects s)\<rparr>))
   | _ \<Rightarrow> (pc, s))"

text \<open>One step of a task, whichever operation it is in.\<close>

definition index_pc_step :: "nostr_lib \<Rightarrow> index_pc \<Rightarrow> index_shared \<Rightarrow> index_pc \<times> index_shared" where
  "index_pc_step L pc s = (case pc of
     IxAddStart _ _ \<Rightarrow> add_pc_step L pc s | IxAddFilter _ _ _ \<Rightarrow> add_pc_step L pc s
   | IxAddAll _ _ _ _ \<Rightarrow> add_pc_step L pc s | IxAddGroup _ _ _ _ \<Rightarrow> add_pc_step L pc s
   | IxAddIndex _ _ _ _ \<Rightarrow> add_pc_step L pc s | IxAddAuthors _ _ _ _ _ _ \<Rightarrow> add_pc_step L pc s
   | IxRemStart _ \<Rightarrow> rem_pc_step L pc s | IxRemIds _ _ \<Rightarrow> rem_pc_step L pc s
   | IxRemFilter _ _ \<Rightarrow> rem_pc_step L pc s | IxRemIndex _ _ _ \<Rightarrow> rem_pc_step L pc s
   | IxRemAuthors _ _ _ _ _ \<Rightarrow> rem_pc_step L pc s
   | IxDistStart _ \<Rightarrow> candidates_pc_step L pc s | IxDistIds _ _ \<Rightarrow> candidates_pc_step L pc s
   | IxDistAuthors _ _ \<Rightarrow> candidates_pc_step L pc s | IxDistKinds _ _ \<Rightarrow> candidates_pc_step L pc s
   | IxDistTags _ _ \<Rightarrow> candidates_pc_step L pc s
   | _ \<Rightarrow> loop_pc_step L pc s)"

lemmas index_pc_step_defs = index_pc_step_def add_pc_step_def rem_pc_step_def candidates_pc_step_def loop_pc_step_def

section \<open>Tasks\<close>

datatype index_call =
    IndexAdd "connection_id \<times> subscription_id" "filter list"
  | IndexRemove "connection_id \<times> subscription_id"
  | IndexDistribute event

primrec call_pc :: "index_call \<Rightarrow> index_pc" where
  "call_pc (IndexAdd key fs) = IxAddStart key fs"
| "call_pc (IndexRemove key) = IxRemStart key"
| "call_pc (IndexDistribute e) = IxDistStart e"

record index_threads =
  it_shared :: index_shared
  it_tasks :: "index_pc list"

definition index_threads_init :: index_threads where
  "index_threads_init = \<lparr>it_shared = index_shared_new, it_tasks = []\<rparr>"

definition index_spawn :: "index_call \<Rightarrow> index_threads \<Rightarrow> index_threads" where
  "index_spawn c t = t\<lparr>it_tasks := it_tasks t @ [call_pc c]\<rparr>"

definition index_run_task :: "nostr_lib \<Rightarrow> nat \<Rightarrow> index_threads \<Rightarrow> index_threads" where
  "index_run_task L i t = (let (pc, s) = index_pc_step L (it_tasks t ! i) (it_shared t)
     in \<lparr>it_shared = s, it_tasks = (it_tasks t)[i := pc]\<rparr>)"

inductive index_step :: "nostr_lib \<Rightarrow> index_threads \<Rightarrow> index_threads \<Rightarrow> bool" for L where
  spawned: "index_step L t (index_spawn c t)"
| run: "i < length (it_tasks t) \<Longrightarrow> index_step L t (index_run_task L i t)"

end
