(* ===== verification/Index_Threads_Invariant.thy ===== *)
theory Index_Threads_Invariant
  imports Index_Threads
begin

text \<open>
  What holds in every state of the interleaved index: each filter id stands for one filter, a task works on filters of its own
  subscription, and a group lists ids of its own subscription. It gives the frame: a step of a task that works on
  another subscription leaves what the index holds of this one alone.
\<close>

section \<open>Places\<close>

datatype place = AnyPlace | IdPlace event_id | AuthorPlace pubkey | KindPlace kind | TagPlace "string \<times> string"

fun at_place :: "subscription_index \<Rightarrow> place \<Rightarrow> tracked_filter list" where
  "at_place ix AnyPlace = si_match_all ix"
| "at_place ix (IdPlace k) = bucket_get (si_event_ids ix) k"
| "at_place ix (AuthorPlace k) = bucket_get (si_authors ix) k"
| "at_place ix (KindPlace k) = bucket_get (si_kinds ix) k"
| "at_place ix (TagPlace k) = tag_get (si_tags ix) k"

definition places :: "nostr_lib \<Rightarrow> tracked_filter \<Rightarrow> place set" where
  "places L tf = (if tf_indexed_field tf = None then {AnyPlace} else {}) \<union> IdPlace ` set (id_keys tf) \<union>
     AuthorPlace ` set (author_keys tf) \<union> KindPlace ` set (kind_keys tf) \<union> TagPlace ` tag_keys L tf"

lemma in_places [simp]:
  "AnyPlace \<in> places L tf \<longleftrightarrow> tf_indexed_field tf = None"
  "IdPlace i \<in> places L tf \<longleftrightarrow> i \<in> set (id_keys tf)"
  "AuthorPlace a \<in> places L tf \<longleftrightarrow> a \<in> set (author_keys tf)"
  "KindPlace k \<in> places L tf \<longleftrightarrow> k \<in> set (kind_keys tf)"
  "TagPlace x \<in> places L tf \<longleftrightarrow> x \<in> tag_keys L tf"
  by (auto simp: places_def)

lemma at_place_add:
  "set (at_place (add_filter_to_indexes L tf ix) p) = set (at_place ix p) \<union> (if p \<in> places L tf then {tf} else {})"
  by (cases p) (auto simp: bucket_push_all_get tag_keys_def tag_push_all_get split: option.split)

lemma at_place_remove:
  "at_place (remove_filter_from_indexes L tf ix) p =
     (if p \<in> places L tf then List.filter (\<lambda>f. tf_id f \<noteq> tf_id tf) (at_place ix p) else at_place ix p)"
  by (cases p) (auto simp: bucket_drop_all_get tag_keys_def tag_drop_all_get split: option.split)

lemma at_place_authors:
  "set (at_place (ix\<lparr>si_authors := bucket_push_all as tf (si_authors ix)\<rparr>) p) =
     set (at_place ix p) \<union> (if p \<in> AuthorPlace ` set as then {tf} else {})"
  "at_place (ix\<lparr>si_authors := bucket_drop_all as fid (si_authors ix)\<rparr>) p =
     (if p \<in> AuthorPlace ` set as then List.filter (\<lambda>f. tf_id f \<noteq> fid) (at_place ix p) else at_place ix p)"
  by (cases p; auto simp: bucket_push_all_get bucket_drop_all_get)+

lemma at_place_other [simp]:
  "at_place (ix\<lparr>si_all_filters := a\<rparr>) p = at_place ix p"
  "at_place (ix\<lparr>si_next_filter_id := n\<rparr>) p = at_place ix p"
  "at_place (ix\<lparr>si_filter_last_seen := ls\<rparr>) p = at_place ix p"
  "at_place (filter_mark_seen f eid ix) p = at_place ix p"
  by (cases p; simp add: filter_mark_seen_def)+

section \<open>The invariant\<close>

definition tracked :: "index_shared \<Rightarrow> tracked_filter set" where
  "tracked s = {tf. \<exists>p. tf \<in> set (at_place (xs_ix s) p)} \<union> ran (hm_get (si_all_filters (xs_ix s)))"

text \<open>The filters a task has in hand, the subscription it works on with its group, the ids it will remove.\<close>

fun pc_tracked :: "index_pc \<Rightarrow> tracked_filter set" where
  "pc_tracked (IxAddAll key g tf fs) = {tf}"
| "pc_tracked (IxAddGroup key g tf fs) = {tf}"
| "pc_tracked (IxAddIndex key g tf fs) = {tf}"
| "pc_tracked (IxAddAuthors key g tf as n fs) = {tf}"
| "pc_tracked (IxRemIndex key tf ids) = {tf}"
| "pc_tracked (IxRemAuthors key tf as n ids) = {tf}"
| "pc_tracked (IxDistIds e acc) = set (snd acc)"
| "pc_tracked (IxDistAuthors e acc) = set (snd acc)"
| "pc_tracked (IxDistKinds e acc) = set (snd acc)"
| "pc_tracked (IxDistTags e acc) = set (snd acc)"
| "pc_tracked (IxDistLoop e fs cf cg acc) = set fs"
| "pc_tracked (IxDistMark e f fs cf cg acc) = insert f (set fs)"
| "pc_tracked (IxDistGroup e key fs cf cg acc) = set fs"
| "pc_tracked (IxDistSeen e key g fs cf cg acc) = set fs"
| "pc_tracked (IxDistPush e key g fs cf cg acc) = set fs"
| "pc_tracked pc = {}"

fun pc_key :: "index_pc \<Rightarrow> sub_key option" where
  "pc_key (IxAddStart key fs) = Some key"
| "pc_key (IxAddFilter key g fs) = Some key"
| "pc_key (IxAddAll key g tf fs) = Some key"
| "pc_key (IxAddGroup key g tf fs) = Some key"
| "pc_key (IxAddIndex key g tf fs) = Some key"
| "pc_key (IxAddAuthors key g tf as n fs) = Some key"
| "pc_key (IxRemStart key) = Some key"
| "pc_key (IxRemIds key g) = Some key"
| "pc_key (IxRemFilter key ids) = Some key"
| "pc_key (IxRemIndex key tf ids) = Some key"
| "pc_key (IxRemAuthors key tf as n ids) = Some key"
| "pc_key pc = None"

fun pc_group :: "index_pc \<Rightarrow> nat option" where
  "pc_group (IxAddFilter key g fs) = Some g"
| "pc_group (IxAddAll key g tf fs) = Some g"
| "pc_group (IxAddGroup key g tf fs) = Some g"
| "pc_group (IxAddIndex key g tf fs) = Some g"
| "pc_group (IxAddAuthors key g tf as n fs) = Some g"
| "pc_group (IxRemIds key g) = Some g"
| "pc_group pc = None"

fun pc_ids :: "index_pc \<Rightarrow> filter_id list" where
  "pc_ids (IxRemFilter key ids) = ids"
| "pc_ids (IxRemIndex key tf ids) = ids"
| "pc_ids (IxRemAuthors key tf as n ids) = ids"
| "pc_ids pc = []"

fun pc_filters :: "index_pc \<Rightarrow> filter list" where
  "pc_filters (IxAddStart key fs) = fs"
| "pc_filters (IxAddFilter key g fs) = fs"
| "pc_filters (IxAddAll key g tf fs) = fs"
| "pc_filters (IxAddGroup key g tf fs) = fs"
| "pc_filters (IxAddIndex key g tf fs) = fs"
| "pc_filters (IxAddAuthors key g tf as n fs) = fs"
| "pc_filters pc = []"

text \<open>\<open>own\<close> says which filter an id stands for; \<open>n\<close> is the next id.\<close>

definition owned :: "(filter_id \<Rightarrow> tracked_filter) \<Rightarrow> nat \<Rightarrow> tracked_filter \<Rightarrow> bool" where
  "owned own n tf \<longleftrightarrow> own (tf_id tf) = tf \<and> tf_id tf < n \<and> tracked_wf (tf_id tf) tf"

definition group_key :: "filter_group \<Rightarrow> sub_key" where
  "group_key grp = (fg_connection_id grp, fg_subscription_id grp)"

definition group_ids_ok :: "(filter_id \<Rightarrow> tracked_filter) \<Rightarrow> nat \<Rightarrow> sub_key \<Rightarrow> filter_id list \<Rightarrow> bool" where
  "group_ids_ok own n key ids \<longleftrightarrow> (\<forall>fid \<in> set ids. fid < n \<and> tf_parent (own fid) = key)"

definition shared_inv :: "(filter_id \<Rightarrow> tracked_filter) \<Rightarrow> index_shared \<Rightarrow> bool" where
  "shared_inv own s \<longleftrightarrow>
     (\<forall>tf \<in> tracked s. owned own (si_next_filter_id (xs_ix s)) tf) \<and>
     (\<forall>fid tf. hm_get (si_all_filters (xs_ix s)) fid = Some tf \<longrightarrow> tf_id tf = fid) \<and>
     (\<forall>g grp. hm_get (xs_group_objects s) g = Some grp \<longrightarrow> g < xs_next_group s \<and>
        group_ids_ok own (si_next_filter_id (xs_ix s)) (group_key grp) (fg_filter_ids grp)) \<and>
     (\<forall>key g. hm_get (xs_groups s) key = Some g \<longrightarrow> (\<exists>grp. hm_get (xs_group_objects s) g = Some grp \<and> group_key grp = key))"

definition pc_inv :: "(filter_id \<Rightarrow> tracked_filter) \<Rightarrow> index_shared \<Rightarrow> index_pc \<Rightarrow> bool" where
  "pc_inv own s pc \<longleftrightarrow>
     (\<forall>tf \<in> pc_tracked pc. owned own (si_next_filter_id (xs_ix s)) tf) \<and>
     (\<forall>key. pc_key pc = Some key \<longrightarrow> (\<forall>tf \<in> pc_tracked pc. tf_parent tf = key) \<and>
        group_ids_ok own (si_next_filter_id (xs_ix s)) key (pc_ids pc) \<and>
        (\<forall>g. pc_group pc = Some g \<longrightarrow> (\<exists>grp. hm_get (xs_group_objects s) g = Some grp \<and> group_key grp = key))) \<and>
     list_all filter_wf (pc_filters pc)"

definition threads_inv :: "(filter_id \<Rightarrow> tracked_filter) \<Rightarrow> index_threads \<Rightarrow> bool" where
  "threads_inv own t \<longleftrightarrow> shared_inv own (it_shared t) \<and> (\<forall>pc \<in> set (it_tasks t). pc_inv own (it_shared t) pc)"

text \<open>Room for one more id, and calls with filters as they are parsed.\<close>

definition ids_left :: "index_threads \<Rightarrow> bool" where
  "ids_left t \<longleftrightarrow> si_next_filter_id (xs_ix (it_shared t)) + 1 < 2 ^ 64"

lemma owned_unique: "owned own n tf \<Longrightarrow> owned own n tf' \<Longrightarrow> tf_id tf = tf_id tf' \<Longrightarrow> tf = tf'"
  unfolding owned_def by metis

lemma group_key_simps [simp]:
  "group_key (group_insert_id fid grp) = group_key grp" "group_key (group_mark_seen eid grp) = group_key grp"
  "group_key (filter_group_new c s) = (c, s)" "fg_filter_ids (filter_group_new c s) = []"
  "fg_filter_ids (group_mark_seen eid grp) = fg_filter_ids grp"
  "set (fg_filter_ids (group_insert_id fid grp)) = insert fid (set (fg_filter_ids grp))"
  by (simp_all add: group_key_def group_insert_id_def group_mark_seen_def filter_group_new_def)

section \<open>Steps keep it\<close>

definition groups_kept :: "index_shared \<Rightarrow> index_shared \<Rightarrow> bool" where
  "groups_kept s s' \<longleftrightarrow> (\<forall>g grp. hm_get (xs_group_objects s) g = Some grp \<longrightarrow>
     (\<exists>grp'. hm_get (xs_group_objects s') g = Some grp' \<and> group_key grp' = group_key grp))"

lemma owned_mono: "owned own n tf \<Longrightarrow> \<forall>i < n. own' i = own i \<Longrightarrow> n \<le> n' \<Longrightarrow> owned own' n' tf"
  by (auto simp: owned_def)

lemma group_ids_mono:
  "group_ids_ok own n key ids \<Longrightarrow> \<forall>i < n. own' i = own i \<Longrightarrow> n \<le> n' \<Longrightarrow> group_ids_ok own' n' key ids"
  by (fastforce simp: group_ids_ok_def)

lemma pc_inv_mono:
  assumes "pc_inv own s pc" "\<forall>i < si_next_filter_id (xs_ix s). own' i = own i"
    "si_next_filter_id (xs_ix s) \<le> si_next_filter_id (xs_ix s')" "groups_kept s s'"
  shows "pc_inv own' s' pc"
  using assms owned_mono [OF _ assms(2,3)] group_ids_mono [OF _ assms(2,3)]
  unfolding pc_inv_def groups_kept_def by metis

lemma collect_subset: "set (snd (collect_filters fs acc)) \<subseteq> set (snd acc) \<union> set fs"
  by (induction fs acc rule: collect_filters.induct) auto

lemma fresh_group: "shared_inv own s \<Longrightarrow> hm_get (xs_group_objects s) (xs_next_group s) = None"
  unfolding shared_inv_def by (metis less_irrefl option.exhaust)

lemma step_groups_kept: "index_pc_step L pc s = (pc', s') \<Longrightarrow> shared_inv own s \<Longrightarrow> groups_kept s s'"
  using fresh_group [of own s]
  by (cases pc) (auto simp: index_pc_step_defs groups_kept_def hm_simps Let_def
      split: option.splits list.splits if_splits)

definition allocates :: "index_pc \<Rightarrow> bool" where
  "allocates pc \<longleftrightarrow> (case pc of IxAddFilter key g fs \<Rightarrow> fs \<noteq> [] | _ \<Rightarrow> False)"

lemma tag_candidates_at: "tf \<in> set (tag_candidates L (si_tags ix) tg) \<Longrightarrow> \<exists>p. tf \<in> set (at_place ix p)"
  by (auto simp: set_tag_candidates intro: exI [of _ "TagPlace _"])

lemma tracked_at: "tf \<in> set (at_place (xs_ix s) p) \<Longrightarrow> tf \<in> tracked s"
  by (auto simp: tracked_def)

lemma step_tracked:
  assumes "index_pc_step L pc s = (pc', s')" "\<not> allocates pc"
  shows "tracked s' \<subseteq> tracked s \<union> pc_tracked pc" "pc_tracked pc' \<subseteq> tracked s \<union> pc_tracked pc"
    "si_next_filter_id (xs_ix s') = si_next_filter_id (xs_ix s)"
proof -
  have ran_insert: "ran (hm_get (hm_insert fid tf m)) \<subseteq> insert tf (ran (hm_get m))"
    and ran_remove: "ran (hm_get (hm_remove fid m)) \<subseteq> ran (hm_get m)" for fid tf and m :: "(filter_id, tracked_filter) hmap"
    by (auto simp: ran_def hm_simps split: if_splits)
  show "si_next_filter_id (xs_ix s') = si_next_filter_id (xs_ix s)"
    using assms by (cases pc) (auto simp: index_pc_step_defs Let_def filter_mark_seen_def allocates_def
        split: option.splits list.splits if_splits)
  show "tracked s' \<subseteq> tracked s \<union> pc_tracked pc"
  proof (cases pc)
    case (IxAddIndex key g tf fs)
    then show ?thesis
      using assms by (auto simp: index_pc_step_defs tracked_def at_place_add split: if_splits)
  next
    case (IxAddAuthors key g tf as n fs)
    then show ?thesis
      using assms by (auto simp: index_pc_step_defs tracked_def at_place_authors split: if_splits)
  next
    case (IxRemIndex key tf ids)
    then show ?thesis
      using assms by (auto simp: index_pc_step_defs tracked_def at_place_remove split: if_splits)
  next
    case (IxRemAuthors key tf as n ids)
    then show ?thesis
      using assms by (auto simp: index_pc_step_defs tracked_def at_place_authors split: if_splits)
  qed (use assms ran_insert ran_remove in \<open>auto simp: index_pc_step_defs tracked_def Let_def filter_mark_seen_def allocates_def
      split: option.splits list.splits if_splits dest!: subsetD [OF ran_insert] subsetD [OF ran_remove]\<close>)
  show "pc_tracked pc' \<subseteq> tracked s \<union> pc_tracked pc"
  proof (cases pc)
    case (IxDistStart e)
    then show ?thesis
      using assms collect_subset [of "si_match_all (xs_ix s)" "([], [])"] tracked_at [of _ s AnyPlace]
      by (auto simp: index_pc_step_defs)
  next
    case (IxDistIds e acc)
    then show ?thesis
      using assms collect_subset [of "bucket_get (si_event_ids (xs_ix s)) (ev_id e)" acc] tracked_at [of _ s "IdPlace (ev_id e)"]
      by (auto simp: index_pc_step_defs)
  next
    case (IxDistAuthors e acc)
    then show ?thesis
      using assms collect_subset [of "bucket_get (si_authors (xs_ix s)) (ev_pubkey e)" acc] tracked_at [of _ s "AuthorPlace (ev_pubkey e)"]
      by (auto simp: index_pc_step_defs)
  next
    case (IxDistKinds e acc)
    then show ?thesis
      using assms collect_subset [of "bucket_get (si_kinds (xs_ix s)) (ev_kind e)" acc] tracked_at [of _ s "KindPlace (ev_kind e)"]
      by (auto simp: index_pc_step_defs)
  next
    case (IxDistTags e acc)
    then show ?thesis
      using assms collect_subset [of "concat (map (tag_candidates L (si_tags (xs_ix s))) (ev_tags e))" acc]
        tag_candidates_at [of _ L "xs_ix s"]
      by (auto simp: index_pc_step_defs tracked_def)
  next
    case (IxRemFilter key ids)
    then show ?thesis
      using assms by (auto simp: index_pc_step_defs tracked_def drop_pc_def intro: ranI split: list.splits option.splits if_splits)
  qed (use assms in \<open>auto simp: index_pc_step_defs file_pc_def Let_def allocates_def split: option.splits list.splits if_splits\<close>)
qed

lemma step_shared_inv:
  assumes inv: "shared_inv own s" and pc: "pc_inv own s pc" and step: "index_pc_step L pc s = (pc', s')" and "\<not> allocates pc"
  shows "shared_inv own s'"
proof -
  note tr = step_tracked [OF step assms(4)]
  let ?n = "si_next_filter_id (xs_ix s)"
  have own: "\<forall>tf \<in> tracked s \<union> pc_tracked pc. owned own ?n tf"
    using inv pc by (auto simp: shared_inv_def pc_inv_def)
  have objects: "hm_get (xs_group_objects s) g = Some grp \<Longrightarrow> g < xs_next_group s \<and> group_ids_ok own ?n (group_key grp) (fg_filter_ids grp)"
    and ids: "hm_get (si_all_filters (xs_ix s)) fid = Some tf \<Longrightarrow> tf_id tf = fid" for g grp fid tf
    using inv by (auto simp: shared_inv_def)
  have ids': "tf_id tf = fid" if "hm_get (si_all_filters (xs_ix s')) fid = Some tf" for fid tf
    using that step ids by (cases pc) (auto simp: index_pc_step_defs Let_def filter_mark_seen_def hm_simps add_filter_to_indexes_fields(6)
        split: option.splits list.splits if_splits)
  have objects': "g < xs_next_group s' \<and> group_ids_ok own ?n (group_key grp) (fg_filter_ids grp)"
    if "hm_get (xs_group_objects s') g = Some grp" for g grp
  proof (cases pc)
    case (IxAddStart key fs)
    then show ?thesis
      using that step objects [of g grp] by (cases key) (auto simp: index_pc_step_defs hm_simps group_ids_ok_def split: option.splits if_splits)
  next
    case (IxAddGroup key h tf fs)
    then have tf: "tf_id tf < ?n" "own (tf_id tf) = tf" "tf_parent tf = key"
      and h: "\<exists>grp. hm_get (xs_group_objects s) h = Some grp \<and> group_key grp = key"
      using own pc by (auto simp: owned_def pc_inv_def)
    then show ?thesis
      using IxAddGroup that step objects [of g grp] objects [of h]
      by (auto simp: index_pc_step_defs hm_simps group_ids_ok_def split: option.splits if_splits)
  next
    case (IxDistPush e key h fs cf cg acc)
    then show ?thesis
      using that step objects [of g grp] objects [of h]
      by (auto simp: index_pc_step_defs hm_simps split: option.splits if_splits)
  qed (use that step objects [of g grp] in \<open>auto simp: index_pc_step_defs Let_def split: option.splits list.splits if_splits\<close>)
  have groups': "\<exists>grp. hm_get (xs_group_objects s') g = Some grp \<and> group_key grp = key"
    if "hm_get (xs_groups s') key = Some g" for key g
  proof -
    have "hm_get (xs_groups s) key = Some g \<or> (\<exists>fs. pc = IxAddStart key fs \<and> hm_get (xs_groups s) key = None \<and> g = xs_next_group s)"
      using that step by (cases pc) (auto simp: index_pc_step_defs Let_def hm_simps split: option.splits list.splits if_splits)
    then show ?thesis
    proof
      assume "hm_get (xs_groups s) key = Some g"
      then have "\<exists>grp. hm_get (xs_group_objects s) g = Some grp \<and> group_key grp = key"
        using inv by (simp add: shared_inv_def)
      then show ?thesis
        using step_groups_kept [OF step inv] unfolding groups_kept_def by metis
    next
      assume "\<exists>fs. pc = IxAddStart key fs \<and> hm_get (xs_groups s) key = None \<and> g = xs_next_group s"
      then show ?thesis
        using step by (cases key) (auto simp: index_pc_step_defs hm_simps)
    qed
  qed
  show ?thesis
    unfolding shared_inv_def tr(3) using tr(1) own ids' objects' groups' by blast
qed

lemma step_pc_inv:
  assumes inv: "shared_inv own s" and pc: "pc_inv own s pc" and step: "index_pc_step L pc s = (pc', s')" and "\<not> allocates pc"
  shows "pc_inv own s' pc'"
proof -
  note tr = step_tracked [OF step assms(4)]
  let ?n = "si_next_filter_id (xs_ix s)"
  have own: "\<forall>tf \<in> pc_tracked pc'. owned own ?n tf"
    using tr(2) inv pc by (auto simp: shared_inv_def pc_inv_def)
  have fs: "list_all filter_wf (pc_filters pc')"
    using pc step by (cases pc) (auto simp: pc_inv_def index_pc_step_defs file_pc_def drop_pc_def Let_def
        split: option.splits list.splits if_splits)
  have same_key: "pc_key pc' = Some key \<Longrightarrow> pc_key pc = Some key" for key
    using step by (cases pc) (auto simp: index_pc_step_defs file_pc_def drop_pc_def Let_def
        split: option.splits list.splits if_splits)
  have parent: "\<forall>tf \<in> pc_tracked pc'. tf_parent tf = key" and ids: "group_ids_ok own ?n key (pc_ids pc')"
    if "pc_key pc' = Some key" for key
  proof -
    have key: "\<forall>tf \<in> pc_tracked pc. tf_parent tf = key" "group_ids_ok own ?n key (pc_ids pc)"
      "\<And>g. pc_group pc = Some g \<Longrightarrow> \<exists>grp. hm_get (xs_group_objects s) g = Some grp \<and> group_key grp = key"
      using pc same_key [OF that] by (auto simp: pc_inv_def)
    have removed: "tf_parent tf = key" if "hm_get (si_all_filters (xs_ix s)) fid = Some tf" "fid \<in> set (pc_ids pc)" for fid tf
    proof -
      have "tf \<in> tracked s" "tf_id tf = fid"
        using that inv by (auto simp: tracked_def shared_inv_def intro: ranI)
      then have "own fid = tf"
        using inv by (auto simp: shared_inv_def owned_def)
      then show ?thesis
        using key(2) that(2) by (auto simp: group_ids_ok_def)
    qed
    show "\<forall>tf \<in> pc_tracked pc'. tf_parent tf = key"
      using that key(1) removed step by (cases pc) (auto simp: index_pc_step_defs file_pc_def drop_pc_def Let_def tracked_filter_new_def
          split: option.splits list.splits if_splits)
    show "group_ids_ok own ?n key (pc_ids pc')"
    proof (cases pc)
      case (IxRemIds key' g)
      then have "pc' = IxDone \<or> (\<exists>grp. hm_get (xs_group_objects s) g = Some grp \<and> pc' = IxRemFilter key' (fg_filter_ids grp))"
        using step by (auto simp: index_pc_step_defs split: option.splits)
      then show ?thesis
        using inv key(3) [of g] IxRemIds that by (auto simp: shared_inv_def)
    qed (use that key(2) step in \<open>auto simp: index_pc_step_defs file_pc_def drop_pc_def Let_def group_ids_ok_def
          split: option.splits list.splits if_splits\<close>)
  qed
  have group: "\<exists>grp. hm_get (xs_group_objects s') g = Some grp \<and> group_key grp = key"
    if key: "pc_key pc' = Some key" and g: "pc_group pc' = Some g" for key g
  proof -
    have "hm_get (xs_groups s') key = Some g \<or> pc_group pc = Some g \<or> hm_get (xs_groups s) key = Some g"
      using key g step by (cases pc) (auto simp: index_pc_step_defs file_pc_def drop_pc_def Let_def hm_simps
          split: option.splits list.splits if_splits)
    then have "hm_get (xs_groups s') key = Some g \<or> (\<exists>grp. hm_get (xs_group_objects s) g = Some grp \<and> group_key grp = key)"
      using inv pc same_key [OF key] by (auto simp: shared_inv_def pc_inv_def)
    then show ?thesis
      using step_shared_inv [OF inv pc step assms(4)] step_groups_kept [OF step inv]
      unfolding shared_inv_def groups_kept_def by metis
  qed
  show ?thesis
    unfolding pc_inv_def tr(3) using own fs parent ids group by blast
qed

text \<open>A new filter gets an id that stands for nothing yet.\<close>

lemma alloc_inv:
  assumes inv: "shared_inv own s" and pc: "pc_inv own s pc" and step: "index_pc_step L pc s = (pc', s')"
    and alloc: "allocates pc" and room: "si_next_filter_id (xs_ix s) + 1 < 2 ^ 64"
  obtains tf where "tf_id tf = si_next_filter_id (xs_ix s)" "shared_inv (own(tf_id tf := tf)) s'"
    "pc_inv (own(tf_id tf := tf)) s' pc'" "si_next_filter_id (xs_ix s') = si_next_filter_id (xs_ix s) + 1" "groups_kept s s'"
proof -
  obtain key g f fs where pc_eq: "pc = IxAddFilter key g (f # fs)"
    using alloc by (auto simp: allocates_def split: index_pc.splits list.splits) (metis list.exhaust)
  let ?n = "si_next_filter_id (xs_ix s)"
  define tf where "tf = tracked_filter_new f key (choose_index_field f) ?n"
  let ?own = "own(?n := tf)"
  have tf: "tf_id tf = ?n" "tf_parent tf = key" "tracked_wf ?n tf"
    using pc by (simp_all add: tf_def tracked_filter_new_def tracked_wf_def pc_inv_def pc_eq)
  have next': "si_next_filter_id (xs_ix s') = ?n + 1" and pc': "pc' = IxAddAll key g tf fs"
    and same: "tracked s' = tracked s" "si_all_filters (xs_ix s') = si_all_filters (xs_ix s)" "xs_groups s' = xs_groups s"
      "xs_group_objects s' = xs_group_objects s" "xs_next_group s' = xs_next_group s"
    using step room by (auto simp: pc_eq index_pc_step_defs fetch_add_u64_def Let_def tf_def tracked_def)
  have agree: "\<forall>i < ?n. ?own i = own i" "?n \<le> ?n + 1"
    by auto
  have "shared_inv ?own s'"
    using inv owned_mono [OF _ agree] group_ids_mono [OF _ agree] unfolding shared_inv_def next' same by blast
  moreover have "pc_inv ?own s' pc'"
    using pc tf by (auto simp: pc_inv_def pc' pc_eq owned_def next' same group_ids_ok_def)
  moreover have "groups_kept s s'"
    by (simp add: groups_kept_def same)
  ultimately show ?thesis
    using that [of tf] tf(1) next' by simp
qed

lemma run_task_inv:
  assumes inv: "threads_inv own t" and i: "i < length (it_tasks t)" and room: "ids_left t"
  shows "\<exists>own'. threads_inv own' (index_run_task L i t) \<and> (\<forall>j < si_next_filter_id (xs_ix (it_shared t)). own' j = own j)"
proof -
  let ?s = "it_shared t" and ?pc = "it_tasks t ! i"
  obtain pc' s' where step: "index_pc_step L ?pc ?s = (pc', s')"
    by (cases "index_pc_step L ?pc ?s")
  have t': "index_run_task L i t = \<lparr>it_shared = s', it_tasks = (it_tasks t)[i := pc']\<rparr>"
    by (simp add: index_run_task_def step)
  have s: "shared_inv own ?s" and pc: "pc_inv own ?s ?pc" and others: "\<forall>pc \<in> set (it_tasks t). pc_inv own ?s pc"
    using inv i by (auto simp: threads_inv_def)
  obtain own' where own': "shared_inv own' s'" "pc_inv own' s' pc'" "\<forall>j < si_next_filter_id (xs_ix ?s). own' j = own j"
    "si_next_filter_id (xs_ix ?s) \<le> si_next_filter_id (xs_ix s')" "groups_kept ?s s'"
  proof (cases "allocates ?pc")
    case True
    obtain tf where "tf_id tf = si_next_filter_id (xs_ix ?s)" "shared_inv (own(tf_id tf := tf)) s'"
      "pc_inv (own(tf_id tf := tf)) s' pc'" "si_next_filter_id (xs_ix s') = si_next_filter_id (xs_ix ?s) + 1" "groups_kept ?s s'"
      using room by (blast intro: alloc_inv [OF s pc step True, unfolded ids_left_def [symmetric]])
    then show ?thesis
      using that [of "own(tf_id tf := tf)"] by auto
  next
    case False
    then show ?thesis
      using that [of own] step_shared_inv [OF s pc step] step_pc_inv [OF s pc step] step_tracked(3) [OF step]
        step_groups_kept [OF step s] by simp
  qed
  have "\<forall>pc \<in> set ((it_tasks t)[i := pc']). pc_inv own' s' pc"
    using own'(2) others pc_inv_mono [OF _ own'(3,4,5)] set_update_subset_insert [of "it_tasks t" i pc'] by blast
  then show ?thesis
    using own'(1,3) unfolding t' threads_inv_def by auto
qed

definition call_ok :: "index_call \<Rightarrow> bool" where
  "call_ok c \<longleftrightarrow> (case c of IndexAdd key fs \<Rightarrow> list_all filter_wf fs | _ \<Rightarrow> True)"

lemma spawn_inv: "threads_inv own t \<Longrightarrow> call_ok c \<Longrightarrow> threads_inv own (index_spawn c t)"
  by (cases c) (auto simp: threads_inv_def index_spawn_def pc_inv_def call_ok_def group_ids_ok_def)

lemma init_inv: "threads_inv own index_threads_init"
proof -
  have "at_place si_new p = []" for p
    by (cases p) (simp_all add: si_new_def bucket_get_def tag_get_def)
  then show ?thesis
    by (simp add: threads_inv_def index_threads_init_def index_shared_new_def shared_inv_def tracked_def) (simp add: si_new_def)
qed

section \<open>The frame\<close>

text \<open>What the index holds of a subscription.\<close>

definition entries :: "sub_key \<Rightarrow> index_shared \<Rightarrow> (tracked_filter \<times> place) set" where
  "entries key s = {(tf, p). tf_parent tf = key \<and> tf \<in> set (at_place (xs_ix s) p)}"

definition all_of :: "sub_key \<Rightarrow> index_shared \<Rightarrow> tracked_filter set" where
  "all_of key s = {tf. tf_parent tf = key \<and> hm_get (si_all_filters (xs_ix s)) (tf_id tf) = Some tf}"

definition ids_of :: "sub_key \<Rightarrow> index_shared \<Rightarrow> filter_id set option" where
  "ids_of key s = map_option (\<lambda>g. case hm_get (xs_group_objects s) g of None \<Rightarrow> {} | Some grp \<Rightarrow> set (fg_filter_ids grp))
     (hm_get (xs_groups s) key)"


lemma all_filters_own:
  assumes "shared_inv own s" "hm_get (si_all_filters (xs_ix s)) fid = Some f"
  shows "tf_id f = fid" "own fid = f" "owned own (si_next_filter_id (xs_ix s)) f"
proof -
  have "f \<in> tracked s"
    using assms(2) by (auto simp: tracked_def intro: ranI)
  then show "owned own (si_next_filter_id (xs_ix s)) f"
    using assms(1) by (simp add: shared_inv_def)
  moreover show "tf_id f = fid"
    using assms by (simp add: shared_inv_def)
  ultimately show "own fid = f"
    by (simp add: owned_def)
qed

lemma frame_entries:
  assumes inv: "shared_inv own s" and pc: "pc_inv own s pc" and step: "index_pc_step L pc s = (pc', s')" and key: "pc_key pc \<noteq> Some key"
  shows "entries key s' = entries key s"
proof -
  have other: "tf_id f \<noteq> tf_id tf" if "tf_parent f = key" "f \<in> set (at_place (xs_ix s) p)" "tf \<in> pc_tracked pc" "tf_parent tf \<noteq> key" for f tf p
  proof -
    have "f \<in> tracked s"
      using that(2) by (rule tracked_at)
    then have "owned own (si_next_filter_id (xs_ix s)) f" "owned own (si_next_filter_id (xs_ix s)) tf"
      using inv pc that(3) by (auto simp: shared_inv_def pc_inv_def)
    then show ?thesis
      using that(1,4) owned_unique by blast
  qed
  show ?thesis
  proof (cases pc)
    case (IxAddIndex key' g tf fs)
    then have "tf_parent tf \<noteq> key"
      using pc key by (auto simp: pc_inv_def)
    then show ?thesis
      using step IxAddIndex by (auto simp: entries_def index_pc_step_defs at_place_add split: if_splits)
  next
    case (IxAddAuthors key' g tf as n fs)
    then have "tf_parent tf \<noteq> key"
      using pc key by (auto simp: pc_inv_def)
    then show ?thesis
      using step IxAddAuthors by (auto simp: entries_def index_pc_step_defs at_place_authors split: if_splits)
  next
    case (IxRemIndex key' tf ids)
    then have "tf_parent tf \<noteq> key"
      using pc key by (auto simp: pc_inv_def)
    then show ?thesis
      using step IxRemIndex other [of _ _ tf] by (auto simp: entries_def index_pc_step_defs at_place_remove split: if_splits)
  next
    case (IxRemAuthors key' tf as n ids)
    then have "tf_parent tf \<noteq> key"
      using pc key by (auto simp: pc_inv_def)
    then show ?thesis
      using step IxRemAuthors other [of _ _ tf] by (auto simp: entries_def index_pc_step_defs at_place_authors split: if_splits)
  qed (use step in \<open>auto simp: entries_def index_pc_step_defs Let_def split: option.splits list.splits if_splits\<close>)
qed

lemma frame_all:
  assumes inv: "shared_inv own s" and pc: "pc_inv own s pc" and step: "index_pc_step L pc s = (pc', s')" and key: "pc_key pc \<noteq> Some key"
  shows "all_of key s' = all_of key s"
proof (cases pc)
  case (IxAddAll key' g tf fs)
  then have tf: "tf_parent tf \<noteq> key" "own (tf_id tf) = tf"
    using pc key by (auto simp: pc_inv_def owned_def)
  have "tf_parent f \<noteq> key" if "hm_get (si_all_filters (xs_ix s)) (tf_id tf) = Some f" for f
    using all_filters_own(2) [OF inv that] tf by simp
  then have "(hm_get (hm_insert (tf_id tf) tf (si_all_filters (xs_ix s))) (tf_id x) = Some x) =
      (hm_get (si_all_filters (xs_ix s)) (tf_id x) = Some x)" if "tf_parent x = key" for x
    using tf(1) that by (cases "tf_id x = tf_id tf") (auto simp: hm_simps)
  moreover have "si_all_filters (xs_ix s') = hm_insert (tf_id tf) tf (si_all_filters (xs_ix s))"
    using step IxAddAll by (auto simp: index_pc_step_defs)
  ultimately show ?thesis
    by (auto simp: all_of_def)
next
  case (IxRemFilter key' ids)
  have other: "tf_parent f \<noteq> key" if "hm_get (si_all_filters (xs_ix s)) fid = Some f" "fid \<in> set ids" for fid f
    using all_filters_own(2) [OF inv that(1)] pc key that(2) by (auto simp: IxRemFilter pc_inv_def group_ids_ok_def)
  then have "\<forall>fid \<in> set ids. \<forall>f. hm_get (si_all_filters (xs_ix s)) fid = Some f \<longrightarrow> tf_parent f \<noteq> key"
    by blast
  then show ?thesis
    using step IxRemFilter
    by (auto simp: all_of_def index_pc_step_defs hm_simps split: list.splits option.splits if_splits)
qed (use step in \<open>auto simp: all_of_def index_pc_step_defs Let_def filter_mark_seen_def split: option.splits list.splits if_splits\<close>)

lemma frame_groups:
  assumes inv: "shared_inv own s" and pc: "pc_inv own s pc" and step: "index_pc_step L pc s = (pc', s')" and key: "pc_key pc \<noteq> Some key"
  shows "hm_get (xs_groups s') key = hm_get (xs_groups s) key"
    and "hm_get (xs_group_objects s) g = Some grp \<Longrightarrow> group_key grp = key \<Longrightarrow>
      \<exists>grp'. hm_get (xs_group_objects s') g = Some grp' \<and> set (fg_filter_ids grp') = set (fg_filter_ids grp)"
proof -
  show "hm_get (xs_groups s') key = hm_get (xs_groups s) key"
    using step key by (cases pc) (auto simp: index_pc_step_defs Let_def hm_simps split: option.splits list.splits if_splits)
  assume g: "hm_get (xs_group_objects s) g = Some grp" "group_key grp = key"
  show "\<exists>grp'. hm_get (xs_group_objects s') g = Some grp' \<and> set (fg_filter_ids grp') = set (fg_filter_ids grp)"
  proof (cases pc)
    case (IxAddStart key' fs)
    then show ?thesis
      using step g fresh_group [OF inv] by (auto simp: index_pc_step_defs hm_simps split: option.splits)
  next
    case (IxAddGroup key' h tf fs)
    then have "h \<noteq> g"
      using pc key g by (auto simp: pc_inv_def)
    then show ?thesis
      using step g IxAddGroup by (auto simp: index_pc_step_defs hm_simps split: option.splits)
  qed (use step g in \<open>auto simp: index_pc_step_defs Let_def hm_simps split: option.splits list.splits if_splits\<close>)
qed

lemma frame_ids:
  assumes inv: "shared_inv own s" and pc: "pc_inv own s pc" and step: "index_pc_step L pc s = (pc', s')" and key: "pc_key pc \<noteq> Some key"
  shows "ids_of key s' = ids_of key s"
proof (cases "hm_get (xs_groups s) key")
  case (Some g)
  then obtain grp where "hm_get (xs_group_objects s) g = Some grp" "group_key grp = key"
    using inv unfolding shared_inv_def by metis
  then obtain grp' where "hm_get (xs_group_objects s') g = Some grp'" "hm_get (xs_group_objects s) g = Some grp"
    "set (fg_filter_ids grp') = set (fg_filter_ids grp)"
    using frame_groups(2) [OF assms] by blast
  then show ?thesis
    using frame_groups(1) [OF assms] Some by (simp add: ids_of_def)
qed (use frame_groups(1) [OF assms] in \<open>simp add: ids_of_def\<close>)

end
