(* ===== verification/Index_Threads_Properties.thy ===== *)
theory Index_Threads_Properties
  imports Index_Threads_Invariant Subscription_Index_Properties
begin

text \<open>
  What the interleaved index promises a subscription: as long as no two operations on it overlap, it is filed under exactly the keys of
  its filters whenever none is under way, and a distribution reaches it exactly when one of its filters matches, whatever additions,
  removals and distributions of other events run in between.
\<close>

section \<open>A subscription between operations\<close>

definition full :: "nostr_lib \<Rightarrow> tracked_filter set \<Rightarrow> (tracked_filter \<times> place) set" where
  "full L F = {(tf, p). tf \<in> F \<and> p \<in> places L tf}"

definition settled :: "nostr_lib \<Rightarrow> sub_key \<Rightarrow> index_shared \<Rightarrow> bool" where
  "settled L key s \<longleftrightarrow> entries key s = full L (all_of key s) \<and>
     ids_of key s = (if hm_get (xs_groups s) key = None then None else Some (tf_id ` all_of key s)) \<and>
     (hm_get (xs_groups s) key = None \<longrightarrow> all_of key s = {})"

text \<open>What holds of the subscription \<open>key\<close> before a task that works on it takes a step.\<close>

fun step_assertion :: "nostr_lib \<Rightarrow> sub_key \<Rightarrow> index_pc \<Rightarrow> index_shared \<Rightarrow> bool" where
  "step_assertion L key (IxAddFilter k g fs) s =
     (settled L key s \<and> hm_get (xs_groups s) key = Some g)"
| "step_assertion L key (IxAddAll k g tf fs) s =
     (settled L key s \<and> hm_get (xs_groups s) key = Some g)"
| "step_assertion L key (IxAddGroup k g tf fs) s = (hm_get (xs_groups s) key = Some g \<and>
     (\<exists>B. all_of key s = insert tf B \<and> entries key s = full L B \<and> ids_of key s = Some (tf_id ` B)))"
| "step_assertion L key (IxAddIndex k g tf fs) s = (hm_get (xs_groups s) key = Some g \<and>
     (\<exists>B. all_of key s = insert tf B \<and> entries key s = full L B \<and> ids_of key s = Some (tf_id ` all_of key s)))"
| "step_assertion L key (IxAddAuthors k g tf as n fs) s = (hm_get (xs_groups s) key = Some g \<and>
     tf \<in> all_of key s \<and> ids_of key s = Some (tf_id ` all_of key s) \<and> AuthorPlace ` set as \<subseteq> places L tf \<and>
     entries key s \<subseteq> full L (all_of key s) \<and> full L (all_of key s) \<subseteq> entries key s \<union> {tf} \<times> AuthorPlace ` set as)"
| "step_assertion L key (IxRemIds k g) s = (hm_get (xs_groups s) key = None \<and> entries key s = full L (all_of key s) \<and>
     (\<forall>grp. hm_get (xs_group_objects s) g = Some grp \<longrightarrow> tf_id ` all_of key s \<subseteq> set (fg_filter_ids grp)))"
| "step_assertion L key (IxRemFilter k ids) s = (hm_get (xs_groups s) key = None \<and> entries key s = full L (all_of key s) \<and>
     tf_id ` all_of key s \<subseteq> set ids)"
| "step_assertion L key (IxRemIndex k tf ids) s = (hm_get (xs_groups s) key = None \<and> tf \<notin> all_of key s \<and>
     entries key s = full L (insert tf (all_of key s)) \<and> tf_id ` all_of key s \<subseteq> set ids)"
| "step_assertion L key (IxRemAuthors k tf as n ids) s = (hm_get (xs_groups s) key = None \<and> tf \<notin> all_of key s \<and>
     full L (all_of key s) \<subseteq> entries key s \<and> entries key s \<subseteq> full L (all_of key s) \<union> {tf} \<times> AuthorPlace ` set as \<and>
     tf_id ` all_of key s \<subseteq> set ids)"
| "step_assertion L key pc s = settled L key s"

text \<open>Steps of others keep it.\<close>

lemma frame_settled:
  assumes inv: "shared_inv own s" and pc: "pc_inv own s pc" and step: "index_pc_step L pc s = (pc', s')" and key: "pc_key pc \<noteq> Some key"
  shows "settled L key s' = settled L key s"
  by (simp add: settled_def frame_entries [OF assms] frame_all [OF assms] frame_groups(1) [OF assms] frame_ids [OF assms])

lemma frame_assertion:
  assumes inv: "shared_inv own s" and pc: "pc_inv own s pc" and step: "index_pc_step L pc s = (pc', s')" and key: "pc_key pc \<noteq> Some key"
    and q: "pc_inv own s q" "pc_key q = Some key"
  shows "step_assertion L key q s \<Longrightarrow> step_assertion L key q s'"
proof -
  note same = frame_entries [OF assms(1-4)] frame_all [OF assms(1-4)] frame_groups(1) [OF assms(1-4)] frame_ids [OF assms(1-4)]
  assume a: "step_assertion L key q s"
  show "step_assertion L key q s'"
  proof (cases q)
    case (IxRemIds k g)
    then obtain grp where g: "hm_get (xs_group_objects s) g = Some grp" "group_key grp = key"
      using q by (auto simp: pc_inv_def)
    then obtain grp' where "hm_get (xs_group_objects s') g = Some grp'" "set (fg_filter_ids grp') = set (fg_filter_ids grp)"
      using frame_groups(2) [OF assms(1-4)] by blast
    then show ?thesis
      using a g IxRemIds by (simp add: same)
  qed (use a in \<open>simp_all add: same frame_settled [OF assms(1-4)]\<close>)
qed

section \<open>Its own steps\<close>

text \<open>How one access changes what the index holds of a subscription.\<close>

lemma owned_entry:
  assumes "shared_inv own s" "(tf, p) \<in> entries key s"
  shows "owned own (si_next_filter_id (xs_ix s)) tf" "tf_parent tf = key"
  using assms tracked_at [of tf s p] by (auto simp: shared_inv_def entries_def)

lemma owned_all: "shared_inv own s \<Longrightarrow> tf \<in> all_of key s \<Longrightarrow> owned own (si_next_filter_id (xs_ix s)) tf \<and> tf_parent tf = key"
  unfolding all_of_def using all_filters_own(3) [of own s "tf_id tf" tf] by simp

lemma ix_update_fields [simp]:
  "ids_of key (s\<lparr>xs_ix := ix\<rparr>) = ids_of key s"
  by (simp_all add: ids_of_def)

lemma entries_add:
  "tf_parent tf = key \<Longrightarrow> entries key (ix_update (add_filter_to_indexes L tf) s) = entries key s \<union> full L {tf}"
  by (auto simp: entries_def full_def at_place_add split: if_splits)

lemma entries_authors:
  "tf_parent tf = key \<Longrightarrow> entries key (ix_update (\<lambda>ix. ix\<lparr>si_authors := bucket_push_all as tf (si_authors ix)\<rparr>) s) =
     entries key s \<union> {tf} \<times> AuthorPlace ` set as"
  by (auto simp: entries_def at_place_authors split: if_splits)

lemma entries_remove:
  assumes inv: "shared_inv own s" and tf: "owned own (si_next_filter_id (xs_ix s)) tf"
  shows "entries key (ix_update (remove_filter_from_indexes L tf) s) = entries key s - full L {tf}"
    and "entries key (ix_update (\<lambda>ix. ix\<lparr>si_authors := bucket_drop_all as (tf_id tf) (si_authors ix)\<rparr>) s) =
      entries key s - {tf} \<times> AuthorPlace ` set as"
proof -
  have "tf_id f = tf_id tf \<longleftrightarrow> f = tf" if "f \<in> set (at_place (xs_ix s) p)" for f p
    using inv tracked_at [OF that] owned_unique [OF _ tf] by (auto simp: shared_inv_def)
  then show "entries key (ix_update (remove_filter_from_indexes L tf) s) = entries key s - full L {tf}"
    "entries key (ix_update (\<lambda>ix. ix\<lparr>si_authors := bucket_drop_all as (tf_id tf) (si_authors ix)\<rparr>) s) =
      entries key s - {tf} \<times> AuthorPlace ` set as"
    by (auto simp: entries_def full_def at_place_remove at_place_authors)
qed

lemma same_all_of [simp]:
  "all_of key (s\<lparr>xs_ix := add_filter_to_indexes L tf (xs_ix s)\<rparr>) = all_of key s"
  "all_of key (s\<lparr>xs_ix := remove_filter_from_indexes L tf (xs_ix s)\<rparr>) = all_of key s"
  "all_of key (s\<lparr>xs_ix := xs_ix s\<lparr>si_authors := m\<rparr>\<rparr>) = all_of key s"
  "entries key (s\<lparr>xs_ix := xs_ix s\<lparr>si_all_filters := a\<rparr>\<rparr>) = entries key s"
  by (simp_all add: all_of_def entries_def)

lemma all_of_insert:
  assumes inv: "shared_inv own s" and tf: "owned own (si_next_filter_id (xs_ix s)) tf" "tf_parent tf = key"
  shows "all_of key (ix_update (\<lambda>ix. ix\<lparr>si_all_filters := hm_insert (tf_id tf) tf (si_all_filters ix)\<rparr>) s) = insert tf (all_of key s)"
proof -
  have "hm_get (si_all_filters (xs_ix s)) (tf_id tf) = Some f \<Longrightarrow> f = tf" for f
    using all_filters_own [OF inv] tf(1) by (metis owned_def)
  then show ?thesis
    using tf(2) by (auto simp: all_of_def hm_simps split: if_splits)
qed

lemma all_of_remove:
  "hm_get (si_all_filters (xs_ix s)) (tf_id tf) = Some tf \<Longrightarrow>
     all_of key (ix_update (\<lambda>ix. ix\<lparr>si_all_filters := hm_remove (tf_id tf) (si_all_filters ix)\<rparr>) s) = all_of key s - {tf}"
  by (auto simp: all_of_def hm_simps)

lemma full_simps: "full L (insert tf F) = full L {tf} \<union> full L F" "full L {} = {}"
  by (auto simp: full_def)

lemma own_author_places:
  assumes "tf_indexed_field tf = Some AuthorField"
  shows "(case f_authors (tf_filter tf) of None \<Rightarrow> [] | Some as \<Rightarrow> as) = author_keys tf"
    and "full L {tf} = {tf} \<times> AuthorPlace ` set (author_keys tf)"
  using assms by (auto simp: full_def places_def field_keys_defs tag_keys_def)

definition after_step :: "nostr_lib \<Rightarrow> sub_key \<Rightarrow> index_pc \<Rightarrow> index_shared \<Rightarrow> bool" where
  "after_step L key pc s \<longleftrightarrow> (if pc_key pc = Some key then step_assertion L key pc s else settled L key s)"

lemma after_done [simp]: "after_step L key IxDone s = settled L key s"
  by (simp add: after_step_def)

lemma own_add_step:
  assumes inv: "shared_inv own s" and pc: "pc_inv own s pc" and step: "add_pc_step L pc s = (pc', s')" and key: "pc_key pc = Some key"
    and a: "step_assertion L key pc s"
    and adds: "\<exists>g fs tf as n. pc \<in> {IxAddStart key fs, IxAddFilter key g fs, IxAddAll key g tf fs, IxAddGroup key g tf fs,
      IxAddIndex key g tf fs, IxAddAuthors key g tf as n fs}"
  shows "after_step L key pc' s'"
proof (cases pc)
  case (IxAddStart k fs)
  then have "k = key" "settled L key s"
    using key a by auto
  then show ?thesis
    using step IxAddStart
    by (cases key) (auto simp: add_pc_step_def after_step_def settled_def entries_def all_of_def ids_of_def hm_simps split: option.splits)
next
  case (IxAddFilter k g fs)
  then have "entries key s' = entries key s" "all_of key s' = all_of key s" "ids_of key s' = ids_of key s"
    "xs_groups s' = xs_groups s" "pc' = IxDone \<or> (\<exists>tf fs. pc' = IxAddAll key g tf fs)"
    using step key by (auto simp: add_pc_step_def Let_def entries_def all_of_def ids_of_def split: list.splits)
  then show ?thesis
    using a IxAddFilter by (auto simp: after_step_def settled_def)
next
  case (IxAddAll k g tf fs)
  then have tf: "owned own (si_next_filter_id (xs_ix s)) tf" "tf_parent tf = key"
    using pc key by (auto simp: pc_inv_def)
  have "s' = ix_update (\<lambda>ix. ix\<lparr>si_all_filters := hm_insert (tf_id tf) tf (si_all_filters ix)\<rparr>) s" "pc' = IxAddGroup key g tf fs"
    using step key IxAddAll by (auto simp: add_pc_step_def)
  then show ?thesis
    using a IxAddAll all_of_insert [OF inv tf] by (auto simp: after_step_def settled_def intro!: exI [of _ "all_of key s"])
next
  case (IxAddGroup k g tf fs)
  then have k: "k = key" and tf: "owned own (si_next_filter_id (xs_ix s)) tf"
    using key pc by (auto simp: pc_inv_def)
  obtain B where B: "all_of key s = insert tf B" "entries key s = full L B" "ids_of key s = Some (tf_id ` B)"
    "hm_get (xs_groups s) key = Some g"
    using a IxAddGroup by auto
  obtain grp where grp: "hm_get (xs_group_objects s) g = Some grp"
    using pc IxAddGroup key by (auto simp: pc_inv_def)
  have s': "s' = s\<lparr>xs_group_objects := hm_insert g (group_insert_id (tf_id tf) grp) (xs_group_objects s)\<rparr>" "pc' = file_pc key g tf fs"
    using step IxAddGroup grp k by (auto simp: add_pc_step_def)
  have same: "all_of key s' = insert tf B" "entries key s' = full L B" "ids_of key s' = Some (tf_id ` insert tf B)"
    "hm_get (xs_groups s') key = Some g"
    using B grp by (auto simp: s' all_of_def entries_def ids_of_def hm_simps)
  show ?thesis
  proof (cases "tf_indexed_field tf = Some AuthorField")
    case True
    then show ?thesis
      using same full_simps(1) [of L tf B] by (auto simp: after_step_def s'(2) file_pc_def own_author_places)
  next
    case False
    then show ?thesis
      using same by (auto simp: after_step_def s'(2) file_pc_def intro!: exI [of _ B])
  qed
next
  case (IxAddIndex k g tf fs)
  then have tf: "tf_parent tf = key" "k = key"
    using pc key by (auto simp: pc_inv_def)
  have s': "s' = ix_update (add_filter_to_indexes L tf) s" "pc' = IxAddFilter key g fs"
    using step key IxAddIndex by (auto simp: add_pc_step_def)
  obtain B where B: "all_of key s = insert tf B" "entries key s = full L B" "ids_of key s = Some (tf_id ` all_of key s)"
    "hm_get (xs_groups s) key = Some g"
    using a IxAddIndex by auto
  have "entries key s' = full L (all_of key s')"
    unfolding s'(1) entries_add [OF tf(1)] using B(1,2) full_simps(1) [of L tf B] by auto
  then show ?thesis
    using B by (simp add: after_step_def settled_def s')
next
  case (IxAddAuthors k g tf as n fs)
  then have tf: "tf_parent tf = key" "k = key"
    using pc key by (auto simp: pc_inv_def)
  have as: "set as = set (take n as) \<union> set (drop n as)"
    by (metis append_take_drop_id set_append)
  have s': "s' = ix_update (\<lambda>ix. ix\<lparr>si_authors := bucket_push_all (take n as) tf (si_authors ix)\<rparr>) s"
    "pc' = (if drop n as = [] then IxAddFilter key g fs else IxAddAuthors key g tf (drop n as) 1000 fs)"
    using step key IxAddAuthors by (auto simp: add_pc_step_def)
  have E: "entries key s' = entries key s \<union> {tf} \<times> AuthorPlace ` set (take n as)" "all_of key s' = all_of key s"
    "ids_of key s' = ids_of key s" "hm_get (xs_groups s') key = hm_get (xs_groups s) key"
    unfolding s'(1) by (rule entries_authors [OF tf(1)]) simp_all
  have before: "tf \<in> all_of key s" "AuthorPlace ` set as \<subseteq> places L tf" "entries key s \<subseteq> full L (all_of key s)"
    "full L (all_of key s) \<subseteq> entries key s \<union> {tf} \<times> AuthorPlace ` set as" "ids_of key s = Some (tf_id ` all_of key s)"
    "hm_get (xs_groups s) key = Some g"
    using a IxAddAuthors by auto
  have "{tf} \<times> AuthorPlace ` set (take n as) \<subseteq> full L (all_of key s)"
    using before(1,2) as by (auto simp: full_def)
  then have sub: "entries key s' \<subseteq> full L (all_of key s)"
    using before(3) unfolding E(1) by blast
  have sup: "full L (all_of key s) \<subseteq> entries key s' \<union> {tf} \<times> AuthorPlace ` set (drop n as)"
    using before(4) as unfolding E(1) by blast
  show ?thesis
  proof (cases "drop n as = []")
    case True
    then have "entries key s' = full L (all_of key s)"
      using sub sup by simp
    then show ?thesis
      using True before E by (simp add: after_step_def s'(2) settled_def)
  next
    case False
    have "AuthorPlace ` set (drop n as) \<subseteq> places L tf"
      using before(2) as by blast
    then show ?thesis
      using False before sub sup E by (simp add: after_step_def s'(2))
  qed
qed (use adds in auto)

lemma own_rem_step:
  assumes inv: "shared_inv own s" and pc: "pc_inv own s pc" and step: "rem_pc_step L pc s = (pc', s')" and key: "pc_key pc = Some key"
    and a: "step_assertion L key pc s"
    and rems: "\<exists>g tf as n ids. pc \<in> {IxRemStart key, IxRemIds key g, IxRemFilter key ids, IxRemIndex key tf ids, IxRemAuthors key tf as n ids}"
  shows "after_step L key pc' s'"
proof (cases pc)
  case (IxRemStart k)
  then have k: "k = key" and settled: "settled L key s"
    using key a by auto
  show ?thesis
  proof (cases "hm_get (xs_groups s) key")
    case None
    then show ?thesis
      using step IxRemStart k settled by (auto simp: rem_pc_step_def)
  next
    case (Some g)
    then have "pc' = IxRemIds key g" "s' = s\<lparr>xs_groups := hm_remove key (xs_groups s)\<rparr>"
      using step IxRemStart k by (auto simp: rem_pc_step_def)
    moreover have "all_of key (s\<lparr>xs_groups := gs\<rparr>) = all_of key s" "entries key (s\<lparr>xs_groups := gs\<rparr>) = entries key s" for gs
      by (simp_all add: all_of_def entries_def)
    ultimately show ?thesis
      using settled Some by (auto simp: after_step_def settled_def ids_of_def hm_simps)
  qed
next
  case (IxRemIds k g)
  then obtain grp where grp: "hm_get (xs_group_objects s) g = Some grp" and k: "k = key"
    using pc key by (auto simp: pc_inv_def)
  then show ?thesis
    using step IxRemIds a by (auto simp: rem_pc_step_def after_step_def)
next
  case (IxRemFilter k ids)
  then have k: "k = key" and none: "hm_get (xs_groups s) key = None" and E: "entries key s = full L (all_of key s)"
    and sub: "tf_id ` all_of key s \<subseteq> set ids"
    using key a by auto
  show ?thesis
  proof (cases ids)
    case Nil
    then show ?thesis
      using step IxRemFilter none E sub by (auto simp: rem_pc_step_def settled_def ids_of_def)
  next
    case (Cons fid rest)
    show ?thesis
    proof (cases "hm_get (si_all_filters (xs_ix s)) fid")
      case None
      then have "fid \<notin> tf_id ` all_of key s"
        by (auto simp: all_of_def)
      then have "tf_id ` all_of key s \<subseteq> set rest"
        using sub unfolding Cons set_simps by blast
      then show ?thesis
        using step IxRemFilter Cons None k none E by (auto simp: rem_pc_step_def after_step_def)
    next
      case (Some tf)
      note own = all_filters_own [OF inv Some]
      have tf: "tf \<in> all_of key s"
        using own Some pc Cons k by (auto simp: all_of_def pc_inv_def group_ids_ok_def IxRemFilter)
      have s': "s' = ix_update (\<lambda>ix. ix\<lparr>si_all_filters := hm_remove fid (si_all_filters ix)\<rparr>) s" "pc' = drop_pc key tf rest"
        using step IxRemFilter Cons Some k by (auto simp: rem_pc_step_def)
      have A: "all_of key s' = all_of key s - {tf}"
        unfolding s'(1) own(1) [symmetric] using Some own(1) by (intro all_of_remove) simp
      have E': "entries key s' = full L (all_of key s)" "hm_get (xs_groups s') key = None"
        using E none by (simp_all add: s')
      have "tf_id f \<noteq> fid" if "f \<in> all_of key s" "f \<noteq> tf" for f
        using that Some by (auto simp: all_of_def)
      then have rest: "tf_id ` (all_of key s - {tf}) \<subseteq> set rest"
        using sub Cons by auto
      have ins: "insert tf (all_of key s - {tf}) = all_of key s"
        using tf by auto
      have split: "full L (all_of key s) = full L {tf} \<union> full L (all_of key s - {tf})"
        using full_simps(1) [of L tf "all_of key s - {tf}"] ins by simp
      show ?thesis
      proof (cases "tf_indexed_field tf = Some AuthorField")
        case True
        then show ?thesis
          using A E' rest split by (auto simp: after_step_def s'(2) drop_pc_def own_author_places)
      next
        case False
        then show ?thesis
          using A E' rest ins by (auto simp: after_step_def s'(2) drop_pc_def)
      qed
    qed
  qed
next
  case (IxRemIndex k tf ids)
  then have k: "k = key" and tf: "owned own (si_next_filter_id (xs_ix s)) tf"
    using pc key by (auto simp: pc_inv_def)
  have s': "s' = ix_update (remove_filter_from_indexes L tf) s" "pc' = IxRemFilter key ids"
    using step key IxRemIndex by (auto simp: rem_pc_step_def)
  have before: "hm_get (xs_groups s) key = None" "tf \<notin> all_of key s" "entries key s = full L (insert tf (all_of key s))"
    "tf_id ` all_of key s \<subseteq> set ids"
    using a IxRemIndex by auto
  have "entries key s' = full L (all_of key s)"
    unfolding s'(1) entries_remove(1) [OF inv tf] before(3) using before(2) by (auto simp: full_def)
  then show ?thesis
    using before by (simp add: after_step_def s')
next
  case (IxRemAuthors k tf as n ids)
  then have k: "k = key" and tf: "owned own (si_next_filter_id (xs_ix s)) tf"
    using pc key by (auto simp: pc_inv_def)
  have as: "set as = set (take n as) \<union> set (drop n as)"
    by (metis append_take_drop_id set_append)
  have s': "s' = ix_update (\<lambda>ix. ix\<lparr>si_authors := bucket_drop_all (take n as) (tf_id tf) (si_authors ix)\<rparr>) s"
    "pc' = (if drop n as = [] then IxRemFilter key ids else IxRemAuthors key tf (drop n as) 1000 ids)"
    using step key IxRemAuthors by (auto simp: rem_pc_step_def)
  have before: "hm_get (xs_groups s) key = None" "tf \<notin> all_of key s" "full L (all_of key s) \<subseteq> entries key s"
    "entries key s \<subseteq> full L (all_of key s) \<union> {tf} \<times> AuthorPlace ` set as" "tf_id ` all_of key s \<subseteq> set ids"
    using a IxRemAuthors by auto
  have E: "entries key s' = entries key s - {tf} \<times> AuthorPlace ` set (take n as)" "all_of key s' = all_of key s"
    "hm_get (xs_groups s') key = hm_get (xs_groups s) key"
    unfolding s'(1) by (rule entries_remove(2) [OF inv tf]) simp_all
  have "full L (all_of key s) \<inter> ({tf} \<times> X) = {}" for X
    using before(2) by (auto simp: full_def)
  then have sub: "full L (all_of key s) \<subseteq> entries key s'"
    using before(3) unfolding E(1) by blast
  have sup: "entries key s' \<subseteq> full L (all_of key s) \<union> {tf} \<times> AuthorPlace ` set (drop n as)"
    using before(4) as unfolding E(1) by blast
  show ?thesis
  proof (cases "drop n as = []")
    case True
    then have "entries key s' = full L (all_of key s)"
      using sub sup by auto
    then show ?thesis
      using True before E by (simp add: after_step_def s'(2))
  next
    case False
    then show ?thesis
      using before sub sup E by (simp add: after_step_def s'(2))
  qed
qed (use rems in auto)

lemma own_step:
  assumes "shared_inv own s" "pc_inv own s pc" "index_pc_step L pc s = (pc', s')" "pc_key pc = Some key" "step_assertion L key pc s"
  shows "after_step L key pc' s'"
proof -
  have "add_pc_step L pc s = (pc', s') \<and> (\<exists>g fs tf as n. pc \<in> {IxAddStart key fs, IxAddFilter key g fs, IxAddAll key g tf fs,
        IxAddGroup key g tf fs, IxAddIndex key g tf fs, IxAddAuthors key g tf as n fs}) \<or>
      rem_pc_step L pc s = (pc', s') \<and> (\<exists>g tf as n ids. pc \<in> {IxRemStart key, IxRemIds key g, IxRemFilter key ids,
        IxRemIndex key tf ids, IxRemAuthors key tf as n ids})"
    using assms(3,4) by (cases pc) (simp_all add: index_pc_step_def)
  then show ?thesis
    using own_add_step [OF assms(1,2) _ assms(4,5)] own_rem_step [OF assms(1,2) _ assms(4,5)] by metis
qed

section \<open>Runs in which its operations do not overlap\<close>

definition index_calm :: "sub_key \<Rightarrow> index_threads \<Rightarrow> bool" where
  "index_calm key t \<longleftrightarrow> (\<forall>i < length (it_tasks t). \<forall>j < length (it_tasks t).
     pc_key (it_tasks t ! i) = Some key \<longrightarrow> pc_key (it_tasks t ! j) = Some key \<longrightarrow> i = j)"

text \<open>New calls come with filters as they are parsed, and there is room for one more id.\<close>

inductive index_ok_step :: "nostr_lib \<Rightarrow> index_threads \<Rightarrow> index_threads \<Rightarrow> bool" for L where
  spawned: "call_ok c \<Longrightarrow> index_ok_step L t (index_spawn c t)"
| run: "i < length (it_tasks t) \<Longrightarrow> ids_left t \<Longrightarrow> index_ok_step L t (index_run_task L i t)"

definition index_calm_step :: "nostr_lib \<Rightarrow> sub_key \<Rightarrow> index_threads \<Rightarrow> index_threads \<Rightarrow> bool" where
  "index_calm_step L key t t' \<longleftrightarrow> index_ok_step L t t' \<and> index_calm key t \<and> index_calm key t'"

definition sub_inv :: "nostr_lib \<Rightarrow> sub_key \<Rightarrow> index_threads \<Rightarrow> bool" where
  "sub_inv L key t \<longleftrightarrow> (\<exists>own. threads_inv own t) \<and>
     (\<forall>pc \<in> set (it_tasks t). pc_key pc = Some key \<longrightarrow> step_assertion L key pc (it_shared t)) \<and>
     ((\<forall>pc \<in> set (it_tasks t). pc_key pc \<noteq> Some key) \<longrightarrow> settled L key (it_shared t))"

text \<open>A task works on its subscription until it is done.\<close>

lemma step_key: "index_pc_step L pc s = (pc', s') \<Longrightarrow> pc_key pc' = Some key \<Longrightarrow> pc_key pc = Some key"
  by (cases pc) (auto simp: index_pc_step_defs file_pc_def drop_pc_def Let_def split: option.splits list.splits if_splits)

lemma sub_inv_run:
  assumes sub: "sub_inv L key t" and i: "i < length (it_tasks t)" and room: "ids_left t"
    and calm: "index_calm key t"
  shows "sub_inv L key (index_run_task L i t)"
proof -
  let ?s = "it_shared t" and ?pc = "it_tasks t ! i"
  obtain own where own: "threads_inv own t"
    using sub by (auto simp: sub_inv_def)
  obtain pc' s' where step: "index_pc_step L ?pc ?s = (pc', s')"
    by (cases "index_pc_step L ?pc ?s")
  have t': "index_run_task L i t = \<lparr>it_shared = s', it_tasks = (it_tasks t)[i := pc']\<rparr>"
    by (simp add: index_run_task_def step)
  have s: "shared_inv own ?s" and all: "\<forall>pc \<in> set (it_tasks t). pc_inv own ?s pc"
    using own by (auto simp: threads_inv_def)
  have pc: "pc_inv own ?s ?pc" and here: "?pc \<in> set (it_tasks t)"
    using all i by auto
  have new: "pc' \<in> set ((it_tasks t)[i := pc'])"
    using i by (rule set_update_memI)
  have cases': "q = pc' \<or> (\<exists>j < length (it_tasks t). j \<noteq> i \<and> q = it_tasks t ! j)" if "q \<in> set ((it_tasks t)[i := pc'])" for q
    using that unfolding in_set_conv_nth by (metis length_list_update nth_list_update_eq nth_list_update_neq)
  have inv': "\<exists>own'. threads_inv own' (index_run_task L i t)"
    using run_task_inv [OF own i room] by blast
  show ?thesis
  proof (cases "pc_key ?pc = Some key")
    case True
    have "after_step L key pc' s'"
      using own_step [OF s pc step True] sub here True by (auto simp: sub_inv_def)
    moreover have "pc_key (it_tasks t ! j) \<noteq> Some key" if "j < length (it_tasks t)" "j \<noteq> i" for j
      using calm that i True by (auto simp: index_calm_def)
    ultimately show ?thesis
      using inv' new cases' unfolding sub_inv_def t' by (auto simp: after_step_def split: if_splits)
  next
    case False
    then have not_new: "pc_key pc' \<noteq> Some key"
      using step_key [OF step] by blast
    have keep: "step_assertion L key q s'" if "q \<in> set (it_tasks t)" "pc_key q = Some key" for q
      using frame_assertion [OF s pc step False _ that(2)] all sub that by (auto simp: sub_inv_def)
    have same: "settled L key s' = settled L key ?s"
      by (rule frame_settled [OF s pc step False])
    have old: "q \<in> set ((it_tasks t)[i := pc'])" if "q \<in> set (it_tasks t)" "pc_key q = Some key" for q
      using that False i unfolding in_set_conv_nth by (metis length_list_update nth_list_update_neq)
    have "step_assertion L key q s'" if "q \<in> set ((it_tasks t)[i := pc'])" "pc_key q = Some key" for q
      using cases' [OF that(1)] that(2) not_new keep nth_mem by blast
    moreover have "settled L key s'" if "\<forall>q \<in> set ((it_tasks t)[i := pc']). pc_key q \<noteq> Some key"
    proof -
      have "\<forall>q \<in> set (it_tasks t). pc_key q \<noteq> Some key"
        using that old by blast
      then show ?thesis
        using sub same by (simp add: sub_inv_def)
    qed
    ultimately show ?thesis
      using inv' unfolding sub_inv_def t' by simp
  qed
qed

lemma sub_inv_spawn:
  assumes "sub_inv L key t" "call_ok c" "index_calm key (index_spawn c t)"
  shows "sub_inv L key (index_spawn c t)"
proof -
  have idle: "pc_key pc \<noteq> Some key" if "pc_key (call_pc c) = Some key" "pc \<in> set (it_tasks t)" for pc
  proof -
    obtain j where j: "j < length (it_tasks t)" "pc = it_tasks t ! j"
      using \<open>pc \<in> set (it_tasks t)\<close> by (auto simp: in_set_conv_nth)
    have "pc_key (it_tasks (index_spawn c t) ! j) = Some key \<Longrightarrow>
        pc_key (it_tasks (index_spawn c t) ! length (it_tasks t)) = Some key \<Longrightarrow> j = length (it_tasks t)"
      using assms(3) j(1) unfolding index_calm_def by (simp add: index_spawn_def)
    then show ?thesis
      using j that(1) by (auto simp: index_spawn_def nth_append)
  qed
  have "step_assertion L key (call_pc c) s = settled L key s" for s
    by (cases c) auto
  then show ?thesis
    using assms(1) spawn_inv [OF _ assms(2), of _ t] idle by (auto simp: sub_inv_def index_spawn_def)
qed

lemma calm_sub_inv:
  assumes "(index_calm_step L key)\<^sup>*\<^sup>* index_threads_init t"
  shows "sub_inv L key t"
  using assms
proof (induction rule: rtranclp_induct)
  case base
  have "at_place si_new p = []" for p
    by (cases p) (simp_all add: si_new_def bucket_get_def tag_get_def)
  then have "settled L key index_shared_new"
    by (simp add: settled_def entries_def all_of_def full_def ids_of_def index_shared_new_def) (simp add: si_new_def)
  then show ?case
    using init_inv [of undefined] by (auto simp: sub_inv_def index_threads_init_def)
next
  case (step t t')
  then show ?case
    by (auto simp: index_calm_step_def elim!: index_ok_step.cases intro: sub_inv_spawn sub_inv_run)
qed

end
