(* ===== verification/Index_Threads_Delivery.thy ===== *)
theory Index_Threads_Delivery
  imports Index_Threads_Properties
begin

text \<open>
  A distribution among other tasks. While no operation on a subscription is under way and nobody else distributes the same event, the
  distribution reaches the subscription exactly when one of its filters matches, whatever the other tasks do between its steps.
\<close>

section \<open>What is asked and what is promised\<close>

definition wanted_by :: "nostr_lib \<Rightarrow> sub_key \<Rightarrow> event \<Rightarrow> index_shared \<Rightarrow> bool" where
  "wanted_by L key e s \<longleftrightarrow> (\<exists>tf \<in> all_of key s. match_event L (tf_filter tf) e)"

text \<open>Neither the group nor a filter of the subscription saw this event last.\<close>

definition group_fresh :: "sub_key \<Rightarrow> event \<Rightarrow> index_shared \<Rightarrow> bool" where
  "group_fresh key e s \<longleftrightarrow> (\<forall>g grp. hm_get (xs_groups s) key = Some g \<longrightarrow> hm_get (xs_group_objects s) g = Some grp \<longrightarrow>
     \<not> group_has_seen grp (ev_id e))"

definition unseen :: "sub_key \<Rightarrow> event \<Rightarrow> index_shared \<Rightarrow> bool" where
  "unseen key e s \<longleftrightarrow> (\<forall>tf \<in> all_of key s. \<not> filter_has_seen (xs_ix s) tf (ev_id e)) \<and> group_fresh key e s"

fun pc_event :: "index_pc \<Rightarrow> event option" where
  "pc_event (IxDistStart e) = Some e"
| "pc_event (IxDistIds e acc) = Some e"
| "pc_event (IxDistAuthors e acc) = Some e"
| "pc_event (IxDistKinds e acc) = Some e"
| "pc_event (IxDistTags e acc) = Some e"
| "pc_event (IxDistLoop e fs cf cg acc) = Some e"
| "pc_event (IxDistMark e f fs cf cg acc) = Some e"
| "pc_event (IxDistGroup e k fs cf cg acc) = Some e"
| "pc_event (IxDistSeen e k g fs cf cg acc) = Some e"
| "pc_event (IxDistPush e k g fs cf cg acc) = Some e"
| "pc_event pc = None"

lemma step_group_fresh:
  assumes inv: "shared_inv own s" and pc: "pc_inv own s pc" and step: "index_pc_step L pc s = (pc', s')" and key: "pc_key pc \<noteq> Some key"
    and e: "\<And>e'. pc_event pc = Some e' \<Longrightarrow> ev_id e' \<noteq> ev_id e" and fresh: "group_fresh key e s"
  shows "group_fresh key e s'"
proof -
  have "\<not> group_has_seen grp (ev_id e)"
    if g: "hm_get (xs_groups s) key = Some g" "hm_get (xs_group_objects s') g = Some grp" for g grp
  proof -
    obtain grp0 where grp0: "hm_get (xs_group_objects s) g = Some grp0" "\<not> group_has_seen grp0 (ev_id e)"
      using inv fresh g(1) unfolding shared_inv_def group_fresh_def by blast
    then have "g < xs_next_group s"
      using inv by (simp add: shared_inv_def)
    then show ?thesis
      using g(2) grp0 step e by (cases pc) (auto simp: index_pc_step_defs Let_def hm_simps group_has_seen_def group_insert_id_def
          group_mark_seen_def split: option.splits list.splits if_splits)
  qed
  then show ?thesis
    by (simp add: group_fresh_def frame_groups(1) [OF inv pc step key])
qed

lemma step_unseen:
  assumes inv: "shared_inv own s" and pc: "pc_inv own s pc" and step: "index_pc_step L pc s = (pc', s')" and key: "pc_key pc \<noteq> Some key"
    and e: "\<And>e'. pc_event pc = Some e' \<Longrightarrow> ev_id e' \<noteq> ev_id e" and unseen: "unseen key e s"
  shows "unseen key e s'"
proof -
  have "\<not> filter_has_seen (xs_ix s') tf (ev_id e)" if "\<not> filter_has_seen (xs_ix s) tf (ev_id e)" for tf
    using that step e by (cases pc) (auto simp: index_pc_step_defs Let_def filter_has_seen_def filter_mark_seen_def
        split: option.splits list.splits if_splits)
  then show ?thesis
    using unseen step_group_fresh [OF assms(1-5)] by (auto simp: unseen_def frame_all [OF inv pc step key])
qed

section \<open>Candidates\<close>

definition event_tags :: "nostr_lib \<Rightarrow> event \<Rightarrow> (string \<times> string) set" where
  "event_tags L e = (\<Union>tg \<in> set (ev_tags e). \<Union>t \<in> set_option (slt_from_str L (tag_kind_as_str L (tag_kind tg))).
     Pair (slt_as_str L t) ` set (drop 1 (tag_slice tg)))"

definition event_places :: "nostr_lib \<Rightarrow> event \<Rightarrow> place set" where
  "event_places L e = {AnyPlace, IdPlace (ev_id e), AuthorPlace (ev_pubkey e), KindPlace (ev_kind e)} \<union> TagPlace ` event_tags L e"

text \<open>No filter that matches is filed elsewhere only.\<close>

lemma matching_place:
  assumes sound: "match_event_sound L" and wf: "tracked_wf fid tf" and m: "match_event L (tf_filter tf) e"
  shows "places L tf \<inter> event_places L e \<noteq> {}"
proof -
  have fwf: "filter_wf (tf_filter tf)" and fld_eq: "tf_indexed_field tf = choose_index_field (tf_filter tf)"
    using wf by (auto simp: tracked_wf_def)
  note fld = choose_index_field_cases [OF fwf, folded fld_eq]
  note hit = match_event_soundD [OF sound m]
  show ?thesis
  proof (cases "tf_indexed_field tf")
    case None
    then have "AnyPlace \<in> places L tf"
      by simp
    then show ?thesis
      by (auto simp: event_places_def)
  next
    case (Some fl)
    show ?thesis
    proof (cases fl)
      case EventIdField
      then have "IdPlace (ev_id e) \<in> places L tf"
        using Some fld(1) hit(1) by (auto simp: field_keys_defs)
      then show ?thesis
        by (auto simp: event_places_def)
    next
      case AuthorField
      then have "AuthorPlace (ev_pubkey e) \<in> places L tf"
        using Some fld(2) hit(2) by (auto simp: field_keys_defs)
      then show ?thesis
        by (auto simp: event_places_def)
    next
      case KindField
      then have "KindPlace (ev_kind e) \<in> places L tf"
        using Some fld(3) hit(3) by (auto simp: field_keys_defs)
      then show ?thesis
        by (auto simp: event_places_def)
    next
      case (TagField t)
      obtain vs where vs: "hm_get (f_generic_tags (tf_filter tf)) t = Some vs"
        "(t, vs) \<in> set (f_generic_tags (tf_filter tf))" "vs \<noteq> []"
        using fld(4) [of t] Some TagField by blast
      obtain tg v where tg: "tg \<in> set (ev_tags e)" "v \<in> set vs" "v \<in> set (drop 1 (tag_slice tg))"
        "slt_from_str L (tag_kind_as_str L (tag_kind tg)) = Some t"
        using hit(4) [OF vs(2,3)] by (auto simp: tag_has_value_def)
      have "TagPlace (slt_as_str L t, v) \<in> places L tf"
        using tg Some TagField vs by (simp add: tag_keys_def tag_arg_def tag_keys_of_def)
      moreover have "TagPlace (slt_as_str L t, v) \<in> event_places L e"
        using tg by (force simp: event_places_def event_tags_def)
      ultimately show ?thesis
        by blast
    qed
  qed
qed

text \<open>What a task has collected: of the subscription, the filters filed at the places read so far.\<close>

definition collected :: "nostr_lib \<Rightarrow> sub_key \<Rightarrow> place set \<Rightarrow> filter_id list \<times> tracked_filter list \<Rightarrow> index_shared \<Rightarrow> bool" where
  "collected L key P acc s \<longleftrightarrow> set (fst acc) = tf_id ` set (snd acc) \<and>
     {tf \<in> set (snd acc). tf_parent tf = key} = {tf \<in> all_of key s. places L tf \<inter> P \<noteq> {}}"

lemma collect_fst: "set (fst acc) = tf_id ` set (snd acc) \<Longrightarrow>
    set (fst (collect_filters fs acc)) = tf_id ` set (snd (collect_filters fs acc))"
  by (induction fs acc rule: collect_filters.induct) auto

lemma collect_all:
  assumes "set (fst acc) = tf_id ` set (snd acc)" "\<forall>tf \<in> set (snd acc) \<union> set fs. owned own n tf"
  shows "set (snd (collect_filters fs acc)) = set (snd acc) \<union> set fs"
proof -
  have ids: "tf_id ` set (snd (collect_filters fs acc)) = tf_id ` (set (snd acc) \<union> set fs)"
    and sub: "set (snd (collect_filters fs acc)) \<subseteq> set (snd acc) \<union> set fs"
    using collect_filters_set [of "fst acc" "snd acc" fs] assms(1) by simp_all
  have "inj_on tf_id (set (snd acc) \<union> set fs)"
    using assms(2) owned_unique by (blast intro: inj_onI)
  then show ?thesis
    using ids sub by (metis inj_on_image_eq_iff subset_refl)
qed

lemma collect_step:
  assumes inv: "shared_inv own s" and settled: "settled L key s" and acc: "collected L key P acc s"
    and cs: "\<forall>tf \<in> set (snd acc). owned own (si_next_filter_id (xs_ix s)) tf"
    and fs: "set fs = (\<Union>p \<in> Q. set (at_place (xs_ix s) p))"
  shows "collected L key (P \<union> Q) (collect_filters fs acc) s"
proof -
  have "owned own (si_next_filter_id (xs_ix s)) tf" if "tf \<in> set fs" for tf
    using that inv tracked_at [of tf s] unfolding fs shared_inv_def by blast
  then have all: "\<forall>tf \<in> set (snd acc) \<union> set fs. owned own (si_next_filter_id (xs_ix s)) tf"
    using cs by blast
  have ids: "set (fst acc) = tf_id ` set (snd acc)"
    and P: "{tf \<in> set (snd acc). tf_parent tf = key} = {tf \<in> all_of key s. places L tf \<inter> P \<noteq> {}}"
    using acc by (simp_all add: collected_def)
  have "(tf, p) \<in> entries key s \<longleftrightarrow> (tf, p) \<in> full L (all_of key s)" for tf p
    using settled by (simp add: settled_def)
  then have at: "tf_parent tf = key \<and> tf \<in> set (at_place (xs_ix s) p) \<longleftrightarrow> tf \<in> all_of key s \<and> p \<in> places L tf" for tf p
    by (simp add: entries_def full_def)
  have "tf_parent tf = key \<and> tf \<in> set fs \<longleftrightarrow> tf \<in> all_of key s \<and> places L tf \<inter> Q \<noteq> {}" for tf
    unfolding fs using at [of tf] by blast
  then have Q: "{tf \<in> set fs. tf_parent tf = key} = {tf \<in> all_of key s. places L tf \<inter> Q \<noteq> {}}"
    by blast
  have "{tf \<in> set (snd (collect_filters fs acc)). tf_parent tf = key} =
      {tf \<in> set (snd acc). tf_parent tf = key} \<union> {tf \<in> set fs. tf_parent tf = key}"
    unfolding collect_all [OF ids all] by blast
  also have "\<dots> = {tf \<in> all_of key s. places L tf \<inter> (P \<union> Q) \<noteq> {}}"
    unfolding P Q by blast
  finally show ?thesis
    using collect_fst [OF ids] by (simp add: collected_def)
qed

lemma tag_candidates_places:
  "set (concat (map (tag_candidates L (si_tags ix)) (ev_tags e))) = (\<Union>p \<in> TagPlace ` event_tags L e. set (at_place ix p))"
  by (auto simp: set_tag_candidates event_tags_def)

section \<open>The distribution\<close>

text \<open>Not reached yet: nothing is marked, and every filter that matches is still to come. Or reached.\<close>

definition pending :: "nostr_lib \<Rightarrow> sub_key \<Rightarrow> event \<Rightarrow> tracked_filter list \<Rightarrow> filter_id list \<Rightarrow> index_shared \<Rightarrow> bool" where
  "pending L key e fs cf s \<longleftrightarrow> unseen key e s \<and>
     (\<forall>tf \<in> all_of key s. match_event L (tf_filter tf) e \<longrightarrow> tf \<in> set fs \<and> tf_id tf \<notin> set cf)"

definition open_or_reached ::
  "nostr_lib \<Rightarrow> sub_key \<Rightarrow> event \<Rightarrow> tracked_filter list \<Rightarrow> filter_id list \<Rightarrow> sub_key list \<Rightarrow> sub_key list \<Rightarrow> index_shared \<Rightarrow> bool" where
  "open_or_reached L key e fs cf cg acc s \<longleftrightarrow> (if key \<in> set cg then key \<in> set acc \<and> wanted_by L key e s else pending L key e fs cf s)"

definition loop_ok :: "sub_key \<Rightarrow> tracked_filter list \<Rightarrow> sub_key list \<Rightarrow> sub_key list \<Rightarrow> index_shared \<Rightarrow> bool" where
  "loop_ok key fs cg acc s \<longleftrightarrow> distinct acc \<and> set acc \<subseteq> set cg \<and> (\<forall>tf \<in> set fs. tf_parent tf = key \<longrightarrow> tf \<in> all_of key s)"

definition chosen ::
  "nostr_lib \<Rightarrow> sub_key \<Rightarrow> event \<Rightarrow> sub_key \<Rightarrow> tracked_filter list \<Rightarrow> filter_id list \<Rightarrow> sub_key list \<Rightarrow> sub_key list \<Rightarrow> index_shared \<Rightarrow> bool" where
  "chosen L key e k fs cf cg acc s \<longleftrightarrow> loop_ok key fs cg acc s \<and> k \<in> set cg \<and> k \<notin> set acc \<and>
     (if k = key then wanted_by L key e s \<and> group_fresh key e s else open_or_reached L key e fs cf cg acc s)"

fun dist_assertion :: "nostr_lib \<Rightarrow> sub_key \<Rightarrow> event \<Rightarrow> index_pc \<Rightarrow> index_shared \<Rightarrow> bool" where
  "dist_assertion L key e (IxDistStart e') s = (e' = e \<and> unseen key e s)"
| "dist_assertion L key e (IxDistIds e' acc) s = (e' = e \<and> unseen key e s \<and> collected L key {AnyPlace} acc s)"
| "dist_assertion L key e (IxDistAuthors e' acc) s = (e' = e \<and> unseen key e s \<and>
     collected L key {AnyPlace, IdPlace (ev_id e)} acc s)"
| "dist_assertion L key e (IxDistKinds e' acc) s = (e' = e \<and> unseen key e s \<and>
     collected L key {AnyPlace, IdPlace (ev_id e), AuthorPlace (ev_pubkey e)} acc s)"
| "dist_assertion L key e (IxDistTags e' acc) s = (e' = e \<and> unseen key e s \<and>
     collected L key {AnyPlace, IdPlace (ev_id e), AuthorPlace (ev_pubkey e), KindPlace (ev_kind e)} acc s)"
| "dist_assertion L key e (IxDistLoop e' fs cf cg acc) s = (e' = e \<and> loop_ok key fs cg acc s \<and>
     open_or_reached L key e fs cf cg acc s)"
| "dist_assertion L key e (IxDistMark e' f fs cf cg acc) s = (e' = e \<and> loop_ok key (f # fs) cg acc s \<and>
     match_event L (tf_filter f) e \<and>
     (if tf_parent f = key \<and> key \<notin> set cg then unseen key e s else open_or_reached L key e fs cf cg acc s))"
| "dist_assertion L key e (IxDistGroup e' k fs cf cg acc) s = (e' = e \<and> chosen L key e k fs cf cg acc s)"
| "dist_assertion L key e (IxDistSeen e' k g fs cf cg acc) s = (e' = e \<and> chosen L key e k fs cf cg acc s \<and>
     (hm_get (xs_groups s) key = Some g) = (k = key))"
| "dist_assertion L key e (IxDistPush e' k g fs cf cg acc) s = (e' = e \<and> chosen L key e k fs cf cg acc s \<and>
     (hm_get (xs_groups s) key = Some g) = (k = key))"
| "dist_assertion L key e (IxDistDone e' acc) s = (e' = e \<and> distinct acc \<and> (key \<in> set acc \<longleftrightarrow> wanted_by L key e s))"
| "dist_assertion L key e pc s = False"

lemma same_all:
  assumes "all_of key s' = all_of key s"
  shows "wanted_by L key e s' = wanted_by L key e s" "collected L key P acc s' = collected L key P acc s"
    "loop_ok key fs cg out s' = loop_ok key fs cg out s"
  by (simp_all add: wanted_by_def collected_def loop_ok_def assms)

lemma open_or_reached_keep:
  assumes "all_of key s' = all_of key s" "unseen key e s \<Longrightarrow> unseen key e s'" "open_or_reached L key e fs cf cg out s"
  shows "open_or_reached L key e fs cf cg out s'"
  using assms(2,3) by (simp add: open_or_reached_def pending_def same_all [OF assms(1)] assms(1) split: if_splits)

lemma dist_assertion_keep:
  assumes all: "all_of key s' = all_of key s" and "hm_get (xs_groups s') key = hm_get (xs_groups s) key"
    and fresh: "unseen key e s \<Longrightarrow> unseen key e s'" "group_fresh key e s \<Longrightarrow> group_fresh key e s'"
    and "dist_assertion L key e pc s"
  shows "dist_assertion L key e pc s'"
proof -
  note same = same_all [OF all]
  have "open_or_reached L key e fs cf cg out s \<Longrightarrow> open_or_reached L key e fs cf cg out s'" for fs cf cg out
    by (rule open_or_reached_keep [OF all fresh(1)])
  moreover from this have "chosen L key e k fs cf cg out s \<Longrightarrow> chosen L key e k fs cf cg out s'" for k fs cf cg out
    using fresh(2) by (auto simp: chosen_def same split: if_splits)
  ultimately show ?thesis
    using assms(2,5) fresh by (cases pc) (auto simp: same split: if_splits)
qed

text \<open>A step of the distribution itself.\<close>

lemma dist_step_collect:
  assumes inv: "shared_inv own s" and pc: "pc_inv own s pc" and settled: "settled L key s" and sound: "match_event_sound L"
    and step: "candidates_pc_step L pc s = (pc', s')" and a: "dist_assertion L key e pc s"
    and collects: "\<exists>acc. pc \<in> {IxDistStart e, IxDistIds e acc, IxDistAuthors e acc, IxDistKinds e acc, IxDistTags e acc}"
  shows "dist_assertion L key e pc' s'"
proof -
  note collect = collect_step [OF inv settled]
  have cs: "\<forall>tf \<in> pc_tracked pc. owned own (si_next_filter_id (xs_ix s)) tf"
    using pc by (simp add: pc_inv_def)
  show ?thesis
  proof (cases pc)
    case (IxDistStart e')
    have "collected L key ({} \<union> {AnyPlace}) (collect_filters (si_match_all (xs_ix s)) ([], [])) s"
      by (rule collect) (auto simp: collected_def)
    then show ?thesis
      using a step IxDistStart by (auto simp: candidates_pc_step_def)
  next
    case (IxDistIds e' acc)
    have "collected L key ({AnyPlace} \<union> {IdPlace (ev_id e)}) (collect_filters (bucket_get (si_event_ids (xs_ix s)) (ev_id e)) acc) s"
      by (rule collect) (use a cs IxDistIds in auto)
    then show ?thesis
      using a step IxDistIds by (auto simp: candidates_pc_step_def insert_commute)
  next
    case (IxDistAuthors e' acc)
    have "collected L key ({AnyPlace, IdPlace (ev_id e)} \<union> {AuthorPlace (ev_pubkey e)})
        (collect_filters (bucket_get (si_authors (xs_ix s)) (ev_pubkey e)) acc) s"
      by (rule collect) (use a cs IxDistAuthors in auto)
    then show ?thesis
      using a step IxDistAuthors by (auto simp: candidates_pc_step_def insert_commute)
  next
    case (IxDistKinds e' acc)
    have "collected L key ({AnyPlace, IdPlace (ev_id e), AuthorPlace (ev_pubkey e)} \<union> {KindPlace (ev_kind e)})
        (collect_filters (bucket_get (si_kinds (xs_ix s)) (ev_kind e)) acc) s"
      by (rule collect) (use a cs IxDistKinds in auto)
    then show ?thesis
      using a step IxDistKinds by (auto simp: candidates_pc_step_def insert_commute)
  next
    case (IxDistTags e' acc)
    let ?acc' = "collect_filters (concat (map (tag_candidates L (si_tags (xs_ix s))) (ev_tags e))) acc"
    have "collected L key ({AnyPlace, IdPlace (ev_id e), AuthorPlace (ev_pubkey e), KindPlace (ev_kind e)} \<union>
        TagPlace ` event_tags L e) ?acc' s"
      by (rule collect [OF _ _ tag_candidates_places]) (use a cs IxDistTags in auto)
    then have c: "collected L key (event_places L e) ?acc' s"
      by (simp add: event_places_def)
    have "tf \<in> set (snd ?acc')" if "tf \<in> all_of key s" "match_event L (tf_filter tf) e" for tf
    proof -
      have "tracked_wf (tf_id tf) tf"
        using owned_all [OF inv that(1)] by (simp add: owned_def)
      then have "places L tf \<inter> event_places L e \<noteq> {}"
        using matching_place [OF sound _ that(2)] by blast
      then show ?thesis
        using c that(1) unfolding collected_def by blast
    qed
    moreover have "tf \<in> all_of key s" if "tf \<in> set (snd ?acc')" "tf_parent tf = key" for tf
      using c that unfolding collected_def by blast
    ultimately show ?thesis
      using a step IxDistTags by (auto simp: candidates_pc_step_def loop_ok_def open_or_reached_def pending_def)
  qed (use collects in auto)
qed

lemma other_filter:
  assumes "shared_inv own s" "owned own (si_next_filter_id (xs_ix s)) f" "tf \<in> all_of key s" "tf \<noteq> f"
  shows "tf_id tf \<noteq> tf_id f"
  using owned_all [OF assms(1,3)] owned_unique [OF _ assms(2)] assms(4) by blast

lemma mark_unseen:
  assumes "shared_inv own s" "owned own (si_next_filter_id (xs_ix s)) f" "tf_parent f \<noteq> key" "unseen key e s"
  shows "unseen key e (ix_update (filter_mark_seen f eid) s)"
proof -
  have "tf_id tf \<noteq> tf_id f" if "tf \<in> all_of key s" for tf
    using other_filter [OF assms(1,2) that] owned_all [OF assms(1) that] assms(3) by blast
  then show ?thesis
    using assms(4) by (auto simp: unseen_def group_fresh_def all_of_def filter_has_seen_def filter_mark_seen_def)
qed

lemma push_unseen:
  assumes "hm_get (xs_groups s) key \<noteq> Some g" "unseen key e s"
  shows "unseen key e (s\<lparr>xs_group_objects := hm_insert g grp (xs_group_objects s)\<rparr>)"
  using assms by (auto simp: unseen_def group_fresh_def all_of_def hm_simps)

lemma dist_step_take:
  assumes inv: "shared_inv own s" and pc: "pc_inv own s (IxDistLoop e fs cf cg acc)"
    and step: "loop_pc_step L (IxDistLoop e fs cf cg acc) s = (pc', s')"
    and ok: "loop_ok key fs cg acc s" and open': "open_or_reached L key e fs cf cg acc s"
  shows "dist_assertion L key e pc' s'"
proof (cases fs)
  case Nil
  then show ?thesis
    using step ok open' by (auto simp: loop_pc_step_def loop_ok_def open_or_reached_def pending_def wanted_by_def split: if_splits)
next
  case (Cons f rest)
  have f: "owned own (si_next_filter_id (xs_ix s)) f"
    using pc by (simp add: pc_inv_def Cons)
  have ok': "loop_ok key rest cg acc s"
    using ok by (simp add: loop_ok_def Cons)
  have later: "tf \<in> set rest \<and> tf_id tf \<notin> set (tf_id f # cf)"
    if "pending L key e fs cf s" "tf \<in> all_of key s" "match_event L (tf_filter tf) e" "tf \<noteq> f" for tf
    using that other_filter [OF inv f that(2,4)] by (auto simp: pending_def Cons)
  have skip: "open_or_reached L key e rest (tf_id f # cf) cg acc s"
    if "\<And>tf. tf \<in> all_of key s \<Longrightarrow> key \<notin> set cg \<Longrightarrow> unseen key e s \<Longrightarrow> match_event L (tf_filter tf) e \<Longrightarrow> tf \<noteq> f"
    using open' later that by (auto simp: open_or_reached_def pending_def)
  consider (old) "tf_id f \<in> set cf" | (out) "tf_id f \<notin> set cf" "filter_has_seen (xs_ix s) f (ev_id e) \<or> \<not> match_event L (tf_filter f) e"
    | (hit) "tf_id f \<notin> set cf" "\<not> filter_has_seen (xs_ix s) f (ev_id e)" "match_event L (tf_filter f) e"
    by blast
  then show ?thesis
  proof cases
    case old
    then have "open_or_reached L key e rest cf cg acc s"
      using open' by (auto simp: open_or_reached_def pending_def Cons)
    then show ?thesis
      using step old ok' by (auto simp: loop_pc_step_def Cons)
  next
    case out
    have "open_or_reached L key e rest (tf_id f # cf) cg acc s"
      by (rule skip) (use out(2) in \<open>auto simp: unseen_def\<close>)
    then show ?thesis
      using step out ok' by (auto simp: loop_pc_step_def Cons)
  next
    case hit
    have "open_or_reached L key e rest (tf_id f # cf) cg acc s" if "tf_parent f \<noteq> key \<or> key \<in> set cg"
      by (rule skip) (use owned_all [OF inv, of f key] that in auto)
    moreover have "unseen key e s" if "key \<notin> set cg"
      using open' that by (simp add: open_or_reached_def pending_def)
    ultimately show ?thesis
      using step hit ok by (auto simp: loop_pc_step_def Cons)
  qed
qed

lemma dist_step_loop:
  assumes inv: "shared_inv own s" and pc: "pc_inv own s pc" and settled: "settled L key s"
    and step: "loop_pc_step L pc s = (pc', s')" and a: "dist_assertion L key e pc s"
    and loops: "\<exists>f k g fs cf cg acc. pc \<in> {IxDistLoop e fs cf cg acc, IxDistMark e f fs cf cg acc, IxDistGroup e k fs cf cg acc,
      IxDistSeen e k g fs cf cg acc, IxDistPush e k g fs cf cg acc, IxDistDone e acc}"
  shows "dist_assertion L key e pc' s'"
proof (cases pc)
  case (IxDistLoop e' fs cf cg acc)
  then show ?thesis
    using dist_step_take [OF inv] pc step a by simp
next
  case (IxDistMark e' f fs cf cg acc)
  let ?s = "ix_update (filter_mark_seen f (ev_id e)) s"
  have f: "owned own (si_next_filter_id (xs_ix s)) f"
    using pc by (simp add: pc_inv_def IxDistMark)
  have all: "all_of key ?s = all_of key s"
    by (simp add: all_of_def filter_mark_seen_def)
  have ok: "loop_ok key fs cg acc s" and e': "e' = e" and m: "match_event L (tf_filter f) e"
    and mine: "tf_parent f = key \<Longrightarrow> f \<in> all_of key s"
    and here: "if tf_parent f = key \<and> key \<notin> set cg then unseen key e s else open_or_reached L key e fs cf cg acc s"
    using a IxDistMark by (auto simp: loop_ok_def)
  have keep: "open_or_reached L key e fs cf cg acc ?s" if "tf_parent f \<noteq> key \<or> key \<in> set cg"
  proof (cases "key \<in> set cg")
    case True
    then show ?thesis
      using here by (simp add: open_or_reached_def same_all [OF all])
  next
    case False
    then have "tf_parent f \<noteq> key"
      using that by simp
    then show ?thesis
      using open_or_reached_keep [OF all mark_unseen [OF inv f]] here by simp
  qed
  show ?thesis
  proof (cases "tf_parent f \<in> set cg")
    case True
    then show ?thesis
      using step ok keep same_all(3) [OF all]
      by (cases "tf_parent f = key") (auto simp: IxDistMark e' loop_pc_step_def)
  next
    case False
    have "loop_ok key fs (tf_parent f # cg) acc ?s" "tf_parent f \<notin> set acc"
      using ok False by (auto simp: loop_ok_def all)
    moreover have "wanted_by L key e ?s \<and> group_fresh key e ?s" if "tf_parent f = key"
      using mine [OF that] m here False that
      by (auto simp: same_all [OF all]) (auto simp: wanted_by_def unseen_def group_fresh_def)
    moreover have "open_or_reached L key e fs cf (tf_parent f # cg) acc ?s" if "tf_parent f \<noteq> key"
      using keep that by (simp add: open_or_reached_def)
    ultimately show ?thesis
      using step False by (auto simp: IxDistMark e' loop_pc_step_def chosen_def)
  qed
next
  case (IxDistGroup e' k fs cf cg acc)
  have "\<not> wanted_by L key e s" if "hm_get (xs_groups s) key = None"
    using settled that by (simp add: settled_def wanted_by_def)
  moreover have "k = key" if "hm_get (xs_groups s) k = Some g" "hm_get (xs_groups s) key = Some g" for g
    using inv that unfolding shared_inv_def by (metis option.inject)
  ultimately show ?thesis
    using a step by (auto simp: IxDistGroup loop_pc_step_def chosen_def split: option.splits if_splits)
next
  case (IxDistSeen e' k g fs cf cg acc)
  have "\<exists>grp. hm_get (xs_group_objects s) g = Some grp \<and> \<not> group_has_seen grp (ev_id e)"
    if "hm_get (xs_groups s) key = Some g" "group_fresh key e s"
    using inv that unfolding shared_inv_def group_fresh_def by metis
  then show ?thesis
    using a step by (auto simp: IxDistSeen loop_pc_step_def chosen_def split: option.splits if_splits)
next
  case (IxDistPush e' k g fs cf cg acc)
  have ok: "loop_ok key fs cg acc s" "k \<in> set cg" "k \<notin> set acc" and e': "e' = e"
    and k: "(hm_get (xs_groups s) key = Some g) = (k = key)"
    and reached: "k = key \<Longrightarrow> wanted_by L key e s" and other: "k \<noteq> key \<Longrightarrow> open_or_reached L key e fs cf cg acc s"
    using a IxDistPush by (auto simp: chosen_def)
  have all: "all_of key s' = all_of key s" and pc': "pc' = IxDistLoop e fs cf cg (acc @ [k])"
    using step IxDistPush e' by (auto simp: loop_pc_step_def all_of_def split: option.splits)
  have "unseen key e s'" if "k \<noteq> key" "unseen key e s"
    using step IxDistPush that k push_unseen [of s key g e] by (auto simp: loop_pc_step_def split: option.splits)
  then have "open_or_reached L key e fs cf cg acc s'" if "k \<noteq> key"
    using open_or_reached_keep [OF all _ other] that by blast
  then have "open_or_reached L key e fs cf cg (acc @ [k]) s'"
    using reached ok(2) by (cases "k = key") (auto simp: open_or_reached_def same_all [OF all])
  moreover have "loop_ok key fs cg (acc @ [k]) s'"
    using ok by (auto simp: loop_ok_def all)
  ultimately show ?thesis
    by (simp add: pc')
next
  case (IxDistDone e' acc)
  then show ?thesis
    using a step by (auto simp: loop_pc_step_def)
qed (use loops in auto)

section \<open>A run around the distribution\<close>

text \<open>No other task works on the subscription or distributes an event of this id.\<close>

definition index_quiet :: "sub_key \<Rightarrow> event \<Rightarrow> nat \<Rightarrow> index_threads \<Rightarrow> bool" where
  "index_quiet key e d t \<longleftrightarrow> (\<forall>j < length (it_tasks t). j \<noteq> d \<longrightarrow> pc_key (it_tasks t ! j) \<noteq> Some key \<and>
     (case pc_event (it_tasks t ! j) of None \<Rightarrow> True | Some e' \<Rightarrow> ev_id e' \<noteq> ev_id e))"

definition index_quiet_step :: "nostr_lib \<Rightarrow> sub_key \<Rightarrow> event \<Rightarrow> nat \<Rightarrow> index_threads \<Rightarrow> index_threads \<Rightarrow> bool" where
  "index_quiet_step L key e d t t' \<longleftrightarrow> index_ok_step L t t' \<and> index_quiet key e d t \<and> index_quiet key e d t'"

definition dist_inv :: "nostr_lib \<Rightarrow> sub_key \<Rightarrow> event \<Rightarrow> nat \<Rightarrow> tracked_filter set \<Rightarrow> index_threads \<Rightarrow> bool" where
  "dist_inv L key e d F t \<longleftrightarrow> (\<exists>own. threads_inv own t) \<and> settled L key (it_shared t) \<and> all_of key (it_shared t) = F \<and>
     d < length (it_tasks t) \<and> dist_assertion L key e (it_tasks t ! d) (it_shared t)"

lemma dist_assertion_no_key: "dist_assertion L key e pc s \<Longrightarrow> pc_key pc = None"
  by (cases pc) auto

lemma dist_step:
  assumes inv: "shared_inv own s" and pc: "pc_inv own s pc" and settled: "settled L key s" and sound: "match_event_sound L"
    and step: "index_pc_step L pc s = (pc', s')" and a: "dist_assertion L key e pc s"
  shows "dist_assertion L key e pc' s'"
proof (cases "\<exists>acc. pc \<in> {IxDistStart e, IxDistIds e acc, IxDistAuthors e acc, IxDistKinds e acc, IxDistTags e acc}")
  case True
  then have "candidates_pc_step L pc s = (pc', s')"
    using step by (auto simp: index_pc_step_def)
  then show ?thesis
    using dist_step_collect [OF inv pc settled sound _ a True] by simp
next
  case False
  then have "\<exists>f k g fs cf cg acc. pc \<in> {IxDistLoop e fs cf cg acc, IxDistMark e f fs cf cg acc, IxDistGroup e k fs cf cg acc,
      IxDistSeen e k g fs cf cg acc, IxDistPush e k g fs cf cg acc, IxDistDone e acc}"
    using a by (cases pc) auto
  moreover from this have "loop_pc_step L pc s = (pc', s')"
    using step by (auto simp: index_pc_step_def)
  ultimately show ?thesis
    using dist_step_loop [OF inv pc settled _ a] by simp
qed

lemma dist_inv_run:
  assumes sound: "match_event_sound L" and inv: "dist_inv L key e d F t" and quiet: "index_quiet key e d t"
    and i: "i < length (it_tasks t)" and room: "ids_left t"
  shows "dist_inv L key e d F (index_run_task L i t)"
proof -
  let ?s = "it_shared t" and ?pc = "it_tasks t ! i"
  obtain pc' s' where step: "index_pc_step L ?pc ?s = (pc', s')"
    by (cases "index_pc_step L ?pc ?s")
  have t': "index_run_task L i t = \<lparr>it_shared = s', it_tasks = (it_tasks t)[i := pc']\<rparr>"
    by (simp add: index_run_task_def step)
  obtain own where own: "threads_inv own t"
    using inv by (auto simp: dist_inv_def)
  then have s: "shared_inv own ?s" and pc: "pc_inv own ?s ?pc"
    using i by (auto simp: threads_inv_def)
  have settled: "settled L key ?s" and d: "d < length (it_tasks t)" and a: "dist_assertion L key e (it_tasks t ! d) ?s"
    using inv by (auto simp: dist_inv_def)
  have key: "pc_key ?pc \<noteq> Some key"
    using quiet i dist_assertion_no_key [OF a] by (cases "i = d") (auto simp: index_quiet_def)
  note frame = frame_all [OF s pc step key] frame_groups(1) [OF s pc step key]
  have "dist_assertion L key e ((it_tasks t)[i := pc'] ! d) s'"
  proof (cases "i = d")
    case True
    then show ?thesis
      using dist_step [OF s pc settled sound step] a i by simp
  next
    case False
    then have "pc_event ?pc = Some e' \<Longrightarrow> ev_id e' \<noteq> ev_id e" for e'
      using quiet i by (fastforce simp: index_quiet_def)
    then have "dist_assertion L key e (it_tasks t ! d) s'"
      using step_unseen [OF s pc step key] step_group_fresh [OF s pc step key] by (intro dist_assertion_keep [OF frame _ _ a]) blast+
    then show ?thesis
      using False by simp
  qed
  then show ?thesis
    using run_task_inv [OF own i room, of L] settled d inv frame_settled [OF s pc step key] frame_all [OF s pc step key]
    unfolding dist_inv_def t' by auto
qed

lemma dist_inv_spawn:
  assumes "dist_inv L key e d F t" "call_ok c"
  shows "dist_inv L key e d F (index_spawn c t)"
  using assms spawn_inv [OF _ assms(2), of _ t] by (auto simp: dist_inv_def index_spawn_def nth_append)

lemma quiet_dist_inv:
  assumes "(index_quiet_step L key e d)\<^sup>*\<^sup>* t t'" "match_event_sound L" "dist_inv L key e d F t"
  shows "dist_inv L key e d F t'"
  using assms
  by (induction rule: rtranclp_induct)
    (auto simp: index_quiet_step_def elim!: index_ok_step.cases intro: dist_inv_spawn dist_inv_run)

text \<open>C7. While a subscription is left alone and nobody else distributes the same event, a distribution that interleaves with any
  additions, removals and distributions reaches the subscription exactly when one of its filters matches, and once.\<close>

theorem index_concurrent_delivery:
  assumes "(index_calm_step L key)\<^sup>*\<^sup>* index_threads_init t" "\<forall>pc \<in> set (it_tasks t). pc_key pc \<noteq> Some key"
    and "unseen key e (it_shared t)" "d < length (it_tasks t)" "it_tasks t ! d = IxDistStart e"
    and "(index_quiet_step L key e d)\<^sup>*\<^sup>* t t'" "it_tasks t' ! d = IxDistDone e acc" "match_event_sound L"
  shows "distinct acc \<and> (key \<in> set acc \<longleftrightarrow> wanted_by L key e (it_shared t))"
proof -
  have "dist_inv L key e d (all_of key (it_shared t)) t"
    using calm_sub_inv [OF assms(1)] assms(2-5) by (simp add: dist_inv_def sub_inv_def)
  then have "dist_inv L key e d (all_of key (it_shared t)) t'"
    using quiet_dist_inv [OF assms(6,8)] by blast
  then show ?thesis
    using assms(7) by (auto simp: dist_inv_def wanted_by_def)
qed

end
