(* ===== verification/Index_Threads_Progress.thy ===== *)
theory Index_Threads_Progress
  imports Index_Threads
begin

text \<open>
  Every call on the interleaved index ends: no access waits, and whatever the other tasks do between its accesses, a task has only
  finitely many left.
\<close>

section \<open>What is left to do\<close>

text \<open>The part of the operation, the filters or ids to go, where the task is with the current one, the authors to go.\<close>

fun pc_phase :: "index_pc \<Rightarrow> nat" where
  "pc_phase (IxAddStart key fs) = 2"
| "pc_phase (IxRemStart key) = 3"
| "pc_phase (IxRemIds key g) = 2"
| "pc_phase (IxDistStart e) = 6"
| "pc_phase (IxDistIds e acc) = 5"
| "pc_phase (IxDistAuthors e acc) = 4"
| "pc_phase (IxDistKinds e acc) = 3"
| "pc_phase (IxDistTags e acc) = 2"
| "pc_phase (IxDistDone e acc) = 0"
| "pc_phase IxDone = 0"
| "pc_phase pc = 1"

fun pc_items :: "index_pc \<Rightarrow> nat" where
  "pc_items (IxAddFilter key g fs) = length fs"
| "pc_items (IxAddAll key g tf fs) = length fs"
| "pc_items (IxAddGroup key g tf fs) = length fs"
| "pc_items (IxAddIndex key g tf fs) = length fs"
| "pc_items (IxAddAuthors key g tf as n fs) = length fs"
| "pc_items (IxRemFilter key ids) = length ids"
| "pc_items (IxRemIndex key tf ids) = length ids"
| "pc_items (IxRemAuthors key tf as n ids) = length ids"
| "pc_items (IxDistLoop e fs cf cg acc) = length fs"
| "pc_items (IxDistMark e f fs cf cg acc) = length fs"
| "pc_items (IxDistGroup e key fs cf cg acc) = length fs"
| "pc_items (IxDistSeen e key g fs cf cg acc) = length fs"
| "pc_items (IxDistPush e key g fs cf cg acc) = length fs"
| "pc_items pc = 0"

fun pc_stage :: "index_pc \<Rightarrow> nat" where
  "pc_stage (IxAddAll key g tf fs) = 3"
| "pc_stage (IxAddGroup key g tf fs) = 2"
| "pc_stage (IxAddIndex key g tf fs) = 1"
| "pc_stage (IxAddAuthors key g tf as n fs) = 1"
| "pc_stage (IxRemIndex key tf ids) = 1"
| "pc_stage (IxRemAuthors key tf as n ids) = 1"
| "pc_stage (IxDistMark e f fs cf cg acc) = 4"
| "pc_stage (IxDistGroup e key fs cf cg acc) = 3"
| "pc_stage (IxDistSeen e key g fs cf cg acc) = 2"
| "pc_stage (IxDistPush e key g fs cf cg acc) = 1"
| "pc_stage pc = 0"

fun pc_authors_left :: "index_pc \<Rightarrow> nat" where
  "pc_authors_left (IxAddAuthors key g tf as n fs) = length as"
| "pc_authors_left (IxRemAuthors key tf as n ids) = length as"
| "pc_authors_left pc = 0"

abbreviation pc_order :: "(index_pc \<times> index_pc) set" where
  "pc_order \<equiv> measures [pc_phase, pc_items, pc_stage, pc_authors_left]"

text \<open>A task takes at least one author at a time.\<close>

fun pc_chunked :: "index_pc \<Rightarrow> bool" where
  "pc_chunked (IxAddAuthors key g tf as n fs) = (0 < n)"
| "pc_chunked (IxRemAuthors key tf as n ids) = (0 < n)"
| "pc_chunked pc = True"

fun pc_done :: "index_pc \<Rightarrow> bool" where
  "pc_done (IxDistDone e acc) = True"
| "pc_done IxDone = True"
| "pc_done pc = False"

lemma step_decreases:
  assumes "pc_chunked pc" "\<not> pc_done pc"
  shows "(fst (index_pc_step L pc s), pc) \<in> pc_order"
  using assms by (cases pc) (auto simp: index_pc_step_defs file_pc_def drop_pc_def Let_def
      split: option.split list.split)

lemma step_chunked: "pc_chunked pc \<Longrightarrow> pc_chunked (fst (index_pc_step L pc s))"
  by (cases pc) (auto simp: index_pc_step_defs file_pc_def drop_pc_def Let_def split: option.split list.split)

lemma call_chunked: "pc_chunked (call_pc c)"
  by (cases c) auto

text \<open>C14. A call on the index ends after finitely many accesses of its own, whatever the index holds at each of them.\<close>

theorem index_calls_end:
  assumes "pcs 0 = call_pc c" "\<And>k. \<exists>s. pcs (Suc k) = fst (index_pc_step L (pcs k) s)"
  shows "\<exists>k. pc_done (pcs k)"
proof (rule ccontr)
  assume "\<not> ?thesis"
  then have busy: "\<not> pc_done (pcs k)" for k
    by blast
  have "pc_chunked (pcs k)" for k
  proof (induction k)
    case (Suc k)
    then show ?case
      using assms(2) [of k] step_chunked by auto
  qed (simp add: assms(1) call_chunked)
  then have "(pcs (Suc k), pcs k) \<in> pc_order" for k
    using assms(2) [of k] step_decreases busy by metis
  then show False
    using wf_measures wf_iff_no_infinite_down_chain by blast
qed

end
