(* ===== verification/Index_Threads_Atomic.thy ===== *)
theory Index_Threads_Atomic
  imports Index_Threads_Progress Subscription_Index_Properties
begin

text \<open>
  A call on the index that no other task interrupts computes the sequential operation of \<open>Subscription_Index\<close>: the operations the
  rest of the development uses are those of \<open>src/src/subscription_index.rs\<close> run access by access, alone.
\<close>

definition alone :: "nostr_lib \<Rightarrow> index_pc \<times> index_shared \<Rightarrow> index_pc \<times> index_shared \<Rightarrow> bool" where
  "alone L a b \<longleftrightarrow> (\<exists>n. ((\<lambda>(pc, s). index_pc_step L pc s) ^^ n) a = b)"

definition group_at :: "index_shared \<Rightarrow> nat \<Rightarrow> filter_group" where
  "group_at s g = (case hm_get (xs_group_objects s) g of None \<Rightarrow> filter_group_new [] [] | Some grp \<Rightarrow> grp)"

definition to_index :: "index_shared \<Rightarrow> subscription_index" where
  "to_index s = (xs_ix s)\<lparr>si_filter_groups := map (\<lambda>(k, g). (k, group_at s g)) (xs_groups s)\<rparr>"

text \<open>Every group of the map exists, under one key only.\<close>

definition index_at_rest :: "index_shared \<Rightarrow> bool" where
  "index_at_rest s \<longleftrightarrow> hm_wf (xs_groups s) \<and> distinct (map snd (xs_groups s)) \<and>
     (\<forall>g \<in> snd ` set (xs_groups s). hm_get (xs_group_objects s) g \<noteq> None \<and> g < xs_next_group s)"

lemma alone_refl [simp]: "alone L a a"
  unfolding alone_def by (rule exI [of _ 0]) simp

lemma alone_trans: "alone L a b \<Longrightarrow> alone L b c \<Longrightarrow> alone L a c"
  unfolding alone_def by (metis comp_apply funpow_add)

lemma alone_step: "index_pc_step L pc s = b \<Longrightarrow> alone L b c \<Longrightarrow> alone L (pc, s) c"
  by (rule alone_trans [of _ _ b]) (auto simp: alone_def intro: exI [of _ 1])

section \<open>Groups\<close>

lemma hm_map_get: "hm_get (map (\<lambda>(k, v). (k, h v)) m) k = map_option h (hm_get m k)"
  by (induction m) auto

lemma hm_map_insert: "map (\<lambda>(k, v). (k, h v)) (hm_insert k v m) = hm_insert k (h v) (map (\<lambda>(k, v). (k, h v)) m)"
  by (induction m) auto

lemma hm_map_remove: "map (\<lambda>(k, v). (k, h v)) (hm_remove k m) = hm_remove k (map (\<lambda>(k, v). (k, h v)) m)"
  by (induction m) (auto simp: AList.delete_eq)

lemma hm_insert_new: "hm_get m k = None \<Longrightarrow> hm_insert k v m = m @ [(k, v)]"
  by (induction m) (auto split: if_splits)

lemma hm_get_value: "hm_get m k = Some v \<Longrightarrow> v \<in> snd ` set m"
  by (metis map_of_SomeD image_eqI snd_conv)

lemma hm_map_override:
  "hm_wf m \<Longrightarrow> distinct (map snd m) \<Longrightarrow> hm_get m k = Some v \<Longrightarrow>
     map (\<lambda>(k, x). (k, if x = v then obj else h x)) m = hm_insert k obj (map (\<lambda>(k, x). (k, h x)) m)"
proof (induction m)
  case (Cons p m)
  obtain k' v' where p: "p = (k', v')"
    by (cases p)
  show ?case
  proof (cases "k' = k")
    case True
    then have "v \<notin> snd ` set m" "v' = v"
      using Cons.prems p by auto
    then have "map (\<lambda>(k, x). (k, if x = v then obj else h x)) m = map (\<lambda>(k, x). (k, h x)) m"
      by (intro map_cong refl) force
    then show ?thesis
      using True p \<open>v' = v\<close> by simp
  next
    case False
    then have "v \<in> snd ` set m"
      using Cons.prems(3) p hm_get_value [of m k v] by simp
    then have "v' \<noteq> v"
      using Cons.prems(2) p by auto
    then show ?thesis
      using False Cons p by simp
  qed
qed simp

lemma group_at_get: "hm_get (si_filter_groups (to_index s)) key = map_option (group_at s) (hm_get (xs_groups s) key)"
  by (simp add: to_index_def hm_map_get)

lemma rest_group: "index_at_rest s \<Longrightarrow> hm_get (xs_groups s) key = Some g \<Longrightarrow> hm_get (xs_group_objects s) g = Some (group_at s g)"
  using hm_get_value [of "xs_groups s" key g] by (auto simp: index_at_rest_def group_at_def)

lemma to_index_group:
  assumes "index_at_rest s" "hm_get (xs_groups s) key = Some g"
  shows "to_index (s\<lparr>xs_group_objects := hm_insert g grp (xs_group_objects s)\<rparr>) =
    (to_index s)\<lparr>si_filter_groups := hm_insert key grp (si_filter_groups (to_index s))\<rparr>"
proof -
  have "group_at (s\<lparr>xs_group_objects := hm_insert g grp (xs_group_objects s)\<rparr>) = (\<lambda>x. if x = g then grp else group_at s x)"
    by (auto simp: group_at_def hm_simps)
  then show ?thesis
    using hm_map_override [of "xs_groups s" key g grp "group_at s"] assms by (simp add: to_index_def index_at_rest_def)
qed

lemma rest_update [simp]:
  "index_at_rest (s\<lparr>xs_ix := ix\<rparr>) = index_at_rest s"
  "index_at_rest s \<Longrightarrow> index_at_rest (s\<lparr>xs_group_objects := hm_insert g grp (xs_group_objects s)\<rparr>)"
  by (auto simp: index_at_rest_def hm_simps)

text \<open>What does not look at the groups.\<close>

lemma to_index_fields [simp]:
  "si_all_filters (to_index s) = si_all_filters (xs_ix s)" "si_next_filter_id (to_index s) = si_next_filter_id (xs_ix s)"
  "si_filter_last_seen (to_index s) = si_filter_last_seen (xs_ix s)" "si_match_all (to_index s) = si_match_all (xs_ix s)"
  "si_event_ids (to_index s) = si_event_ids (xs_ix s)" "si_authors (to_index s) = si_authors (xs_ix s)"
  "si_kinds (to_index s) = si_kinds (xs_ix s)" "si_tags (to_index s) = si_tags (xs_ix s)"
  by (simp_all add: to_index_def)

lemma to_index_update:
  "to_index (s\<lparr>xs_ix := ix\<rparr>) = ix\<lparr>si_filter_groups := si_filter_groups (to_index s)\<rparr>"
  by (simp add: to_index_def group_at_def)

lemma to_index_ix: "to_index s = (xs_ix s)\<lparr>si_filter_groups := si_filter_groups (to_index s)\<rparr>"
  by (simp add: to_index_def)

lemma groups_apart:
  "add_filter_to_indexes L tf (ix\<lparr>si_filter_groups := gs\<rparr>) = (add_filter_to_indexes L tf ix)\<lparr>si_filter_groups := gs\<rparr>"
  "remove_filter_from_indexes L tf (ix\<lparr>si_filter_groups := gs\<rparr>) = (remove_filter_from_indexes L tf ix)\<lparr>si_filter_groups := gs\<rparr>"
  "filter_mark_seen tf eid (ix\<lparr>si_filter_groups := gs\<rparr>) = (filter_mark_seen tf eid ix)\<lparr>si_filter_groups := gs\<rparr>"
  by (simp_all add: add_filter_to_indexes_def remove_filter_from_indexes_def filter_mark_seen_def
      split: option.split indexed_field.split)

lemma to_index_indexes:
  "to_index (ix_update (add_filter_to_indexes L tf) s) = add_filter_to_indexes L tf (to_index s)"
  "to_index (ix_update (remove_filter_from_indexes L tf) s) = remove_filter_from_indexes L tf (to_index s)"
  "to_index (ix_update (filter_mark_seen tf eid) s) = filter_mark_seen tf eid (to_index s)"
  unfolding to_index_update by (subst (2) to_index_ix, simp add: groups_apart)+

section \<open>Authors, a part at a time\<close>

lemma push_all_append: "bucket_push_all (a @ b) tf m = bucket_push_all b tf (bucket_push_all a tf m)"
  "bucket_drop_all (a @ b) fid m = bucket_drop_all b fid (bucket_drop_all a fid m)"
  by (simp_all add: bucket_push_all_def bucket_drop_all_def)

lemma add_authors_alone:
  "0 < n \<Longrightarrow> alone L (IxAddAuthors key g tf as n fs, s)
     (IxAddFilter key g fs, ix_update (\<lambda>ix. ix\<lparr>si_authors := bucket_push_all as tf (si_authors ix)\<rparr>) s)"
proof (induction "length as" arbitrary: as n s rule: less_induct)
  case less
  let ?s = "ix_update (\<lambda>ix. ix\<lparr>si_authors := bucket_push_all (take n as) tf (si_authors ix)\<rparr>) s"
  show ?case
  proof (cases "drop n as = []")
    case True
    then show ?thesis
      by (intro alone_step [OF refl]) (simp add: index_pc_step_def add_pc_step_def)
  next
    case False
    then have "alone L (IxAddAuthors key g tf (drop n as) 1000 fs, ?s)
        (IxAddFilter key g fs, ix_update (\<lambda>ix. ix\<lparr>si_authors := bucket_push_all (drop n as) tf (si_authors ix)\<rparr>) ?s)"
      using less.prems by (intro less.hyps) auto
    moreover have "bucket_push_all as tf m = bucket_push_all (drop n as) tf (bucket_push_all (take n as) tf m)" for m
      using push_all_append(1) [of "take n as" "drop n as" tf m] by simp
    ultimately show ?thesis
      using False by (intro alone_step [OF refl]) (simp add: index_pc_step_def add_pc_step_def)
  qed
qed

lemma drop_authors_alone:
  "0 < n \<Longrightarrow> alone L (IxRemAuthors key tf as n ids, s)
     (IxRemFilter key ids, ix_update (\<lambda>ix. ix\<lparr>si_authors := bucket_drop_all as (tf_id tf) (si_authors ix)\<rparr>) s)"
proof (induction "length as" arbitrary: as n s rule: less_induct)
  case less
  let ?s = "ix_update (\<lambda>ix. ix\<lparr>si_authors := bucket_drop_all (take n as) (tf_id tf) (si_authors ix)\<rparr>) s"
  show ?case
  proof (cases "drop n as = []")
    case True
    then show ?thesis
      by (intro alone_step [OF refl]) (simp add: index_pc_step_def rem_pc_step_def)
  next
    case False
    then have "alone L (IxRemAuthors key tf (drop n as) 1000 ids, ?s)
        (IxRemFilter key ids, ix_update (\<lambda>ix. ix\<lparr>si_authors := bucket_drop_all (drop n as) (tf_id tf) (si_authors ix)\<rparr>) ?s)"
      using less.prems by (intro less.hyps) auto
    moreover have "bucket_drop_all as (tf_id tf) m = bucket_drop_all (drop n as) (tf_id tf) (bucket_drop_all (take n as) (tf_id tf) m)" for m
      using push_all_append(2) [of "take n as" "drop n as" "tf_id tf" m] by simp
    ultimately show ?thesis
      using False by (intro alone_step [OF refl]) (simp add: index_pc_step_def rem_pc_step_def)
  qed
qed

lemma file_alone: "alone L (file_pc key g tf fs, s) (IxAddFilter key g fs, ix_update (add_filter_to_indexes L tf) s)"
proof (cases "tf_indexed_field tf = Some AuthorField")
  case True
  then show ?thesis
    using add_authors_alone [of 1001 L key g tf "case f_authors (tf_filter tf) of None \<Rightarrow> [] | Some as \<Rightarrow> as" fs s]
    by (auto simp: file_pc_def add_filter_to_indexes_def bucket_push_all_def split: option.splits)
next
  case False
  then show ?thesis
    by (intro alone_step [OF refl]) (simp add: file_pc_def index_pc_step_def add_pc_step_def)
qed

lemma unfile_alone: "alone L (drop_pc key tf ids, s) (IxRemFilter key ids, ix_update (remove_filter_from_indexes L tf) s)"
proof (cases "tf_indexed_field tf = Some AuthorField")
  case True
  then show ?thesis
    using drop_authors_alone [of 1001 L key tf "case f_authors (tf_filter tf) of None \<Rightarrow> [] | Some as \<Rightarrow> as" ids s]
    by (auto simp: drop_pc_def remove_filter_from_indexes_def bucket_drop_all_def split: option.splits)
next
  case False
  then show ?thesis
    by (intro alone_step [OF refl]) (simp add: drop_pc_def index_pc_step_def rem_pc_step_def)
qed

section \<open>Subscribing\<close>

lemma add_one_alone:
  assumes "index_at_rest s" "hm_get (xs_groups s) key = Some g"
  obtains s' where "alone L (IxAddFilter key g (f # fs), s) (IxAddFilter key g fs, s')" "index_at_rest s'"
    "hm_get (xs_groups s') key = Some g" "to_index s' = add_one_filter L key f (to_index s)"
proof -
  define fid where "fid = si_next_filter_id (xs_ix s)"
  define tf where "tf = tracked_filter_new f key (choose_index_field f) fid"
  define s1 where "s1 = ix_update (\<lambda>ix. ix\<lparr>si_next_filter_id := fetch_add_u64 fid,
    si_filter_last_seen := (si_filter_last_seen ix)(fid := None)\<rparr>) s"
  define s2 where "s2 = ix_update (\<lambda>ix. ix\<lparr>si_all_filters := hm_insert (tf_id tf) tf (si_all_filters ix)\<rparr>) s1"
  define s3 where "s3 = s2\<lparr>xs_group_objects := hm_insert g (group_insert_id (tf_id tf) (group_at s2 g)) (xs_group_objects s2)\<rparr>"
  define s4 where "s4 = ix_update (add_filter_to_indexes L tf) s3"
  note defs = s1_def s2_def s3_def s4_def
  have "index_at_rest s1" "index_at_rest s2"
    using assms(1) by (simp_all add: defs)
  moreover from this have "index_at_rest s3"
    by (simp add: s3_def)
  ultimately have rest: "index_at_rest s1" "index_at_rest s2" "index_at_rest s4"
    by (simp_all add: s4_def)
  have g: "hm_get (xs_groups s1) key = Some g" "hm_get (xs_groups s2) key = Some g" "hm_get (xs_groups s4) key = Some g"
    using assms(2) by (simp_all add: defs)
  have steps: "index_pc_step L (IxAddFilter key g (f # fs)) s = (IxAddAll key g tf fs, s1)"
    "index_pc_step L (IxAddAll key g tf fs) s1 = (IxAddGroup key g tf fs, s2)"
    "index_pc_step L (IxAddGroup key g tf fs) s2 = (file_pc key g tf fs, s3)"
    using rest_group [OF rest(2) g(2)] by (simp_all add: index_pc_step_def add_pc_step_def fid_def tf_def s1_def s2_def s3_def Let_def)
  have "alone L (IxAddFilter key g (f # fs), s) (IxAddFilter key g fs, s4)"
    unfolding s4_def by (rule alone_step [OF steps(1) alone_step [OF steps(2) alone_step [OF steps(3) file_alone]]])
  moreover have "to_index s4 = add_one_filter L key f (to_index s)"
  proof -
    have tf_id: "tf_id tf = fid"
      by (simp add: tf_def tracked_filter_new_def)
    have "group_at s2 = group_at s"
      by (simp add: defs group_at_def [abs_def])
    then have "to_index s3 = (to_index s2)\<lparr>si_filter_groups := hm_insert key (group_insert_id fid (group_at s g)) (si_filter_groups (to_index s))\<rparr>"
      unfolding s3_def to_index_group [OF rest(2) g(2)] by (simp add: tf_id s2_def s1_def to_index_update)
    also have "\<dots> = (to_index s)\<lparr>si_next_filter_id := fetch_add_u64 fid, si_filter_last_seen := (si_filter_last_seen (to_index s))(fid := None),
        si_all_filters := hm_insert fid tf (si_all_filters (to_index s)),
        si_filter_groups := hm_insert key (group_insert_id fid (group_at s g)) (si_filter_groups (to_index s))\<rparr>"
      by (simp add: s2_def s1_def to_index_update tf_id to_index_def)
    finally show ?thesis
      using assms(2) by (simp add: s4_def to_index_indexes add_one_filter_def Let_def group_at_get fid_def tf_def)
  qed
  ultimately show ?thesis
    using that rest(3) g(3) by blast
qed

lemma add_all_alone:
  assumes "index_at_rest s" "hm_get (xs_groups s) key = Some g"
  shows "\<exists>s'. alone L (IxAddFilter key g fs, s) (IxDone, s') \<and> index_at_rest s' \<and>
    to_index s' = fold (add_one_filter L key) fs (to_index s)"
  using assms
proof (induction fs arbitrary: s)
  case Nil
  have "alone L (IxAddFilter key g [], s) (IxDone, s)"
    by (rule alone_step [OF refl]) (simp add: index_pc_step_def add_pc_step_def)
  then show ?case
    using Nil by auto
next
  case (Cons f fs)
  obtain s1 where s1: "alone L (IxAddFilter key g (f # fs), s) (IxAddFilter key g fs, s1)" "index_at_rest s1"
    "hm_get (xs_groups s1) key = Some g" "to_index s1 = add_one_filter L key f (to_index s)"
    by (rule add_one_alone [OF Cons.prems])
  from Cons.IH [OF s1(2,3)] show ?case
    using alone_trans [OF s1(1)] s1(4) by auto
qed

definition with_group :: "sub_key \<Rightarrow> index_shared \<Rightarrow> index_shared" where
  "with_group key s = s\<lparr>xs_groups := hm_insert key (xs_next_group s) (xs_groups s),
     xs_group_objects := hm_insert (xs_next_group s) (filter_group_new (fst key) (snd key)) (xs_group_objects s),
     xs_next_group := xs_next_group s + 1\<rparr>"

lemma new_group_at_rest:
  assumes "index_at_rest s" "hm_get (xs_groups s) key = None"
  shows "index_at_rest (with_group key s)"
proof -
  have "key \<notin> fst ` set (xs_groups s)"
    using assms(2) by (simp add: map_of_eq_None_iff)
  moreover have "xs_groups (with_group key s) = xs_groups s @ [(key, xs_next_group s)]"
    using assms(2) by (simp add: with_group_def hm_insert_new)
  moreover have "g < xs_next_group s" if "g \<in> snd ` set (xs_groups s)" for g
    using assms(1) that by (auto simp: index_at_rest_def)
  ultimately show ?thesis
    using assms(1) unfolding index_at_rest_def by (auto simp: with_group_def hm_simps less_Suc_eq)
qed

lemma new_group_index:
  assumes "index_at_rest s" "hm_get (xs_groups s) key = None"
  shows "to_index (with_group key s) = ensure_group key (to_index s)"
proof -
  let ?s = "with_group key s" and ?grp = "filter_group_new (fst key) (snd key)"
  have groups: "xs_groups ?s = xs_groups s @ [(key, xs_next_group s)]" "xs_ix ?s = xs_ix s"
    using assms(2) by (simp_all add: with_group_def hm_insert_new)
  have "g < xs_next_group s" if "g \<in> snd ` set (xs_groups s)" for g
    using assms(1) that by (auto simp: index_at_rest_def)
  then have "map (\<lambda>(k, g). (k, group_at ?s g)) (xs_groups s) = map (\<lambda>(k, g). (k, group_at s g)) (xs_groups s)"
    by (intro map_cong refl) (force simp: with_group_def group_at_def hm_simps)
  then have "map (\<lambda>(k, g). (k, group_at ?s g)) (xs_groups ?s) = hm_insert key ?grp (map (\<lambda>(k, g). (k, group_at s g)) (xs_groups s))"
    using assms(2) by (simp add: groups hm_insert_new hm_map_get) (simp add: group_at_def with_group_def hm_simps)
  then show ?thesis
    using assms(2) by (simp add: to_index_def groups(2) ensure_group_def hm_map_get)
qed

lemma index_add_alone:
  assumes "index_at_rest s"
  shows "\<exists>s'. alone L (IxAddStart key fs, s) (IxDone, s') \<and> index_at_rest s' \<and>
    to_index s' = si_add_subscription L (fst key) (snd key) fs (to_index s)"
proof (cases "hm_get (xs_groups s) key")
  case None
  have step: "index_pc_step L (IxAddStart key fs) s = (IxAddFilter key (xs_next_group s) fs, with_group key s)"
    using None by (simp add: index_pc_step_def add_pc_step_def with_group_def)
  have "hm_get (xs_groups (with_group key s)) key = Some (xs_next_group s)"
    by (simp add: with_group_def hm_simps)
  then show ?thesis
    using add_all_alone [OF new_group_at_rest [OF assms None], of key "xs_next_group s" L fs] alone_step [OF step]
    by (auto simp: si_add_subscription_def new_group_index [OF assms None])
next
  case (Some g)
  then have step: "index_pc_step L (IxAddStart key fs) s = (IxAddFilter key g fs, s)"
    by (simp add: index_pc_step_def add_pc_step_def)
  have "ensure_group key (to_index s) = to_index s"
    using Some by (simp add: ensure_group_def group_at_get)
  then show ?thesis
    using add_all_alone [OF assms Some, of L fs] alone_step [OF step] by (auto simp: si_add_subscription_def)
qed

section \<open>Unsubscribing\<close>

lemma remove_all_alone:
  assumes "index_at_rest s"
  shows "\<exists>s'. alone L (IxRemFilter key ids, s) (IxDone, s') \<and> index_at_rest s' \<and>
    to_index s' = fold (remove_one_filter L) ids (to_index s)"
  using assms
proof (induction ids arbitrary: s)
  case Nil
  have "alone L (IxRemFilter key [], s) (IxDone, s)"
    by (rule alone_step [OF refl]) (simp add: index_pc_step_def rem_pc_step_def)
  then show ?case
    using Nil by auto
next
  case (Cons fid ids)
  show ?case
  proof (cases "hm_get (si_all_filters (xs_ix s)) fid")
    case None
    then have step: "index_pc_step L (IxRemFilter key (fid # ids)) s = (IxRemFilter key ids, s)"
      by (simp add: index_pc_step_def rem_pc_step_def)
    show ?thesis
      using Cons.IH [OF Cons.prems] alone_step [OF step] None by (auto simp: remove_one_filter_def)
  next
    case (Some tf)
    define s1 where "s1 = ix_update (\<lambda>ix. ix\<lparr>si_all_filters := hm_remove fid (si_all_filters ix)\<rparr>) s"
    define s2 where "s2 = ix_update (remove_filter_from_indexes L tf) s1"
    have step: "index_pc_step L (IxRemFilter key (fid # ids)) s = (drop_pc key tf ids, s1)"
      using Some by (simp add: index_pc_step_def rem_pc_step_def s1_def)
    have start: "alone L (IxRemFilter key (fid # ids), s) (IxRemFilter key ids, s2)"
      unfolding s2_def by (rule alone_step [OF step unfile_alone])
    have "index_at_rest s2"
      using Cons.prems by (simp add: s2_def s1_def)
    moreover have "to_index s2 = remove_one_filter L fid (to_index s)"
    proof -
      have "to_index s1 = (to_index s)\<lparr>si_all_filters := hm_remove fid (si_all_filters (to_index s))\<rparr>"
        by (simp add: s1_def to_index_def group_at_def [abs_def])
      then show ?thesis
        using Some by (simp add: s2_def to_index_indexes remove_one_filter_def)
    qed
    ultimately show ?thesis
      using Cons.IH [of s2] alone_trans [OF start] by auto
  qed
qed

lemma drop_group_at_rest: "index_at_rest s \<Longrightarrow> index_at_rest (s\<lparr>xs_groups := hm_remove key (xs_groups s)\<rparr>)"
  by (auto simp: index_at_rest_def AList.delete_eq distinct_map_filter)

lemma index_remove_alone:
  assumes "index_at_rest s"
  shows "\<exists>s'. alone L (IxRemStart key, s) (IxDone, s') \<and> index_at_rest s' \<and>
    to_index s' = si_remove_subscription L (fst key) (snd key) (to_index s)"
proof (cases "hm_get (xs_groups s) key")
  case None
  then have step: "index_pc_step L (IxRemStart key) s = (IxDone, s)"
    by (simp add: index_pc_step_def rem_pc_step_def)
  show ?thesis
    using alone_step [OF step alone_refl] None assms by (auto simp: si_remove_subscription_def group_at_get)
next
  case (Some g)
  define s1 where "s1 = s\<lparr>xs_groups := hm_remove key (xs_groups s)\<rparr>"
  have grp: "hm_get (xs_group_objects s1) g = Some (group_at s g)"
    using rest_group [OF assms Some] by (simp add: s1_def)
  have step: "index_pc_step L (IxRemStart key) s = (IxRemIds key g, s1)"
    "index_pc_step L (IxRemIds key g) s1 = (IxRemFilter key (fg_filter_ids (group_at s g)), s1)"
    using Some grp by (simp_all add: index_pc_step_def rem_pc_step_def s1_def)
  have "index_at_rest s1"
    unfolding s1_def by (rule drop_group_at_rest [OF assms])
  moreover have "to_index s1 = (to_index s)\<lparr>si_filter_groups := hm_remove key (si_filter_groups (to_index s))\<rparr>"
    by (simp add: to_index_def s1_def hm_map_remove group_at_def [abs_def])
  ultimately show ?thesis
    using remove_all_alone [of s1 L key "fg_filter_ids (group_at s g)"] Some
      alone_step [OF step(1) alone_step [OF step(2)]] by (auto simp: si_remove_subscription_def group_at_get)
qed

section \<open>Distributing\<close>

lemma collect_append: "collect_filters (xs @ ys) acc = collect_filters ys (collect_filters xs acc)"
  by (induction xs acc rule: collect_filters.induct) auto

lemma candidates_alone: "alone L (IxDistStart e, s) (IxDistLoop e (get_candidate_filters L (to_index s) e) [] [] [], s)"
  unfolding get_candidate_filters_def candidate_sources_def collect_append to_index_fields
  by (rule alone_step [OF refl], simp add: index_pc_step_def candidates_pc_step_def)+

lemma loop_alone:
  assumes "index_at_rest s"
  shows "\<exists>s'. alone L (IxDistLoop e fs cf cg acc, s) (IxDistDone e (fst (distribute_loop L e fs cf cg acc (to_index s))), s') \<and>
    index_at_rest s' \<and> to_index s' = snd (distribute_loop L e fs cf cg acc (to_index s))"
  using assms
proof (induction fs arbitrary: s cf cg acc)
  case Nil
  have "index_pc_step L (IxDistLoop e [] cf cg acc) s = (IxDistDone e acc, s)"
    by (simp add: index_pc_step_def loop_pc_step_def)
  from alone_step [OF this alone_refl] show ?case
    using Nil by auto
next
  case (Cons f fs)
  let ?cf = "tf_id f # cf" and ?key = "tf_parent f"
  have seen: "filter_has_seen (to_index s) f eid = filter_has_seen (xs_ix s) f eid" for eid
    by (simp add: filter_has_seen_def)
  show ?case
  proof (cases "tf_id f \<notin> set cf \<and> \<not> filter_has_seen (xs_ix s) f (ev_id e) \<and> match_event L (tf_filter f) e")
    case False
    then have "index_pc_step L (IxDistLoop e (f # fs) cf cg acc) s =
        (IxDistLoop e fs (if tf_id f \<in> set cf then cf else ?cf) cg acc, s)"
      by (auto simp: index_pc_step_def loop_pc_step_def)
    from alone_step [OF this] show ?thesis
      using Cons.IH [OF Cons.prems, of "if tf_id f \<in> set cf then cf else ?cf" cg acc] False
      by (auto simp: Let_def seen split: if_splits)
  next
    case True
    define s1 where "s1 = ix_update (filter_mark_seen f (ev_id e)) s"
    have rest: "index_at_rest s1"
      using Cons.prems by (simp add: s1_def)
    have to: "to_index s1 = filter_mark_seen f (ev_id e) (to_index s)" "xs_groups s1 = xs_groups s"
      by (simp_all add: s1_def to_index_indexes)
    have mark: "index_pc_step L (IxDistMark e f fs ?cf cg acc) s =
        (if ?key \<in> set cg then IxDistLoop e fs ?cf cg acc else IxDistGroup e ?key fs ?cf (?key # cg) acc, s1)"
      by (simp add: index_pc_step_def loop_pc_step_def s1_def)
    have "index_pc_step L (IxDistLoop e (f # fs) cf cg acc) s = (IxDistMark e f fs ?cf cg acc, s)"
      using True by (simp add: index_pc_step_def loop_pc_step_def)
    note start = alone_step [OF this alone_step [OF mark]]
    have IH: "\<exists>s'. alone L (IxDistLoop e fs ?cf cg' acc', s2)
        (IxDistDone e (fst (distribute_loop L e fs ?cf cg' acc' (to_index s2))), s') \<and>
        index_at_rest s' \<and> to_index s' = snd (distribute_loop L e fs ?cf cg' acc' (to_index s2))"
      if "index_at_rest s2" for s2 cg' acc'
      using Cons.IH [OF that] by blast
    note eq = True [unfolded seen [symmetric]]
    show ?thesis
    proof (cases "?key \<in> set cg")
      case True
      then show ?thesis
        using IH [OF rest, of cg acc] start eq by (auto simp: Let_def to(1) [symmetric])
    next
      case False
      then have start: "alone L (IxDistGroup e ?key fs ?cf (?key # cg) acc, s1) c \<Longrightarrow> alone L (IxDistLoop e (f # fs) cf cg acc, s) c" for c
        using start by simp
      show ?thesis
      proof (cases "hm_get (xs_groups s1) ?key")
        case None
        then have "index_pc_step L (IxDistGroup e ?key fs ?cf (?key # cg) acc) s1 = (IxDistLoop e fs ?cf (?key # cg) acc, s1)"
          by (simp add: index_pc_step_def loop_pc_step_def)
        from start [OF alone_step [OF this]] show ?thesis
          using IH [OF rest, of "?key # cg" acc] None eq False by (auto simp: Let_def to(1) [symmetric] group_at_get)
      next
        case (Some g)
        note grp = rest_group [OF rest Some]
        have group: "index_pc_step L (IxDistGroup e ?key fs ?cf (?key # cg) acc) s1 = (IxDistSeen e ?key g fs ?cf (?key # cg) acc, s1)"
          using Some by (simp add: index_pc_step_def loop_pc_step_def)
        show ?thesis
        proof (cases "group_has_seen (group_at s1 g) (ev_id e)")
          case True
          then have "index_pc_step L (IxDistSeen e ?key g fs ?cf (?key # cg) acc) s1 = (IxDistLoop e fs ?cf (?key # cg) acc, s1)"
            using grp by (simp add: index_pc_step_def loop_pc_step_def)
          from start [OF alone_step [OF group alone_step [OF this]]] show ?thesis
            using IH [OF rest, of "?key # cg" acc] Some True eq False by (auto simp: Let_def to(1) [symmetric] group_at_get)
        next
          case False
          define s2 where "s2 = s1\<lparr>xs_group_objects := hm_insert g (group_mark_seen (ev_id e) (group_at s1 g)) (xs_group_objects s1)\<rparr>"
          have "index_pc_step L (IxDistSeen e ?key g fs ?cf (?key # cg) acc) s1 = (IxDistPush e ?key g fs ?cf (?key # cg) acc, s1)"
            "index_pc_step L (IxDistPush e ?key g fs ?cf (?key # cg) acc) s1 = (IxDistLoop e fs ?cf (?key # cg) (acc @ [?key]), s2)"
            using grp False by (simp_all add: index_pc_step_def loop_pc_step_def s2_def)
          note steps = alone_step [OF group alone_step [OF this(1) alone_step [OF this(2)]]]
          have "index_at_rest s2"
            using rest by (simp add: s2_def)
          from start [OF steps] IH [OF this, of "?key # cg" "acc @ [?key]"] show ?thesis
            using Some False eq \<open>?key \<notin> set cg\<close>
            by (auto simp: Let_def to(1) [symmetric] group_at_get s2_def to_index_group [OF rest Some])
        qed
      qed
    qed
  qed
qed

text \<open>What a call of the sequential operations answers and leaves.\<close>

definition atomic_index_call :: "nostr_lib \<Rightarrow> index_call \<Rightarrow> subscription_index \<Rightarrow> index_pc \<times> subscription_index" where
  "atomic_index_call L c ix = (case c of
     IndexAdd key fs \<Rightarrow> (IxDone, si_add_subscription L (fst key) (snd key) fs ix)
   | IndexRemove key \<Rightarrow> (IxDone, si_remove_subscription L (fst key) (snd key) ix)
   | IndexDistribute e \<Rightarrow> (let (keys, ix') = si_distribute_event L e ix in (IxDistDone e keys, ix')))"

section \<open>Every reachable state is at rest\<close>

lemma step_at_rest:
  assumes "index_at_rest s"
  shows "index_at_rest (snd (index_pc_step L pc s))"
proof (cases pc)
  case (IxAddStart key fs)
  then show ?thesis
    using assms new_group_at_rest [of s key] by (auto simp: index_pc_step_def add_pc_step_def with_group_def split: option.split)
next
  case (IxRemStart key)
  then show ?thesis
    using assms drop_group_at_rest [of s key] by (auto simp: index_pc_step_def rem_pc_step_def split: option.split)
qed (use assms in \<open>auto simp: index_pc_step_defs Let_def split: option.split list.split\<close>)

lemma reachable_at_rest: "(index_step L)\<^sup>*\<^sup>* index_threads_init t \<Longrightarrow> index_at_rest (it_shared t)"
proof (induction rule: rtranclp_induct)
  case base
  then show ?case
    by (simp add: index_threads_init_def index_shared_new_def index_at_rest_def)
next
  case (step t t')
  note keep = step_at_rest [OF step.IH, of L]
  from step.hyps(2) show ?case
    by cases (simp_all add: index_spawn_def index_run_task_def split_beta keep step.IH)
qed

text \<open>C13. Run without interruption from any state the tasks can bring the index to, a call ends with the answer and the effect of
  the sequential operation.\<close>

theorem index_call_atomic:
  assumes "(index_step L)\<^sup>*\<^sup>* index_threads_init t"
  shows "\<exists>n pc s'. ((\<lambda>(pc, s). index_pc_step L pc s) ^^ n) (call_pc c, it_shared t) = (pc, s') \<and>
    (pc, to_index s') = atomic_index_call L c (to_index (it_shared t))"
proof (cases c)
  case (IndexAdd key fs)
  then show ?thesis
    using index_add_alone [OF reachable_at_rest [OF assms], of L key fs] unfolding alone_def by (auto simp: atomic_index_call_def)
next
  case (IndexRemove key)
  then show ?thesis
    using index_remove_alone [OF reachable_at_rest [OF assms], of L key] unfolding alone_def by (auto simp: atomic_index_call_def)
next
  case (IndexDistribute e)
  let ?s = "it_shared t"
  let ?r = "si_distribute_event L e (to_index ?s)"
  obtain s' where "alone L (IxDistStart e, ?s) (IxDistDone e (fst ?r), s')" "to_index s' = snd ?r"
    unfolding si_distribute_event_def using loop_alone [OF reachable_at_rest [OF assms]] alone_trans [OF candidates_alone] by blast
  moreover have "atomic_index_call L c (to_index ?s) = (IxDistDone e (fst ?r), snd ?r)"
    by (simp add: IndexDistribute atomic_index_call_def split: prod.split)
  ultimately show ?thesis
    unfolding alone_def by (auto simp: IndexDistribute)
qed

end
