(* ===== verification/Index_Threads_Examples.thy ===== *)
theory Index_Threads_Examples
  imports Index_Threads_Delivery Index_Threads_Atomic
begin

text \<open>
  Runs of the interleaved index on given orders of steps: instances of its properties, and what overlapping operations on one
  subscription do.
\<close>

section \<open>Given orders of steps\<close>

text \<open>Such runs, by a given order of calls (\<open>Inl\<close>) and steps (\<open>Inr\<close>); \<open>P\<close> is to hold in every state.\<close>

primrec index_run :: "nostr_lib \<Rightarrow> (index_threads \<Rightarrow> bool) \<Rightarrow> (index_call + nat) list \<Rightarrow> index_threads \<Rightarrow> index_threads option" where
  "index_run L P [] t = Some t"
| "index_run L P (a # as) t =
     (let t' = (case a of Inl c \<Rightarrow> index_spawn c t | Inr i \<Rightarrow> index_run_task L i t)
      in if (case a of Inl c \<Rightarrow> call_ok c | Inr i \<Rightarrow> i < length (it_tasks t) \<and> ids_left t) \<and> P t \<and> P t' then index_run L P as t' else None)"

lemma index_run_steps: "index_run L P as t = Some t' \<Longrightarrow> (\<lambda>t t'. index_ok_step L t t' \<and> P t \<and> P t')\<^sup>*\<^sup>* t t'"
proof (induction as arbitrary: t)
  case (Cons a as)
  let ?t = "case a of Inl c \<Rightarrow> index_spawn c t | Inr i \<Rightarrow> index_run_task L i t"
  have run: "index_run L P as ?t = Some t'" "P t" "P ?t" and
    ok: "case a of Inl c \<Rightarrow> call_ok c | Inr i \<Rightarrow> i < length (it_tasks t) \<and> ids_left t"
    using Cons.prems by (simp_all add: Let_def split: if_splits)
  have "index_ok_step L t ?t"
    using ok by (cases a) (auto intro: index_ok_step.intros)
  then show ?case
    using Cons.IH [OF run(1)] run(2,3) by (intro converse_rtranclp_into_rtranclp [of _ t ?t]) simp_all
qed simp

lemma index_calm_run_steps: "index_run L (index_calm key) as t = Some t' \<Longrightarrow> (index_calm_step L key)\<^sup>*\<^sup>* t t'"
  using index_run_steps [of L "index_calm key" as t t'] by (simp add: index_calm_step_def [abs_def])

lemma index_quiet_run_steps: "index_run L (index_quiet key e d) as t = Some t' \<Longrightarrow> (index_quiet_step L key e d)\<^sup>*\<^sup>* t t'"
  using index_run_steps [of L "index_quiet key e d" as t t'] by (simp add: index_quiet_step_def [abs_def])

text \<open>Two subscriptions: one is filed while the other is; then an event is distributed while the other subscription is
  filed and removed and another event is distributed.\<close>

abbreviation demo_key :: sub_key where
  "demo_key \<equiv> (''c1'', ''a'')"

abbreviation demo_other :: sub_key where
  "demo_other \<equiv> (''c2'', ''b'')"

lemmas index_threads_eval = index_threads_init_def index_shared_new_def index_spawn_def index_run_task_def index_pc_step_defs
  file_pc_def drop_pc_def si_new_def filter_group_new_def choose_index_field_def nonempty_list_def tracked_filter_new_def
  add_filter_to_indexes_def remove_filter_from_indexes_def bucket_push_all_def bucket_push_def bucket_get_def bucket_drop_all_def
  bucket_drop_def fetch_add_u64_def group_insert_id_def group_mark_seen_def group_has_seen_def filter_has_seen_def
  filter_mark_seen_def demo_defs call_ok_def ids_left_def filter_wf_def nth_append

definition demo_acts_before :: "(index_call + nat) list" where
  "demo_acts_before = [Inl (IndexAdd demo_key [kind_filter 1]), Inl (IndexAdd demo_other [author_filter 7])] @
     map Inr [0, 1, 1, 0, 0, 0, 1, 0, 0] @ [Inl (IndexDistribute (demo_event 5 7 1))]"

definition demo_acts_after :: "(index_call + nat) list" where
  "demo_acts_after = map Inr [2, 1, 1, 1] @ [Inl (IndexDistribute (demo_event 6 7 1)), Inl (IndexRemove demo_other)] @
     map Inr [3, 2, 3, 2, 3, 2, 3, 2, 3, 3, 3, 4, 3, 2, 2, 4, 3, 2, 4, 3, 2, 2, 4, 2, 2, 2, 2, 2, 2]"

definition demo_before :: index_threads where
  "demo_before = the (index_run demo_lib (index_calm demo_key) demo_acts_before index_threads_init)"

definition demo_after :: index_threads where
  "demo_after = the (index_run demo_lib (index_quiet demo_key (demo_event 5 7 1) 2) demo_acts_after demo_before)"

lemma demo_before_eval:
  "index_run demo_lib (index_calm demo_key) demo_acts_before index_threads_init = Some demo_before"
  "\<forall>pc \<in> set (it_tasks demo_before). pc_key pc \<noteq> Some demo_key"
  "length (it_tasks demo_before) = 3" "it_tasks demo_before ! 2 = IxDistStart (demo_event 5 7 1)"
  by (simp_all add: demo_before_def demo_acts_before_def index_threads_eval index_calm_def All_less_Suc less_Suc_eq)

lemma demo_before_unseen: "unseen demo_key (demo_event 5 7 1) (it_shared demo_before)"
  by (simp add: unseen_def group_fresh_def)
    (simp add: demo_before_def demo_acts_before_def index_threads_eval index_calm_def All_less_Suc less_Suc_eq)

lemma demo_after_eval:
  "index_run demo_lib (index_quiet demo_key (demo_event 5 7 1) 2) demo_acts_after demo_before = Some demo_after"
  "it_tasks demo_after ! 2 = IxDistDone (demo_event 5 7 1) [demo_key]"
  by (simp_all add: demo_after_def demo_acts_after_def demo_before_def demo_acts_before_def index_threads_eval index_calm_def
      index_quiet_def All_less_Suc less_Suc_eq)

theorem index_concurrent_delivery_witness:
  "wanted_by demo_lib demo_key (demo_event 5 7 1) (it_shared demo_before)"
  using index_concurrent_delivery [OF index_calm_run_steps [OF demo_before_eval(1)] demo_before_eval(2) demo_before_unseen _ demo_before_eval(4)
      index_quiet_run_steps [OF demo_after_eval(1)] demo_after_eval(2) demo_lib_sound] demo_before_eval(3) by simp

theorem index_calls_end_witness:
  "\<exists>k. pc_done (fst (((\<lambda>(pc, s). index_pc_step demo_lib pc s) ^^ k) (call_pc (IndexAdd demo_key [kind_filter 1]), index_shared_new)))"
  by (rule index_calls_end [where L = demo_lib and c = "IndexAdd demo_key [kind_filter 1]"])
    (auto simp: split_beta)

lemma ok_step_index_step: "index_ok_step L t t' \<Longrightarrow> index_step L t t'"
  by (auto elim!: index_ok_step.cases intro: index_step.intros)

lemma run_reachable: "index_run L P as index_threads_init = Some t \<Longrightarrow> (index_step L)\<^sup>*\<^sup>* index_threads_init t"
  using index_run_steps [of L P as index_threads_init t] by (rule rtranclp_mono [THEN predicate2D, rotated]) (auto intro: ok_step_index_step)

theorem index_call_atomic_witness:
  "\<exists>n s'. ((\<lambda>(pc, s). index_pc_step demo_lib pc s) ^^ n) (IxDistStart (demo_event 5 7 1), it_shared demo_before) =
     (IxDistDone (demo_event 5 7 1) [demo_key], s')"
proof -
  have "fst (si_distribute_event demo_lib (demo_event 5 7 1) (to_index (it_shared demo_before))) = [demo_key]"
    by (simp add: si_distribute_event_def to_index_def group_at_def get_candidate_filters_def candidate_sources_def
        demo_before_def demo_acts_before_def index_threads_eval index_calm_def All_less_Suc less_Suc_eq Let_def)
  then show ?thesis
    using index_call_atomic [OF run_reachable [OF demo_before_eval(1)], of "IndexDistribute (demo_event 5 7 1)"]
    by (auto simp: atomic_index_call_def split: prod.splits)
qed

section \<open>Overlapping operations\<close>

text \<open>A removal while an addition is under way takes out the group the addition has just created, with no filter in it yet: the
  filter that is filed next belongs to no group and stays, for good: removing the subscription again does not find it.\<close>

definition demo_leak :: "index_threads option" where
  "demo_leak = index_run demo_lib (\<lambda>_. True) ([Inl (IndexAdd demo_key [kind_filter 1]), Inl (IndexRemove demo_key)] @
     map Inr [0, 1, 1, 1, 0, 0, 0, 0, 0] @ [Inl (IndexRemove demo_key)] @ map Inr [2]) index_threads_init"

lemma remove_during_add_leaks:
  "\<exists>t. demo_leak = Some t \<and> list_all pc_done (it_tasks t) \<and> xs_groups (it_shared t) = [] \<and>
     length (si_all_filters (xs_ix (it_shared t))) = 1 \<and> length (bucket_get (si_kinds (xs_ix (it_shared t))) 1) = 1"
  by (simp add: demo_leak_def index_threads_eval)

text \<open>Two distributions of one event at the same time both find it unseen, and both hand it to the subscription.\<close>

definition demo_twice :: "index_threads option" where
  "demo_twice = index_run demo_lib (\<lambda>_. True) ([Inl (IndexAdd demo_key [kind_filter 1])] @ map Inr [0, 0, 0, 0, 0, 0] @
     [Inl (IndexDistribute (demo_event 5 7 1)), Inl (IndexDistribute (demo_event 5 7 1))] @ map Inr [1, 2, 1, 2, 1, 2, 1, 2, 1, 2, 1, 2, 1, 2, 1, 2, 1, 2, 1, 2, 1, 2])
     index_threads_init"

lemma same_event_twice:
  "\<exists>t. demo_twice = Some t \<and>
     it_tasks t = [IxDone, IxDistDone (demo_event 5 7 1) [demo_key], IxDistDone (demo_event 5 7 1) [demo_key]]"
  by (simp add: demo_twice_def index_threads_eval)

end
