(* ===== verification/Spec2Isabelle.thy ===== *)
theory Spec2Isabelle
  imports Outbound_Properties Subscription_Registry_Reachable Export_Import_Properties Lmdb_Dump_Properties Negentropy_Sync
    Relay_Shutdown Replaceable_Timing Database_Open Example_Relays Registry_Threads_Properties Registry_Threads_Atomic
    Index_Threads_Examples
begin

text \<open>
  A verification of the Nostr relay framework \<open>relay_builder\<close> (the Rust crate under \<open>src/src\<close>).

  \<^bold>\<open>The program.\<close> A relay accepts WebSocket connections. Each connection has a handler
  (\<open>nostr_handler.rs\<close>) that parses incoming text (\<open>event_ingester.rs\<close>), sends the message through a
  chain of middlewares (\<open>middleware_chain.rs\<close>, \<open>middlewares/\<close>) to the innermost one
  (\<open>relay_middleware.rs\<close>), and runs an outbound task that takes messages from the connection's channel,
  lets the same chain process them in the other direction, and writes them to the socket. All
  connections share the subscription registry (\<open>subscription_registry.rs\<close>) with one index per scope
  (\<open>subscription_index.rs\<close>), the database (\<open>database.rs\<close>), the crypto service (\<open>crypto_helper.rs\<close>) and the
  buffer of replaceable events (\<open>subscription_coordinator.rs\<close>). \<open>relay_builder.rs\<close> puts the parts
  together from a configuration (\<open>config.rs\<close>). \<open>bin/relay.rs\<close> is the relay the crate ships; the other
  programs of \<open>bin/\<close> are offline tools on the database: export and import, a check of its indexes with
  repair, a dump of its entries, and a periodic synchronisation with other relays.

  \<^bold>\<open>The model.\<close> Data of the source are records and datatypes with the source's fields and
  constructors. Stateful code passes its state explicitly: the shared state is the record \<open>world\<close>, the
  state a middleware can touch is the record \<open>env\<close> (the connection's state, metadata and context, the
  world, clocks, limiter, metrics). A \<open>Result\<close> is a sum with the error on the left, a panic is \<open>None\<close>.
  Hash maps are association lists with distinct keys (\<open>hmap\<close>), whose order is the iteration order.
  Channels are a log of what was sent (\<open>outbox\<close>); whether \<open>try_send\<close> succeeds is decided by a parameter
  from that log. Machine words wrap where the code can reach the bound: filter ids count modulo
  \<open>2 ^ 64\<close>, channel sizes are \<open>usize\<close> products, diagnostics use \<open>i64\<close> differences. The tools on the
  LMDB files work on byte lists (\<open>8 word\<close>) with big-endian lengths, kinds and times, and keep the width
  of every intermediate result: \<open>12 + key_len\<close> wraps as a 64-bit sum does, the pause between
  synchronisations is a \<open>u64\<close> of seconds.

  \<^bold>\<open>Parameters.\<close> Code outside the repository is a parameter: \<open>nostr_lib\<close> (crate \<open>nostr\<close>: filter
  matching, signatures, JSON, tags; crates \<open>url\<close> and \<open>flume\<close>), \<open>lmdb\<close> (crate \<open>nostr_lmdb\<close>),
  \<open>negentropy_lib\<close> (crates \<open>negentropy\<close> and \<open>hex\<close>), \<open>rate_limiter\<close> (crate \<open>governor\<close>), \<open>heed\<close> (the
  binding to LMDB the tools use), \<open>tool_lib\<close> (hexadecimal text and \<open>serde_json\<close>), \<open>sync_env\<close> (the client of
  \<open>nostr-sdk\<close>), \<open>cpu_os\<close>, \<open>tcp_os\<close> and \<open>db_os\<close> (system calls of CPU pinning, sockets, and directories),
  and the \<open>event_processor\<close>, the business logic a user of the framework supplies. What the code relies on are named
  hypotheses: \<open>match_event_sound\<close> (a filter matches only events that have one of the listed values in
  every listed field), \<open>query_distinct\<close> (one query returns no event twice), \<open>query_matches\<close> (a query returns only events its
  filter matches), \<open>match_window\<close> (\<open>until\<close> is one of the conditions of matching, the limit is none), \<open>pages_of\<close> (a query
  returns the newest matches up to the limit), for the connection limit
  \<open>semaphore_counts\<close> (a semaphore of the crate \<open>tokio\<close> counts its permits), and for the tools
  \<open>heed_ok\<close> (a healthy store: no call fails, a deletion removes the entries of its key and nothing else)
  and \<open>hex_ok\<close> (\<open>hex::encode\<close> gives two digits for every byte). The theory \<open>Nostr_Instance\<close> and
  the theories of the tools have concrete instances, on which the properties are witnessed.

  \<^bold>\<open>Theories.\<close>

    \<^item> \<open>Relay_Prelude\<close>: hash maps, strings, results. \<open>Nostr_Types\<close>: events, filters, messages, scopes, the
      library parameter. \<open>Nostr_Instance\<close>: its sample instance.

    \<^item> \<open>Subscription_Index\<close> models \<open>subscription_index.rs\<close>. \<open>Subscription_Index_Laws\<close> states its contract as
      the locale \<open>subscription_store\<close> (a table from subscriptions to bags of filters),
      \<open>Subscription_Index_Correct\<close> and \<open>Subscription_Index_Distribution\<close> prove it: every filter is filed
      under exactly the keys of its chosen field, and distribution finds exactly what a scan of all
      filters would. \<open>Subscription_Index_Properties\<close> states the results.

    \<^item> \<open>Index_Threads\<close> is the index once more as concurrent tasks run it: one access to one of its maps at a time, author lists
      filed in parts. \<open>Index_Threads_Invariant\<close> holds the invariant of all interleavings and the frame,
      \<open>Index_Threads_Properties\<close> an assertion per program point of an operation on a subscription, and that the index
      holds exactly its filters between operations that do not overlap. \<open>Index_Threads_Delivery\<close> has the same for a
      distribution, \<open>Index_Threads_Progress\<close> shows that every call ends, \<open>Index_Threads_Atomic\<close> that an uninterrupted call
      is the operation of \<open>Subscription_Index\<close>, \<open>Index_Threads_Examples\<close> evaluates runs.

    \<^item> \<open>Message_Sender\<close> models \<open>error.rs\<close> and the sender of \<open>nostr_middleware.rs\<close>. \<open>Subscription_Registry\<close>
      models \<open>subscription_registry.rs\<close> and \<open>metrics.rs\<close>; \<open>Subscription_Registry_Correct\<close> uses the index only
      through its contract and shows the invariant \<open>reg_wf\<close>: the index of each scope represents the
      subscriptions of the connections in it, and the gauge of the metrics counts them. \<open>Subscription_Registry_Reachable\<close> says what
      holds after any sequence of whole operations, \<open>add_subscription\<close> on an id in use included, which leaves old filters in the index.

    \<^item> \<open>Registry_Threads\<close> is the registry once more as concurrent tasks run it: one access to shared memory at a time, with
      the locks of the connections' subscriptions. \<open>Registry_Threads_Progress\<close> shows that all calls end,
      \<open>Registry_Threads_Atomic\<close> that an uninterrupted call is the atomic operation, \<open>Registry_Threads_Properties\<close> what
      holds of a connection whose own calls do not overlap, by an assertion per program point and a frame.

    \<^item> \<open>Relay_Database\<close> models \<open>database.rs\<close>, \<open>Store_Command\<close> the commands and \<open>crypto_helper.rs\<close>,
      \<open>Subscription_Coordinator\<close> the rest of \<open>subscription_coordinator.rs\<close>: saving and broadcasting, the buffer
      task as a step relation, and the paged answer to a REQ. The loop over pages makes at most 50
      turns, as in the source, so that it is a total function; the completeness theorem says for
      which stores 50 pages are enough (at most \<open>50 * limit\<close> matches, and no page ends between two matches of one second:
      \<open>req_page_boundary_loses_event\<close> shows an event that is lost there).

    \<^item> \<open>Connection_State\<close> models \<open>state.rs\<close>, with the quota as an instance of the locale \<open>bounded_slots\<close>.
      \<open>Middleware_Chain\<close> models \<open>middleware_chain.rs\<close>, \<open>util/either.rs\<close> and the traits of
      \<open>nostr_middleware.rs\<close>, with the locales \<open>outbound_transparent\<close> and \<open>transparent\<close>. \<open>Scope_Config\<close> models
      \<open>config.rs\<close> and \<open>subdomain.rs\<close>, \<open>Relay_Env\<close> the contexts and \<open>event_processor.rs\<close>, \<open>Middlewares\<close> the
      files of \<open>middlewares/\<close>, \<open>Relay_Middleware\<close> \<open>relay_middleware.rs\<close>.

    \<^item> \<open>Nostr_Handler\<close> models \<open>event_ingester.rs\<close> and \<open>nostr_handler.rs\<close> with the outbound task as a step
      relation that processes up to ten messages per turn; \<open>Websocket_Connection\<close> models \<open>websocket/\<close> with its two
      timeouts and the time its handler's calls take; \<open>Relay_Builder\<close> models \<open>relay_builder.rs\<close> and \<open>Relay_Diagnostics\<close> \<open>diagnostics.rs\<close>.

    \<^item> \<open>Relay_System\<close> is the whole relay as a transition system of interleaved connections. The locale
      \<open>registry_blind\<close> says what a middleware must leave alone for the registry to stay consistent; all
      middlewares of the source but the innermost are instances. \<open>Relay_Properties\<close> states the results on the
      assembled relay, \<open>Outbound_Properties\<close> those on the order of what is written to the socket.

    \<^item> \<open>Http_Service\<close> models \<open>websocket/axum_integration.rs\<close> (the extractors over what \<open>axum\<close>'s own extractor answers, the
      connection limit of a route, the task of a socket) and the relay service of
      \<open>handlers.rs\<close>; \<open>Export_Import\<close> models the tool \<open>bin/export_import.rs\<close>, with its properties in
      \<open>Export_Import_Properties\<close>.

    \<^item> \<open>Lmdb_Keys\<close> holds what the two LMDB tools share: bytes, UTF-8 as Rust decodes it (strict and lossy),
      scoped keys. \<open>Lmdb_Integrity\<close> models \<open>bin/nostr-lmdb-integrity.rs\<close>, \<open>Lmdb_Dump\<close>
      \<open>bin/nostr-lmdb-dump.rs\<close>. \<open>Lmdb_Key_Layout\<close> states where the keys of each index hold the event id, and that the tool's extraction
      finds it there; \<open>Lmdb_Integrity_Properties\<close> shows that the check reports exactly the index
      entries without an event and that a repair converges, \<open>Lmdb_Dump_Properties\<close> that both tools read the same id from a key,
      which fields of a key the dump shows, and what is printed. The store makes its keys outside the repository: the layout is the
      one the tools read.

    \<^item> \<open>Negentropy_Sync\<close> models \<open>bin/negentropy_sync.rs\<close>: one run over the relays, and the periodic loop with
      its exponential backoff, watched for any given number of rounds because the source's loop has no end.

    \<^item> \<open>Replaceable_Timing\<close> gives the buffer task its clock and shows when it flushes; \<open>Database_Open\<close> models the
      constructors of the database, \<open>Relay_Shutdown\<close> the end of the shipped relay beside its background task.

    \<^item> \<open>Relay_Page\<close> models the HTML page of \<open>handlers.rs\<close>; \<open>Relay_Binary\<close> the program \<open>bin/relay.rs\<close>: what it reads
      from the environment, its chain of middlewares, its routes. Its property composes the whole stack: the
      shipped chain refuses protected events of others. \<open>Cpu_Affinity\<close> models \<open>cpu_affinity.rs\<close>.

    \<^item> \<open>Example_Common\<close>, \<open>Example_Processors\<close> and \<open>Example_Relays\<close> model the relays of \<open>examples/\<close>: code as a user
      of the framework writes it. Their event processors are instances of \<open>event_processor\<close>, with the limits they
      keep; their middlewares are instances of the locales \<open>transparent\<close>, \<open>outbound_transparent\<close> and
      \<open>registry_blind\<close>, so that the invariant of the whole system holds of those relays too.

  \<^bold>\<open>Bounds.\<close> Fuel stands only where the source's loop has no end of its own: the periodic loop
  above, watched for \<open>n\<close> rounds. The paged REQ has the source's own 50 turns. A run of the outbound task that
  empties a channel of \<open>n\<close> entries takes \<open>n / 10\<close> turns, rounded up, which its liveness property states.

  \<^bold>\<open>Assumed of the environment.\<close> The system's theorem takes the addresses of live connections as
  distinct (the connection id is the socket address) and fewer than \<open>2 ^ 64\<close> filters per scope in the
  life of a process. In it each operation of a handler (\<open>on_connect\<close>, \<open>on_message\<close>, \<open>on_disconnect\<close>, a delivery, a flush) is one
  step and the tasks interleave between them. For the
  registry and the index, whose operations the source does not make atomic, the theories \<open>Registry_Threads\<close> and
  \<open>Index_Threads\<close> say what this takes: calls that are not interrupted are the atomic ones, and calls that interleave keep
  a connection (in the index: a subscription) consistent as long as those on the same one do not overlap; a distribution
  among them reaches exactly the subscriptions it should, if they are left alone and no other task distributes the same
  event meanwhile. Two lemmas for each show what overlapping calls can do. In the registry's theories a call of the
  index is one step.

  \<^bold>\<open>Not modelled.\<close> Log output, console output, tracing spans and their set-up, progress bars; the routing of
  requests to handlers, which the framework \<open>axum\<close> does; the parsing of command lines, which the
  crate \<open>clap\<close> derives from the option types; benchmarks and tests, with the helpers only they use.
  Time is a number read from the environment. How long a call of a handler takes is a parameter of the socket's loop; of
  \<open>on_disconnect\<close> the model has the part that the source bounds, the wait of at most five seconds for the outbound task.
\<close>

end
